(* ===== verification/Cprelude.thy ===== *)
theory Cprelude
  imports Main "HOL-Library.State_Monad"
begin

text \<open>
  Shared vocabulary of the development: C strings and the character classes of the C
  locale, the two comparison routines the program uses everywhere (\<open>strcmp\<close> is HOL
  equality, \<open>strcasecmp\<close> is modelled below from \<open>lib/strcasecmp.c\<close>), the few
  \<open>string.h\<close> searches, decimal formatting, and the generic lemmas about prefixes of
  lists which the parsers share.  A C string is a HOL \<open>string\<close> that holds the bytes before
  the terminating NUL; a pointer into a string is the suffix that starts there.
\<close>

named_theorems cstring_simps \<open>evaluation rules for the string.h and ctype.h model\<close>

type_synonym cstring = string

text \<open>Byte code of a character.\<close>

abbreviation code :: "char \<Rightarrow> nat" where
  "code c \<equiv> of_char c"

section \<open>ctype.h in the C locale\<close>

definition isspace :: "char \<Rightarrow> bool" where
  "isspace c \<longleftrightarrow> code c = 32 \<or> (9 \<le> code c \<and> code c \<le> 13)"

definition isupper :: "char \<Rightarrow> bool" where
  "isupper c \<longleftrightarrow> 65 \<le> code c \<and> code c \<le> 90"

definition islower :: "char \<Rightarrow> bool" where
  "islower c \<longleftrightarrow> 97 \<le> code c \<and> code c \<le> 122"

definition isalpha :: "char \<Rightarrow> bool" where
  "isalpha c \<longleftrightarrow> isupper c \<or> islower c"

definition isdigit :: "char \<Rightarrow> bool" where
  "isdigit c \<longleftrightarrow> 48 \<le> code c \<and> code c \<le> 57"

definition isalnum :: "char \<Rightarrow> bool" where
  "isalnum c \<longleftrightarrow> isalpha c \<or> isdigit c"

definition tolower :: "char \<Rightarrow> char" where
  "tolower c = (if isupper c then char_of (code c + 32) else c)"

lemmas ctype_defs [cstring_simps] =
  isspace_def isupper_def islower_def isalpha_def isdigit_def isalnum_def tolower_def

lemma code_tolower: "code (tolower c) = (if isupper c then code c + 32 else code c)"
  by (simp add: tolower_def isupper_def of_char_of take_bit_nat_def)

lemma alpha_not_space: "isalpha c \<Longrightarrow> \<not> isspace c"
  by (auto simp: ctype_defs)

lemma digit_not_space: "isdigit c \<Longrightarrow> \<not> isspace c"
  by (auto simp: ctype_defs)

lemma digit_not_alpha: "isdigit c \<Longrightarrow> \<not> isalpha c"
  by (auto simp: ctype_defs)

section \<open>Comparison ignoring case\<close>

text \<open>
  \<open>strcasecmp\<close> of \<open>lib/strcasecmp.c\<close>: both pointers advance while the lowered bytes
  agree and the first string has not ended; the result is the difference of the last two
  bytes read, the terminator counting 0.
\<close>

fun strcasecmp :: "cstring \<Rightarrow> cstring \<Rightarrow> int" where
  "strcasecmp [] [] = 0"
| "strcasecmp [] (d # ds) = 0 - int (code (tolower d))"
| "strcasecmp (c # cs) [] = int (code (tolower c))"
| "strcasecmp (c # cs) (d # ds) =
     (if tolower c = tolower d then strcasecmp cs ds
      else int (code (tolower c)) - int (code (tolower d)))"

text \<open>What the callers test, \<open>strcasecmp (a, b) == 0\<close>.\<close>

definition strcaseeq :: "cstring \<Rightarrow> cstring \<Rightarrow> bool" where
  "strcaseeq a b \<longleftrightarrow> map tolower a = map tolower b"

lemma code_eq_iff: "code c = code d \<longleftrightarrow> c = d"
  by (metis char_of_char)

lemma tolower_pos: "code c > 0 \<Longrightarrow> code (tolower c) > 0"
  by (simp add: code_tolower)

lemma strcasecmp_eq_0_iff:
  "\<forall>c \<in> set a \<union> set b. code c > 0 \<Longrightarrow> strcasecmp a b = 0 \<longleftrightarrow> strcaseeq a b"
proof (induction a b rule: strcasecmp.induct)
  case (4 c cs d ds)
  then show ?case by (auto simp: strcaseeq_def code_eq_iff)
qed (auto simp: strcaseeq_def code_tolower)

lemma strcaseeq_refl [simp]: "strcaseeq a a"
  by (simp add: strcaseeq_def)

lemma strcaseeq_sym: "strcaseeq a b \<Longrightarrow> strcaseeq b a"
  by (simp add: strcaseeq_def)

lemma strcaseeq_trans: "strcaseeq a b \<Longrightarrow> strcaseeq b c \<Longrightarrow> strcaseeq a c"
  by (simp add: strcaseeq_def)

lemma strcaseeq_Nil [simp]: "strcaseeq [] b \<longleftrightarrow> b = []" "strcaseeq a [] \<longleftrightarrow> a = []"
  by (auto simp: strcaseeq_def)

section \<open>Searches of string.h\<close>

text \<open>\<open>strrchr\<close>: the suffix that starts at the last occurrence.\<close>

fun strrchr :: "cstring \<Rightarrow> char \<Rightarrow> cstring option" where
  "strrchr [] c = None"
| "strrchr (x # xs) c =
     (case strrchr xs c of Some r \<Rightarrow> Some r
      | None \<Rightarrow> if x = c then Some (x # xs) else None)"

text \<open>\<open>strchr\<close>: the suffix that starts at the first occurrence.\<close>

fun strchr :: "cstring \<Rightarrow> char \<Rightarrow> cstring option" where
  "strchr [] c = None"
| "strchr (x # xs) c = (if x = c then Some (x # xs) else strchr xs c)"

text \<open>\<open>strncmp (a, b, n) == 0\<close>, for \<open>n\<close> at most the length of one of them or not.\<close>

definition strneq :: "cstring \<Rightarrow> cstring \<Rightarrow> nat \<Rightarrow> bool" where
  "strneq a b n \<longleftrightarrow> take n a = take n b"

text \<open>\<open>strtok\<close> called until it returns NULL: the maximal runs of non-delimiters.\<close>

function strtok_all :: "char list \<Rightarrow> cstring \<Rightarrow> cstring list" where
  "strtok_all delim s =
     (case dropWhile (\<lambda>c. c \<in> set delim) s of
        [] \<Rightarrow> []
      | c # cs \<Rightarrow> (c # takeWhile (\<lambda>c. c \<notin> set delim) cs)
                 # strtok_all delim (dropWhile (\<lambda>c. c \<notin> set delim) cs))"
  by pat_completeness auto
termination
proof (relation "measure (\<lambda>(d, s). length s)"; clarsimp)
  fix delim and s cs :: cstring and c
  assume "dropWhile (\<lambda>c. c \<in> set delim) s = c # cs"
  then have "length (c # cs) \<le> length s"
    by (metis length_dropWhile_le)
  moreover have "length (dropWhile (\<lambda>c. c \<notin> set delim) cs) \<le> length cs"
    by (rule length_dropWhile_le)
  ultimately show "length (dropWhile (\<lambda>c. c \<notin> set delim) cs) < length s"
    by simp
qed

declare strtok_all.simps [simp del]

lemma strrchr_None: "strrchr s c = None \<longleftrightarrow> c \<notin> set s"
  by (induction s) (auto split: option.splits)

lemma strrchr_SomeD: "strrchr s c = Some r \<Longrightarrow> \<exists>p t. s = p @ c # t \<and> r = c # t \<and> c \<notin> set t"
proof (induction s arbitrary: r)
  case (Cons x xs)
  show ?case
  proof (cases "strrchr xs c")
    case None
    with Cons.prems have "x = c" "r = x # xs" by (auto split: if_splits)
    moreover have "c \<notin> set xs" using None by (simp add: strrchr_None)
    ultimately show ?thesis by (metis append_Nil)
  next
    case (Some r')
    then obtain p t where "xs = p @ c # t" "r' = c # t" "c \<notin> set t"
      using Cons.IH by blast
    with Some Cons.prems show ?thesis by (metis append_Cons option.case(2) option.inject strrchr.simps(2))
  qed
qed simp

lemma strrchr_last: "c \<notin> set t \<Longrightarrow> strrchr (p @ c # t) c = Some (c # t)"
proof (induction p)
  case Nil
  then show ?case by (simp add: strrchr_None [THEN iffD2])
qed simp

lemma strchr_None: "strchr s c = None \<longleftrightarrow> c \<notin> set s"
  by (induction s) auto

section \<open>Decimal formatting\<close>

function show_nat :: "nat \<Rightarrow> string" where
  "show_nat n = (if n < 10 then [char_of (48 + n)] else show_nat (n div 10) @ [char_of (48 + n mod 10)])"
  by pat_completeness auto
termination by (relation "measure id") auto

declare show_nat.simps [simp del]

definition show_int :: "int \<Rightarrow> string" where
  "show_int i = (if i < 0 then CHR ''-'' # show_nat (nat (- i)) else show_nat (nat i))"

text \<open>Field widths of \<open>printf\<close>: \<open>%5s\<close> pads on the left, \<open>%-5s\<close> on the right.\<close>

definition pad_left :: "nat \<Rightarrow> string \<Rightarrow> string" where
  "pad_left n s = replicate (n - length s) CHR '' '' @ s"

definition pad_right :: "nat \<Rightarrow> string \<Rightarrow> string" where
  "pad_right n s = s @ replicate (n - length s) CHR '' ''"

lemma show_nat_nonempty: "show_nat n \<noteq> []"
  by (subst show_nat.simps) simp

lemma show_nat_digits: "\<forall>c \<in> set (show_nat n). isdigit c"
proof (induction n rule: show_nat.induct)
  case (1 n)
  have small: "isdigit (char_of (48 + k :: nat))" if "k < 10" for k
    using that by (simp add: isdigit_def of_char_of take_bit_nat_def)
  show ?case
  proof (cases "n < 10")
    case True
    then show ?thesis by (subst show_nat.simps) (simp add: small)
  next
    case False
    with 1 show ?thesis by (subst show_nat.simps) (auto simp: small)
  qed
qed

lemma length_pad_left: "n \<le> length (pad_left n s)" "length s \<le> length (pad_left n s)"
  by (auto simp: pad_left_def)

section \<open>Decimal input\<close>

fun digits_value :: "int \<Rightarrow> cstring \<Rightarrow> int" where
  "digits_value acc [] = acc"
| "digits_value acc (c # cs) =
     (if isdigit c then digits_value (10 * acc + (int (code c) - 48)) cs else acc)"

text \<open>
  \<open>atol\<close>: white space, a sign, digits.  A value that does not fit a \<open>long\<close> is limited to
  its range, as \<open>strtol\<close> does (ISO C leaves it undefined for \<open>atol\<close>).
\<close>

definition atol :: "cstring \<Rightarrow> int" where
  "atol s =
     (let t = dropWhile isspace s;
          v = (case t of
                 [] \<Rightarrow> 0
               | c # cs \<Rightarrow> if c = CHR ''-'' then - digits_value 0 cs
                           else if c = CHR ''+'' then digits_value 0 cs
                           else digits_value 0 t)
      in max (- (2 ^ 63)) (min (2 ^ 63 - 1) v))"

text \<open>Conversion of a wider integer to the 32-bit \<open>int\<close>: the low bits, in two's complement.\<close>

definition to_int :: "int \<Rightarrow> int" where
  "to_int i = signed_take_bit 31 i"

text \<open>\<open>printf\<close> of a string pointer that may be NULL.\<close>

definition str_or_null :: "cstring option \<Rightarrow> string" where
  "str_or_null s = (case s of None \<Rightarrow> ''(null)'' | Some t \<Rightarrow> t)"

lemma digits_value_nonneg: "0 \<le> acc \<Longrightarrow> 0 \<le> digits_value acc s"
  by (induction acc s rule: digits_value.induct) (auto simp: isdigit_def)

lemma to_int_range: "- (2 ^ 31) \<le> to_int i \<and> to_int i < 2 ^ 31"
  using signed_take_bit_int_greater_eq_minus_exp [of 31 i] signed_take_bit_int_less_exp [of 31 i]
  by (simp add: to_int_def)

section \<open>Prefixes and rests\<close>

text \<open>Nothing is longer after a scan.\<close>

lemma dropWhile_Cons_shorter: "dropWhile P s = c # cs \<Longrightarrow> length cs < length s"
  by (metis Suc_le_lessD length_Cons length_dropWhile_le)

end
