(* ===== verification/Search_Query.thy ===== *)
theory Search_Query
  imports Cprelude
begin

text \<open>
  The query compiler of \<open>src/search.c\<close>: the \<open>search\<close> command turns a condition such as
  \<open>author = Smith or getcontentlength < 100\<close> into the \<open>where\<close> element of a DASL
  \<open>basicsearch\<close> request.  The C functions share one pattern: they advance a
  \<open>char **string_parsed\<close>, fill an \<open>ne_buffer\<close> and return \<open>NE_OK\<close> or \<open>NE_ERROR\<close>.
  Here each returns either an error or the pair of the buffer and the rest of the input.
  Three errors are kept apart: \<open>Syntax\<close> is \<open>NE_ERROR\<close>, with the text given to
  \<open>ne_set_error\<close> if there was one; \<open>Overflow\<close> is the write past the end of a
  \<open>char [WORDLEN + 1]\<close> array, which the C code does not guard; \<open>NoFuel\<close> is the model's own
  and is shown not to occur.
\<close>

section \<open>Words\<close>

definition WORDLEN :: nat where
  "WORDLEN = 256"

definition EOL :: string where
  "EOL = ''\<newline>''"

text \<open>Character \<open>'\<close> of the C source.\<close>

abbreviation QUOTE :: char where
  "QUOTE \<equiv> CHR 0x27"

abbreviation BACKSLASH :: char where
  "BACKSLASH \<equiv> CHR 0x5C"

datatype wordtype =
    QUOT | COMMA | LPAR | RPAR | EQ | LE | LT | GE | GT | NEQ | IDEN | INTEGER | UNKNOWN | ENDBUF

datatype perror = Overflow | Syntax "string option" | NoFuel

text \<open>
  \<open>store_word\<close>: the writes \<open>word_fetched[ifetch++] = ...\<close> of a do-while loop followed by
  the terminator at index \<open>ifetch\<close>.  The arrays have indices \<open>0 .. WORDLEN\<close>.
\<close>

definition store_word :: "cstring \<Rightarrow> perror + cstring" where
  "store_word w = (if length w \<le> WORDLEN then Inr w else Inl Overflow)"

text \<open>The left bound of a word.\<close>

definition skip_space :: "cstring \<Rightarrow> cstring" where
  "skip_space s = dropWhile isspace s"

text \<open>The word that starts with \<open>c\<close>, the character after the white space.\<close>

definition scan_word :: "char \<Rightarrow> cstring \<Rightarrow> perror + (wordtype \<times> cstring \<times> cstring)" where
  "scan_word c cs =
     (if isalpha c then
        map_sum id (\<lambda>w. (IDEN, w, dropWhile (\<lambda>x. isalnum x \<or> x = CHR ''_'') cs))
          (store_word (c # takeWhile (\<lambda>x. isalnum x \<or> x = CHR ''_'') cs))
      else if c = CHR ''+'' \<or> c = CHR ''-'' \<or> isdigit c then
        map_sum id (\<lambda>w. (INTEGER, w, dropWhile isdigit cs))
          (store_word (c # takeWhile isdigit cs))
      else if c = CHR ''>'' \<and> cs \<noteq> [] \<and> hd cs = CHR ''='' then Inr (GE, ''>='', tl cs)
      else if c = CHR ''<'' \<and> cs \<noteq> [] \<and> hd cs = CHR ''='' then Inr (LE, ''<='', tl cs)
      else if c = CHR ''<'' \<and> cs \<noteq> [] \<and> hd cs = CHR ''>'' then Inr (NEQ, ''<>'', tl cs)
      else if c = QUOTE then Inr (QUOT, [QUOTE], cs)
      else if c = CHR '','' then Inr (COMMA, '','', cs)
      else if c = CHR ''('' then Inr (LPAR, ''('', cs)
      else if c = CHR '')'' then Inr (RPAR, '')'', cs)
      else if c = CHR ''>'' then Inr (GT, ''>'', cs)
      else if c = CHR ''<'' then Inr (LT, ''<'', cs)
      else if c = CHR ''='' then Inr (EQ, ''='', cs)
      else Inr (UNKNOWN, [c], cs))"

text \<open>At the end of the buffer \<open>*string_parsed\<close> is left where it was.\<close>

definition read_aword :: "cstring \<Rightarrow> perror + (wordtype \<times> cstring \<times> cstring)" where
  "read_aword s =
     (case skip_space s of
        [] \<Rightarrow> Inr (ENDBUF, [], s)
      | c # cs \<Rightarrow> scan_word c cs)"

text \<open>Both peek functions copy the string, read one word of the copy and drop the copy.\<close>

definition first_word_equal :: "cstring \<Rightarrow> cstring \<Rightarrow> perror + bool" where
  "first_word_equal s w =
     (case read_aword s of Inl e \<Rightarrow> Inl e | Inr (t, first_word, r) \<Rightarrow> Inr (strcaseeq first_word w))"

definition first_word_integer :: "cstring \<Rightarrow> perror + bool" where
  "first_word_integer s =
     (case read_aword s of Inl e \<Rightarrow> Inl e | Inr (t, first_word, r) \<Rightarrow> Inr (t = INTEGER))"

text \<open>\<open>match_fetch\<close>: \<open>NE_OK\<close> exactly when the word is the expected one, case included.\<close>

definition match_fetch :: "cstring \<Rightarrow> cstring \<Rightarrow> perror + cstring" where
  "match_fetch s expected =
     (case read_aword s of Inl e \<Rightarrow> Inl e
      | Inr (t, first_word, r) \<Rightarrow> if first_word = expected then Inr r else Inl (Syntax None))"

text \<open>\<open>with_error\<close>: the caller's \<open>ne_set_error\<close> when the callee returned \<open>NE_ERROR\<close>.\<close>

definition with_error :: "string \<Rightarrow> perror + 'a \<Rightarrow> perror + 'a" where
  "with_error msg r = (case r of Inl (Syntax m) \<Rightarrow> Inl (Syntax (Some msg)) | _ \<Rightarrow> r)"

text \<open>Sequencing: an error return of the callee is an error return of the caller.\<close>

definition andthen :: "perror + 'a \<Rightarrow> ('a \<Rightarrow> perror + 'b) \<Rightarrow> perror + 'b" where
  "andthen r k = (case r of Inl e \<Rightarrow> Inl e | Inr a \<Rightarrow> k a)"

lemma andthen_simps [simp]: "andthen (Inl e) k = Inl e" "andthen (Inr a) k = k a"
  by (simp_all add: andthen_def)

lemma andthen_Inr: "andthen r k = Inr b \<longleftrightarrow> (\<exists>a. r = Inr a \<and> k a = Inr b)"
  by (cases r) auto

lemma andthen_Inl: "andthen r k = Inl e \<longleftrightarrow> r = Inl e \<or> (\<exists>a. r = Inr a \<and> k a = Inl e)"
  by (cases r) auto

lemma with_error_Inr [simp]: "with_error m r = Inr a \<longleftrightarrow> r = Inr a"
  by (auto simp: with_error_def split: sum.splits perror.splits)

lemma with_error_simps [simp]:
  "with_error m (Inr a) = Inr a" "with_error m (Inl (Syntax e)) = Inl (Syntax (Some m))"
  "with_error m (Inl Overflow) = Inl Overflow" "with_error m (Inl NoFuel) = Inl NoFuel"
  by (simp_all add: with_error_def)

lemma with_error_NoFuel [simp]: "with_error m r = Inl NoFuel \<longleftrightarrow> r = Inl NoFuel"
  by (auto simp: with_error_def split: sum.splits perror.splits)

lemma with_error_Overflow [simp]: "with_error m r = Inl Overflow \<longleftrightarrow> r = Inl Overflow"
  by (auto simp: with_error_def split: sum.splits perror.splits)

section \<open>Values and predicates\<close>

text \<open>
  The loop of \<open>quoted_string\<close>: it stops at the terminator, or at a quotation mark that does
  not follow a backslash.  \<open>prev\<close> is \<open>previous_char\<close>; before the first iteration it
  equals the current character.  \<open>None\<close> is the missing closing quotation mark.
\<close>

fun quoted_loop :: "char \<Rightarrow> cstring \<Rightarrow> (cstring \<times> cstring) option" where
  "quoted_loop prev [] = None"
| "quoted_loop prev (c # cs) =
     (if c \<noteq> QUOTE \<or> prev = BACKSLASH
      then map_option (\<lambda>(b, r). (c # b, r)) (quoted_loop c cs)
      else Some ([], cs))"

definition quoted_body :: "cstring \<Rightarrow> (cstring \<times> cstring) option" where
  "quoted_body s = (case s of [] \<Rightarrow> None | c # cs \<Rightarrow> quoted_loop c (c # cs))"

definition quoted_string :: "cstring \<Rightarrow> perror + (cstring \<times> cstring)" where
  "quoted_string s =
     andthen (with_error ''Syntax error: A ' is expected in the search condition.''
                (match_fetch s [QUOTE]))
       (\<lambda>s1. case quoted_body s1 of
               None \<Rightarrow> Inl (Syntax (Some ''An ending ' is expected in the search condition.''))
             | Some br \<Rightarrow> Inr br)"

definition word_char :: "char \<Rightarrow> bool" where
  "word_char c \<longleftrightarrow> c \<noteq> CHR '' '' \<and> c \<noteq> CHR 0x09 \<and> c \<noteq> CHR '')''"

definition word_string :: "cstring \<Rightarrow> perror + (cstring \<times> cstring)" where
  "word_string s =
     (case skip_space s of
        [] \<Rightarrow> Inl (Syntax None)
      | c # cs \<Rightarrow>
          if c = CHR '')'' then Inl (Syntax None)
          else Inr (takeWhile word_char (c # cs), dropWhile word_char (c # cs)))"

definition comparison_value :: "cstring \<Rightarrow> perror + (cstring \<times> cstring)" where
  "comparison_value s =
     andthen (first_word_equal s [QUOTE]) (\<lambda>quoted.
       if quoted then quoted_string s
       else andthen (first_word_integer s) (\<lambda>int.
         if int then andthen (read_aword s) (\<lambda>(t, identifier, r). Inr (identifier, r))
         else with_error ''Syntax error: An integer, quoted string or word string is expected in the search condition.''
                (word_string s)))"

text \<open>
  \<open>operator_translate\<close>: \<open>None\<close> is the return value 0 (not a valid operator).
\<close>

definition operator_translate :: "cstring \<Rightarrow> cstring option" where
  "operator_translate oper =
     (if oper = ''='' then Some ''eq''
      else if oper = ''>='' then Some ''gte''
      else if oper = ''<='' then Some ''lte''
      else if oper = ''>'' then Some ''gt''
      else if oper = ''<'' then Some ''lt''
      else if oper = ''!='' then Some ''not''
      else if oper = ''<>'' then Some ''not''
      else if oper = ''like'' then Some ''like''
      else None)"

text \<open>The choice between a quoted string and a word string, made in two places.\<close>

definition match_string :: "cstring \<Rightarrow> perror + (cstring \<times> cstring)" where
  "match_string s =
     andthen (first_word_equal s [QUOTE]) (\<lambda>quoted.
       if quoted then quoted_string s
       else with_error ''Syntax error: A quoted string or a word string is expected in the search condition.''
              (word_string s))"

definition contains_predicate :: "cstring \<Rightarrow> perror + (cstring \<times> cstring)" where
  "contains_predicate s =
     andthen (with_error ''Syntax error: A 'contains' is expected in the search condition.''
                (match_fetch s ''contains'')) (\<lambda>s1.
       andthen (match_string s1) (\<lambda>(contain_string, r).
         Inr (''<D:contains>'' @ EOL @ contain_string @ ''</D:contains>'' @ EOL, r)))"

text \<open>The text \<open>predicate\<close> appends for a comparison.\<close>

definition comparison_xml :: "cstring \<Rightarrow> cstring \<Rightarrow> cstring \<Rightarrow> string" where
  "comparison_xml xmlop column_name value =
     ''<D:'' @ xmlop @ ''>'' @ EOL @ ''<D:prop><D:'' @ column_name @ ''/></D:prop>'' @ EOL
     @ ''<D:literal>'' @ value @ ''</D:literal>'' @ EOL @ ''</D:'' @ xmlop @ ''>'' @ EOL"

definition predicate :: "cstring \<Rightarrow> perror + (cstring \<times> cstring)" where
  "predicate s =
     andthen (first_word_equal s ''contains'') (\<lambda>is_contains.
       if is_contains then contains_predicate s
       else andthen (read_aword s) (\<lambda>(t, column_name, s1).
         if t \<noteq> IDEN then Inl (Syntax (Some ''A column name is expected in the search condition.''))
         else andthen (read_aword s1) (\<lambda>(t2, oper, s2).
           case operator_translate oper of
             None \<Rightarrow> Inl (Syntax (Some ''Syntax error: Invalid operator in the search condition.''))
           | Some xmlop \<Rightarrow>
               andthen (if strcaseeq oper ''like'' then match_string s2 else comparison_value s2)
                 (\<lambda>(value, r). Inr (comparison_xml xmlop column_name value, r)))))"

section \<open>Conditions\<close>

text \<open>
  The four mutually recursive functions, with the two \<open>while\<close> loops over \<open>or\<close> and
  \<open>and\<close> as functions of their own.  Every call spends a unit of fuel.
\<close>

fun search_condition :: "nat \<Rightarrow> cstring \<Rightarrow> perror + (cstring \<times> cstring)"
  and or_loop :: "nat \<Rightarrow> cstring \<Rightarrow> perror + (cstring \<times> cstring)"
  and boolean_term :: "nat \<Rightarrow> cstring \<Rightarrow> perror + (cstring \<times> cstring)"
  and and_loop :: "nat \<Rightarrow> cstring \<Rightarrow> perror + (cstring \<times> cstring)"
  and boolean_factor :: "nat \<Rightarrow> cstring \<Rightarrow> perror + (cstring \<times> cstring)"
  and boolean_primary :: "nat \<Rightarrow> cstring \<Rightarrow> perror + (cstring \<times> cstring)"
where
  "search_condition 0 s = Inl NoFuel"
| "search_condition (Suc n) s =
     andthen (boolean_term n s) (\<lambda>(term_result, s1).
       andthen (first_word_equal s1 ''or'') (\<lambda>added_or.
         if added_or then
           andthen (or_loop n s1) (\<lambda>(more, s2).
             Inr (''<D:or>'' @ EOL @ term_result @ more @ ''</D:or>'' @ EOL, s2))
         else Inr (term_result, s1)))"
| "or_loop 0 s = Inl NoFuel"
| "or_loop (Suc n) s =
     andthen (first_word_equal s ''or'') (\<lambda>again.
       if again then
         andthen (read_aword s) (\<lambda>(t, identifier, s1).
           andthen (boolean_term n s1) (\<lambda>(term_result, s2).
             andthen (or_loop n s2) (\<lambda>(more, s3). Inr (term_result @ more, s3))))
       else Inr ([], s))"
| "boolean_term 0 s = Inl NoFuel"
| "boolean_term (Suc n) s =
     andthen (boolean_factor n s) (\<lambda>(factor_result, s1).
       andthen (first_word_equal s1 ''and'') (\<lambda>added_and.
         if added_and then
           andthen (and_loop n s1) (\<lambda>(more, s2).
             Inr (''<D:and>'' @ EOL @ factor_result @ more @ ''</D:and>'' @ EOL, s2))
         else Inr (factor_result, s1)))"
| "and_loop 0 s = Inl NoFuel"
| "and_loop (Suc n) s =
     andthen (first_word_equal s ''and'') (\<lambda>again.
       if again then
         andthen (read_aword s) (\<lambda>(t, identifier, s1).
           andthen (boolean_factor n s1) (\<lambda>(factor_result, s2).
             andthen (and_loop n s2) (\<lambda>(more, s3). Inr (factor_result @ more, s3))))
       else Inr ([], s))"
| "boolean_factor 0 s = Inl NoFuel"
| "boolean_factor (Suc n) s =
     andthen (first_word_equal s ''not'') (\<lambda>added_not.
       if added_not then
         andthen (read_aword s) (\<lambda>(t, identifier, s1).
           andthen (boolean_primary n s1) (\<lambda>(primary, s2).
             Inr (''<D:not>'' @ EOL @ primary @ ''</D:not>'' @ EOL, s2)))
       else boolean_primary n s)"
| "boolean_primary 0 s = Inl NoFuel"
| "boolean_primary (Suc n) s =
     andthen (first_word_equal s ''('') (\<lambda>paren.
       if paren then
         andthen (read_aword s) (\<lambda>(t, identifier, s1).
           andthen (search_condition n s1) (\<lambda>(sub_result, s2).
             andthen (with_error ''Syntax error: A ')' is expected in the search condition.''
                        (match_fetch s2 '')''))
               (\<lambda>s3. Inr (sub_result, s3))))
       else predicate s)"

text \<open>
  \<open>search_where_gen\<close>, with the buffer \<open>basic_search\<close> as an argument; its NULL checks
  are for arguments \<open>run_search\<close> never passes.
\<close>

definition where_fuel :: "cstring \<Rightarrow> nat" where
  "where_fuel s = 5 * length s + 5"

definition search_where_gen :: "cstring \<Rightarrow> string \<Rightarrow> perror + string" where
  "search_where_gen condition_str basic_search =
     andthen (search_condition (where_fuel condition_str) condition_str) (\<lambda>(result_buf, s1).
       andthen (read_aword s1) (\<lambda>(t, identifier, s2).
         if t \<noteq> ENDBUF then Inl (Syntax (Some ''Syntax error in the search condition.''))
         else Inr (basic_search @ ''<D:where>'' @ EOL @ result_buf @ ''</D:where>'' @ EOL)))"

section \<open>The rest of a parse\<close>

text \<open>
  Nothing is pushed back: every function returns a rest that is not longer than its input,
  and a word other than the end of the buffer makes it strictly shorter.
\<close>

lemma store_word_Inr [simp]: "store_word w = Inr v \<longleftrightarrow> v = w \<and> length w \<le> WORDLEN"
  by (auto simp: store_word_def)

lemma store_word_Inl [simp]: "store_word w = Inl e \<longleftrightarrow> e = Overflow \<and> WORDLEN < length w"
  by (auto simp: store_word_def)

lemma map_sum_id_Inr: "map_sum id f x = Inr b \<longleftrightarrow> (\<exists>a. x = Inr a \<and> b = f a)"
  by (cases x) auto

lemma map_sum_id_Inl: "map_sum id f x = Inl e \<longleftrightarrow> x = Inl e"
  by (cases x) auto

lemma skip_space_shorter: "length (skip_space s) \<le> length s"
  by (simp add: skip_space_def length_dropWhile_le)

lemma skip_space_Cons: "skip_space s = c # cs \<Longrightarrow> length cs < length s"
  by (metis Suc_le_lessD length_Cons skip_space_shorter)

lemma scan_word_Inr:
  "scan_word c cs = Inr (t, w, r) \<Longrightarrow> length r \<le> length cs \<and> t \<noteq> ENDBUF \<and> w \<noteq> []"
  by (auto simp: scan_word_def map_sum_id_Inr length_dropWhile_le split: if_splits)

lemma scan_word_Inl: "scan_word c cs = Inl e \<Longrightarrow> e = Overflow"
  by (auto simp: scan_word_def map_sum_id_Inl split: if_splits)

lemma read_aword_shorter:
  assumes "read_aword s = Inr (t, w, r)"
  shows "length r \<le> length s" and "t \<noteq> ENDBUF \<Longrightarrow> length r < length s"
    and "t = ENDBUF \<longleftrightarrow> w = []"
  using assms
  by (auto simp: read_aword_def split: list.splits dest!: scan_word_Inr skip_space_Cons)

lemma read_aword_errors [simp]: "read_aword s \<noteq> Inl NoFuel" "read_aword s \<noteq> Inl (Syntax m)"
  by (auto simp: read_aword_def split: list.splits dest!: scan_word_Inl)

lemma first_word_equal_TrueD:
  "first_word_equal s w = Inr True \<Longrightarrow> \<exists>t v r. read_aword s = Inr (t, v, r) \<and> strcaseeq v w"
  by (auto simp: first_word_equal_def split: sum.splits prod.splits)

lemma first_word_equal_shorter:
  "first_word_equal s w = Inr True \<Longrightarrow> w \<noteq> [] \<Longrightarrow> read_aword s = Inr (t, v, r) \<Longrightarrow> length r < length s"
  using first_word_equal_TrueD [of s w] read_aword_shorter [of s t v r] by auto

lemma first_word_equal_errors [simp]:
  "first_word_equal s w \<noteq> Inl NoFuel" "first_word_equal s w \<noteq> Inl (Syntax m)"
  by (auto simp: first_word_equal_def split: sum.splits)

lemma first_word_integer_errors [simp]:
  "first_word_integer s \<noteq> Inl NoFuel" "first_word_integer s \<noteq> Inl (Syntax m)"
  by (auto simp: first_word_integer_def split: sum.splits)

lemma match_fetch_errors [simp]: "match_fetch s w \<noteq> Inl NoFuel"
  by (auto simp: match_fetch_def split: sum.splits)

lemma match_fetch_shorter: "match_fetch s w = Inr r \<Longrightarrow> length r \<le> length s"
  by (auto simp: match_fetch_def dest: read_aword_shorter(1) split: sum.splits if_splits)

lemma quoted_loop_shorter: "quoted_loop p s = Some (b, r) \<Longrightarrow> length r < length s"
  by (induction p s arbitrary: b r rule: quoted_loop.induct) (force split: if_splits)+

lemma quoted_body_shorter: "quoted_body s = Some (b, r) \<Longrightarrow> length r < length s"
  unfolding quoted_body_def by (cases s) (simp_all only: list.case quoted_loop_shorter, simp)

lemma quoted_string_Inr:
  "quoted_string s = Inr br \<longleftrightarrow> (\<exists>s1. match_fetch s [QUOTE] = Inr s1 \<and> quoted_body s1 = Some br)"
proof (cases "match_fetch s [QUOTE]")
  case (Inl e)
  then show ?thesis by (cases e) (simp_all add: quoted_string_def)
next
  case (Inr s1)
  then show ?thesis by (cases "quoted_body s1") (simp_all add: quoted_string_def)
qed

lemma quoted_string_shorter: "quoted_string s = Inr (b, r) \<Longrightarrow> length r \<le> length s"
  by (auto simp: quoted_string_Inr dest!: match_fetch_shorter quoted_body_shorter)

lemma word_string_shorter: "word_string s = Inr (b, r) \<Longrightarrow> length r \<le> length s"
proof (cases "skip_space s")
  case (Cons c cs)
  assume "word_string s = Inr (b, r)"
  with Cons have "r = dropWhile word_char (c # cs)"
    by (auto simp: word_string_def split: if_splits)
  then have "length r \<le> length (skip_space s)"
    unfolding Cons by (simp only: length_dropWhile_le)
  with skip_space_shorter [of s] show ?thesis by simp
qed (simp add: word_string_def)

lemma match_string_shorter: "match_string s = Inr (b, r) \<Longrightarrow> length r \<le> length s"
  by (auto simp: match_string_def andthen_Inr dest: quoted_string_shorter word_string_shorter
      split: if_splits)

lemma comparison_value_shorter: "comparison_value s = Inr (b, r) \<Longrightarrow> length r \<le> length s"
  by (auto simp: comparison_value_def andthen_Inr split: if_splits
      dest: quoted_string_shorter word_string_shorter read_aword_shorter(1))

lemma contains_predicate_shorter: "contains_predicate s = Inr (b, r) \<Longrightarrow> length r \<le> length s"
  by (auto simp: contains_predicate_def andthen_Inr dest!: match_fetch_shorter match_string_shorter)

lemma predicate_shorter: "predicate s = Inr (b, r) \<Longrightarrow> length r \<le> length s"
  by (auto simp: predicate_def andthen_Inr split: if_splits option.splits
      dest!: contains_predicate_shorter match_string_shorter comparison_value_shorter
        read_aword_shorter(1))

lemma search_functions_shorter:
  "(\<forall>s x r. search_condition n s = Inr (x, r) \<longrightarrow> length r \<le> length s)
   \<and> (\<forall>s x r. or_loop n s = Inr (x, r) \<longrightarrow> length r \<le> length s)
   \<and> (\<forall>s x r. boolean_term n s = Inr (x, r) \<longrightarrow> length r \<le> length s)
   \<and> (\<forall>s x r. and_loop n s = Inr (x, r) \<longrightarrow> length r \<le> length s)
   \<and> (\<forall>s x r. boolean_factor n s = Inr (x, r) \<longrightarrow> length r \<le> length s)
   \<and> (\<forall>s x r. boolean_primary n s = Inr (x, r) \<longrightarrow> length r \<le> length s)"
proof (induction n)
  case (Suc n)
  note IH = Suc.IH [THEN conjunct1, rule_format]
    Suc.IH [THEN conjunct2, THEN conjunct1, rule_format]
    Suc.IH [THEN conjunct2, THEN conjunct2, THEN conjunct1, rule_format]
    Suc.IH [THEN conjunct2, THEN conjunct2, THEN conjunct2, THEN conjunct1, rule_format]
    Suc.IH [THEN conjunct2, THEN conjunct2, THEN conjunct2, THEN conjunct2, THEN conjunct1, rule_format]
    Suc.IH [THEN conjunct2, THEN conjunct2, THEN conjunct2, THEN conjunct2, THEN conjunct2, rule_format]
  show ?case
    by (intro conjI allI impI)
      (auto simp: andthen_Inr split: if_splits
        dest!: IH read_aword_shorter(1) match_fetch_shorter predicate_shorter)
qed simp

lemmas search_condition_shorter = search_functions_shorter [THEN conjunct1, rule_format]
lemmas or_loop_shorter = search_functions_shorter [THEN conjunct2, THEN conjunct1, rule_format]
lemmas boolean_term_shorter =
  search_functions_shorter [THEN conjunct2, THEN conjunct2, THEN conjunct1, rule_format]
lemmas boolean_factor_shorter =
  search_functions_shorter [THEN conjunct2, THEN conjunct2, THEN conjunct2, THEN conjunct2,
    THEN conjunct1, rule_format]

end
