(* ===== verification/Search_Grammar.thy ===== *)
theory Search_Grammar
  imports Search_Query
begin

lemma value_functions_not_NoFuel [simp]:
  "quoted_string s \<noteq> Inl NoFuel" "word_string s \<noteq> Inl NoFuel"
proof -
  show "quoted_string s \<noteq> Inl NoFuel"
    by (auto simp: quoted_string_def andthen_Inl split: option.splits)
  show "word_string s \<noteq> Inl NoFuel"
    by (auto simp: word_string_def split: list.splits)
qed

lemma predicate_not_NoFuel [simp]:
  "match_string s \<noteq> Inl NoFuel" "comparison_value s \<noteq> Inl NoFuel"
  "contains_predicate s \<noteq> Inl NoFuel" "predicate s \<noteq> Inl NoFuel"
proof -
  show m: "match_string s \<noteq> Inl NoFuel" for s
    by (auto simp: match_string_def andthen_Inl)
  show v: "comparison_value s \<noteq> Inl NoFuel" for s
    by (auto simp: comparison_value_def andthen_Inl)
  show c: "contains_predicate s \<noteq> Inl NoFuel"
    by (auto simp: contains_predicate_def andthen_Inl m)
  show "predicate s \<noteq> Inl NoFuel"
    by (auto simp: predicate_def andthen_Inl m v split: option.splits if_splits)
       (auto simp: contains_predicate_def andthen_Inl m)
qed

lemma first_word_True_shorter:
  "first_word_equal s w = Inr True \<Longrightarrow> w \<noteq> [] \<Longrightarrow>
    \<exists>t v r. read_aword s = Inr (t, v, r) \<and> length r < length s"
  using first_word_equal_TrueD first_word_equal_shorter by metis

lemma search_fuel_enough:
  "(\<forall>s. 5 * length s + 4 \<le> n \<longrightarrow> search_condition n s \<noteq> Inl NoFuel)
   \<and> (\<forall>s. 5 * length s + 1 \<le> n \<longrightarrow> or_loop n s \<noteq> Inl NoFuel)
   \<and> (\<forall>s. 5 * length s + 3 \<le> n \<longrightarrow> boolean_term n s \<noteq> Inl NoFuel)
   \<and> (\<forall>s. 5 * length s + 1 \<le> n \<longrightarrow> and_loop n s \<noteq> Inl NoFuel)
   \<and> (\<forall>s. 5 * length s + 2 \<le> n \<longrightarrow> boolean_factor n s \<noteq> Inl NoFuel)
   \<and> (\<forall>s. 5 * length s + 1 \<le> n \<longrightarrow> boolean_primary n s \<noteq> Inl NoFuel)"
proof (induction n)
  case (Suc n)
  then have C: "\<And>s. 5 * length s + 4 \<le> n \<Longrightarrow> search_condition n s \<noteq> Inl NoFuel"
    and O: "\<And>s. 5 * length s + 1 \<le> n \<Longrightarrow> or_loop n s \<noteq> Inl NoFuel"
    and T: "\<And>s. 5 * length s + 3 \<le> n \<Longrightarrow> boolean_term n s \<noteq> Inl NoFuel"
    and A: "\<And>s. 5 * length s + 1 \<le> n \<Longrightarrow> and_loop n s \<noteq> Inl NoFuel"
    and F: "\<And>s. 5 * length s + 2 \<le> n \<Longrightarrow> boolean_factor n s \<noteq> Inl NoFuel"
    and P: "\<And>s. 5 * length s + 1 \<le> n \<Longrightarrow> boolean_primary n s \<noteq> Inl NoFuel"
    by blast+
  have "search_condition (Suc n) s \<noteq> Inl NoFuel" if "5 * length s + 4 \<le> Suc n" for s
    using that T [of s] O by (fastforce simp: andthen_Inl split: if_splits dest: boolean_term_shorter)
  moreover have "or_loop (Suc n) s \<noteq> Inl NoFuel" if "5 * length s + 1 \<le> Suc n" for s
  proof
    assume "or_loop (Suc n) s = Inl NoFuel"
    then obtain t v r where 1: "read_aword s = Inr (t, v, r)" "length r < length s"
      and "boolean_term n r = Inl NoFuel \<or> (\<exists>x r'. boolean_term n r = Inr (x, r') \<and> or_loop n r' = Inl NoFuel)"
      by (force simp: andthen_Inl split: if_splits dest!: first_word_True_shorter)
    with that T O show False by (fastforce dest: boolean_term_shorter)
  qed
  moreover have "boolean_term (Suc n) s \<noteq> Inl NoFuel" if "5 * length s + 3 \<le> Suc n" for s
    using that F [of s] A by (fastforce simp: andthen_Inl split: if_splits dest: boolean_factor_shorter)
  moreover have "and_loop (Suc n) s \<noteq> Inl NoFuel" if "5 * length s + 1 \<le> Suc n" for s
  proof
    assume "and_loop (Suc n) s = Inl NoFuel"
    then obtain t v r where 1: "read_aword s = Inr (t, v, r)" "length r < length s"
      and "boolean_factor n r = Inl NoFuel \<or> (\<exists>x r'. boolean_factor n r = Inr (x, r') \<and> and_loop n r' = Inl NoFuel)"
      by (force simp: andthen_Inl split: if_splits dest!: first_word_True_shorter)
    with that F A show False by (fastforce dest: boolean_factor_shorter)
  qed
  moreover have "boolean_factor (Suc n) s \<noteq> Inl NoFuel" if "5 * length s + 2 \<le> Suc n" for s
    using that P by (fastforce simp: andthen_Inl split: if_splits dest!: first_word_True_shorter)
  moreover have "boolean_primary (Suc n) s \<noteq> Inl NoFuel" if "5 * length s + 1 \<le> Suc n" for s
    using that C by (fastforce simp: andthen_Inl split: if_splits dest!: first_word_True_shorter)
  ultimately show ?case by blast
qed simp


section \<open>The result does not depend on the fuel\<close>

text \<open>\<open>r \<sqsubseteq> r'\<close>: more fuel keeps every result that is not \<open>NoFuel\<close>.\<close>

definition fuel_le :: "perror + 'a \<Rightarrow> perror + 'a \<Rightarrow> bool" where
  "fuel_le r r' \<longleftrightarrow> r = Inl NoFuel \<or> r' = r"

lemma fuel_le_refl [simp, intro]: "fuel_le r r"
  by (simp add: fuel_le_def)

lemma fuel_le_NoFuel [simp, intro]: "fuel_le (Inl NoFuel) r"
  by (simp add: fuel_le_def)

lemma fuel_le_andthen [intro]:
  "fuel_le r r' \<Longrightarrow> (\<And>a. fuel_le (k a) (k' a)) \<Longrightarrow> fuel_le (andthen r k) (andthen r' k')"
  by (cases r) (auto simp: fuel_le_def)

lemma fuel_le_if [intro]:
  "fuel_le a a' \<Longrightarrow> fuel_le b b' \<Longrightarrow> fuel_le (if c then a else b) (if c then a' else b')"
  by simp

lemma fuel_le_prod [intro]:
  "(\<And>a b. fuel_le (f a b) (g a b)) \<Longrightarrow> fuel_le (case p of (a, b) \<Rightarrow> f a b) (case p of (a, b) \<Rightarrow> g a b)"
  by (cases p) simp

lemma fuel_le_trans: "fuel_le a b \<Longrightarrow> fuel_le b c \<Longrightarrow> fuel_le a c"
  by (auto simp: fuel_le_def)

lemma search_fuel_Suc:
  "(\<forall>s. fuel_le (search_condition n s) (search_condition (Suc n) s))
   \<and> (\<forall>s. fuel_le (or_loop n s) (or_loop (Suc n) s))
   \<and> (\<forall>s. fuel_le (boolean_term n s) (boolean_term (Suc n) s))
   \<and> (\<forall>s. fuel_le (and_loop n s) (and_loop (Suc n) s))
   \<and> (\<forall>s. fuel_le (boolean_factor n s) (boolean_factor (Suc n) s))
   \<and> (\<forall>s. fuel_le (boolean_primary n s) (boolean_primary (Suc n) s))"
proof (induction n)
  case (Suc n)
  then have IH: "\<And>s. fuel_le (search_condition n s) (search_condition (Suc n) s)"
    "\<And>s. fuel_le (or_loop n s) (or_loop (Suc n) s)"
    "\<And>s. fuel_le (boolean_term n s) (boolean_term (Suc n) s)"
    "\<And>s. fuel_le (and_loop n s) (and_loop (Suc n) s)"
    "\<And>s. fuel_le (boolean_factor n s) (boolean_factor (Suc n) s)"
    "\<And>s. fuel_le (boolean_primary n s) (boolean_primary (Suc n) s)"
    by blast+
  have C: "fuel_le (search_condition (Suc n) s) (search_condition (Suc (Suc n)) s)" for s
    by (subst (1 2) search_condition.simps) (intro fuel_le_andthen fuel_le_if fuel_le_prod IH fuel_le_refl)
  have O: "fuel_le (or_loop (Suc n) s) (or_loop (Suc (Suc n)) s)" for s
    by (subst (1 2) or_loop.simps) (intro fuel_le_andthen fuel_le_if fuel_le_prod IH fuel_le_refl)
  have T: "fuel_le (boolean_term (Suc n) s) (boolean_term (Suc (Suc n)) s)" for s
    by (subst (1 2) boolean_term.simps) (intro fuel_le_andthen fuel_le_if fuel_le_prod IH fuel_le_refl)
  have A: "fuel_le (and_loop (Suc n) s) (and_loop (Suc (Suc n)) s)" for s
    by (subst (1 2) and_loop.simps) (intro fuel_le_andthen fuel_le_if fuel_le_prod IH fuel_le_refl)
  have F: "fuel_le (boolean_factor (Suc n) s) (boolean_factor (Suc (Suc n)) s)" for s
    by (subst (1 2) boolean_factor.simps) (intro fuel_le_andthen fuel_le_if fuel_le_prod IH fuel_le_refl)
  have P: "fuel_le (boolean_primary (Suc n) s) (boolean_primary (Suc (Suc n)) s)" for s
    by (subst (1 2) boolean_primary.simps) (intro fuel_le_andthen fuel_le_if fuel_le_prod IH fuel_le_refl)
  from C O T A F P show ?case by blast
qed simp

lemma fuel_mono_step:
  assumes "\<And>n s. fuel_le (f n s) (f (Suc n) s)" and "n \<le> m"
  shows "fuel_le (f n s) (f m s)"
  using \<open>n \<le> m\<close>
proof (induction rule: dec_induct)
  case (step m)
  then show ?case using assms(1) [of m s] fuel_le_trans by metis
qed simp

lemma fuel_mono_Inr:
  assumes "\<And>n s. fuel_le (f n s) (f (Suc n) s)" and "n \<le> m" and "f n s = Inr x"
  shows "f m s = Inr x"
  using fuel_mono_step [of f n m s] assms by (auto simp: fuel_le_def)

lemmas search_Suc = search_fuel_Suc [THEN conjunct1, THEN spec]
  search_fuel_Suc [THEN conjunct2, THEN conjunct1, THEN spec]
  search_fuel_Suc [THEN conjunct2, THEN conjunct2, THEN conjunct1, THEN spec]
  search_fuel_Suc [THEN conjunct2, THEN conjunct2, THEN conjunct2, THEN conjunct1, THEN spec]
  search_fuel_Suc [THEN conjunct2, THEN conjunct2, THEN conjunct2, THEN conjunct2, THEN conjunct1, THEN spec]
  search_fuel_Suc [THEN conjunct2, THEN conjunct2, THEN conjunct2, THEN conjunct2, THEN conjunct2, THEN spec]

lemma search_mono:
  assumes "n \<le> m"
  shows "search_condition n s = Inr x \<Longrightarrow> search_condition m s = Inr x"
    and "or_loop n s = Inr x \<Longrightarrow> or_loop m s = Inr x"
    and "boolean_term n s = Inr x \<Longrightarrow> boolean_term m s = Inr x"
    and "and_loop n s = Inr x \<Longrightarrow> and_loop m s = Inr x"
    and "boolean_factor n s = Inr x \<Longrightarrow> boolean_factor m s = Inr x"
    and "boolean_primary n s = Inr x \<Longrightarrow> boolean_primary m s = Inr x"
  by (erule fuel_mono_Inr [OF _ assms, rotated], rule search_Suc)+

lemma search_condition_fuel_mono:
  "n \<le> m \<Longrightarrow> fuel_le (search_condition n s) (search_condition m s)"
  by (rule fuel_mono_step [where f = search_condition]) (rule search_Suc)

lemma search_condition_fuel_mono':
  "search_condition n s = Inr x \<Longrightarrow> n \<le> m \<Longrightarrow> search_condition m s = Inr x"
  using search_mono(1) by blast

lemma search_condition_where_fuel:
  assumes "search_condition n s = Inr x"
  shows "search_condition (where_fuel s) s = Inr x"
proof -
  have "search_condition (where_fuel s) s \<noteq> Inl NoFuel"
    using search_fuel_enough by (simp add: where_fuel_def)
  moreover have "fuel_le (search_condition (where_fuel s) s) (search_condition (max n (where_fuel s)) s)"
    by (rule search_condition_fuel_mono) simp
  moreover have "search_condition (max n (where_fuel s)) s = Inr x"
    by (rule search_condition_fuel_mono' [OF assms]) simp
  ultimately show ?thesis by (simp add: fuel_le_def)
qed

section \<open>Abstract syntax of conditions\<close>

text \<open>
  The grammar of the comment in \<open>src/search.c\<close> as data: its two list-like non-terminals
  are right-nested.  \<open>xml_...\<close> is the element structure the request is meant to have.
\<close>

datatype qvalue = Quoted cstring | Bare cstring | Number cstring

datatype qpred = Compare cstring cstring qvalue | Contains qvalue

datatype qprim = Pred qpred | Paren qcond
  and qfactor = Plain qprim | Not qprim
  and qterm = Factor qfactor | And qfactor qterm
  and qcond = Term qterm | Or qterm qcond

definition element :: "string \<Rightarrow> string \<Rightarrow> string" where
  "element name body = ''<D:'' @ name @ ''>'' @ EOL @ body @ ''</D:'' @ name @ ''>'' @ EOL"

fun value_text :: "qvalue \<Rightarrow> cstring" where
  "value_text (Quoted v) = v"
| "value_text (Bare v) = v"
| "value_text (Number v) = v"

fun xml_pred :: "qpred \<Rightarrow> string" where
  "xml_pred (Compare col oper v) =
     element (the (operator_translate oper))
       (''<D:prop><D:'' @ col @ ''/></D:prop>'' @ EOL
        @ ''<D:literal>'' @ value_text v @ ''</D:literal>'' @ EOL)"
| "xml_pred (Contains v) = element ''contains'' (value_text v)"

fun xml_prim :: "qprim \<Rightarrow> string"
  and xml_factor :: "qfactor \<Rightarrow> string"
  and xml_term :: "qterm \<Rightarrow> string"
  and xml_factors :: "qterm \<Rightarrow> string"
  and xml_cond :: "qcond \<Rightarrow> string"
  and xml_terms :: "qcond \<Rightarrow> string"
where
  "xml_prim (Pred p) = xml_pred p"
| "xml_prim (Paren c) = xml_cond c"
| "xml_factor (Plain p) = xml_prim p"
| "xml_factor (Not p) = element ''not'' (xml_prim p)"
| "xml_term (Factor f) = xml_factor f"
| "xml_term (And f t) = element ''and'' (xml_factor f @ xml_factors t)"
| "xml_factors (Factor f) = xml_factor f"
| "xml_factors (And f t) = xml_factor f @ xml_factors t"
| "xml_cond (Term t) = xml_term t"
| "xml_cond (Or t c) = element ''or'' (xml_term t @ xml_terms c)"
| "xml_terms (Term t) = xml_term t"
| "xml_terms (Or t c) = xml_term t @ xml_terms c"

text \<open>The whole \<open>where\<close> element.\<close>

definition xml_where :: "qcond \<Rightarrow> string" where
  "xml_where c = ''<D:where>'' @ EOL @ xml_cond c @ ''</D:where>'' @ EOL"

section \<open>Soundness: every accepted query has this structure\<close>

lemma predicate_sound: "predicate s = Inr (x, r) \<Longrightarrow> \<exists>p. x = xml_pred p"
proof -
  assume "predicate s = Inr (x, r)"
  then consider v where "x = ''<D:contains>'' @ EOL @ v @ ''</D:contains>'' @ EOL"
    | col oper xmlop v where "operator_translate oper = Some xmlop" "x = comparison_xml xmlop col v"
    by (auto simp: predicate_def contains_predicate_def andthen_Inr split: if_splits option.splits)
  then show ?thesis
  proof cases
    case 1
    then have "x = xml_pred (Contains (Bare v))" by (simp add: element_def)
    then show ?thesis ..
  next
    case 2
    then have "x = xml_pred (Compare col oper (Bare v))"
      by (simp add: element_def comparison_xml_def)
    then show ?thesis ..
  qed
qed

lemma andthen_pairE:
  assumes "andthen r (\<lambda>(a, b). k a b) = Inr y"
  obtains a b where "r = Inr (a, b)" "k a b = Inr y"
  using assms by (auto simp: andthen_Inr)

lemma andthen_boolE:
  assumes "andthen r (\<lambda>c. if c then y else z) = Inr x"
  obtains "r = Inr True" "y = Inr x" | "r = Inr False" "z = Inr x"
  using assms by (auto simp: andthen_Inr split: if_splits)

lemma search_sound:
  "(\<forall>s x r. search_condition n s = Inr (x, r) \<longrightarrow> (\<exists>c. x = xml_cond c))
   \<and> (\<forall>s x r. or_loop n s = Inr (x, r) \<longrightarrow>
        (\<exists>c. x = xml_terms c) \<or> x = [] \<and> first_word_equal s ''or'' = Inr False)
   \<and> (\<forall>s x r. boolean_term n s = Inr (x, r) \<longrightarrow> (\<exists>t. x = xml_term t))
   \<and> (\<forall>s x r. and_loop n s = Inr (x, r) \<longrightarrow>
        (\<exists>t. x = xml_factors t) \<or> x = [] \<and> first_word_equal s ''and'' = Inr False)
   \<and> (\<forall>s x r. boolean_factor n s = Inr (x, r) \<longrightarrow> (\<exists>f. x = xml_factor f))
   \<and> (\<forall>s x r. boolean_primary n s = Inr (x, r) \<longrightarrow> (\<exists>p. x = xml_prim p))"
proof (induction n)
  case (Suc n)
  then have C: "\<And>s x r. search_condition n s = Inr (x, r) \<Longrightarrow> \<exists>c. x = xml_cond c"
    and O: "\<And>s x r. or_loop n s = Inr (x, r) \<Longrightarrow>
        (\<exists>c. x = xml_terms c) \<or> x = [] \<and> first_word_equal s ''or'' = Inr False"
    and T: "\<And>s x r. boolean_term n s = Inr (x, r) \<Longrightarrow> \<exists>t. x = xml_term t"
    and A: "\<And>s x r. and_loop n s = Inr (x, r) \<Longrightarrow>
        (\<exists>t. x = xml_factors t) \<or> x = [] \<and> first_word_equal s ''and'' = Inr False"
    and F: "\<And>s x r. boolean_factor n s = Inr (x, r) \<Longrightarrow> \<exists>f. x = xml_factor f"
    and P: "\<And>s x r. boolean_primary n s = Inr (x, r) \<Longrightarrow> \<exists>p. x = xml_prim p"
    by blast+
  have "\<exists>c. x = xml_cond c" if run: "search_condition (Suc n) s = Inr (x, r)" for s x r
    using run unfolding search_condition.simps
  proof (elim andthen_pairE andthen_boolE)
    fix y s1 z s2
    assume y: "boolean_term n s = Inr (y, s1)" and w: "first_word_equal s1 ''or'' = Inr True"
      and z: "or_loop n s1 = Inr (z, s2)" and x: "Inr (''<D:or>'' @ EOL @ y @ z @ ''</D:or>'' @ EOL, s2) = Inr (x, r)"
    obtain t where "y = xml_term t" using T [OF y] ..
    moreover obtain c where "z = xml_terms c" using O [OF z] w by auto
    ultimately have "x = xml_cond (Or t c)" using x by (simp add: element_def)
    then show ?thesis ..
  next
    fix y s1
    assume "boolean_term n s = Inr (y, s1)" "Inr (y, s1) = (Inr (x, r) :: perror + cstring \<times> cstring)"
    then have "boolean_term n s = Inr (x, s1)" by simp
    then obtain t where "x = xml_term t" using T by blast
    then have "x = xml_cond (Term t)" by simp
    then show ?thesis ..
  qed
  moreover have "\<exists>t. x = xml_term t" if run: "boolean_term (Suc n) s = Inr (x, r)" for s x r
    using run unfolding boolean_term.simps
  proof (elim andthen_pairE andthen_boolE)
    fix y s1 z s2
    assume y: "boolean_factor n s = Inr (y, s1)" and w: "first_word_equal s1 ''and'' = Inr True"
      and z: "and_loop n s1 = Inr (z, s2)" and x: "Inr (''<D:and>'' @ EOL @ y @ z @ ''</D:and>'' @ EOL, s2) = Inr (x, r)"
    obtain f where "y = xml_factor f" using F [OF y] ..
    moreover obtain t where "z = xml_factors t" using A [OF z] w by auto
    ultimately have "x = xml_term (And f t)" using x by (simp add: element_def)
    then show ?thesis ..
  next
    fix y s1
    assume "boolean_factor n s = Inr (y, s1)" "Inr (y, s1) = (Inr (x, r) :: perror + cstring \<times> cstring)"
    then have "boolean_factor n s = Inr (x, s1)" by simp
    then obtain f where "x = xml_factor f" using F by blast
    then have "x = xml_term (Factor f)" by simp
    then show ?thesis ..
  qed
  moreover have "(\<exists>c. x = xml_terms c) \<or> x = [] \<and> first_word_equal s ''or'' = Inr False"
    if run: "or_loop (Suc n) s = Inr (x, r)" for s x r
  proof (cases "first_word_equal s ''or'' = Inr True")
    case True
    with run obtain s1 y s2 z where "boolean_term n s1 = Inr (y, s2)" "or_loop n s2 = Inr (z, r)" "x = y @ z"
      by (auto simp: andthen_Inr)
    then show ?thesis using T O by (metis append_Nil2 xml_terms.simps)
  qed (use run in \<open>auto simp: andthen_Inr split: if_splits\<close>)
  moreover have "(\<exists>t. x = xml_factors t) \<or> x = [] \<and> first_word_equal s ''and'' = Inr False"
    if run: "and_loop (Suc n) s = Inr (x, r)" for s x r
  proof (cases "first_word_equal s ''and'' = Inr True")
    case True
    with run obtain s1 y s2 z where "boolean_factor n s1 = Inr (y, s2)" "and_loop n s2 = Inr (z, r)" "x = y @ z"
      by (auto simp: andthen_Inr)
    then show ?thesis using F A by (metis append_Nil2 xml_factors.simps)
  qed (use run in \<open>auto simp: andthen_Inr split: if_splits\<close>)
  moreover have "\<exists>f. x = xml_factor f" if run: "boolean_factor (Suc n) s = Inr (x, r)" for s x r
  proof -
    from run consider "boolean_primary n s = Inr (x, r)"
      | y s1 where "boolean_primary n s1 = Inr (y, r)" "x = element ''not'' y"
      by (auto simp: andthen_Inr element_def split: if_splits)
    then show ?thesis using P by cases (metis xml_factor.simps)+
  qed
  moreover have "\<exists>p. x = xml_prim p" if run: "boolean_primary (Suc n) s = Inr (x, r)" for s x r
  proof -
    from run consider "predicate s = Inr (x, r)" | s1 s2 where "search_condition n s1 = Inr (x, s2)"
      by (auto simp: andthen_Inr split: if_splits)
    then show ?thesis using C predicate_sound by cases (metis xml_prim.simps)+
  qed
  ultimately show ?case by blast
qed simp

section \<open>Completeness: the concrete syntax of a condition compiles to its structure\<close>

text \<open>
  \<open>render_...\<close> writes a condition the way \<open>execute_search\<close> assembles it, words
  separated by one blank; \<open>wf_...\<close> says which words may stand where.
\<close>

definition follows :: "cstring \<Rightarrow> bool" where
  "follows r \<longleftrightarrow> r = [] \<or> hd r = CHR '' ''"

definition ident :: "cstring \<Rightarrow> bool" where
  "ident w \<longleftrightarrow> w \<noteq> [] \<and> isalpha (hd w) \<and> (\<forall>c \<in> set (tl w). isalnum c \<or> c = CHR ''_'')
     \<and> length w \<le> WORDLEN"

definition number :: "cstring \<Rightarrow> bool" where
  "number w \<longleftrightarrow> w \<noteq> [] \<and> (hd w = CHR ''+'' \<or> hd w = CHR ''-'' \<or> isdigit (hd w))
     \<and> (\<forall>c \<in> set (tl w). isdigit c) \<and> length w \<le> WORDLEN"

definition bareword :: "cstring \<Rightarrow> bool" where
  "bareword w \<longleftrightarrow> w \<noteq> [] \<and> (\<forall>c \<in> set w. word_char c) \<and> \<not> isspace (hd w) \<and> hd w \<noteq> QUOTE
     \<and> hd w \<noteq> CHR ''+'' \<and> hd w \<noteq> CHR ''-'' \<and> \<not> isdigit (hd w) \<and> length w \<le> WORDLEN"

fun quote_ok :: "char \<Rightarrow> cstring \<Rightarrow> bool" where
  "quote_ok prev [] \<longleftrightarrow> prev \<noteq> BACKSLASH"
| "quote_ok prev (c # cs) \<longleftrightarrow> (c \<noteq> QUOTE \<or> prev = BACKSLASH) \<and> quote_ok c cs"

text \<open>Every quotation mark inside is escaped, and the last character is not a backslash.\<close>

definition quotable :: "cstring \<Rightarrow> bool" where
  "quotable v \<longleftrightarrow> v = [] \<or> hd v \<noteq> QUOTE \<and> quote_ok (hd v) v"

fun wf_value :: "qvalue \<Rightarrow> bool" where
  "wf_value (Quoted v) \<longleftrightarrow> quotable v"
| "wf_value (Bare v) \<longleftrightarrow> bareword v"
| "wf_value (Number v) \<longleftrightarrow> number v"

definition readable_ops :: "cstring list" where
  "readable_ops = [''='', ''>='', ''<='', ''>'', ''<'', ''<>'', ''like'']"

fun wf_pred :: "qpred \<Rightarrow> bool" where
  "wf_pred (Compare col oper v) \<longleftrightarrow>
     ident col \<and> \<not> strcaseeq col ''contains'' \<and> \<not> strcaseeq col ''not''
     \<and> oper \<in> set readable_ops \<and> wf_value v"
| "wf_pred (Contains v) \<longleftrightarrow> wf_value v"

fun wf_prim :: "qprim \<Rightarrow> bool"
  and wf_factor :: "qfactor \<Rightarrow> bool"
  and wf_term :: "qterm \<Rightarrow> bool"
  and wf_cond :: "qcond \<Rightarrow> bool"
where
  "wf_prim (Pred p) = wf_pred p"
| "wf_prim (Paren c) = wf_cond c"
| "wf_factor (Plain p) = wf_prim p"
| "wf_factor (Not p) = wf_prim p"
| "wf_term (Factor f) = wf_factor f"
| "wf_term (And f t) = (wf_factor f \<and> wf_term t)"
| "wf_cond (Term t) = wf_term t"
| "wf_cond (Or t c) = (wf_term t \<and> wf_cond c)"

fun render_value :: "qvalue \<Rightarrow> cstring" where
  "render_value (Quoted v) = CHR '' '' # QUOTE # v @ [QUOTE]"
| "render_value (Bare v) = CHR '' '' # v"
| "render_value (Number v) = CHR '' '' # v"

fun render_pred :: "qpred \<Rightarrow> cstring" where
  "render_pred (Compare col oper v) = CHR '' '' # col @ CHR '' '' # oper @ render_value v"
| "render_pred (Contains v) = '' contains'' @ render_value v"

fun render_prim :: "qprim \<Rightarrow> cstring"
  and render_factor :: "qfactor \<Rightarrow> cstring"
  and render_term :: "qterm \<Rightarrow> cstring"
  and render_cond :: "qcond \<Rightarrow> cstring"
where
  "render_prim (Pred p) = render_pred p"
| "render_prim (Paren c) = '' ('' @ render_cond c @ '' )''"
| "render_factor (Plain p) = render_prim p"
| "render_factor (Not p) = '' not'' @ render_prim p"
| "render_term (Factor f) = render_factor f"
| "render_term (And f t) = render_factor f @ '' and'' @ render_term t"
| "render_cond (Term t) = render_term t"
| "render_cond (Or t c) = render_term t @ '' or'' @ render_cond c"

lemma not_space_quote [simp]: "\<not> isspace QUOTE" "isspace CHR '' ''" "\<not> isalpha CHR '' ''"
  "\<not> isalnum CHR '' ''" "\<not> isdigit CHR '' ''" "\<not> isalpha QUOTE" "\<not> isdigit QUOTE"
  by (simp_all add: ctype_defs)

lemma skip_space_blank [simp]: "skip_space (CHR '' '' # s) = skip_space s"
  by (simp add: skip_space_def)

lemma skip_space_id: "s = [] \<or> \<not> isspace (hd s) \<Longrightarrow> skip_space s = s"
  by (cases s) (auto simp: skip_space_def)

lemma read_ident:
  assumes "ident w" and "follows r"
  shows "read_aword (CHR '' '' # w @ r) = Inr (IDEN, w, r)"
proof -
  obtain c cs where w: "w = c # cs" using assms(1) by (cases w) (auto simp: ident_def)
  from assms w have c: "isalpha c" and cs: "\<forall>x \<in> set cs. isalnum x \<or> x = CHR ''_''"
    and len: "length w \<le> WORDLEN" by (auto simp: ident_def)
  have stop: "r = [] \<or> \<not> (isalnum (hd r) \<or> hd r = CHR ''_'')"
    using assms(2) by (auto simp: follows_def)
  have "skip_space (CHR '' '' # w @ r) = c # cs @ r"
    using alpha_not_space [OF c] by (simp add: w skip_space_id)
  moreover have "takeWhile (\<lambda>x. isalnum x \<or> x = CHR ''_'') (cs @ r) = cs"
    "dropWhile (\<lambda>x. isalnum x \<or> x = CHR ''_'') (cs @ r) = r"
    using cs stop by (cases r; auto)+
  ultimately show ?thesis using c len
    by (simp add: read_aword_def scan_word_def store_word_def w)
qed

lemma read_number:
  assumes "number w" and "follows r"
  shows "read_aword (CHR '' '' # w @ r) = Inr (INTEGER, w, r)"
proof -
  obtain c cs where w: "w = c # cs" using assms(1) by (cases w) (auto simp: number_def)
  from assms w have c: "c = CHR ''+'' \<or> c = CHR ''-'' \<or> isdigit c" and cs: "\<forall>x \<in> set cs. isdigit x"
    and len: "length w \<le> WORDLEN" by (auto simp: number_def)
  have "\<not> isalpha c" "\<not> isspace c" using c by (auto simp: ctype_defs)
  moreover have "r = [] \<or> \<not> isdigit (hd r)"
    using assms(2) by (auto simp: follows_def)
  then have "takeWhile isdigit (cs @ r) = cs" "dropWhile isdigit (cs @ r) = r"
    using cs by (cases r; auto)+
  ultimately show ?thesis using c len
    by (simp add: read_aword_def scan_word_def store_word_def w skip_space_id)
qed

lemma read_oper:
  assumes "oper \<in> set readable_ops"
  shows "\<exists>t. read_aword (CHR '' '' # oper @ CHR '' '' # r) = Inr (t, oper, CHR '' '' # r)"
proof (cases "oper = ''like''")
  case True
  have "ident ''like''" by (simp add: ident_def ctype_defs WORDLEN_def)
  then show ?thesis using read_ident [of "''like''" "CHR '' '' # r"] True by (simp add: follows_def)
next
  case False
  with assms show ?thesis
    by (auto simp: readable_ops_def read_aword_def scan_word_def skip_space_def ctype_defs)
qed

lemma quoted_loop_quoted: "quote_ok p v \<Longrightarrow> quoted_loop p (v @ QUOTE # r) = Some (v, r)"
  by (induction p v rule: quote_ok.induct) auto

lemma quoted_body_quoted: "quotable v \<Longrightarrow> quoted_body (v @ QUOTE # r) = Some (v, r)"
proof (cases v)
  case (Cons c cs)
  assume "quotable v"
  with Cons have "quote_ok c v" by (auto simp: quotable_def)
  then have "quoted_loop c (v @ QUOTE # r) = Some (v, r)" by (rule quoted_loop_quoted)
  then show ?thesis unfolding quoted_body_def Cons by simp
qed (simp add: quoted_body_def)

lemma read_quote: "read_aword (CHR '' '' # QUOTE # s) = Inr (QUOT, [QUOTE], s)"
  by (simp add: read_aword_def skip_space_id scan_word_def)

lemma quoted_string_quoted:
  "quotable v \<Longrightarrow> quoted_string (CHR '' '' # QUOTE # v @ QUOTE # r) = Inr (v, r)"
  by (simp add: quoted_string_Inr match_fetch_def read_quote quoted_body_quoted)

lemma word_char_not_digit: "isdigit c \<Longrightarrow> word_char c"
  by (auto simp: word_char_def ctype_defs)

lemma word_string_bare:
  assumes "w \<noteq> []" and "\<forall>c \<in> set w. word_char c" and "\<not> isspace (hd w)" and "follows r"
  shows "word_string (CHR '' '' # w @ r) = Inr (w, r)"
proof -
  obtain c cs where w: "w = c # cs" using assms(1) by (cases w) auto
  have stop: "r = [] \<or> \<not> word_char (hd r)"
    using assms(4) by (auto simp: follows_def word_char_def)
  have "skip_space (CHR '' '' # w @ r) = c # cs @ r"
    using assms(3) by (simp add: w skip_space_id)
  moreover have "takeWhile word_char (w @ r) = w" "dropWhile word_char (w @ r) = r"
    using assms(2) stop by (cases r; auto)+
  moreover have "c \<noteq> CHR '')''" using assms(2) by (auto simp: w word_char_def)
  ultimately show ?thesis using w by (simp add: word_string_def)
qed

text \<open>What the peek functions see in front of a bare word.\<close>

lemma read_bare:
  assumes "bareword w" and "follows r"
  shows "\<exists>t v s. read_aword (CHR '' '' # w @ r) = Inr (t, v, s) \<and> t \<noteq> INTEGER \<and> \<not> strcaseeq v [QUOTE]"
proof -
  let ?P = "\<lambda>x. isalnum x \<or> x = CHR ''_''"
  obtain c cs where w: "w = c # cs" using assms(1) by (cases w) (auto simp: bareword_def)
  from assms(1) w have c: "\<not> isspace c" "c \<noteq> QUOTE" "c \<noteq> CHR ''+''" "c \<noteq> CHR ''-''" "\<not> isdigit c"
    and len: "Suc (length cs) \<le> WORDLEN" by (auto simp: bareword_def)
  have low: "\<not> strcaseeq (x # xs) [QUOTE]" if "x \<noteq> QUOTE" for x xs
    using that by (auto simp: strcaseeq_def tolower_def isupper_def of_char_of take_bit_nat_def
        split: if_splits dest!: arg_cong [where f = code])
  have scan: "read_aword (CHR '' '' # w @ r) = scan_word c (cs @ r)"
    using c(1) by (simp add: read_aword_def w skip_space_id)
  show ?thesis
  proof (cases "isalpha c")
    case True
    have "length (takeWhile ?P (cs @ r)) \<le> length cs"
      using assms(2) by (cases r) (auto simp: takeWhile_append follows_def length_takeWhile_le)
    then have "scan_word c (cs @ r) = Inr (IDEN, c # takeWhile ?P (cs @ r), dropWhile ?P (cs @ r))"
      using True len by (simp add: scan_word_def store_word_def)
    then show ?thesis using scan low [OF c(2)] by simp
  next
    case False
    then have "\<exists>t y ys s. scan_word c (cs @ r) = Inr (t, y # ys, s) \<and> t \<noteq> INTEGER \<and> y \<noteq> QUOTE"
      using c by (simp add: scan_word_def)
    then show ?thesis using scan low by auto
  qed
qed

lemma first_word_blank:
  assumes "read_aword s = Inr (t, v, r)"
  shows "first_word_equal s w = Inr (strcaseeq v w)" "first_word_integer s = Inr (t = INTEGER)"
  by (simp_all add: first_word_equal_def first_word_integer_def assms)

lemma number_not_quote: "number w \<Longrightarrow> \<not> strcaseeq w [QUOTE]"
  by (cases w) (auto simp: number_def strcaseeq_def tolower_def isupper_def isdigit_def of_char_of
      take_bit_nat_def split: if_splits dest!: arg_cong [where f = code])

lemma number_chars: "number w \<Longrightarrow> w \<noteq> [] \<and> (\<forall>c \<in> set w. word_char c) \<and> \<not> isspace (hd w)"
  by (cases w) (auto simp: number_def word_char_def ctype_defs)

lemma comparison_value_render:
  assumes "wf_value v" and "follows r"
  shows "comparison_value (render_value v @ r) = Inr (value_text v, r)"
proof (cases v)
  case (Quoted q)
  with assms show ?thesis
    by (simp add: comparison_value_def first_word_blank [OF read_quote] quoted_string_quoted)
next
  case (Bare w)
  with assms obtain t x s where "read_aword (CHR '' '' # w @ r) = Inr (t, x, s)" "t \<noteq> INTEGER"
    "\<not> strcaseeq x [QUOTE]" using read_bare by auto blast
  with Bare assms show ?thesis
    by (simp add: comparison_value_def first_word_blank word_string_bare bareword_def)
next
  case (Number w)
  with assms show ?thesis
    by (simp add: comparison_value_def first_word_blank [OF read_number] read_number number_not_quote)
qed

lemma match_string_render:
  assumes "wf_value v" and "follows r"
  shows "match_string (render_value v @ r) = Inr (value_text v, r)"
proof (cases v)
  case (Quoted q)
  with assms show ?thesis
    by (simp add: match_string_def first_word_blank [OF read_quote] quoted_string_quoted)
next
  case (Bare w)
  with assms obtain t x s where "read_aword (CHR '' '' # w @ r) = Inr (t, x, s)"
    "\<not> strcaseeq x [QUOTE]" using read_bare by auto blast
  with Bare assms show ?thesis
    by (simp add: match_string_def first_word_blank word_string_bare bareword_def)
next
  case (Number w)
  with assms show ?thesis using number_chars [of w]
    by (simp add: match_string_def first_word_blank [OF read_number] number_not_quote word_string_bare)
qed

lemma render_value_blank: "\<exists>s. render_value v @ r = CHR '' '' # s"
  by (cases v) auto

lemma ident_contains: "ident ''contains''" "ident ''and''" "ident ''or''" "ident ''not''"
  by (simp_all add: ident_def ctype_defs WORDLEN_def)

lemma readable_like: "oper \<in> set readable_ops \<Longrightarrow> strcaseeq oper ''like'' \<longleftrightarrow> oper = ''like''"
  by (auto simp: readable_ops_def strcaseeq_def tolower_def isupper_def)

lemma readable_translate: "oper \<in> set readable_ops \<Longrightarrow> \<exists>x. operator_translate oper = Some x"
  by (auto simp: readable_ops_def operator_translate_def)

lemma predicate_render:
  assumes "wf_pred p" and "follows r"
  shows "predicate (render_pred p @ r) = Inr (xml_pred p, r)"
proof (cases p)
  case (Contains v)
  obtain s where s: "render_value v @ r = CHR '' '' # s" using render_value_blank by blast
  have "read_aword ('' contains'' @ render_value v @ r) = Inr (IDEN, ''contains'', render_value v @ r)"
    using read_ident [OF ident_contains(1), of "render_value v @ r"] by (simp add: s follows_def)
  with Contains assms show ?thesis
    by (simp add: predicate_def first_word_blank contains_predicate_def match_fetch_def
        match_string_render element_def)
next
  case (Compare col oper v)
  obtain s where s: "render_value v @ r = CHR '' '' # s" using render_value_blank by blast
  let ?tail = "CHR '' '' # oper @ render_value v @ r"
  from Compare assms have wf: "ident col" "\<not> strcaseeq col ''contains''" "oper \<in> set readable_ops"
    "wf_value v" by auto
  have c: "read_aword (CHR '' '' # col @ ?tail) = Inr (IDEN, col, ?tail)"
    by (rule read_ident [OF wf(1)]) (simp add: follows_def)
  obtain t where o: "read_aword ?tail = Inr (t, oper, render_value v @ r)"
    using read_oper [OF wf(3), of s] by (auto simp: s)
  obtain x where x: "operator_translate oper = Some x" using readable_translate [OF wf(3)] ..
  show ?thesis using wf assms
    by (simp add: Compare predicate_def first_word_blank [OF c] c o x readable_like
        match_string_render comparison_value_render comparison_xml_def element_def)
qed

lemma render_blank:
  shows "\<exists>s. render_prim p = CHR '' '' # s" and "\<exists>s. render_factor f = CHR '' '' # s"
    and "\<exists>s. render_term t = CHR '' '' # s" and "\<exists>s. render_cond c = CHR '' '' # s"
proof (induction p and f and t and c)
  case (Pred p)
  then show ?case by (cases p) auto
qed auto

lemma follows_render [simp]:
  "follows (render_prim p @ r)" "follows (render_factor f @ r)"
  "follows (render_term t @ r)" "follows (render_cond c @ r)"
  using render_blank(1) [of p] render_blank(2) [of f] render_blank(3) [of t] render_blank(4) [of c]
  by (auto simp: follows_def)

lemma follows_blank [simp]: "follows (CHR '' '' # s)"
  by (simp add: follows_def)

lemma read_keyword:
  "follows r \<Longrightarrow> read_aword ('' and'' @ r) = Inr (IDEN, ''and'', r)"
  "follows r \<Longrightarrow> read_aword ('' or'' @ r) = Inr (IDEN, ''or'', r)"
  "follows r \<Longrightarrow> read_aword ('' not'' @ r) = Inr (IDEN, ''not'', r)"
  using read_ident [OF ident_contains(2)] read_ident [OF ident_contains(3)]
    read_ident [OF ident_contains(4)] by simp_all

lemma read_paren: "read_aword ('' ('' @ r) = Inr (LPAR, ''('', r)" "read_aword ('' )'' @ r) = Inr (RPAR, '')'', r)"
  by (simp_all add: read_aword_def skip_space_id scan_word_def ctype_defs)

lemma keyword_neq [simp]:
  "\<not> strcaseeq ''or'' ''and''" "\<not> strcaseeq ''('' ''not''" "\<not> strcaseeq '')'' ''and''"
  "\<not> strcaseeq '')'' ''or''" "\<not> strcaseeq ''contains'' ''not''" "\<not> strcaseeq ''contains'' ''(''"
  by (auto simp: strcaseeq_def tolower_def isupper_def)

lemma ident_not_paren: "ident w \<Longrightarrow> \<not> strcaseeq w ''(''"
  by (cases w) (auto simp: ident_def strcaseeq_def ctype_defs of_char_of take_bit_nat_def
      split: if_splits dest!: arg_cong [where f = code])

lemma first_word_pred:
  assumes "wf_pred p" and "follows r"
  shows "first_word_equal (render_pred p @ r) ''not'' = Inr False"
    and "first_word_equal (render_pred p @ r) ''('' = Inr False"
proof -
  have "\<exists>w. first_word_equal (render_pred p @ r) ''not'' = Inr (strcaseeq w ''not'')
    \<and> first_word_equal (render_pred p @ r) ''('' = Inr (strcaseeq w ''('') \<and>
    \<not> strcaseeq w ''not'' \<and> \<not> strcaseeq w ''(''"
  proof (cases p)
    case (Contains v)
    obtain s where s: "render_value v @ r = CHR '' '' # s" using render_value_blank by blast
    have "read_aword ('' contains'' @ render_value v @ r) = Inr (IDEN, ''contains'', render_value v @ r)"
      using read_ident [OF ident_contains(1), of "render_value v @ r"] by (simp add: s)
    then show ?thesis by (intro exI [of _ "''contains''"]) (simp add: Contains first_word_blank)
  next
    case (Compare col oper v)
    with assms have "ident col" "\<not> strcaseeq col ''not''" by auto
    then show ?thesis using ident_not_paren [of col]
      by (intro exI [of _ col]) (simp add: Compare first_word_blank [OF read_ident])
  qed
  then show "first_word_equal (render_pred p @ r) ''not'' = Inr False"
    and "first_word_equal (render_pred p @ r) ''('' = Inr False" by auto
qed

lemma first_word_prim:
  "wf_prim p \<Longrightarrow> follows r \<Longrightarrow> first_word_equal (render_prim p @ r) ''not'' = Inr False"
  using read_paren(1) by (cases p) (auto simp: first_word_pred first_word_blank)

lemma render_compiles:
  shows "wf_prim p \<Longrightarrow> follows r \<Longrightarrow> \<exists>n. boolean_primary n (render_prim p @ r) = Inr (xml_prim p, r)"
    and "wf_factor f \<Longrightarrow> follows r \<Longrightarrow> \<exists>n. boolean_factor n (render_factor f @ r) = Inr (xml_factor f, r)"
    and "wf_term t \<Longrightarrow> follows r \<Longrightarrow> first_word_equal r ''and'' = Inr False \<Longrightarrow>
      (\<exists>n. boolean_term n (render_term t @ r) = Inr (xml_term t, r)) \<and>
      (\<exists>n. and_loop n ('' and'' @ render_term t @ r) = Inr (xml_factors t, r))"
    and "wf_cond c \<Longrightarrow> follows r \<Longrightarrow> first_word_equal r ''and'' = Inr False \<Longrightarrow>
      first_word_equal r ''or'' = Inr False \<Longrightarrow>
      (\<exists>n. search_condition n (render_cond c @ r) = Inr (xml_cond c, r)) \<and>
      (\<exists>n. or_loop n ('' or'' @ render_cond c @ r) = Inr (xml_terms c, r))"
proof (induction p and f and t and c arbitrary: r and r and r and r)
  case (Pred p)
  then have "boolean_primary (Suc 0) (render_prim (Pred p) @ r) = Inr (xml_prim (Pred p), r)"
    by (simp add: first_word_pred predicate_render)
  then show ?case ..
next
  case (Paren c)
  have "first_word_equal ('' )'' @ r) ''and'' = Inr False" "first_word_equal ('' )'' @ r) ''or'' = Inr False"
    by (simp_all only: first_word_blank [OF read_paren(2)] keyword_neq)
  with Paren obtain n where "search_condition n (render_cond c @ '' )'' @ r) = Inr (xml_cond c, '' )'' @ r)"
    by (metis append_Cons follows_blank wf_prim.simps(2))
  then have "boolean_primary (Suc n) (render_prim (Paren c) @ r) = Inr (xml_prim (Paren c), r)"
    using read_paren(1) [of "render_cond c @ '' )'' @ r"] read_paren(2) [of r]
    by (simp add: first_word_blank match_fetch_def)
  then show ?case ..
next
  case (Plain p)
  then obtain n where "boolean_primary n (render_prim p @ r) = Inr (xml_prim p, r)" by auto
  with Plain have "boolean_factor (Suc n) (render_factor (Plain p) @ r) = Inr (xml_factor (Plain p), r)"
    by (simp add: first_word_prim)
  then show ?case ..
next
  case (Not p)
  then obtain n where "boolean_primary n (render_prim p @ r) = Inr (xml_prim p, r)" by auto
  then have "boolean_factor (Suc n) (render_factor (Not p) @ r) = Inr (xml_factor (Not p), r)"
    using read_keyword(3) [of "render_prim p @ r"] by (simp add: first_word_blank element_def)
  then show ?case ..
next
  case (Factor f)
  then obtain n where n: "boolean_factor n (render_factor f @ r) = Inr (xml_factor f, r)" by auto
  then have "boolean_term (Suc n) (render_term (Factor f) @ r) = Inr (xml_term (Factor f), r)"
    using Factor by simp
  moreover have "and_loop (Suc (Suc n)) ('' and'' @ render_term (Factor f) @ r)
      = Inr (xml_factors (Factor f), r)"
    using search_mono(5) [OF _ n, of "Suc n"] read_keyword(1) [of "render_factor f @ r"] Factor
    by (simp add: first_word_blank)
  ultimately show ?case by blast
next
  case (And f t)
  let ?s = "'' and'' @ render_term t @ r"
  from And obtain n m where n: "boolean_factor n (render_factor f @ ?s) = Inr (xml_factor f, ?s)"
    and m: "and_loop m ?s = Inr (xml_factors t, r)" by (metis append_Cons follows_blank wf_term.simps(2))
  define k where "k = max n m"
  have k: "boolean_factor k (render_factor f @ ?s) = Inr (xml_factor f, ?s)"
    "and_loop k ?s = Inr (xml_factors t, r)"
    using search_mono(5) [OF _ n, of k] search_mono(4) [OF _ m, of k] by (auto simp: k_def)
  have w: "first_word_equal ?s ''and'' = Inr True"
    by (simp only: first_word_blank [OF read_keyword(1)] follows_render strcaseeq_refl)
  have "boolean_term (Suc k) (render_term (And f t) @ r) = Inr (xml_term (And f t), r)"
    using k w by (simp add: element_def)
  moreover have "and_loop (Suc k) ('' and'' @ render_term (And f t) @ r) = Inr (xml_factors (And f t), r)"
    using k w read_keyword(1) [of "render_factor f @ ?s"] by (simp add: first_word_blank)
  ultimately show ?case by blast
next
  case (Term t)
  then obtain n where n: "boolean_term n (render_term t @ r) = Inr (xml_term t, r)" by auto
  then have "search_condition (Suc n) (render_cond (Term t) @ r) = Inr (xml_cond (Term t), r)"
    using Term by simp
  moreover have "or_loop (Suc (Suc n)) ('' or'' @ render_cond (Term t) @ r) = Inr (xml_terms (Term t), r)"
    using search_mono(3) [OF _ n, of "Suc n"] read_keyword(2) [of "render_term t @ r"] Term
    by (simp add: first_word_blank)
  ultimately show ?case by blast
next
  case (Or t c)
  let ?s = "'' or'' @ render_cond c @ r"
  have "first_word_equal ?s ''and'' = Inr False"
    by (simp only: first_word_blank [OF read_keyword(2)] follows_render keyword_neq)
  with Or obtain n m where n: "boolean_term n (render_term t @ ?s) = Inr (xml_term t, ?s)"
    and m: "or_loop m ?s = Inr (xml_terms c, r)" by (metis append_Cons follows_blank wf_cond.simps(2))
  define k where "k = max n m"
  have k: "boolean_term k (render_term t @ ?s) = Inr (xml_term t, ?s)"
    "or_loop k ?s = Inr (xml_terms c, r)"
    using search_mono(3) [OF _ n, of k] search_mono(2) [OF _ m, of k] by (auto simp: k_def)
  have w: "first_word_equal ?s ''or'' = Inr True"
    by (simp only: first_word_blank [OF read_keyword(2)] follows_render strcaseeq_refl)
  have "search_condition (Suc k) (render_cond (Or t c) @ r) = Inr (xml_cond (Or t c), r)"
    using k w by (simp add: element_def)
  moreover have "or_loop (Suc k) ('' or'' @ render_cond (Or t c) @ r) = Inr (xml_terms (Or t c), r)"
    using k w read_keyword(2) [of "render_term t @ ?s"] by (simp add: first_word_blank)
  ultimately show ?case by blast
qed

section \<open>Overflow of the word arrays\<close>

lemma read_aword_Overflow: "read_aword s = Inl e \<Longrightarrow> WORDLEN < length s"
proof -
  assume err: "read_aword s = Inl e"
  then obtain c cs where c: "skip_space s = c # cs" and scan: "scan_word c cs = Inl e"
    by (auto simp: read_aword_def split: list.splits)
  from scan have "WORDLEN < Suc (length cs)"
    by (auto simp: scan_word_def map_sum_id_Inl split: if_splits
        intro: le_less_trans less_le_trans [OF _ Suc_le_mono [THEN iffD2, OF length_takeWhile_le]])
  with skip_space_Cons [OF c] show ?thesis by simp
qed

lemma peek_Overflow:
  "first_word_equal s w = Inl e \<Longrightarrow> WORDLEN < length s"
  "first_word_integer s = Inl e \<Longrightarrow> WORDLEN < length s"
  "match_fetch s w = Inl Overflow \<Longrightarrow> WORDLEN < length s"
  by (auto simp: first_word_equal_def first_word_integer_def match_fetch_def
      split: sum.splits if_splits dest: read_aword_Overflow)

lemma quoted_string_Overflow: "quoted_string s = Inl Overflow \<Longrightarrow> WORDLEN < length s"
  by (auto simp: quoted_string_def andthen_Inl split: option.splits dest: peek_Overflow)

lemma word_string_Overflow [simp]: "word_string s \<noteq> Inl Overflow"
  by (auto simp: word_string_def split: list.splits)

lemma value_Overflow:
  "match_string s = Inl Overflow \<Longrightarrow> WORDLEN < length s"
  "comparison_value s = Inl Overflow \<Longrightarrow> WORDLEN < length s"
  by (auto simp: match_string_def comparison_value_def andthen_Inl split: if_splits
      dest: peek_Overflow quoted_string_Overflow read_aword_Overflow)

lemma predicate_Overflow: "predicate s = Inl Overflow \<Longrightarrow> WORDLEN < length s"
proof -
  assume err: "predicate s = Inl Overflow"
  have shorter: "WORDLEN < length s" if "WORDLEN < length s'" "length s' \<le> length s" for s'
    using that by simp
  show ?thesis
    using err
    by (auto simp: predicate_def contains_predicate_def andthen_Inl split: if_splits option.splits
        dest: peek_Overflow read_aword_Overflow
        dest!: value_Overflow read_aword_Overflow match_fetch_shorter read_aword_shorter(1))
qed

lemma search_Overflow:
  "(\<forall>s. search_condition n s = Inl Overflow \<longrightarrow> WORDLEN < length s)
   \<and> (\<forall>s. or_loop n s = Inl Overflow \<longrightarrow> WORDLEN < length s)
   \<and> (\<forall>s. boolean_term n s = Inl Overflow \<longrightarrow> WORDLEN < length s)
   \<and> (\<forall>s. and_loop n s = Inl Overflow \<longrightarrow> WORDLEN < length s)
   \<and> (\<forall>s. boolean_factor n s = Inl Overflow \<longrightarrow> WORDLEN < length s)
   \<and> (\<forall>s. boolean_primary n s = Inl Overflow \<longrightarrow> WORDLEN < length s)"
proof (induction n)
  case (Suc n)
  note IH = Suc [THEN conjunct1, rule_format] Suc [THEN conjunct2, THEN conjunct1, rule_format]
    Suc [THEN conjunct2, THEN conjunct2, THEN conjunct1, rule_format]
    Suc [THEN conjunct2, THEN conjunct2, THEN conjunct2, THEN conjunct1, rule_format]
    Suc [THEN conjunct2, THEN conjunct2, THEN conjunct2, THEN conjunct2, THEN conjunct1, rule_format]
    Suc [THEN conjunct2, THEN conjunct2, THEN conjunct2, THEN conjunct2, THEN conjunct2, rule_format]
  note rest = search_functions_shorter [of n, THEN conjunct1, rule_format]
    search_functions_shorter [of n, THEN conjunct2, THEN conjunct2, THEN conjunct1, rule_format]
    boolean_factor_shorter [of n] read_aword_shorter(1)
  show ?case
    by (intro conjI allI impI)
      (auto simp: andthen_Inl split: if_splits
        dest!: IH peek_Overflow read_aword_Overflow predicate_Overflow rest)
qed simp

lemma search_where_render:
  assumes "wf_cond c"
  shows "search_where_gen (render_cond c) b
    = Inr (b @ xml_where c)"
proof -
  have nil: "first_word_equal [] w = Inr False" if "w \<noteq> []" for w
    using that by (auto simp: first_word_equal_def read_aword_def skip_space_def strcaseeq_def)
  obtain n where "search_condition n (render_cond c @ []) = Inr (xml_cond c, [])"
    using render_compiles(4) [OF assms, of "[]"] nil by (auto simp: follows_def)
  then have "search_condition (where_fuel (render_cond c)) (render_cond c) = Inr (xml_cond c, [])"
    using search_condition_where_fuel by simp
  then show ?thesis by (simp add: search_where_gen_def read_aword_def skip_space_def xml_where_def)
qed

section \<open>Properties\<close>

text \<open>C36: compiling a search condition always ends: the fuel \<open>where_fuel\<close> gives the four
  mutually recursive parsers is never used up, whatever the query.\<close>

theorem search_where_terminates: "search_where_gen s b \<noteq> Inl NoFuel"
proof -
  have "search_condition (where_fuel s) s \<noteq> Inl NoFuel"
    using search_fuel_enough by (simp add: where_fuel_def)
  then show ?thesis by (auto simp: search_where_gen_def andthen_Inl)
qed


definition sample_cond :: qcond where
  "sample_cond =
     Or (And (Plain (Pred (Compare ''author'' ''='' (Bare ''Smith''))))
             (Factor (Not (Paren (Term (Factor (Plain (Pred (Compare ''size'' ''<='' (Number ''100''))))))))))
        (Term (Factor (Plain (Pred (Contains (Quoted ''a b''))))))"

lemma sample_cond_wf: "wf_cond sample_cond"
  by (simp add: sample_cond_def ident_def bareword_def number_def quotable_def readable_ops_def
      word_char_def WORDLEN_def ctype_defs strcaseeq_def)




text \<open>C38: a query whose first word is a run of more than \<open>WORDLEN\<close> letters makes
  \<open>read_aword\<close> write past the end of its caller's array, because the loop that copies the
  word has no bound.\<close>

theorem search_long_word_overflows:
  assumes "\<forall>c \<in> set w. isalpha c" and "WORDLEN < length w"
  shows "search_where_gen (w @ r) b = Inl Overflow"
proof -
  let ?P = "\<lambda>x. isalnum x \<or> x = CHR ''_''"
  obtain c cs where w: "w = c # cs" using assms(2) by (cases w) auto
  have c: "isalpha c" "\<not> isspace c" using assms(1) alpha_not_space by (auto simp: w)
  have "\<forall>x \<in> set cs. ?P x" using assms(1) by (auto simp: w isalnum_def)
  then have "length cs \<le> length (takeWhile ?P (cs @ r))" by simp
  then have "scan_word c (cs @ r) = Inl Overflow"
    using c assms(2) by (simp add: scan_word_def store_word_def w)
  then have read: "read_aword (w @ r) = Inl Overflow"
    using c by (simp add: read_aword_def w skip_space_id)
  then have peek: "first_word_equal (w @ r) ''not'' = Inl Overflow"
    by (simp add: first_word_equal_def)
  have n: "where_fuel (w @ r) = Suc (Suc (Suc (where_fuel (w @ r) - 3)))"
    by (simp add: where_fuel_def)
  have "search_condition (where_fuel (w @ r)) (w @ r) = Inl Overflow"
    by (subst n) (simp only: search_condition.simps boolean_term.simps boolean_factor.simps
        peek andthen_simps)
  then show ?thesis by (simp add: search_where_gen_def)
qed

theorem search_long_word_overflows_witness:
  "search_where_gen (replicate 257 CHR ''a'' @ '' = 1'') [] = Inl Overflow"
  by (rule search_long_word_overflows) (simp_all add: WORDLEN_def ctype_defs)

text \<open>No query of at most \<open>WORDLEN\<close> characters overflows a word array.\<close>

theorem search_short_query_safe:
  assumes "length s \<le> WORDLEN"
  shows "search_where_gen s b \<noteq> Inl Overflow"
proof
  assume "search_where_gen s b = Inl Overflow"
  then consider "search_condition (where_fuel s) s = Inl Overflow"
    | x r where "search_condition (where_fuel s) s = Inr (x, r)" "read_aword r = Inl Overflow"
    by (auto simp: search_where_gen_def andthen_Inl split: if_splits)
  then have "WORDLEN < length s"
  proof cases
    case 1
    then show ?thesis using search_Overflow [of "where_fuel s", THEN conjunct1] by blast
  next
    case 2
    then show ?thesis using search_condition_shorter read_aword_Overflow less_le_trans by blast
  qed
  with assms show False by simp
qed

theorem search_short_query_safe_witness: "search_where_gen ''a = 1'' [] \<noteq> Inl Overflow"
  by (rule search_short_query_safe) (simp add: WORDLEN_def)

text \<open>The operator \<open>!=\<close>, which the grammar comment lists and \<open>operator_translate\<close>
  knows, is never accepted: the scanner has no such word and delivers \<open>!\<close> alone.\<close>

theorem search_not_equal_rejected:
  assumes "ident col" and "\<not> strcaseeq col ''contains''" and "\<not> strcaseeq col ''not''"
  shows "search_where_gen (CHR '' '' # col @ '' != '' @ v) b
    = Inl (Syntax (Some ''Syntax error: Invalid operator in the search condition.''))"
proof -
  let ?s = "CHR '' '' # col @ '' != '' @ v"
  let ?e = "Inl (Syntax (Some ''Syntax error: Invalid operator in the search condition.''))"
  have c: "read_aword ?s = Inr (IDEN, col, '' != '' @ v)"
    using read_ident [OF assms(1), of "'' != '' @ v"] by simp
  have o: "read_aword ('' != '' @ v) = Inr (UNKNOWN, ''!'', ''= '' @ v)"
    by (simp add: read_aword_def skip_space_def scan_word_def ctype_defs)
  have p: "predicate ?s = ?e"
    unfolding predicate_def first_word_blank [OF c] c andthen_simps prod.case o
    using assms(2) by (simp add: operator_translate_def)
  have n: "where_fuel ?s = Suc (Suc (Suc (Suc (where_fuel ?s - 4))))"
    by (simp add: where_fuel_def)
  have "search_condition (where_fuel ?s) ?s = ?e"
    using assms(3) ident_not_paren [OF assms(1)]
    by (subst n) (simp only: search_condition.simps boolean_term.simps boolean_factor.simps
        boolean_primary.simps first_word_blank [OF c] andthen_simps p if_False)
  then show ?thesis by (simp add: search_where_gen_def)
qed

theorem search_not_equal_rejected_witness:
  "search_where_gen '' author != Smith'' []
    = Inl (Syntax (Some ''Syntax error: Invalid operator in the search condition.''))"
proof -
  have "ident ''author''" by (simp add: ident_def ctype_defs WORDLEN_def)
  moreover have "\<not> strcaseeq ''author'' ''contains''" "\<not> strcaseeq ''author'' ''not''"
    by (simp_all add: strcaseeq_def)
  ultimately show ?thesis using search_not_equal_rejected [of "''author''" "''Smith''" "[]"] by simp
qed

end
