(* ===== verification/Neon.thy ===== *)
theory Neon
  imports Cprelude
begin

text \<open>
  What the program uses of the neon library as plain data: return codes, lock scopes and
  depths, URIs, locks and the XML callbacks' event stream.  neon's code is not part of
  the repository: its functions are arguments of the definitions that call them, and what
  is assumed of one is a hypothesis of the theorem that needs it.  Three things are used at
  their documented meaning and have no parameter: the allocation wrappers (\<open>ne_strdup\<close>,
  \<open>ne_strndup\<close>, \<open>ne_concat\<close>), which copy and append strings, the string buffers
  (\<open>ne_buffer_zappend\<close> and its kin), which append, and \<open>ne_set_error\<close>, which stores a text.
\<close>

text \<open>\<open>NE_OK\<close> is 0 in C; a status code returned in its place (\<open>do_report\<close>) is never 0.\<close>

datatype ne_ret =
    NE_OK | NE_ERROR | NE_LOOKUP | NE_AUTH | NE_PROXYAUTH | NE_CONNECT | NE_TIMEOUT
  | NE_FAILED | NE_RETRY | NE_REDIRECT | HTTP_CODE int

datatype lock_scope = ne_lockscope_exclusive | ne_lockscope_shared | ne_lockscope_other

datatype depth = NE_DEPTH_ZERO | NE_DEPTH_ONE | NE_DEPTH_INFINITE

text \<open>\<open>ne_uri\<close>: absent components are NULL, port 0 is \<open>not given\<close>.\<close>

record uri =
  u_scheme :: "cstring option"
  u_host :: "cstring option"
  u_userinfo :: "cstring option"
  u_port :: nat
  u_path :: "cstring option"

definition empty_uri :: uri where
  "empty_uri = \<lparr>u_scheme = None, u_host = None, u_userinfo = None, u_port = 0, u_path = None\<rparr>"

record propname =
  pn_nspace :: "cstring option"
  pn_name :: cstring

text \<open>The state an XML start-element callback returns: to accept, or an error that aborts.\<close>

datatype 'e accept = Accept 'e | Abort ne_ret

text \<open>
  The callbacks of \<open>ne_xml_push_handler\<close>, as the events an XML parser delivers: the start of
  an element, character data, the end of an element with the state its start returned.
\<close>

datatype 'e xml_event =
    StartElm cstring cstring
  | Cdata cstring
  | EndElm 'e cstring cstring

text \<open>The table argument of \<open>ne_xml_mapid\<close>.\<close>

type_synonym 'e idmap = "(cstring \<times> cstring \<times> 'e) list"

text \<open>Its documented meaning: the first entry with this namespace and name, or the id 0.\<close>

fun idmap_lookup :: "'e \<Rightarrow> 'e idmap \<Rightarrow> cstring \<Rightarrow> cstring \<Rightarrow> 'e" where
  "idmap_lookup none [] ns n = none"
| "idmap_lookup none ((ns', n', e) # m) ns n =
     (if ns' = ns \<and> n' = n then e else idmap_lookup none m ns n)"

text \<open>A parse: the callbacks one after the other, until one crashes.\<close>

fun run_events :: "('c \<Rightarrow> 'ev \<Rightarrow> 'c option) \<Rightarrow> 'c \<Rightarrow> 'ev list \<Rightarrow> 'c option" where
  "run_events step c [] = Some c"
| "run_events step c (e # es) =
     (case step c e of None \<Rightarrow> None | Some c' \<Rightarrow> run_events step c' es)"

section \<open>A handler that collects responses\<close>

text \<open>
  \<open>search.c\<close> and \<open>version.c\<close> each install such a handler.  The interface: \<open>step\<close> runs
  one callback (\<open>None\<close> is a NULL dereference), \<open>failed\<close> is \<open>err_code != NE_OK\<close>, and
  \<open>root\<close> is the list of finished responses, the last one first.
\<close>

locale response_collector =
  fixes step :: "'c \<Rightarrow> 'ev \<Rightarrow> 'c option"
    and failed :: "'c \<Rightarrow> bool"
    and root :: "'c \<Rightarrow> 'r list"
    and opened :: "'c \<Rightarrow> nat"
    and active :: "'c \<Rightarrow> bool"
    and complete :: "'r \<Rightarrow> bool"
  assumes failed_step: "failed c \<Longrightarrow> step c e = Some c' \<Longrightarrow> failed c' \<and> root c' = root c"
    and root_step: "step c e = Some c' \<Longrightarrow>
      root c' = root c \<or> (\<exists>r. complete r \<and> active c \<and> \<not> active c' \<and> root c' = r # root c)"
    and opened_step: "step c e = Some c' \<Longrightarrow>
      opened c' = opened c \<and> (active c' \<longrightarrow> active c) \<or>
      opened c' = Suc (opened c) \<and> root c' = root c"
begin

abbreviation run :: "'c \<Rightarrow> 'ev list \<Rightarrow> 'c option" where
  "run \<equiv> run_events step"

lemma run_failed: "failed c \<Longrightarrow> run c es = Some c' \<Longrightarrow> failed c' \<and> root c' = root c"
proof (induction es arbitrary: c)
  case (Cons e es)
  then show ?case by (auto split: option.splits dest: failed_step)
qed simp

lemma run_root:
  "run c es = Some c' \<Longrightarrow> \<exists>new. root c' = new @ root c \<and> (\<forall>r \<in> set new. complete r)"
proof (induction es arbitrary: c)
  case (Cons e es)
  then obtain d where d: "step c e = Some d" "run d es = Some c'" by (auto split: option.splits)
  obtain new where new: "root c' = new @ root d" "\<forall>r \<in> set new. complete r"
    using Cons.IH [OF d(2)] by blast
  consider "root d = root c" | r where "complete r" "root d = r # root c"
    using root_step [OF d(1)] by blast
  then show ?case
  proof cases
    case 1
    with new show ?thesis by auto
  next
    case 2
    with new have "root c' = (new @ [r]) @ root c \<and> (\<forall>x \<in> set (new @ [r]). complete x)" by auto
    then show ?thesis ..
  qed
qed simp

text \<open>At most one response is open, and each one was counted when it was opened.\<close>

definition counted :: "'c \<Rightarrow> bool" where
  "counted c \<longleftrightarrow> length (root c) + of_bool (active c) \<le> opened c"

lemma counted_step: "counted c \<Longrightarrow> step c e = Some c' \<Longrightarrow> counted c'"
  using root_step [of c e c'] opened_step [of c e c'] by (auto simp: counted_def of_bool_def split: if_splits)

lemma run_counted: "counted c \<Longrightarrow> run c es = Some c' \<Longrightarrow> counted c'"
proof (induction es arbitrary: c)
  case (Cons e es)
  then show ?case by (auto split: option.splits dest: counted_step)
qed simp

lemma run_length: "counted c \<Longrightarrow> run c es = Some c' \<Longrightarrow> length (root c') \<le> opened c'"
  using run_counted [of c es c'] by (auto simp: counted_def)

end

end
