(* ===== verification/Search_Results.thy ===== *)
theory Search_Results
  imports Neon
begin

text \<open>
  The other half of \<open>src/search.c\<close>: the XML callbacks that turn the multistatus answer of
  a SEARCH request into a list of results, and the pager that displays them.  A callback
  returns \<open>None\<close> where the C code dereferences a NULL pointer.
\<close>

section \<open>Data\<close>

record dead_prop =
  dp_name :: cstring
  dp_nspace :: cstring
  dp_value :: "cstring option"

record search_res =
  href :: "cstring option"
  creationdate :: "cstring option"
  displayname :: "cstring option"
  getcontentlanguage :: "cstring option"
  getcontentlength :: "cstring option"
  getcontenttype :: "cstring option"
  getetag :: "cstring option"
  getlastmodified :: "cstring option"
  lockdiscovery :: "cstring option"
  resourcetype :: "cstring option"
  source :: "cstring option"
  supportedlock :: "cstring option"
  collection :: "cstring option"
  dead_root :: "dead_prop list"
  dead_curr :: "dead_prop option"
  dead_prop_num :: nat

text \<open>\<open>ne_calloc (sizeof (search_res))\<close>.\<close>

definition new_res :: search_res where
  "new_res = \<lparr>href = None, creationdate = None, displayname = None, getcontentlanguage = None,
     getcontentlength = None, getcontenttype = None, getetag = None, getlastmodified = None,
     lockdiscovery = None, resourcetype = None, source = None, supportedlock = None,
     collection = None, dead_root = [], dead_curr = None, dead_prop_num = 0\<rparr>"

text \<open>\<open>sx_message\<close> is the text last given to \<open>ne_set_error\<close> by a callback.\<close>

record search_ctx =
  sx_root :: "search_res list"
  sx_curr :: "search_res option"
  result_num :: nat
  start_prop :: bool
  sx_err_code :: ne_ret
  sx_cdata :: cstring
  sx_message :: "string option"

definition init_search_ctx :: search_ctx where
  "init_search_ctx = \<lparr>sx_root = [], sx_curr = None, result_num = 0, start_prop = False,
     sx_err_code = NE_OK, sx_cdata = [], sx_message = None\<rparr>"

text \<open>\<open>ELEM_unknown\<close> is the value 0 of \<open>ne_xml_mapid\<close> for a name that is not in the table.\<close>

datatype (plugins only: code) search_elem =
    ELEM_unknown | ELEM_multistatus | ELEM_response | ELEM_href | ELEM_prop | ELEM_propstat
  | ELEM_status | ELEM_responsedescription | ELEM_creationdate | ELEM_displayname
  | ELEM_getcontentlanguage | ELEM_getcontentlength | ELEM_getcontenttype | ELEM_getetag
  | ELEM_getlastmodified | ELEM_lockdiscovery | ELEM_resourcetype | ELEM_source
  | ELEM_supportedlock | ELEM_collection | ELEM_ignore

definition search_elements :: "search_elem idmap" where
  "search_elements =
    [(''DAV:'', ''multistatus'', ELEM_multistatus),
     (''DAV:'', ''response'', ELEM_response),
     (''DAV:'', ''responsedescription'', ELEM_responsedescription),
     (''DAV:'', ''href'', ELEM_href),
     (''DAV:'', ''propstat'', ELEM_propstat),
     (''DAV:'', ''prop'', ELEM_prop),
     (''DAV:'', ''status'', ELEM_status),
     (''DAV:'', ''creationdate'', ELEM_creationdate),
     (''DAV:'', ''displayname'', ELEM_displayname),
     (''DAV:'', ''getcontentlanguage'', ELEM_getcontentlanguage),
     (''DAV:'', ''getcontentlength'', ELEM_getcontentlength),
     (''DAV:'', ''getcontenttype'', ELEM_getcontenttype),
     (''DAV:'', ''getetag'', ELEM_getetag),
     (''DAV:'', ''getlastmodified'', ELEM_getlastmodified),
     (''DAV:'', ''lockdiscovery'', ELEM_lockdiscovery),
     (''DAV:'', ''resourcetype'', ELEM_resourcetype),
     (''DAV:'', ''source'', ELEM_source),
     (''DAV:'', ''supportedlock'', ELEM_supportedlock),
     (''DAV:'', ''collection'', ELEM_collection),
     (''DAV:'', ''lockentry'', ELEM_ignore),
     (''DAV:'', ''lockscope'', ELEM_ignore),
     (''DAV:'', ''locktype'', ELEM_ignore),
     (''DAV:'', ''exclusive'', ELEM_ignore),
     (''DAV:'', ''shared'', ELEM_ignore),
     (''DAV:'', ''read'', ELEM_ignore),
     (''DAV:'', ''write'', ELEM_ignore)]"

type_synonym search_event = "search_elem xml_event"

text \<open>\<open>ne_xml_mapid\<close> applied to the table: a parameter, as it is neon's.\<close>

type_synonym search_mapid = "search_elem idmap \<Rightarrow> cstring \<Rightarrow> cstring \<Rightarrow> search_elem"

section \<open>Callbacks\<close>

text \<open>The message goes through a \<open>char buf [512]\<close>.\<close>

definition set_xml_error :: "string \<Rightarrow> search_ctx \<Rightarrow> search_ctx" where
  "set_xml_error msg c = c\<lparr>sx_message := Some (take 511 msg), sx_err_code := NE_ERROR\<rparr>"

definition start_element ::
  "search_mapid \<Rightarrow> bool \<Rightarrow> search_ctx \<Rightarrow> cstring \<Rightarrow> cstring \<Rightarrow> search_elem accept \<times> search_ctx" where
  "start_element mapid searchall c nspace name =
     (let state = mapid search_elements nspace name in
      if sx_err_code c \<noteq> NE_OK then (Abort (sx_err_code c), c)
      else
        let c = c\<lparr>sx_cdata := []\<rparr> in
        (Accept state,
         case state of
           ELEM_ignore \<Rightarrow> c
         | ELEM_response \<Rightarrow> c\<lparr>sx_curr := Some new_res, result_num := Suc (result_num c)\<rparr>
         | ELEM_href \<Rightarrow> c
         | ELEM_propstat \<Rightarrow> c
         | ELEM_prop \<Rightarrow>
             (case sx_curr c of
                None \<Rightarrow> set_xml_error (''XML : <'' @ name @ ''> is in the wrong place'') c
              | Some _ \<Rightarrow> c\<lparr>start_prop := True\<rparr>)
         | _ \<Rightarrow>
             (case sx_curr c of
                Some res \<Rightarrow>
                  if searchall \<and> start_prop c then
                    c\<lparr>sx_curr := Some (res\<lparr>dead_prop_num := Suc (dead_prop_num res),
                        dead_curr := Some \<lparr>dp_name = name, dp_nspace = nspace, dp_value = None\<rparr>\<rparr>)\<rparr>
                  else c
              | None \<Rightarrow> c)))"

definition cdata_search :: "search_ctx \<Rightarrow> cstring \<Rightarrow> search_ctx" where
  "cdata_search c buf = c\<lparr>sx_cdata := sx_cdata c @ buf\<rparr>"

text \<open>\<open>SEARCH_CP_ELEM\<close>: copy the character data into a field of the open result.\<close>

definition search_cp_elem ::
  "(cstring \<Rightarrow> search_res \<Rightarrow> search_res) \<Rightarrow> cstring \<Rightarrow> search_ctx \<Rightarrow> search_ctx" where
  "search_cp_elem put name c =
     (case sx_curr c of
        None \<Rightarrow> set_xml_error (''XML : </'' @ name @ ''> is in the wrong place'') c
      | Some res \<Rightarrow> c\<lparr>sx_curr := Some (put (sx_cdata c) res)\<rparr>)"

definition end_response :: "cstring \<Rightarrow> search_ctx \<Rightarrow> search_ctx" where
  "end_response name c =
     (case sx_curr c of
        None \<Rightarrow> set_xml_error (''XML : </'' @ name @ ''> is in the wrong place'') c
      | Some res \<Rightarrow>
          if href res = None then
            set_xml_error (''XML : No href info in the <'' @ name @ ''>...</'' @ name @ ''>'') c
          else c\<lparr>sx_root := res # sx_root c, sx_curr := None\<rparr>)"

text \<open>The default branch: the open dead property gets its value and is linked in.\<close>

definition end_dead_prop :: "bool \<Rightarrow> search_ctx \<Rightarrow> search_ctx option" where
  "end_dead_prop searchall c =
     (case sx_curr c of
        Some res \<Rightarrow>
          if searchall \<and> start_prop c then
            (case dead_curr res of
               None \<Rightarrow> None
             | Some d \<Rightarrow> Some (c\<lparr>sx_curr := Some (res\<lparr>
                 dead_root := d\<lparr>dp_value := Some (sx_cdata c)\<rparr> # dead_root res, dead_curr := None\<rparr>)\<rparr>))
          else Some c
      | None \<Rightarrow> Some c)"

definition end_element ::
  "bool \<Rightarrow> search_ctx \<Rightarrow> search_elem \<Rightarrow> cstring \<Rightarrow> cstring \<Rightarrow> (ne_ret \<times> search_ctx) option" where
  "end_element searchall c state nspace name =
     (if sx_err_code c \<noteq> NE_OK then Some (sx_err_code c, c)
      else map_option (Pair NE_OK)
       (case state of
          ELEM_ignore \<Rightarrow> Some c
        | ELEM_response \<Rightarrow> Some (end_response name c)
        | ELEM_href \<Rightarrow> Some (search_cp_elem (\<lambda>v r. r\<lparr>href := Some v\<rparr>) name c)
        | ELEM_creationdate \<Rightarrow> Some (search_cp_elem (\<lambda>v r. r\<lparr>creationdate := Some v\<rparr>) name c)
        | ELEM_displayname \<Rightarrow> Some (search_cp_elem (\<lambda>v r. r\<lparr>displayname := Some v\<rparr>) name c)
        | ELEM_getcontentlanguage \<Rightarrow>
            Some (search_cp_elem (\<lambda>v r. r\<lparr>getcontentlanguage := Some v\<rparr>) name c)
        | ELEM_getcontentlength \<Rightarrow>
            Some (search_cp_elem (\<lambda>v r. r\<lparr>getcontentlength := Some v\<rparr>) name c)
        | ELEM_getcontenttype \<Rightarrow> Some (search_cp_elem (\<lambda>v r. r\<lparr>getcontenttype := Some v\<rparr>) name c)
        | ELEM_getetag \<Rightarrow> Some (search_cp_elem (\<lambda>v r. r\<lparr>getetag := Some v\<rparr>) name c)
        | ELEM_getlastmodified \<Rightarrow>
            Some (search_cp_elem (\<lambda>v r. r\<lparr>getlastmodified := Some v\<rparr>) name c)
        | ELEM_lockdiscovery \<Rightarrow> Some (search_cp_elem (\<lambda>v r. r\<lparr>lockdiscovery := Some v\<rparr>) name c)
        | ELEM_resourcetype \<Rightarrow> Some (search_cp_elem (\<lambda>v r. r\<lparr>resourcetype := Some v\<rparr>) name c)
        | ELEM_source \<Rightarrow> Some (search_cp_elem (\<lambda>v r. r\<lparr>source := Some v\<rparr>) name c)
        | ELEM_supportedlock \<Rightarrow> Some (search_cp_elem (\<lambda>v r. r\<lparr>supportedlock := Some v\<rparr>) name c)
        | ELEM_collection \<Rightarrow> Some (search_cp_elem (\<lambda>v r. r\<lparr>collection := Some v\<rparr>) name c)
        | ELEM_propstat \<Rightarrow> Some c
        | ELEM_prop \<Rightarrow>
            Some (case sx_curr c of
                    None \<Rightarrow> set_xml_error (''XML : </'' @ name @ ''> is in the wrong place'') c
                  | Some _ \<Rightarrow> c\<lparr>start_prop := False\<rparr>)
        | _ \<Rightarrow> end_dead_prop searchall c))"

text \<open>One callback, its return value dropped.\<close>

definition search_step :: "search_mapid \<Rightarrow> bool \<Rightarrow> search_ctx \<Rightarrow> search_event \<Rightarrow> search_ctx option" where
  "search_step mapid searchall c e =
     (case e of
        StartElm nspace name \<Rightarrow> Some (snd (start_element mapid searchall c nspace name))
      | Cdata buf \<Rightarrow> Some (cdata_search c buf)
      | EndElm state nspace name \<Rightarrow> map_option snd (end_element searchall c state nspace name))"

section \<open>Lemmas\<close>

definition search_failed :: "search_ctx \<Rightarrow> bool" where
  "search_failed c \<longleftrightarrow> sx_err_code c \<noteq> NE_OK"

definition search_active :: "search_ctx \<Rightarrow> bool" where
  "search_active c \<longleftrightarrow> sx_curr c \<noteq> None"

definition has_href :: "search_res \<Rightarrow> bool" where
  "has_href r \<longleftrightarrow> href r \<noteq> None"

lemmas search_callback_defs = search_step_def start_element_def cdata_search_def end_element_def
  search_cp_elem_def end_response_def end_dead_prop_def set_xml_error_def

lemma search_step_failed:
  "search_failed c \<Longrightarrow> search_step mapid all c e = Some c' \<Longrightarrow> search_failed c' \<and> sx_root c' = sx_root c"
  by (auto simp: search_callback_defs search_failed_def Let_def split: xml_event.splits)

lemma search_step_root:
  assumes "search_step mapid all c e = Some c'"
  shows "sx_root c' = sx_root c \<or>
    (\<exists>r. has_href r \<and> search_active c \<and> \<not> search_active c' \<and> sx_root c' = r # sx_root c)"
proof (cases e)
  case (EndElm s n m)
  with assms show ?thesis
    by (cases s; auto simp: search_callback_defs has_href_def search_active_def
        split: if_splits option.splits)
next
  case (StartElm n m)
  with assms show ?thesis
    by (auto simp: search_callback_defs Let_def split: search_elem.splits option.splits)
qed (use assms in \<open>auto simp: search_callback_defs\<close>)

lemma search_step_opened:
  assumes "search_step mapid all c e = Some c'"
  shows "result_num c' = result_num c \<and> (search_active c' \<longrightarrow> search_active c) \<or>
    result_num c' = Suc (result_num c) \<and> sx_root c' = sx_root c"
proof (cases e)
  case (EndElm s n m)
  with assms show ?thesis
    by (cases s; auto simp: search_callback_defs search_active_def split: if_splits option.splits)
next
  case (StartElm n m)
  with assms show ?thesis
    by (cases "mapid search_elements n m"; auto simp: search_callback_defs Let_def search_active_def
        split: option.splits if_splits)
qed (use assms in \<open>auto simp: search_callback_defs search_active_def\<close>)

definition search_run ::
  "search_mapid \<Rightarrow> bool \<Rightarrow> search_ctx \<Rightarrow> search_event list \<Rightarrow> search_ctx option" where
  "search_run mapid searchall = run_events (search_step mapid searchall)"

interpretation sr: response_collector "search_step mapid all" search_failed sx_root result_num
    search_active has_href
  for mapid all
  by unfold_locales (fact search_step_failed search_step_root search_step_opened)+

text \<open>Without the \<open>searchall\<close> option no callback follows a pointer to a dead property.\<close>

lemma search_step_searchall_off: "search_step mapid False c e \<noteq> None"
  by (cases e) (auto simp: search_callback_defs split: search_elem.splits option.splits)

lemma search_run_searchall_off: "search_run mapid False c es \<noteq> None"
  unfolding search_run_def
proof (induction es arbitrary: c)
  case (Cons e es)
  then show ?case using search_step_searchall_off [of mapid c e] by auto
qed simp

section \<open>Display\<close>

definition RESULT_PER_PAGE :: nat where
  "RESULT_PER_PAGE = 15"

text \<open>The lines printed for one dead property and one result.\<close>

definition dead_prop_line :: "dead_prop \<Rightarrow> string" where
  "dead_prop_line d =
     CHR 0x09 # ''-  '' @ dp_nspace d @ '':'' @ dp_name d @ '' = '' @ str_or_null (dp_value d) @ ''\<newline>''"

definition result_line :: "(cstring \<Rightarrow> int) \<Rightarrow> (int \<Rightarrow> string) \<Rightarrow> nat \<Rightarrow> search_res \<Rightarrow> string" where
  "result_line httpdate format_time i res =
     (let modtime = (case getlastmodified res of Some t \<Rightarrow> httpdate t | None \<Rightarrow> 0);
          size = (case getcontentlength res of Some t \<Rightarrow> to_int (atol t) | None \<Rightarrow> 0)
      in ''['' @ show_nat i @ ''] '' @ pad_right 40 (str_or_null (href res)) @ '' '' @ '' ''
         @ pad_left 10 (show_int size) @ ''  '' @ format_time modtime @ '' <''
         @ take 10 (case getcontenttype res of Some t \<Rightarrow> t | None \<Rightarrow> []) @ ''>\<newline>'')"

definition page_header :: "nat \<Rightarrow> nat \<Rightarrow> string" where
  "page_header num i =
     ''Found '' @ show_nat num @ '' results ('' @ show_nat i @ ''-''
     @ show_nat (if num < i + 9 then num else i + 9) @ '')\<newline>\<newline>''"

definition page_prompt :: string where
  "page_prompt = ''-- Enter to More, 'q' to QUIT --\<newline>''"

text \<open>
  The loop of \<open>display_results\<close>: the texts printed and what is left of standard input.  The
  arguments \<open>httpdate\<close> and \<open>format_time\<close> are \<open>ne_httpdate_parse\<close> and \<open>format_time\<close>.
\<close>

fun display_loop ::
  "(cstring \<Rightarrow> int) \<Rightarrow> (int \<Rightarrow> string) \<Rightarrow> bool \<Rightarrow> nat \<Rightarrow> nat \<Rightarrow> search_res list \<Rightarrow> string
    \<Rightarrow> string list \<times> string" where
  "display_loop httpd ft searchall num i [] inp = ([], inp)"
| "display_loop httpd ft searchall num i (res # rest) inp =
     (let header = (if i mod RESULT_PER_PAGE = 1 then [page_header num i] else []);
          dead = (if searchall then map dead_prop_line (dead_root res) else []);
          out = header @ [result_line httpd ft i res] @ dead
      in if i mod RESULT_PER_PAGE = 0 then
           (case inp of
              [] \<Rightarrow> (out @ [page_prompt], [])
            | ch # inp' \<Rightarrow>
                if ch = CHR ''q'' then (out @ [page_prompt], inp')
                else let (more, inp'') = display_loop httpd ft searchall num (Suc i) rest inp'
                     in (out @ [page_prompt] @ more, inp''))
         else let (more, inp') = display_loop httpd ft searchall num (Suc i) rest inp
              in (out @ more, inp'))"

definition display_results ::
  "(cstring \<Rightarrow> int) \<Rightarrow> (int \<Rightarrow> string) \<Rightarrow> bool \<Rightarrow> search_ctx \<Rightarrow> string \<Rightarrow> string list \<times> string" where
  "display_results httpdate format_time searchall sctx inp =
     (if sx_err_code sctx \<noteq> NE_OK then ([], inp)
      else display_loop httpdate format_time searchall (result_num sctx) 1 (sx_root sctx) inp)"

text \<open>The results of a page that are not its last are displayed one after the other.\<close>

lemma display_loop_within_page:
  assumes "\<And>k. k < length rs \<Longrightarrow> (i + k) mod RESULT_PER_PAGE \<noteq> 0 \<and> (i + k) mod RESULT_PER_PAGE \<noteq> 1"
  shows "fst (display_loop h f False num i (rs @ rest) inp)
    = map (\<lambda>(k, r). result_line h f k r) (zip [i..<i + length rs] rs)
      @ fst (display_loop h f False num (i + length rs) rest inp)"
  using assms
proof (induction rs arbitrary: i)
  case (Cons r rs)
  have "i mod RESULT_PER_PAGE \<noteq> 0 \<and> i mod RESULT_PER_PAGE \<noteq> 1" using Cons.prems [of 0] by simp
  moreover have "(Suc i + k) mod RESULT_PER_PAGE \<noteq> 0 \<and> (Suc i + k) mod RESULT_PER_PAGE \<noteq> 1"
    if "k < length rs" for k
    using Cons.prems [of "Suc k"] that by simp
  moreover have "[i..<i + length (r # rs)] = i # [Suc i..<Suc i + length rs]"
    by (subst upt_rec) simp
  ultimately show ?case using Cons.IH [of "Suc i"]
    by (simp del: upt_Suc add: Let_def case_prod_unfold)
qed simp

section \<open>Properties\<close>

text \<open>C18: whatever the server sends, if the parse does not crash then every result in the list has
  the \<open>href\<close> that \<open>display_results\<close> prints, and the list is not longer than the number
  \<open>Found ... results\<close> announces.\<close>

theorem search_results_have_href:
  assumes "search_run mapid searchall init_search_ctx es = Some c"
  shows "(\<forall>r \<in> set (sx_root c). href r \<noteq> None) \<and> length (sx_root c) \<le> result_num c"
proof
  have run: "run_events (search_step mapid searchall) init_search_ctx es = Some c"
    using assms by (simp add: search_run_def)
  show "\<forall>r \<in> set (sx_root c). href r \<noteq> None"
    using sr.run_root [OF run] by (auto simp: init_search_ctx_def has_href_def)
  have "sr.counted init_search_ctx"
    by (simp add: sr.counted_def init_search_ctx_def search_active_def)
  then show "length (sx_root c) \<le> result_num c" using run by (rule sr.run_length)
qed

abbreviation D :: "cstring \<Rightarrow> search_event" where
  "D n \<equiv> StartElm ''DAV:'' n"

definition sample_events :: "search_event list" where
  "sample_events =
    [D ''multistatus'', D ''response'', D ''href'', Cdata ''/a'', EndElm ELEM_href ''DAV:'' ''href'',
     D ''propstat'', D ''prop'', D ''getetag'', Cdata ''x1'', EndElm ELEM_getetag ''DAV:'' ''getetag'',
     EndElm ELEM_prop ''DAV:'' ''prop'', EndElm ELEM_propstat ''DAV:'' ''propstat'',
     EndElm ELEM_response ''DAV:'' ''response'', EndElm ELEM_multistatus ''DAV:'' ''multistatus'']"

theorem search_results_have_href_witness:
  "\<exists>c. search_run (idmap_lookup ELEM_unknown) True init_search_ctx sample_events = Some c
     \<and> length (sx_root c) = 1 \<and> (\<forall>r \<in> set (sx_root c). href r \<noteq> None) \<and> 1 \<le> result_num c"
proof -
  have "map_option (\<lambda>c. length (sx_root c))
      (search_run (idmap_lookup ELEM_unknown) True init_search_ctx sample_events) = Some 1"
    by code_simp
  then obtain c where c: "search_run (idmap_lookup ELEM_unknown) True init_search_ctx sample_events = Some c"
    and one: "length (sx_root c) = 1" by auto
  from search_results_have_href [OF c] c one show ?thesis by auto
qed

text \<open>After the first error of a callback nothing is added to the list any more and the error
  stays, whatever else is in the answer.\<close>

theorem search_error_is_final:
  assumes "sx_err_code c \<noteq> NE_OK" and "search_run mapid searchall c es = Some c'"
  shows "sx_err_code c' \<noteq> NE_OK \<and> sx_root c' = sx_root c"
  using sr.run_failed [of c mapid searchall es c'] assms by (simp add: search_failed_def search_run_def)

theorem search_error_is_final_witness:
  "\<exists>c c'. search_run (idmap_lookup ELEM_unknown) True init_search_ctx [D ''prop''] = Some c
     \<and> search_run (idmap_lookup ELEM_unknown) True c sample_events = Some c'
     \<and> sx_err_code c' \<noteq> NE_OK \<and> sx_root c' = []"
proof -
  have "(case search_run (idmap_lookup ELEM_unknown) True init_search_ctx [D ''prop''] of
      None \<Rightarrow> False
    | Some c \<Rightarrow> sx_err_code c \<noteq> NE_OK \<and> sx_root c = []
        \<and> search_run (idmap_lookup ELEM_unknown) True c sample_events \<noteq> None)"
    by code_simp
  then obtain c c' where c: "search_run (idmap_lookup ELEM_unknown) True init_search_ctx [D ''prop''] = Some c"
    and err: "sx_err_code c \<noteq> NE_OK" and root: "sx_root c = []"
    and run: "search_run (idmap_lookup ELEM_unknown) True c sample_events = Some c'"
    by (auto split: option.splits)
  from search_error_is_final [OF err run] c run root show ?thesis by auto
qed

text \<open>Two nested elements that take the default branch, for example a \<open>status\<close> inside a
  \<open>status\<close> inside \<open>prop\<close>, make \<open>end_element\<close> follow a NULL pointer: the inner end
  resets \<open>res->curr\<close> and the outer end dereferences it.  So an answer of the server can crash
  the client when the option \<open>searchall\<close> is on (its default).\<close>

theorem search_nested_props_crash:
  assumes "mapid search_elements ''DAV:'' ''prop'' = ELEM_prop"
    and "mapid search_elements ''DAV:'' ''response'' = ELEM_response"
    and "mapid search_elements ''DAV:'' ''status'' = ELEM_status"
  shows "search_run mapid True init_search_ctx
    [D ''response'', D ''prop'', D ''status'', D ''status'',
     EndElm ELEM_status ''DAV:'' ''status'', EndElm ELEM_status ''DAV:'' ''status''] = None"
  by (simp add: search_run_def search_callback_defs assms init_search_ctx_def new_res_def)

theorem search_nested_props_crash_witness:
  "search_run (idmap_lookup ELEM_unknown) True init_search_ctx
    [D ''response'', D ''prop'', D ''status'', D ''status'',
     EndElm ELEM_status ''DAV:'' ''status'', EndElm ELEM_status ''DAV:'' ''status''] = None"
  by (rule search_nested_props_crash) (simp_all add: search_elements_def)

text \<open>With \<open>searchall\<close> off no sequence of callbacks crashes.\<close>

theorem search_searchall_off_safe: "\<exists>c'. search_run mapid False c es = Some c'"
  using search_run_searchall_off [of mapid c es] by auto

text \<open>The first page shows fifteen results, while the heading above it announces results 1
  to 10.\<close>

theorem search_first_page:
  assumes "RESULT_PER_PAGE \<le> length rs"
  shows "fst (display_loop h f False (length rs) 1 rs [])
    = page_header (length rs) 1
      # map (\<lambda>(k, r). result_line h f k r) (zip [1..<16] (take 15 rs)) @ [page_prompt]
    \<and> page_header (length rs) 1 = ''Found '' @ show_nat (length rs) @ '' results ('' @ show_nat 1
      @ ''-'' @ show_nat 10 @ '')\<newline>\<newline>''"
proof
  obtain r1 tail where rs: "rs = r1 # tail" and len: "14 \<le> length tail"
    using assms by (cases rs) (auto simp: RESULT_PER_PAGE_def)
  obtain mid r15 after where mid: "tail = mid @ r15 # after" "length mid = 13"
    using len id_take_nth_drop [of 13 tail] that [of "take 13 tail" "tail ! 13"] by simp
  have page: "fst (display_loop h f False n 2 (mid @ r15 # after) [])
      = map (\<lambda>(k, r). result_line h f k r) (zip [2..<15] mid)
        @ fst (display_loop h f False n 15 (r15 # after) [])" for n
    using display_loop_within_page [of mid 2 h f n "r15 # after" "[]"] mid(2)
    by (simp add: RESULT_PER_PAGE_def)
  show "fst (display_loop h f False (length rs) 1 rs []) = page_header (length rs) 1
      # map (\<lambda>(k, r). result_line h f k r) (zip [1..<16] (take 15 rs)) @ [page_prompt]"
  proof -
    have second: "fst (display_loop h f False n 1 (r1 # mid @ r15 # after) [])
        = page_header n 1 # result_line h f 1 r1 # fst (display_loop h f False n 2 (mid @ r15 # after) [])" for n
      by (simp add: RESULT_PER_PAGE_def numeral_2_eq_2 split: prod.splits)
    have last: "fst (display_loop h f False n 15 (r15 # after) []) = [result_line h f 15 r15, page_prompt]" for n
      by (simp add: RESULT_PER_PAGE_def)
    have shown: "zip [1..<16] (take 15 (r1 # mid @ r15 # after)) = (1, r1) # zip [2..<15] mid @ [(15, r15)]"
    proof -
      have "take 15 (r1 # mid @ r15 # after) = r1 # mid @ [r15]" using mid(2) by simp
      moreover have "[1..<16::nat] = 1 # [2..<15] @ [15]" by code_simp
      moreover have "length [2..<15] = length mid" using mid(2) by simp
      ultimately show ?thesis by (simp only: zip_Cons_Cons zip_append zip_Nil)
    qed
    show ?thesis unfolding rs mid(1) second shown page last by simp
  qed
  show "page_header (length rs) 1 = ''Found '' @ show_nat (length rs) @ '' results ('' @ show_nat 1
      @ ''-'' @ show_nat 10 @ '')\<newline>\<newline>''"
    using assms by (simp add: page_header_def RESULT_PER_PAGE_def)
qed

theorem search_first_page_witness:
  "\<exists>lines. fst (display_loop (\<lambda>s. 0) (\<lambda>t. []) False 20 1 (replicate 20 new_res) [])
     = page_header 20 1 # lines @ [page_prompt] \<and> length lines = 15"
proof -
  have "RESULT_PER_PAGE \<le> length (replicate 20 new_res)" by (simp add: RESULT_PER_PAGE_def)
  from search_first_page [OF this, of "\<lambda>s. 0" "\<lambda>t. []"] show ?thesis
    by (intro exI [of _ "map (\<lambda>(k, r). result_line (\<lambda>s. 0) (\<lambda>t. []) k r) (zip [1..<16] (take 15 (replicate 20 new_res)))"])
      (simp del: replicate_Suc take_replicate)
qed

end
