(* ===== verification/Lib_Strings.thy ===== *)
theory Lib_Strings
  imports Cprelude
begin

text \<open>
  The helpers under \<open>lib/\<close> that decide about paths and answers: \<open>base_name\<close>
  (\<open>lib/basename.c\<close>), \<open>dir_name\<close> (\<open>lib/dirname.c\<close>), \<open>rpmatch\<close> (\<open>lib/rpmatch.c\<close>,
  the variant without regular expressions) and \<open>yesno\<close> (\<open>lib/yesno.c\<close>); and the two input
  functions of stdio the program reads lines with.
\<close>

section \<open>basename.c and dirname.c\<close>

abbreviation slash :: char where
  "slash \<equiv> CHR ''/''"

text \<open>The loop: the pointer \<open>p\<close>, the candidate \<open>base\<close> and \<open>all_slashes\<close>.\<close>

fun base_scan :: "cstring \<Rightarrow> cstring \<Rightarrow> bool \<Rightarrow> cstring \<times> bool" where
  "base_scan [] base all_slashes = (base, all_slashes)"
| "base_scan (c # p) base all_slashes =
     (if c = slash then base_scan p p all_slashes else base_scan p base False)"

definition base_name :: "cstring \<Rightarrow> cstring" where
  "base_name name =
     (let (base, all_slashes) = base_scan name name True
      in if base = [] \<and> name \<noteq> [] \<and> hd name = slash \<and> all_slashes then drop (length name - 1) name
         else base)"

definition dir_name :: "cstring \<Rightarrow> cstring" where
  "dir_name path =
     (case strrchr path slash of
        None \<Rightarrow> []
      | Some r \<Rightarrow> take (length path - length r + 1) path)"

definition all_slash :: "cstring \<Rightarrow> bool" where
  "all_slash p \<longleftrightarrow> p \<noteq> [] \<and> set p \<subseteq> {slash}"

lemma base_scan_no_slash: "slash \<notin> set p \<Longrightarrow> base_scan p base a = (base, a \<and> p = [])"
  by (induction p arbitrary: a) auto

lemma base_scan_slash:
  "slash \<notin> set t \<Longrightarrow> base_scan (p @ slash # t) base a = (t, a \<and> set (p @ t) \<subseteq> {slash})"
proof (induction p arbitrary: base a)
  case Nil
  then show ?case by (cases t) (auto simp: base_scan_no_slash)
next
  case (Cons c p)
  then show ?case by (cases "c = slash") auto
qed

lemma base_name_no_slash: "slash \<notin> set p \<Longrightarrow> base_name p = p"
  by (cases p) (auto simp: base_name_def base_scan_no_slash)

lemma base_name_slash: "slash \<notin> set t \<Longrightarrow> \<not> all_slash (p @ slash # t) \<Longrightarrow> base_name (p @ slash # t) = t"
  by (auto simp: base_name_def base_scan_slash all_slash_def)

lemma base_name_all_slash:
  assumes "all_slash p"
  shows "base_name p = [slash]"
proof -
  obtain q where q: "p = q @ [slash]" using assms
    by (cases p rule: rev_cases) (auto simp: all_slash_def)
  moreover have "hd p = slash" using assms by (cases p) (auto simp: all_slash_def)
  ultimately show ?thesis using assms base_scan_slash [of "[]" q p True]
    by (auto simp: base_name_def all_slash_def)
qed

lemma dir_name_slash: "slash \<notin> set t \<Longrightarrow> dir_name (p @ slash # t) = p @ [slash]"
  by (simp add: dir_name_def strrchr_last)

lemma split_last_slash: "slash \<in> set p \<Longrightarrow> \<exists>q t. p = q @ slash # t \<and> slash \<notin> set t"
  by (rule split_list_last)

section \<open>rpmatch.c and yesno.c\<close>

text \<open>1 is yes, 0 is no, -1 is neither.\<close>

definition rpmatch :: "cstring \<Rightarrow> int" where
  "rpmatch response =
     (case response of
        [] \<Rightarrow> -1
      | c # _ \<Rightarrow> if c = CHR ''y'' \<or> c = CHR ''Y'' then 1
                else if c = CHR ''n'' \<or> c = CHR ''N'' then 0 else -1)"

text \<open>The loop of \<open>yesno\<close>: the buffer of 128 bytes is filled, the rest of the line dropped.\<close>

fun yesno_loop :: "cstring \<Rightarrow> string \<Rightarrow> cstring \<times> string" where
  "yesno_loop buf [] = (buf, [])"
| "yesno_loop buf (c # inp) =
     (if c = CHR 0x0A then (buf, inp)
      else if 0 < length buf \<and> length buf < 127 \<or> length buf = 0 \<and> \<not> isspace c
      then yesno_loop (buf @ [c]) inp
      else yesno_loop buf inp)"

definition yesno :: "string \<Rightarrow> bool \<times> string" where
  "yesno inp = (let (buf, rest) = yesno_loop [] inp in (rpmatch buf = 1, rest))"

lemma yesno_loop_rest: "snd (yesno_loop buf inp) = drop 1 (dropWhile (\<lambda>c. c \<noteq> CHR 0x0A) inp)"
  by (induction buf inp rule: yesno_loop.induct) auto

lemma yesno_loop_head:
  "buf \<noteq> [] \<Longrightarrow> \<exists>t. fst (yesno_loop buf inp) = hd buf # t"
proof (induction buf inp rule: yesno_loop.induct)
  case (1 buf)
  then show ?case by (cases buf) auto
next
  case (2 buf c inp)
  then show ?case by (cases buf) auto
qed

lemma yesno_loop_first:
  "case dropWhile isspace (takeWhile (\<lambda>c. c \<noteq> CHR 0x0A) inp) of
     [] \<Rightarrow> fst (yesno_loop [] inp) = []
   | c # cs \<Rightarrow> (\<exists>t. fst (yesno_loop [] inp) = c # t)"
proof (induction inp)
  case (Cons c inp)
  consider "c = CHR 0x0A" | "isspace c" "c \<noteq> CHR 0x0A" | "\<not> isspace c" "c \<noteq> CHR 0x0A" by blast
  then show ?case
  proof cases
    case 2
    with Cons show ?thesis by (simp cong: list.case_cong)
  next
    case 3
    then show ?thesis using yesno_loop_head [of "[c]" inp] by simp
  qed simp
qed simp

section \<open>Lines of a stream\<close>

definition BUFSIZ :: nat where
  "BUFSIZ = 8192"

text \<open>\<open>fgets (buf, n, f)\<close> for n at least 2: a line with its newline, at most n - 1 bytes of it.\<close>

fun line_part :: "nat \<Rightarrow> string \<Rightarrow> string \<times> string" where
  "line_part 0 s = ([], s)"
| "line_part (Suc n) [] = ([], [])"
| "line_part (Suc n) (c # s) =
     (if c = CHR 0x0A then ([c], s) else let (l, r) = line_part n s in (c # l, r))"

definition fgets :: "nat \<Rightarrow> string \<Rightarrow> (cstring \<times> string) option" where
  "fgets n s = (if s = [] then None else Some (line_part (n - 1) s))"

lemma line_part_append: "fst (line_part n s) @ snd (line_part n s) = s"
  by (induction n s rule: line_part.induct) (auto simp: Let_def case_prod_unfold)

lemma line_part_shorter: "0 < n \<Longrightarrow> s \<noteq> [] \<Longrightarrow> length (snd (line_part n s)) < length s"
proof -
  assume "0 < n" "s \<noteq> []"
  then have "fst (line_part n s) \<noteq> []"
    by (cases n; cases s) (auto simp: Let_def case_prod_unfold)
  then have "0 < length (fst (line_part n s))" by simp
  moreover have "length (fst (line_part n s)) + length (snd (line_part n s)) = length s"
    using arg_cong [OF line_part_append [of n s], of length] by simp
  ultimately show ?thesis by linarith
qed

text \<open>All lines a loop over \<open>fgets\<close> reads.\<close>

function fgets_lines :: "nat \<Rightarrow> string \<Rightarrow> cstring list" where
  "fgets_lines n s =
     (if s = [] \<or> n < 2 then []
      else fst (line_part (n - 1) s) # fgets_lines n (snd (line_part (n - 1) s)))"
  by pat_completeness auto
termination
  by (relation "measure (\<lambda>(n, s). length s)") (auto intro: line_part_shorter)

declare fgets_lines.simps [simp del]

lemma line_part_line:
  "CHR 0x0A \<notin> set l \<Longrightarrow> length l < n \<Longrightarrow> line_part n (l @ CHR 0x0A # s) = (l @ [CHR 0x0A], s)"
proof (induction l arbitrary: n)
  case Nil
  then show ?case by (cases n) auto
next
  case (Cons c l)
  then show ?case by (cases n) auto
qed

lemma fgets_lines_Nil: "fgets_lines n [] = []"
  by (subst fgets_lines.simps) simp

lemma fgets_lines_line:
  "CHR 0x0A \<notin> set l \<Longrightarrow> length l + 2 \<le> n \<Longrightarrow>
   fgets_lines n (l @ CHR 0x0A # s) = (l @ [CHR 0x0A]) # fgets_lines n s"
  by (subst fgets_lines.simps) (simp add: line_part_line)

section \<open>Properties\<close>

text \<open>The directory part and the base name of a path put together give the path again,
  unless it consists of slashes only; then the base name is a single slash.\<close>

theorem dir_base_name:
  "dir_name p @ base_name p = (if all_slash p then p @ [slash] else p)"
proof (cases "slash \<in> set p")
  case True
  then obtain q t where p: "p = q @ slash # t" "slash \<notin> set t" using split_last_slash by blast
  show ?thesis
  proof (cases "all_slash p")
    case True
    then have "t = []" using p by (cases t) (auto simp: all_slash_def)
    with True p show ?thesis by (simp add: base_name_all_slash dir_name_slash)
  next
    case False
    with p show ?thesis by (simp add: base_name_slash dir_name_slash)
  qed
next
  case False
  then have "\<not> all_slash p" by (cases p) (auto simp: all_slash_def)
  with False show ?thesis by (simp add: base_name_no_slash dir_name_def strrchr_None [THEN iffD2])
qed

text \<open>\<open>yesno\<close> says yes exactly when the first character of the line that is not white
  space is y or Y, and it consumes the line up to and including its newline, however long.\<close>

theorem yesno_answer:
  "yesno inp =
    (case dropWhile isspace (takeWhile (\<lambda>c. c \<noteq> CHR 0x0A) inp) of
       [] \<Rightarrow> False
     | c # cs \<Rightarrow> c = CHR ''y'' \<or> c = CHR ''Y'',
     drop 1 (dropWhile (\<lambda>c. c \<noteq> CHR 0x0A) inp))"
proof (cases "dropWhile isspace (takeWhile (\<lambda>c. c \<noteq> CHR 0x0A) inp)")
  case Nil
  with yesno_loop_first [of inp] have "fst (yesno_loop [] inp) = []" by simp
  with Nil show ?thesis
    by (simp add: yesno_def Let_def case_prod_unfold rpmatch_def yesno_loop_rest del: dropWhile_eq_Nil_conv)
next
  case (Cons c cs)
  with yesno_loop_first [of inp] obtain t where "fst (yesno_loop [] inp) = c # t" by auto
  with Cons show ?thesis
    by (simp add: yesno_def Let_def case_prod_unfold rpmatch_def yesno_loop_rest)
qed

end
