(* ===== verification/Listing.thy ===== *)
theory Listing
  imports Neon Lib_Strings "HOL-Library.Word" "HOL-Library.List_Lexorder" "HOL-Library.Char_ord"
    "HOL-Library.Multiset"
begin

text \<open>
  The data side of \<open>src/ls.c\<close> and \<open>src/utils.c\<close>: the resources of a collection as the
  PROPFIND callbacks build them, the ordered list they are inserted into, and the line that
  is displayed for each.  A property result set of neon is a record of the values and
  statuses it answers with; the callbacks that make the requests are in the session theories.
\<close>

section \<open>Resources\<close>

datatype resource_type = resr_normal | resr_collection | resr_reference | resr_error

record resource =
  r_uri :: cstring
  r_type :: resource_type
  r_modtime :: int
  r_size :: "64 word"
  r_executable :: bool
  r_vcr :: nat
  r_status :: int
  r_reason :: "cstring option"

text \<open>\<open>create_private\<close>: a zeroed structure.\<close>

definition create_private :: resource where
  "create_private = \<lparr>r_uri = [], r_type = resr_normal, r_modtime = 0, r_size = 0,
     r_executable = False, r_vcr = 0, r_status = 0, r_reason = None\<rparr>"

text \<open>\<open>strcmp\<close>, its sign as the code uses it.\<close>

fun strcmp :: "cstring \<Rightarrow> cstring \<Rightarrow> int" where
  "strcmp [] [] = 0"
| "strcmp [] (d # ds) = -1"
| "strcmp (c # cs) [] = 1"
| "strcmp (c # cs) (d # ds) =
     (if c = d then strcmp cs ds else int (code c) - int (code d))"

definition compare_resource :: "resource \<Rightarrow> resource \<Rightarrow> int" where
  "compare_resource r1 r2 =
     (if r_type r1 = resr_error then -1
      else if r_type r2 = resr_error then 1
      else if r_type r1 = resr_collection then
        (if r_type r2 \<noteq> resr_collection then -1 else strcmp (r_uri r1) (r_uri r2))
      else
        (if r_type r2 \<noteq> resr_collection then strcmp (r_uri r1) (r_uri r2) else 1))"

text \<open>The insertion at the end of \<open>results\<close>.\<close>

fun insert_resource :: "resource \<Rightarrow> resource list \<Rightarrow> resource list" where
  "insert_resource newres [] = [newres]"
| "insert_resource newres (cur # rest) =
     (if compare_resource cur newres \<ge> 0 then newres # cur # rest
      else cur # insert_resource newres rest)"

section \<open>Property results\<close>

text \<open>
  What neon hands to the callback for one resource: the path, the value and the status of
  each property asked for, and the start-element calls made since the private structure of
  the resource was created, each with the state of its parent; \<open>ps_items\<close> is what
  \<open>ne_propset_iterate\<close> goes through.
\<close>

datatype ls_state = NE_207_STATE_PROP | ELM_resourcetype | ELM_collection | other_state

record prop_set =
  ps_path :: cstring
  ps_value :: "propname \<Rightarrow> cstring option"
  ps_status :: "propname \<Rightarrow> (int \<times> cstring) option"
  ps_starts :: "(ls_state \<times> cstring \<times> cstring) list"
  ps_items :: "(propname \<times> cstring option \<times> (int \<times> cstring) option) list"

definition dav :: "cstring \<Rightarrow> propname" where
  "dav n = \<lparr>pn_nspace = Some ''DAV:'', pn_name = n\<rparr>"

definition ls_props :: "propname list" where
  "ls_props =
    [dav ''getcontentlength'', dav ''getlastmodified'',
     \<lparr>pn_nspace = Some ''http://apache.org/dav/props/'', pn_name = ''executable''\<rparr>,
     dav ''resourcetype'', dav ''checked-in'', dav ''checked-out'']"

definition ls_idmap :: "ls_state idmap" where
  "ls_idmap =
    [(''DAV:'', ''resourcetype'', ELM_resourcetype), (''DAV:'', ''collection'', ELM_collection)]"

type_synonym ls_mapid = "ls_state idmap \<Rightarrow> cstring \<Rightarrow> cstring \<Rightarrow> ls_state"

text \<open>The new state, \<open>None\<close> for \<open>NE_XML_DECLINE\<close>, and the private structure after the call.\<close>

definition ls_startelm ::
  "ls_mapid \<Rightarrow> resource option \<Rightarrow> ls_state \<Rightarrow> cstring \<Rightarrow> cstring \<Rightarrow> ls_state option \<times> resource option" where
  "ls_startelm mapid r parent nspace name =
     (let state = mapid ls_idmap nspace name in
      case r of
        None \<Rightarrow> (None, None)
      | Some res \<Rightarrow>
          if \<not> (parent = NE_207_STATE_PROP \<and> state = ELM_resourcetype
                \<or> parent = ELM_resourcetype \<and> state = ELM_collection) then (None, Some res)
          else (Some state, Some (if state = ELM_collection then res\<lparr>r_type := resr_collection\<rparr> else res)))"

definition started :: "ls_mapid \<Rightarrow> (ls_state \<times> cstring \<times> cstring) list \<Rightarrow> resource \<Rightarrow> resource" where
  "started mapid evs res =
     foldl (\<lambda>r (parent, ns, n). case ls_startelm mapid (Some r) parent ns n of
              (_, Some r') \<Rightarrow> r' | (_, None) \<Rightarrow> r) res evs"

text \<open>\<open>strtoull (s, &p, 10)\<close> in 64 bits: the value and the rest \<open>p\<close> points to.\<close>

definition strtoull :: "cstring \<Rightarrow> 64 word \<times> cstring" where
  "strtoull s =
     (let t = dropWhile isspace s;
          neg = (t \<noteq> [] \<and> hd t = CHR ''-'');
          u = (if t \<noteq> [] \<and> (hd t = CHR ''-'' \<or> hd t = CHR ''+'') then tl t else t);
          v = digits_value 0 u
      in if u = [] \<or> \<not> isdigit (hd u) then (0, s)
         else (if v \<ge> 2 ^ 64 then - 1 else if neg then - word_of_int v else word_of_int v,
               dropWhile isdigit u))"

text \<open>\<open>results\<close> without the insertion: the structure built for a result set.\<close>

definition resource_of :: "ls_mapid \<Rightarrow> (cstring \<Rightarrow> int) \<Rightarrow> prop_set \<Rightarrow> resource" where
  "resource_of mapid httpdate pset =
     (let newres = (started mapid (ps_starts pset) create_private)\<lparr>r_uri := ps_path pset\<rparr>;
          clength = ps_value pset (ls_props ! 0);
          modtime = ps_value pset (ls_props ! 1);
          isexec = ps_value pset (ls_props ! 2);
          checkin = ps_value pset (ls_props ! 4);
          checkout = ps_value pset (ls_props ! 5);
          status = (if clength = None then ps_status pset (ls_props ! 0) else None);
          status = (if modtime = None then ps_status pset (ls_props ! 1) else status);
          newres = (case status of
                      Some (st_code, reason) \<Rightarrow>
                        if r_type newres = resr_normal
                        then newres\<lparr>r_status := st_code, r_reason := Some reason, r_type := resr_error\<rparr>
                        else newres
                    | None \<Rightarrow> newres);
          newres = newres\<lparr>r_executable := (case isexec of Some v \<Rightarrow> strcaseeq v ''T'' | None \<Rightarrow> False)\<rparr>;
          newres = (case modtime of Some m \<Rightarrow> newres\<lparr>r_modtime := httpdate m\<rparr> | None \<Rightarrow> newres);
          newres = (case clength of
                      Some l \<Rightarrow> newres\<lparr>r_size := (if snd (strtoull l) = [] then fst (strtoull l) else 0)\<rparr>
                    | None \<Rightarrow> newres)
      in newres\<lparr>r_vcr := (if checkin \<noteq> None then 1 else if checkout \<noteq> None then 2 else 0)\<rparr>)"

text \<open>\<open>results\<close>: the target itself is skipped unless it was asked for.\<close>

definition results ::
  "ls_mapid \<Rightarrow> (cstring \<Rightarrow> int) \<Rightarrow> (cstring \<Rightarrow> cstring \<Rightarrow> int) \<Rightarrow> cstring \<Rightarrow> bool \<Rightarrow> resource list \<Rightarrow> prop_set
    \<Rightarrow> resource list" where
  "results mapid httpdate path_compare target include_target reslist pset =
     (if path_compare target (ps_path pset) = 0 \<and> \<not> include_target then reslist
      else insert_resource (resource_of mapid httpdate pset) reslist)"

text \<open>The list \<open>fetch_resource_list\<close> builds from the result sets, in the order they arrive.\<close>

definition collect_resources ::
  "ls_mapid \<Rightarrow> (cstring \<Rightarrow> int) \<Rightarrow> (cstring \<Rightarrow> cstring \<Rightarrow> int) \<Rightarrow> cstring \<Rightarrow> bool \<Rightarrow> prop_set list
    \<Rightarrow> resource list" where
  "collect_resources mapid httpdate path_compare target include_target psets =
     foldl (results mapid httpdate path_compare target include_target) [] psets"

section \<open>Display\<close>

text \<open>\<open>format_time\<close>: \<open>now\<close> is the current time, \<open>strftime\<close> formats local time or fails.\<close>

definition format_time :: "(cstring \<Rightarrow> int \<Rightarrow> cstring option) \<Rightarrow> int \<Rightarrow> int \<Rightarrow> cstring" where
  "format_time strftime now moment =
     (if moment = -1 then ''  (unknown) ''
      else
        let fmt = (if now > moment + 6 * 30 * 24 * 60 * 60 \<or> now < moment - 60 * 60
                   then ''%b %e  %Y'' else ''%b %e %H:%M'')
        in case strftime fmt moment of Some t \<Rightarrow> t | None \<Rightarrow> ''???'')"

definition restype_label :: "resource_type \<Rightarrow> cstring" where
  "restype_label t =
     (case t of resr_normal \<Rightarrow> [] | resr_reference \<Rightarrow> ''Ref:'' | resr_collection \<Rightarrow> ''Coll:'' | _ \<Rightarrow> ''???'')"

text \<open>The last segment of the path, without a trailing slash.\<close>

definition ls_name :: "(cstring \<Rightarrow> bool) \<Rightarrow> cstring \<Rightarrow> cstring" where
  "ls_name trailing path =
     (let u = (if trailing path then butlast path else path)
      in case strrchr u slash of
           Some p \<Rightarrow> if tl p \<noteq> [] then tl p else u
         | None \<Rightarrow> u)"

definition display_ls_line ::
  "(cstring \<Rightarrow> bool) \<Rightarrow> (cstring \<Rightarrow> cstring option) \<Rightarrow> (int \<Rightarrow> cstring) \<Rightarrow> resource \<Rightarrow> string" where
  "display_ls_line trailing native_path_from_uri fmt_time res =
     (let native_path = str_or_null (native_path_from_uri (ls_name trailing (r_uri res))) in
      if r_type res = resr_error then
        ''Error: '' @ pad_right 30 native_path @ '' '' @ show_int (r_status res) @ '' ''
        @ (case r_reason res of Some t \<Rightarrow> t | None \<Rightarrow> ''unknown'') @ ''\<newline>''
      else
        let exec_char = (if r_executable res then CHR ''*'' else CHR '' '');
            vcr_char = (if r_vcr res = 0 then CHR '' '' else if r_vcr res = 1 then CHR ''>'' else CHR ''<'')
        in pad_left 5 (restype_label (r_type res)) @ '' '' @ [vcr_char, exec_char]
           @ pad_right 29 native_path @ '' '' @ pad_left 10 (show_nat (unat (r_size res))) @ ''  ''
           @ fmt_time (r_modtime res) @ ''\<newline>'')"

section \<open>The order of a listing\<close>

text \<open>
  The order the comment in \<open>compare_resource\<close> states: errors, then collections, then the
  rest, the latter two by path.  The keys form a linear order.
\<close>

datatype ls_key = Error_key | Coll_key cstring | Plain_key cstring

definition key_of :: "resource \<Rightarrow> ls_key" where
  "key_of r =
     (case r_type r of
        resr_error \<Rightarrow> Error_key
      | resr_collection \<Rightarrow> Coll_key (r_uri r)
      | _ \<Rightarrow> Plain_key (r_uri r))"

instantiation ls_key :: linorder
begin

fun less_eq_ls_key :: "ls_key \<Rightarrow> ls_key \<Rightarrow> bool" where
  "less_eq_ls_key Error_key k \<longleftrightarrow> True"
| "less_eq_ls_key (Coll_key a) Error_key \<longleftrightarrow> False"
| "less_eq_ls_key (Coll_key a) (Coll_key b) \<longleftrightarrow> a \<le> b"
| "less_eq_ls_key (Coll_key a) (Plain_key b) \<longleftrightarrow> True"
| "less_eq_ls_key (Plain_key a) (Plain_key b) \<longleftrightarrow> a \<le> b"
| "less_eq_ls_key (Plain_key a) k \<longleftrightarrow> False"

definition less_ls_key :: "ls_key \<Rightarrow> ls_key \<Rightarrow> bool" where
  "less_ls_key a b \<longleftrightarrow> a \<le> b \<and> \<not> b \<le> a"

instance
proof
  fix x y z :: ls_key
  show "x < y \<longleftrightarrow> x \<le> y \<and> \<not> y \<le> x" by (rule less_ls_key_def)
  show "x \<le> x" by (cases x) simp_all
  show "x \<le> y \<Longrightarrow> y \<le> z \<Longrightarrow> x \<le> z" by (cases x; cases y; cases z) auto
  show "x \<le> y \<Longrightarrow> y \<le> x \<Longrightarrow> x = y" by (cases x; cases y) auto
  show "x \<le> y \<or> y \<le> x" by (cases x; cases y) auto
qed

end

lemma strcmp_nonneg: "0 \<le> strcmp a b \<longleftrightarrow> b \<le> a"
proof (induction a b rule: strcmp.induct)
  case (4 c cs d ds)
  have "int (code d) \<le> int (code c) \<longleftrightarrow> d \<le> c" by (simp add: less_eq_char_def)
  with 4 show ?case by auto
qed simp_all

text \<open>
  The interface of an insertion into an ordered list: whether the scan stops before an
  element is a comparison that agrees with the order of the keys, except between elements
  of the same key.  The client builds a list by repeated insertion.
\<close>

locale ordered_insertion =
  fixes key :: "'r \<Rightarrow> 'k :: linorder"
    and before :: "'r \<Rightarrow> 'r \<Rightarrow> bool"
    and ins :: "'r \<Rightarrow> 'r list \<Rightarrow> 'r list"
  assumes ins_Nil: "ins x [] = [x]"
    and ins_Cons: "ins x (y # ys) = (if before x y then x # y # ys else y # ins x ys)"
    and before_le: "before x y \<Longrightarrow> key x \<le> key y"
    and not_before_le: "\<not> before x y \<Longrightarrow> key y \<le> key x"
begin

lemma mset_ins: "mset (ins x ys) = add_mset x (mset ys)"
  by (induction ys) (simp_all add: ins_Nil ins_Cons)

lemma set_ins: "set (ins x ys) = insert x (set ys)"
  using mset_ins [of x ys] by (metis set_mset_add_mset_insert set_mset_mset)

lemma sorted_ins: "sorted (map key ys) \<Longrightarrow> sorted (map key (ins x ys))"
proof (induction ys)
  case (Cons y ys)
  show ?case
  proof (cases "before x y")
    case True
    with Cons.prems before_le [OF True] show ?thesis by (auto simp: ins_Cons intro: order_trans)
  next
    case False
    with Cons not_before_le [OF False] show ?thesis by (auto simp: ins_Cons set_ins)
  qed
qed (simp add: ins_Nil)

lemma sorted_fold: "sorted (map key acc) \<Longrightarrow> sorted (map key (foldl (\<lambda>l x. ins x l) acc xs))"
  by (induction xs arbitrary: acc) (simp_all add: sorted_ins)

lemma mset_fold: "mset (foldl (\<lambda>l x. ins x l) acc xs) = mset acc + mset xs"
  by (induction xs arbitrary: acc) (simp_all add: mset_ins)

end

interpretation ls: ordered_insertion key_of "\<lambda>x y. compare_resource y x \<ge> 0" insert_resource
proof
  show "insert_resource x [] = [x]" for x by simp
  show "insert_resource x (y # ys) = (if compare_resource y x \<ge> 0 then x # y # ys else y # insert_resource x ys)"
    for x y ys by simp
  show "key_of x \<le> key_of y" if "compare_resource y x \<ge> 0" for x y
    using that by (cases "r_type x"; cases "r_type y") (auto simp: compare_resource_def key_of_def strcmp_nonneg)
  show "key_of y \<le> key_of x" if "\<not> compare_resource y x \<ge> 0" for x y
    using that by (cases "r_type x"; cases "r_type y") (auto simp: compare_resource_def key_of_def strcmp_nonneg)
qed

lemma foldl_results:
  "foldl (results mapid httpdate cmp target incl) acc psets
     = foldl (\<lambda>l x. insert_resource x l) acc
         (map (resource_of mapid httpdate)
           (filter (\<lambda>p. \<not> (cmp target (ps_path p) = 0 \<and> \<not> incl)) psets))"
  by (induction psets arbitrary: acc) (auto simp: results_def)

text \<open>The start-element calls of one resource.\<close>

definition is_collection_start :: "ls_state \<times> cstring \<times> cstring \<Rightarrow> bool" where
  "is_collection_start e \<longleftrightarrow> e = (ELM_resourcetype, ''DAV:'', ''collection'')"

lemma started_kept: "r_type (started mapid evs r) \<in> {r_type r, resr_collection}"
proof (induction evs arbitrary: r)
  case (Cons e evs)
  obtain parent ns n where e: "e = (parent, ns, n)" by (cases e)
  show ?case
    using Cons.IH [of r] Cons.IH [of "r\<lparr>r_type := resr_collection\<rparr>"]
    by (auto simp: started_def e ls_startelm_def Let_def)
qed (simp add: started_def)

lemma started_collection:
  assumes "\<And>ns n. mapid ls_idmap ns n = idmap_lookup other_state ls_idmap ns n"
  shows "r_type (started mapid evs r) = resr_collection
    \<longleftrightarrow> r_type r = resr_collection \<or> (\<exists>e \<in> set evs. is_collection_start e)"
proof (induction evs arbitrary: r)
  case (Cons e evs)
  obtain parent ns n where e: "e = (parent, ns, n)" by (cases e)
  have hit: "is_collection_start e
      \<longleftrightarrow> parent = ELM_resourcetype \<and> idmap_lookup other_state ls_idmap ns n = ELM_collection"
    by (auto simp: ls_idmap_def is_collection_start_def e)
  have "started mapid (e # evs) r
      = started mapid evs (if is_collection_start e then r\<lparr>r_type := resr_collection\<rparr> else r)"
    unfolding hit by (auto simp: started_def e ls_startelm_def assms Let_def)
  with Cons.IH show ?case by simp
qed (simp add: started_def)

section \<open>Properties\<close>

text \<open>C35: the list that \<open>fetch_resource_list\<close> returns is ordered as announced, errors, then
  collections, then other resources, each by path, and it holds exactly one entry for every
  result set except that of the target when the target is not wanted.\<close>

theorem listing_sorted:
  "sorted (map key_of (collect_resources mapid httpdate cmp target incl psets))
    \<and> mset (collect_resources mapid httpdate cmp target incl psets)
      = mset (map (resource_of mapid httpdate)
          (filter (\<lambda>p. \<not> (cmp target (ps_path p) = 0 \<and> \<not> incl)) psets))"
  using ls.sorted_fold [of "[]"] ls.mset_fold [of "[]"] by (simp add: collect_resources_def foldl_results)

text \<open>An error of the first property is reported as an error of the resource only when the
  second property has an error too or a value: a missing \<open>getlastmodified\<close> without a status
  discards the status of \<open>getcontentlength\<close>.\<close>

theorem size_error_discarded:
  assumes "ps_starts p = []" and "ps_value p (ls_props ! 0) = None"
    and "ps_status p (ls_props ! 0) = Some st"
    and "ps_value p (ls_props ! 1) = None" and "ps_status p (ls_props ! 1) = None"
  shows "r_type (resource_of mapid httpdate p) = resr_normal"
  using assms by (simp add: resource_of_def started_def create_private_def Let_def)

theorem size_error_discarded_witness:
  "r_type (resource_of (idmap_lookup other_state) (\<lambda>s. 0)
     \<lparr>ps_path = ''/a'', ps_value = (\<lambda>_. None),
      ps_status = (\<lambda>p. if p = dav ''getcontentlength'' then Some (403, ''Forbidden'') else None),
      ps_starts = [], ps_items = []\<rparr>) = resr_normal"
  by (rule size_error_discarded [where st = "(403, ''Forbidden'')"]) (simp_all add: ls_props_def dav_def)

text \<open>A resource is displayed as a collection exactly when the server's answer has a
  \<open>DAV:collection\<close> element directly inside \<open>resourcetype\<close>, and a collection is never
  turned into an error.\<close>

theorem collection_iff_element:
  assumes "\<And>ns n. mapid ls_idmap ns n = idmap_lookup other_state ls_idmap ns n"
  shows "r_type (resource_of mapid httpdate p) = resr_collection
    \<longleftrightarrow> (\<exists>e \<in> set (ps_starts p). is_collection_start e)"
proof -
  have "r_type (started mapid (ps_starts p) create_private) \<in> {resr_normal, resr_collection}"
    using started_kept [of mapid "ps_starts p" create_private] by (simp add: create_private_def)
  moreover have "r_type (started mapid (ps_starts p) create_private) = resr_collection
      \<longleftrightarrow> (\<exists>e \<in> set (ps_starts p). is_collection_start e)"
    using started_collection [of mapid "ps_starts p" create_private, OF assms] by (simp add: create_private_def)
  ultimately show ?thesis
    by (auto simp: resource_of_def Let_def split: option.split)
qed

theorem collection_iff_element_witness:
  "r_type (resource_of (idmap_lookup other_state) (\<lambda>s. 0)
     \<lparr>ps_path = ''/a'', ps_value = (\<lambda>_. None), ps_status = (\<lambda>p. Some (404, ''Not Found'')),
      ps_starts = [(NE_207_STATE_PROP, ''DAV:'', ''resourcetype''), (ELM_resourcetype, ''DAV:'', ''collection'')],
      ps_items = []\<rparr>)
   = resr_collection"
  by (subst collection_iff_element) (simp_all add: is_collection_start_def)

end
