(* ===== verification/Name_Table.thy ===== *)
theory Name_Table
  imports Cprelude
begin

text \<open>
  The interface of a table searched by name: \<open>options.c\<close> looks an option up this way and
  \<open>commands.c\<close> a command.  The provider promises to return a row with the name, compared
  ignoring case, whenever there is one; the client facts follow when no two rows of the table
  have the same name.
\<close>

locale name_table =
  fixes find :: "cstring \<Rightarrow> 'r option"
    and key :: "'r \<Rightarrow> cstring"
    and rows :: "'r list"
  assumes found: "find n = Some r \<Longrightarrow> r \<in> set rows \<and> strcaseeq (key r) n"
    and present: "r \<in> set rows \<Longrightarrow> strcaseeq (key r) n \<Longrightarrow> find n \<noteq> None"
    and one_row: "r \<in> set rows \<Longrightarrow> r' \<in> set rows \<Longrightarrow> strcaseeq (key r) (key r') \<Longrightarrow> r = r'"
begin

lemma find_iff: "find n = Some r \<longleftrightarrow> r \<in> set rows \<and> strcaseeq (key r) n"
proof
  assume r: "r \<in> set rows \<and> strcaseeq (key r) n"
  then obtain r' where r': "find n = Some r'" using present [of r n] by auto
  then have "strcaseeq (key r') n" "r' \<in> set rows" using found by auto
  with r have "strcaseeq (key r) (key r')" using strcaseeq_trans strcaseeq_sym by blast
  with r \<open>r' \<in> set rows\<close> have "r = r'" by (intro one_row) auto
  with r' show "find n = Some r" by simp
qed (rule found)

lemma find_key: "r \<in> set rows \<Longrightarrow> find (key r) = Some r"
  by (simp add: find_iff)

lemma find_cong:
  assumes "strcaseeq n n'"
  shows "find n = find n'"
proof -
  have eq: "find n = Some r \<longleftrightarrow> find n' = Some r" for r
    using assms by (simp add: find_iff strcaseeq_def)
  show ?thesis
  proof (cases "find n'")
    case None
    with eq show ?thesis by (cases "find n") auto
  next
    case (Some r)
    with eq [of r] show ?thesis by simp
  qed
qed

lemma find_None: "find n = None \<longleftrightarrow> (\<forall>r \<in> set rows. \<not> strcaseeq (key r) n)"
  using find_iff [of n] by (cases "find n") auto

end

text \<open>A scan for the first row with the name provides the interface.\<close>

fun first_named :: "('r \<Rightarrow> cstring) \<Rightarrow> 'r list \<Rightarrow> cstring \<Rightarrow> 'r option" where
  "first_named key [] n = None"
| "first_named key (r # rs) n = (if strcaseeq (key r) n then Some r else first_named key rs n)"

lemma first_named_found: "first_named key rs n = Some r \<Longrightarrow> r \<in> set rs \<and> strcaseeq (key r) n"
  by (induction rs) (auto split: if_splits)

lemma first_named_present: "r \<in> set rs \<Longrightarrow> strcaseeq (key r) n \<Longrightarrow> first_named key rs n \<noteq> None"
  by (induction rs) auto

lemma one_row_of_distinct:
  assumes "distinct (map (\<lambda>r. map tolower (key r)) rs)" "r \<in> set rs" "r' \<in> set rs" "strcaseeq (key r) (key r')"
  shows "r = r'"
  using assms by (auto simp: distinct_map strcaseeq_def dest: inj_onD)

end
