(* ===== verification/Option_Table.thy ===== *)
theory Option_Table
  imports Neon Name_Table "HOL-Library.Word"
begin

text \<open>
  \<open>src/options.c\<close>: the table of options, the cells their values live in, and the commands
  \<open>set\<close>, \<open>unset\<close> and \<open>describe\<close>; \<open>init_options\<close> of \<open>src/cadaver.c\<close>, which gives
  the defaults.  An operation returns the text it prints and the new state; \<open>None\<close> is a
  dereference of NULL or a \<open>free\<close> of something that is not on the heap.
\<close>

unbundle bit_operations_syntax

section \<open>The table\<close>

datatype (plugins only: code) option_id =
    opt_tolerant | opt_keepalive | opt_expect100 | opt_editor | opt_clicert | opt_clicert_uri
  | opt_namespace | opt_quiet | opt_proxy | opt_proxy_port | opt_systemproxy | opt_debug | opt_utf8
  | opt_overwrite | opt_lockowner | opt_lockstore | opt_lockdepth | opt_lockscope | opt_pager
  | opt_searchdepth | opt_searchorder | opt_searchdorder | opt_searchall

datatype opt_type = opt_bool | opt_string | opt_handled

text \<open>
  The \<open>int\<close> variables a holder can point to: the statics of \<open>options.c\<close>, the global
  \<open>tolerant\<close>, and the local variable \<open>utf8_default\<close> of \<open>init_options\<close>.
\<close>

datatype int_var =
    v_tolerant | v_overwrite | v_enable_expect | v_presume_utf8 | v_quiet | v_searchall | v_keepalive
  | v_system_proxy | v_utf8_default

text \<open>\<open>void *holder\<close>.\<close>

datatype holder = Null | IntVar int_var | HeapString cstring

text \<open>The three function pointers of a handled option.\<close>

datatype handler = debug_handler | lockscope_handler | lockdepth_handler | searchdepth_handler

record option_row =
  row_name :: cstring
  row_id :: option_id
  row_holder :: holder
  row_type :: opt_type
  row_handler :: "handler option"
  row_help :: cstring
  row_handle_help :: "cstring option"

definition B_row :: "cstring \<Rightarrow> option_id \<Rightarrow> int_var \<Rightarrow> cstring \<Rightarrow> option_row" where
  "B_row x i v h = \<lparr>row_name = x, row_id = i, row_holder = IntVar v, row_type = opt_bool,
     row_handler = None, row_help = h, row_handle_help = None\<rparr>"

definition S2_row :: "cstring \<Rightarrow> option_id \<Rightarrow> cstring \<Rightarrow> option_row" where
  "S2_row x i h = \<lparr>row_name = x, row_id = i, row_holder = Null, row_type = opt_string,
     row_handler = None, row_help = h, row_handle_help = None\<rparr>"

definition H_row :: "cstring \<Rightarrow> option_id \<Rightarrow> handler \<Rightarrow> cstring \<Rightarrow> cstring \<Rightarrow> option_row" where
  "H_row x i f h hh = \<lparr>row_name = x, row_id = i, row_holder = Null, row_type = opt_handled,
     row_handler = Some f, row_help = h, row_handle_help = Some hh\<rparr>"

definition options :: "option_row list" where
  "options =
    [B_row ''tolerant'' opt_tolerant v_tolerant ''Tolerate non-WebDAV collections'',
     B_row ''overwrite'' opt_overwrite v_overwrite ''Enable overwrite (e.g. on copy/move operations'',
     B_row ''expect100'' opt_expect100 v_enable_expect ''Enable use of 'Expect: 100-continue' header'',
     B_row ''utf8'' opt_utf8 v_presume_utf8 ''Presume filenames etc are UTF-8 encoded'',
     B_row ''quiet'' opt_quiet v_quiet ''Whether to display connection status messages'',
     B_row ''searchall'' opt_searchall v_searchall
       ''Whether to search and display all props including dead props'',
     B_row ''keepalive'' opt_keepalive v_keepalive
       ''Whether to enable persistent connections when opening a connection'',
     S2_row ''lockowner'' opt_lockowner ''Lock owner URI'',
     S2_row ''lockstore'' opt_lockstore ''Persistent lock storage file'',
     S2_row ''editor'' opt_editor ''Editor to use with `edit' command'',
     S2_row ''client-cert'' opt_clicert ''Client certificate to use for SSL connections.'',
     S2_row ''client-cert-uri'' opt_clicert_uri ''Client certificate URI to use for SSL connections.'',
     S2_row ''namespace'' opt_namespace ''Namespace to use for propset/propget commands.'',
     S2_row ''pager'' opt_pager ''Command to run for less/more commands.'',
     S2_row ''proxy'' opt_proxy ''Hostname of proxy server'',
     S2_row ''proxy-port'' opt_proxy_port ''Port to use on proxy server'',
     B_row ''systemproxy'' opt_systemproxy v_system_proxy ''Use system-wide proxy configuration'',
     S2_row ''searchorder'' opt_searchorder ''Search ascending props options'',
     S2_row ''searchdorder'' opt_searchdorder ''Search descending props options'',
     H_row ''debug'' opt_debug debug_handler ''Debugging options''
       ''The debug value is a list of comma-separated keywords.\<newline>Valid keywords are: socket, http, xml, httpauth, cleartext.'',
     H_row ''lockscope'' opt_lockscope lockscope_handler ''Lock scope options''
       ''The lockscope value must be one of two valid keywords: exclusive or shared.'',
     H_row ''lockdepth'' opt_lockdepth lockdepth_handler ''Lock depth options''
       ''The lockdepth value must be 0 or infinity.'',
     H_row ''searchdepth'' opt_searchdepth searchdepth_handler ''Search depth options''
       ''The searchdepth value must be 0, 1 or infinity.'']"

text \<open>The bits of \<open>ne_debug_mask\<close> are neon's: a parameter gives the word of each macro.\<close>

datatype debug_flag =
    NE_DBG_XML | NE_DBG_XMLPARSE | NE_DBG_HTTP | NE_DBG_SOCKET | NE_DBG_SSL | NE_DBG_HTTPAUTH
  | NE_DBG_HTTPBODY | NE_DBG_HTTPPLAIN | DEBUG_FILES | NE_DBG_LOCKS

type_synonym debug_bits = "debug_flag \<Rightarrow> 32 word"

definition debug_map :: "(cstring \<times> debug_flag) list" where
  "debug_map =
    [(''xml'', NE_DBG_XML), (''xmlparse'', NE_DBG_XMLPARSE), (''http'', NE_DBG_HTTP),
     (''socket'', NE_DBG_SOCKET), (''ssl'', NE_DBG_SSL), (''httpauth'', NE_DBG_HTTPAUTH),
     (''httpbody'', NE_DBG_HTTPBODY), (''cleartext'', NE_DBG_HTTPPLAIN), (''files'', DEBUG_FILES),
     (''locks'', NE_DBG_LOCKS)]"

section \<open>State\<close>

record option_state =
  holders :: "option_id \<Rightarrow> holder"
  int_vars :: "int_var \<Rightarrow> int"
  lockscope :: lock_scope
  lockdepth :: depth
  searchdepth :: depth
  ne_debug_mask :: "32 word"

text \<open>
  The environment of the options code: neon's debug bits, and \<open>ne_token\<close> called with a
  separator until nothing is left.
\<close>

record option_env =
  dbg_bits :: debug_bits
  ne_tokens :: "cstring \<Rightarrow> char \<Rightarrow> cstring list"

type_synonym 's printed = "(string \<times> 's) option"

section \<open>Handled options\<close>

definition debug_keyword :: "debug_bits \<Rightarrow> bool \<Rightarrow> cstring \<Rightarrow> 32 word \<Rightarrow> string \<times> 32 word" where
  "debug_keyword bits setit opt msk =
     (let hits = filter (\<lambda>(name, flag). strcaseeq opt name) debug_map
      in (if hits = [] then ''Debug option '' @ opt @ '' unknown.\<newline>'' else [],
          fold (\<lambda>(name, flag) m. if setit then m OR bits flag else m AND NOT (bits flag)) hits msk))"

fun debug_keywords :: "debug_bits \<Rightarrow> bool \<Rightarrow> cstring list \<Rightarrow> 32 word \<Rightarrow> string \<times> 32 word" where
  "debug_keywords bits setit [] msk = ([], msk)"
| "debug_keywords bits setit (opt # opts) msk =
     (let (msg, msk) = debug_keyword bits setit opt msk;
          (msgs, msk) = debug_keywords bits setit opts msk
      in (msg @ msgs, msk))"

definition do_debug :: "option_env \<Rightarrow> cstring option \<Rightarrow> bool \<Rightarrow> option_state \<Rightarrow> option_state printed" where
  "do_debug env val setit st =
     (case val of
        None \<Rightarrow> if setit then None else Some ([], st\<lparr>ne_debug_mask := 0\<rparr>)
      | Some s \<Rightarrow>
          let (msg, msk) =
            debug_keywords (dbg_bits env) setit (ne_tokens env s CHR '','') (ne_debug_mask st)
          in Some (msg, st\<lparr>ne_debug_mask := msk\<rparr>))"

fun join_names :: "cstring list \<Rightarrow> cstring" where
  "join_names [] = []"
| "join_names [n] = n"
| "join_names (n # ns) = n @ '','' @ join_names ns"

definition disp_debug :: "debug_bits \<Rightarrow> option_state \<Rightarrow> string" where
  "disp_debug bits st =
     ''{'' @ join_names (map fst (filter (\<lambda>(name, flag). ne_debug_mask st AND bits flag \<noteq> 0) debug_map)) @ ''}''"

definition set_lockscope :: "cstring \<Rightarrow> option_state \<Rightarrow> string \<times> option_state" where
  "set_lockscope val st =
     (if strcaseeq val ''exclusive'' then ([], st\<lparr>lockscope := ne_lockscope_exclusive\<rparr>)
      else if strcaseeq val ''shared'' then ([], st\<lparr>lockscope := ne_lockscope_shared\<rparr>)
      else (''Invalid value for lockscope. Try `set lockscope' for more info.\<newline>'', st))"

definition unset_lockscope :: "option_state \<Rightarrow> option_state" where
  "unset_lockscope st = st\<lparr>lockscope := ne_lockscope_exclusive\<rparr>"

definition disp_lockscope :: "option_state \<Rightarrow> string" where
  "disp_lockscope st =
     (if lockscope st = ne_lockscope_exclusive then ''exclusive''
      else if lockscope st = ne_lockscope_shared then ''shared''
      else ''illegal value'')"

definition set_lockdepth :: "cstring \<Rightarrow> option_state \<Rightarrow> string \<times> option_state" where
  "set_lockdepth val st =
     (if val = ''0'' \<or> strcaseeq val ''zero'' then ([], st\<lparr>lockdepth := NE_DEPTH_ZERO\<rparr>)
      else if strcaseeq val ''infinite'' \<or> strcaseeq val ''infinity''
      then ([], st\<lparr>lockdepth := NE_DEPTH_INFINITE\<rparr>)
      else (''Invalid value for lockdepth. Try `set lockdepth' for more info.\<newline>'', st))"

definition unset_lockdepth :: "option_state \<Rightarrow> option_state" where
  "unset_lockdepth st = st\<lparr>lockdepth := NE_DEPTH_INFINITE\<rparr>"

definition disp_lockdepth :: "option_state \<Rightarrow> string" where
  "disp_lockdepth st =
     (if lockdepth st = NE_DEPTH_ZERO then ''zero''
      else if lockdepth st = NE_DEPTH_INFINITE then ''infinite''
      else ''illegal value'')"

definition set_searchdepth :: "cstring \<Rightarrow> option_state \<Rightarrow> option_state" where
  "set_searchdepth val st =
     (if val = ''0'' \<or> strcaseeq val ''zero'' then st\<lparr>searchdepth := NE_DEPTH_ZERO\<rparr>
      else if strcaseeq val ''1'' \<or> strcaseeq val ''one'' then st\<lparr>searchdepth := NE_DEPTH_ONE\<rparr>
      else st\<lparr>searchdepth := NE_DEPTH_INFINITE\<rparr>)"

definition unset_searchdepth :: "option_state \<Rightarrow> option_state" where
  "unset_searchdepth st = st\<lparr>searchdepth := NE_DEPTH_INFINITE\<rparr>"

definition disp_searchdepth :: "option_state \<Rightarrow> string" where
  "disp_searchdepth st =
     (case searchdepth st of NE_DEPTH_ZERO \<Rightarrow> ''0'' | NE_DEPTH_ONE \<Rightarrow> ''1'' | _ \<Rightarrow> ''infinity'')"

text \<open>Calls through the function pointers of a row.\<close>

definition handler_set ::
  "option_env \<Rightarrow> handler \<Rightarrow> cstring \<Rightarrow> option_state \<Rightarrow> option_state printed" where
  "handler_set env h val st =
     (case h of
        debug_handler \<Rightarrow> do_debug env (Some val) True st
      | lockscope_handler \<Rightarrow> Some (set_lockscope val st)
      | lockdepth_handler \<Rightarrow> Some (set_lockdepth val st)
      | searchdepth_handler \<Rightarrow> Some ([], set_searchdepth val st))"

definition handler_unset ::
  "option_env \<Rightarrow> handler \<Rightarrow> cstring option \<Rightarrow> option_state \<Rightarrow> option_state printed" where
  "handler_unset env h val st =
     (case h of
        debug_handler \<Rightarrow> do_debug env val False st
      | lockscope_handler \<Rightarrow> Some ([], unset_lockscope st)
      | lockdepth_handler \<Rightarrow> Some ([], unset_lockdepth st)
      | searchdepth_handler \<Rightarrow> Some ([], unset_searchdepth st))"

definition handler_display :: "option_env \<Rightarrow> handler \<Rightarrow> option_state \<Rightarrow> string" where
  "handler_display env h st =
     (case h of
        debug_handler \<Rightarrow> disp_debug (dbg_bits env) st
      | lockscope_handler \<Rightarrow> disp_lockscope st
      | lockdepth_handler \<Rightarrow> disp_lockdepth st
      | searchdepth_handler \<Rightarrow> disp_searchdepth st)"

section \<open>Lookup\<close>

definition find_option :: "cstring \<Rightarrow> option_row option" where
  "find_option name = first_named row_name options name"

fun find_id :: "option_row list \<Rightarrow> option_id \<Rightarrow> option_row option" where
  "find_id [] i = None"
| "find_id (r # rs) i = (if row_id r = i then Some r else find_id rs i)"

definition get_option :: "option_id \<Rightarrow> option_state \<Rightarrow> holder" where
  "get_option i st = (case find_id options i of Some r \<Rightarrow> holders st (row_id r) | None \<Rightarrow> Null)"

definition set_option :: "option_id \<Rightarrow> holder \<Rightarrow> option_state \<Rightarrow> option_state" where
  "set_option i newval st =
     (case find_id options i of
        Some r \<Rightarrow> st\<lparr>holders := (holders st)(row_id r := newval)\<rparr>
      | None \<Rightarrow> st)"

text \<open>An option read as a string: \<open>None\<close> is NULL.\<close>

definition get_string :: "option_id \<Rightarrow> option_state \<Rightarrow> cstring option" where
  "get_string i st = (case get_option i st of HeapString s \<Rightarrow> Some s | _ \<Rightarrow> None)"

definition get_bool_option :: "option_id \<Rightarrow> option_state \<Rightarrow> int" where
  "get_bool_option i st = (case get_option i st of IntVar v \<Rightarrow> int_vars st v | _ \<Rightarrow> 0)"

definition set_bool_option :: "option_id \<Rightarrow> int \<Rightarrow> option_state \<Rightarrow> option_state" where
  "set_bool_option i truth st =
     (case get_option i st of
        IntVar v \<Rightarrow> st\<lparr>int_vars := (int_vars st)(v := truth)\<rparr>
      | _ \<Rightarrow> st)"

section \<open>Commands\<close>

definition display_option :: "option_env \<Rightarrow> option_state \<Rightarrow> option_row \<Rightarrow> string option" where
  "display_option env st r =
     (let head = '' '' @ pad_left 15 (row_name r) @ '': '' in
      case row_type r of
        opt_bool \<Rightarrow>
          (case holders st (row_id r) of
             IntVar v \<Rightarrow> Some (head @ (if int_vars st v \<noteq> 0 then ''on'' else ''off'') @ ''\<newline>'')
           | _ \<Rightarrow> None)
      | opt_string \<Rightarrow>
          (case holders st (row_id r) of
             Null \<Rightarrow> Some (head @ ''unset\<newline>'')
           | HeapString s \<Rightarrow> Some (head @ s @ ''\<newline>'')
           | IntVar v \<Rightarrow> None)
      | opt_handled \<Rightarrow>
          map_option (\<lambda>h. head @ handler_display env h st @ ''\<newline>'') (row_handler r))"

definition display_options :: "option_env \<Rightarrow> option_state \<Rightarrow> string option" where
  "display_options env st =
     map_option (\<lambda>lines. ''Options:\<newline>'' @ concat lines) (those (map (display_option env st) options))"

text \<open>Setting the option of a row that was found; \<open>opt\<close> is the name as the user typed it.\<close>

definition set_row ::
  "option_env \<Rightarrow> option_row \<Rightarrow> cstring \<Rightarrow> cstring option \<Rightarrow> option_state \<Rightarrow> option_state printed" where
  "set_row env r opt newv st =
     (case row_type r of
        opt_bool \<Rightarrow>
          (case newv of
             Some v \<Rightarrow> Some (opt @ '' is a boolean option.\<newline>'', st)
           | None \<Rightarrow>
               (case holders st (row_id r) of
                  IntVar v \<Rightarrow> Some ([], st\<lparr>int_vars := (int_vars st)(v := 1)\<rparr>)
                | _ \<Rightarrow> None))
      | opt_string \<Rightarrow>
          (case newv of
             None \<Rightarrow> Some (''You must give a new value for '' @ opt @ ''\<newline>'', st)
           | Some v \<Rightarrow>
               (case holders st (row_id r) of
                  IntVar i \<Rightarrow> None
                | _ \<Rightarrow> Some ([], st\<lparr>holders := (holders st)(row_id r := HeapString v)\<rparr>)))
      | opt_handled \<Rightarrow>
          (case newv of
             None \<Rightarrow> Some (opt @ '' must be given a value:\<newline>''
                        @ str_or_null (row_handle_help r) @ ''\<newline>'', st)
           | Some v \<Rightarrow>
               (case row_handler r of Some h \<Rightarrow> handler_set env h v st | None \<Rightarrow> None)))"

definition execute_set ::
  "option_env \<Rightarrow> cstring option \<Rightarrow> cstring option \<Rightarrow> option_state \<Rightarrow> option_state printed" where
  "execute_set env opt newv st =
     (case opt of
        None \<Rightarrow> map_option (\<lambda>s. (s, st)) (display_options env st)
      | Some name \<Rightarrow>
          (case find_option name of
             Some r \<Rightarrow> set_row env r name newv st
           | None \<Rightarrow> Some (''Unknown option: '' @ name @ ''.\<newline>'', st)))"

definition unset_row ::
  "option_env \<Rightarrow> option_row \<Rightarrow> cstring \<Rightarrow> cstring option \<Rightarrow> option_state \<Rightarrow> option_state printed" where
  "unset_row env r opt newv st =
     (case row_type r of
        opt_bool \<Rightarrow>
          (case newv of
             Some v \<Rightarrow> Some (opt @ '' ia a boolean option.\<newline>'', st)
           | None \<Rightarrow>
               (case holders st (row_id r) of
                  IntVar v \<Rightarrow> Some ([], st\<lparr>int_vars := (int_vars st)(v := 0)\<rparr>)
                | _ \<Rightarrow> None))
      | opt_string \<Rightarrow>
          (case newv of
             Some v \<Rightarrow> Some (opt @ '' cannot take a value to unset.\<newline>'', st)
           | None \<Rightarrow>
               (case holders st (row_id r) of
                  IntVar i \<Rightarrow> None
                | _ \<Rightarrow> Some ([], st\<lparr>holders := (holders st)(row_id r := Null)\<rparr>)))
      | opt_handled \<Rightarrow>
          (case row_handler r of Some h \<Rightarrow> handler_unset env h newv st | None \<Rightarrow> None))"

definition execute_unset ::
  "option_env \<Rightarrow> cstring \<Rightarrow> cstring option \<Rightarrow> option_state \<Rightarrow> option_state printed" where
  "execute_unset env opt newv st =
     (case find_option opt of
        Some r \<Rightarrow> unset_row env r opt newv st
      | None \<Rightarrow> Some (''Unknown option: '' @ opt @ ''.\<newline>'', st))"

definition execute_describe :: "cstring \<Rightarrow> string" where
  "execute_describe name =
     (case find_option name of
        None \<Rightarrow> ''Option `'' @ name @ '' not known.\<newline>''
      | Some r \<Rightarrow> ''Option `'' @ row_name r @ ''': '' @ row_help r @ ''\<newline>''
          @ (case row_handle_help r of Some h \<Rightarrow> h @ ''\<newline>'' | None \<Rightarrow> []))"

text \<open>
  The state before \<open>init_options\<close>: the holders of the table, \<open>keepalive = 1\<close>, other statics
  zero (the value 0 of \<open>lockscope\<close> is neon's first scope).
\<close>

definition initial_options :: "depth \<Rightarrow> option_state" where
  "initial_options depth0 =
     \<lparr>holders = (\<lambda>i. case find_id options i of Some r \<Rightarrow> row_holder r | None \<Rightarrow> Null),
      int_vars = (\<lambda>_. 0)(v_keepalive := 1),
      lockscope = ne_lockscope_exclusive, lockdepth = depth0, searchdepth = depth0, ne_debug_mask = 0\<rparr>"

definition DEFAULT_NAMESPACE :: cstring where
  "DEFAULT_NAMESPACE = ''http://webdav.org/cadaver/custom-properties/''"

text \<open>
  \<open>init_options\<close> with \<open>nl_langinfo\<close> and \<open>iconv\<close> present: the arguments are the variables
  USER and HOSTNAME and the codeset of the locale.
\<close>

definition init_options ::
  "cstring option \<Rightarrow> cstring option \<Rightarrow> cstring \<Rightarrow> option_state \<Rightarrow> option_state" where
  "init_options user hostname codeset st =
     (let st = (case (user, hostname) of
                  (Some u, Some h) \<Rightarrow>
                    set_option opt_lockowner (HeapString (''mailto:'' @ u @ ''@'' @ h)) st
                | _ \<Rightarrow> set_option opt_lockowner Null st);
          st = set_option opt_editor Null st;
          st = set_option opt_namespace (HeapString DEFAULT_NAMESPACE) st;
          st = set_bool_option opt_overwrite 1 st;
          st = set_bool_option opt_quiet 1 st;
          st = set_bool_option opt_searchall 1 st;
          st = st\<lparr>lockdepth := NE_DEPTH_INFINITE, lockscope := ne_lockscope_exclusive,
                 searchdepth := NE_DEPTH_INFINITE\<rparr>;
          st = st\<lparr>int_vars := (int_vars st)(v_utf8_default := (if codeset = ''UTF-8'' then 1 else 0))\<rparr>
      in set_option opt_utf8 (IntVar v_utf8_default) st)"

section \<open>Lemmas\<close>

lemma options_names_distinct: "distinct (map (\<lambda>r. map tolower (row_name r)) options)"
  by code_simp

lemma options_ids_distinct: "distinct (map row_id options)"
  by code_simp

interpretation ot: name_table find_option row_name options
proof
  show "r \<in> set options \<and> strcaseeq (row_name r) n" if "find_option n = Some r" for n r
    using that unfolding find_option_def by (rule first_named_found)
  show "find_option n \<noteq> None" if "r \<in> set options" "strcaseeq (row_name r) n" for n r
    using that unfolding find_option_def by (rule first_named_present)
  show "r = r'" if "r \<in> set options" "r' \<in> set options" "strcaseeq (row_name r) (row_name r')" for r r'
    using options_names_distinct that by (rule one_row_of_distinct)
qed

lemma find_id_in: "find_id rs i = Some r \<Longrightarrow> r \<in> set rs \<and> row_id r = i"
  by (induction rs) (auto split: if_splits)

lemma find_id_options: "find_id options i \<noteq> None"
  by (cases i) (simp_all add: options_def B_row_def S2_row_def H_row_def)

lemma find_id_row: "r \<in> set options \<Longrightarrow> find_id options (row_id r) = Some r"
proof -
  have "distinct (map row_id rs) \<Longrightarrow> r \<in> set rs \<Longrightarrow> find_id rs (row_id r) = Some r" for rs
    by (induction rs) (auto simp: image_iff)
  then show "r \<in> set options \<Longrightarrow> find_id options (row_id r) = Some r"
    using options_ids_distinct by blast
qed

lemma get_option_holders [simp]: "get_option i st = holders st i"
  using find_id_options [of i] find_id_in [of options i] by (auto simp: get_option_def)

lemma set_option_holders: "set_option i h st = st\<lparr>holders := (holders st)(i := h)\<rparr>"
  using find_id_options [of i] find_id_in [of options i] by (auto simp: set_option_def)

text \<open>
  The type invariant of the table: a Boolean option points to a variable, a string option to
  the heap or nowhere.
\<close>

definition typed_row :: "option_state \<Rightarrow> option_row \<Rightarrow> bool" where
  "typed_row st r =
     (case row_type r of
        opt_bool \<Rightarrow> (\<exists>v. holders st (row_id r) = IntVar v)
      | opt_string \<Rightarrow> (\<forall>v. holders st (row_id r) \<noteq> IntVar v)
      | opt_handled \<Rightarrow> row_handler r \<noteq> None)"

definition options_typed :: "option_state \<Rightarrow> bool" where
  "options_typed st \<longleftrightarrow> (\<forall>r \<in> set options. typed_row st r)"

lemma typed_rows:
  assumes "options_typed st" "find_option name = Some r"
  shows "typed_row st r"
  using assms ot.found by (auto simp: options_typed_def)

lemma options_typed_holders: "holders st' = holders st \<Longrightarrow> options_typed st' = options_typed st"
  by (simp add: options_typed_def typed_row_def cong: opt_type.case_cong)

lemma options_typed_vars: "options_typed (st\<lparr>int_vars := vs\<rparr>) = options_typed st"
  by (rule options_typed_holders) simp

lemma options_typed_upd:
  assumes "options_typed st" "r \<in> set options" "typed_row (st\<lparr>holders := (holders st)(row_id r := h)\<rparr>) r"
  shows "options_typed (st\<lparr>holders := (holders st)(row_id r := h)\<rparr>)"
proof -
  have "typed_row (st\<lparr>holders := (holders st)(row_id r := h)\<rparr>) r'" if "r' \<in> set options" for r'
  proof (cases "row_id r' = row_id r")
    case True
    then have "find_id options (row_id r) = Some r'" using find_id_row [OF that] by simp
    then have "r' = r" using find_id_row [OF assms(2)] by simp
    with assms(3) show ?thesis by simp
  next
    case False
    moreover have "typed_row st r'" using assms(1) that by (simp add: options_typed_def)
    ultimately show ?thesis by (cases "row_type r'") (simp_all add: typed_row_def)
  qed
  then show ?thesis by (simp add: options_typed_def)
qed

lemma handler_holders:
  "handler_set env h v st = Some (out, st') \<Longrightarrow> holders st' = holders st"
  "handler_unset env h val st = Some (out, st') \<Longrightarrow> holders st' = holders st"
  by (auto simp: handler_set_def handler_unset_def do_debug_def set_lockscope_def set_lockdepth_def
      set_searchdepth_def unset_lockscope_def unset_lockdepth_def unset_searchdepth_def Let_def
      split: handler.splits option.splits if_splits prod.splits)

lemma handler_total: "handler_set env h v st \<noteq> None" "handler_unset env h val st \<noteq> None"
  by (auto simp: handler_set_def handler_unset_def do_debug_def Let_def
      split: handler.splits option.splits prod.splits)

lemma set_row_safe:
  assumes "options_typed st" "r \<in> set options"
  shows "\<exists>out st'. set_row env r opt newv st = Some (out, st') \<and> options_typed st'"
proof -
  have typed: "typed_row st r" using assms by (simp add: options_typed_def)
  show ?thesis
  proof (cases "row_type r")
    case opt_bool
    with typed obtain v where "holders st (row_id r) = IntVar v" by (auto simp: typed_row_def)
    with opt_bool assms(1) show ?thesis
      by (cases newv) (simp_all add: set_row_def options_typed_vars)
  next
    case opt_string
    show ?thesis
    proof (cases newv)
      case None
      with opt_string assms(1) show ?thesis by (simp add: set_row_def)
    next
      case (Some v)
      have "options_typed (st\<lparr>holders := (holders st)(row_id r := HeapString v)\<rparr>)"
        using assms opt_string by (intro options_typed_upd) (auto simp: typed_row_def)
      with opt_string typed Some show ?thesis
        by (cases "holders st (row_id r)") (simp_all add: set_row_def typed_row_def)
    qed
  next
    case opt_handled
    with typed obtain h where h: "row_handler r = Some h" by (auto simp: typed_row_def)
    show ?thesis
    proof (cases newv)
      case None
      with opt_handled assms(1) show ?thesis by (simp add: set_row_def)
    next
      case (Some v)
      obtain out st' where st': "handler_set env h v st = Some (out, st')"
        using handler_total(1) [of env h v st] by auto
      then have "options_typed st'" using assms(1) options_typed_holders handler_holders(1) by blast
      with opt_handled h Some st' show ?thesis by (simp add: set_row_def)
    qed
  qed
qed

lemma unset_row_safe:
  assumes "options_typed st" "r \<in> set options"
  shows "\<exists>out st'. unset_row env r opt newv st = Some (out, st') \<and> options_typed st'"
proof -
  have typed: "typed_row st r" using assms by (simp add: options_typed_def)
  show ?thesis
  proof (cases "row_type r")
    case opt_bool
    with typed obtain v where "holders st (row_id r) = IntVar v" by (auto simp: typed_row_def)
    with opt_bool assms(1) show ?thesis
      by (cases newv) (simp_all add: unset_row_def options_typed_vars)
  next
    case opt_string
    have "options_typed (st\<lparr>holders := (holders st)(row_id r := Null)\<rparr>)"
      using assms opt_string by (intro options_typed_upd) (auto simp: typed_row_def)
    with opt_string typed assms(1) show ?thesis
      by (cases "holders st (row_id r)"; cases newv) (simp_all add: unset_row_def typed_row_def)
  next
    case opt_handled
    with typed obtain h where h: "row_handler r = Some h" by (auto simp: typed_row_def)
    obtain out st' where st': "handler_unset env h newv st = Some (out, st')"
      using handler_total(2) [of env h newv st] by auto
    then have "options_typed st'" using assms(1) options_typed_holders handler_holders(2) by blast
    with opt_handled h st' show ?thesis by (simp add: unset_row_def)
  qed
qed

lemma find_option_in: "find_option name = Some r \<Longrightarrow> r \<in> set options"
  using ot.found by blast

lemma execute_set_safe:
  assumes "options_typed st"
  shows "\<exists>out st'. execute_set env (Some opt) newv st = Some (out, st') \<and> options_typed st'"
  using assms set_row_safe [OF assms find_option_in, of opt]
  by (cases "find_option opt") (auto simp: execute_set_def)

lemma execute_unset_safe:
  assumes "options_typed st"
  shows "\<exists>out st'. execute_unset env opt newv st = Some (out, st') \<and> options_typed st'"
  using assms unset_row_safe [OF assms find_option_in, of opt]
  by (cases "find_option opt") (auto simp: execute_unset_def)

lemma display_option_safe: "typed_row st r \<Longrightarrow> display_option env st r \<noteq> None"
  by (cases "row_type r"; cases "holders st (row_id r)") (auto simp: display_option_def typed_row_def Let_def)

lemma those_some: "(\<forall>x \<in> set xs. f x \<noteq> None) \<Longrightarrow> those (map f xs) \<noteq> None"
  by (induction xs) auto

lemma display_options_safe: "options_typed st \<Longrightarrow> display_options env st \<noteq> None"
  using those_some [of options "display_option env st"] display_option_safe [of st _ env]
  by (auto simp: display_options_def options_typed_def)

text \<open>What \<open>init_options\<close> makes of the state.\<close>

lemma holders_set_bool [simp]: "holders (set_bool_option i b st) = holders st"
  by (simp add: set_bool_option_def split: holder.split)

lemma holders_set_option [simp]: "holders (set_option i h st) = (holders st)(i := h)"
  by (simp add: set_option_holders)

lemma init_options_holders:
  "\<exists>owner. (\<forall>v. owner \<noteq> IntVar v) \<and> holders (init_options user hostname codeset st) =
     (holders st)(opt_lockowner := owner, opt_editor := Null,
       opt_namespace := HeapString DEFAULT_NAMESPACE, opt_utf8 := IntVar v_utf8_default)"
  by (auto simp: init_options_def Let_def split: option.split)

lemma init_options_utf8: "holders (init_options user hostname codeset st) opt_utf8 = IntVar v_utf8_default"
  using init_options_holders [of user hostname codeset st] by auto

lemma init_options_depths:
  "lockdepth (init_options user hostname codeset st) = NE_DEPTH_INFINITE"
  "lockscope (init_options user hostname codeset st) = ne_lockscope_exclusive"
  by (simp_all add: init_options_def Let_def set_option_holders)

lemma initial_typed: "options_typed (initial_options d)"
proof -
  have "typed_row (initial_options d) r" if "r \<in> set options" for r
  proof -
    have "holders (initial_options d) (row_id r) = row_holder r"
      using find_id_row [OF that] by (simp add: initial_options_def)
    moreover have "row_type r = opt_bool \<and> (\<exists>v. row_holder r = IntVar v)
        \<or> row_type r = opt_string \<and> row_holder r = Null \<or> row_type r = opt_handled \<and> row_handler r \<noteq> None"
      using that by (auto simp: options_def B_row_def S2_row_def H_row_def)
    ultimately show ?thesis by (auto simp: typed_row_def)
  qed
  then show ?thesis by (simp add: options_typed_def)
qed

lemma string_option_rows:
  "r \<in> set options \<Longrightarrow> row_id r \<in> {opt_editor, opt_namespace, opt_lockowner, opt_lockstore} \<Longrightarrow> row_type r = opt_string"
  "r \<in> set options \<Longrightarrow> row_id r = opt_utf8 \<Longrightarrow> row_type r = opt_bool"
  by (auto simp: options_def B_row_def S2_row_def H_row_def)

lemma init_options_typed:
  assumes "options_typed st"
  shows "options_typed (init_options user hostname codeset st)"
proof -
  obtain owner where owner: "\<forall>v. owner \<noteq> IntVar v"
    and held: "holders (init_options user hostname codeset st) =
      (holders st)(opt_lockowner := owner, opt_editor := Null,
        opt_namespace := HeapString DEFAULT_NAMESPACE, opt_utf8 := IntVar v_utf8_default)"
    using init_options_holders [of user hostname codeset st] by blast
  have "typed_row (init_options user hostname codeset st) r" if r: "r \<in> set options" for r
  proof -
    have typed: "typed_row st r" using assms r by (simp add: options_typed_def)
    show ?thesis
    proof (cases "row_type r")
      case opt_bool
      with typed string_option_rows [OF r] show ?thesis by (auto simp: typed_row_def held)
    next
      case opt_string
      with typed owner string_option_rows [OF r] show ?thesis by (auto simp: typed_row_def held)
    next
      case opt_handled
      with typed show ?thesis by (simp add: typed_row_def)
    qed
  qed
  then show ?thesis by (simp add: options_typed_def)
qed

section \<open>A session of set and unset commands\<close>

text \<open>
  The states the options can be in between commands: \<open>main\<close> sets the lock store and calls
  \<open>init_options\<close>, then the user runs \<open>set\<close> and \<open>unset\<close>.
\<close>

inductive options_reach :: "option_env \<Rightarrow> option_state \<Rightarrow> bool" for env where
  start: "options_reach env (init_options user hostname codeset
      (set_option opt_lockstore (HeapString store) (initial_options NE_DEPTH_ZERO)))"
| set_cmd: "options_reach env st \<Longrightarrow> execute_set env opt newv st = Some (out, st') \<Longrightarrow> options_reach env st'"
| unset_cmd: "options_reach env st \<Longrightarrow> execute_unset env opt' newv st = Some (out, st') \<Longrightarrow> options_reach env st'"

definition options_inv :: "option_state \<Rightarrow> bool" where
  "options_inv st \<longleftrightarrow> options_typed st \<and> get_option opt_utf8 st = IntVar v_utf8_default
     \<and> lockdepth st \<in> {NE_DEPTH_ZERO, NE_DEPTH_INFINITE}
     \<and> lockscope st \<in> {ne_lockscope_exclusive, ne_lockscope_shared}"

lemma options_typed_lockstore: "options_typed st \<Longrightarrow> options_typed (set_option opt_lockstore (HeapString s) st)"
proof -
  assume typed: "options_typed st"
  have "typed_row (set_option opt_lockstore (HeapString s) st) r" if r: "r \<in> set options" for r
  proof -
    have "typed_row st r" using typed r by (simp add: options_typed_def)
    then show ?thesis using string_option_rows(1) [OF r]
      by (cases "row_id r = opt_lockstore")
        (simp_all add: typed_row_def set_option_holders cong: opt_type.case_cong)
  qed
  then show ?thesis by (simp add: options_typed_def)
qed

lemma handler_inv:
  "handler_set env h v st = Some (out, st') \<Longrightarrow> options_inv st \<Longrightarrow> options_inv st'"
  "handler_unset env h val st = Some (out, st') \<Longrightarrow> options_inv st \<Longrightarrow> options_inv st'"
proof -
  have depths: "lockdepth st' \<in> {NE_DEPTH_ZERO, NE_DEPTH_INFINITE}
      \<and> lockscope st' \<in> {ne_lockscope_exclusive, ne_lockscope_shared}"
    if "options_inv st" "handler_set env h v st = Some (out, st') \<or> handler_unset env h val st = Some (out, st')"
    using that by (cases h) (auto simp: options_inv_def handler_set_def handler_unset_def do_debug_def
        set_lockscope_def set_lockdepth_def set_searchdepth_def unset_lockscope_def unset_lockdepth_def
        unset_searchdepth_def Let_def split: option.splits if_splits prod.splits)
  show "options_inv st'" if "handler_set env h v st = Some (out, st')" "options_inv st"
    using that depths handler_holders(1) [OF that(1)] options_typed_holders [of st' st]
    by (simp add: options_inv_def)
  show "options_inv st'" if "handler_unset env h val st = Some (out, st')" "options_inv st"
    using that depths handler_holders(2) [OF that(1)] options_typed_holders [of st' st]
    by (simp add: options_inv_def)
qed

lemma row_change:
  assumes "set_row env r opt newv st = Some (out, st') \<or> unset_row env r opt newv st = Some (out, st')"
  shows "st' = st \<or> (\<exists>vs. st' = st\<lparr>int_vars := vs\<rparr>)
    \<or> (\<exists>h. row_type r = opt_string \<and> st' = st\<lparr>holders := (holders st)(row_id r := h)\<rparr>)
    \<or> (\<exists>h v. handler_set env h v st = Some (out, st') \<or> handler_unset env h newv st = Some (out, st'))"
proof (cases "row_type r")
  case opt_bool
  with assms show ?thesis
    by (cases newv; cases "holders st (row_id r)") (auto simp: set_row_def unset_row_def)
next
  case opt_string
  with assms show ?thesis
    by (cases newv; cases "holders st (row_id r)") (auto simp: set_row_def unset_row_def)
next
  case opt_handled
  with assms show ?thesis
    by (cases newv; cases "row_handler r") (auto simp: set_row_def unset_row_def)
qed

lemma row_inv:
  assumes inv: "options_inv st" and r: "r \<in> set options" and typed: "options_typed st'"
    and step: "set_row env r opt newv st = Some (out, st') \<or> unset_row env r opt newv st = Some (out, st')"
  shows "options_inv st'"
  using row_change [OF step]
proof (elim disjE exE conjE)
  fix h assume string: "row_type r = opt_string" and st': "st' = st\<lparr>holders := (holders st)(row_id r := h)\<rparr>"
  have "row_id r \<noteq> opt_utf8" using string_option_rows(2) [OF r] string by auto
  with inv typed st' show ?thesis by (simp add: options_inv_def)
qed (use inv typed handler_inv in \<open>auto simp: options_inv_def\<close>)

lemma reach_inv: "options_reach env st \<Longrightarrow> options_inv st"
proof (induction rule: options_reach.induct)
  case (start user hostname codeset store)
  have "options_typed (init_options user hostname codeset
      (set_option opt_lockstore (HeapString store) (initial_options NE_DEPTH_ZERO)))"
    by (intro init_options_typed options_typed_lockstore initial_typed)
  then show ?case by (simp add: options_inv_def init_options_utf8 init_options_depths)
next
  case (set_cmd st opt newv out st')
  show ?case
  proof (cases opt)
    case None
    with set_cmd show ?thesis by (auto simp: execute_set_def)
  next
    case (Some name)
    have "options_typed st'" using execute_set_safe [of st env name newv] set_cmd Some
      by (auto simp: options_inv_def)
    with set_cmd Some show ?thesis
      by (auto simp: execute_set_def split: option.splits intro: row_inv [OF _ find_option_in])
  qed
next
  case (unset_cmd st name newv out st')
  have "options_typed st'" using execute_unset_safe [of st env name newv] unset_cmd
    by (auto simp: options_inv_def)
  with unset_cmd show ?case
    by (auto simp: execute_unset_def split: option.splits intro: row_inv [OF _ find_option_in])
qed

section \<open>Keywords of the debug option\<close>

lemma fold_or_bit:
  assumes "n < LENGTH('a::len)"
  shows "bit (fold (\<lambda>(name, flag) m. m OR bits flag) hits (m0 :: 'a word)) n
    \<longleftrightarrow> bit m0 n \<or> (\<exists>(name, flag) \<in> set hits. bit (bits flag) n)"
  by (induction hits arbitrary: m0) (auto simp: bit_or_iff)

lemma fold_andnot_bit:
  assumes "n < LENGTH('a::len)"
  shows "bit (fold (\<lambda>(name, flag) m. m AND NOT (bits flag)) hits (m0 :: 'a word)) n
    \<longleftrightarrow> bit m0 n \<and> \<not> (\<exists>(name, flag) \<in> set hits. bit (bits flag) n)"
  using assms by (induction hits arbitrary: m0) (auto simp: bit_and_iff bit_not_iff)

definition named_flags :: "cstring \<Rightarrow> debug_flag set" where
  "named_flags opt = {flag. \<exists>name. (name, flag) \<in> set debug_map \<and> strcaseeq opt name}"

lemma debug_keyword_bit:
  "bit (snd (debug_keyword bits setit opt m)) n \<longleftrightarrow>
     n < 32 \<and> (if setit then bit m n \<or> (\<exists>f \<in> named_flags opt. bit (bits f) n)
               else bit m n \<and> \<not> (\<exists>f \<in> named_flags opt. bit (bits f) n))"
proof (cases "n < 32")
  case True
  then show ?thesis
    using fold_or_bit [of n bits "filter (\<lambda>(name, flag). strcaseeq opt name) debug_map" m]
      fold_andnot_bit [of n bits "filter (\<lambda>(name, flag). strcaseeq opt name) debug_map" m]
    by (cases setit) (auto simp: debug_keyword_def Let_def named_flags_def)
next
  case False
  then show ?thesis by (auto dest: bit_imp_le_length)
qed

lemma debug_keywords_bit:
  "bit (snd (debug_keywords bits setit opts m)) n \<longleftrightarrow>
     n < 32 \<and> (if setit then bit m n \<or> (\<exists>opt \<in> set opts. \<exists>f \<in> named_flags opt. bit (bits f) n)
               else bit m n \<and> \<not> (\<exists>opt \<in> set opts. \<exists>f \<in> named_flags opt. bit (bits f) n))"
proof (induction opts arbitrary: m)
  case Nil
  then show ?case by (auto dest: bit_imp_le_length)
next
  case (Cons opt opts)
  show ?case
    using Cons.IH [of "snd (debug_keyword bits setit opt m)"] debug_keyword_bit [of bits setit opt m n]
    by (auto simp: Let_def case_prod_unfold)
qed

definition debug_flags :: "option_env \<Rightarrow> cstring \<Rightarrow> debug_flag set" where
  "debug_flags env s = (\<Union>opt \<in> set (ne_tokens env s CHR '',''). named_flags opt)"

section \<open>Properties\<close>


definition plain_env :: option_env where
  "plain_env = \<lparr>dbg_bits = (\<lambda>f. case f of NE_DBG_HTTP \<Rightarrow> 2 | NE_DBG_XML \<Rightarrow> 4 | _ \<Rightarrow> 8),
     ne_tokens = (\<lambda>s c. strtok_all [c] s)\<rparr>"

definition first_state :: option_state where
  "first_state = init_options (Some ''joe'') (Some ''host'') ''UTF-8''
     (set_option opt_lockstore (HeapString ''/h/.cadaver-locks'') (initial_options NE_DEPTH_ZERO))"

lemma first_state_reach: "options_reach env first_state"
  unfolding first_state_def by (rule options_reach.start)

lemma first_state_typed: "options_typed first_state"
  using reach_inv [OF first_state_reach] by (simp add: options_inv_def)


text \<open>After \<open>init_options\<close> the option \<open>utf8\<close> is kept in a local variable of that
  function, which no longer exists: in every reachable state reading the option reads that
  variable, and \<open>set utf8\<close> writes to it.\<close>

theorem utf8_option_dangles:
  assumes "options_reach env st"
  shows "get_bool_option opt_utf8 st = int_vars st v_utf8_default
    \<and> execute_set env (Some ''utf8'') None st
        = Some ([], st\<lparr>int_vars := (int_vars st)(v_utf8_default := 1)\<rparr>)"
proof -
  have held: "holders st opt_utf8 = IntVar v_utf8_default"
    using reach_inv [OF assms] by (simp add: options_inv_def)
  have "B_row ''utf8'' opt_utf8 v_presume_utf8 ''Presume filenames etc are UTF-8 encoded'' \<in> set options"
    by (simp add: options_def)
  from ot.find_key [OF this] have "find_option ''utf8''
      = Some (B_row ''utf8'' opt_utf8 v_presume_utf8 ''Presume filenames etc are UTF-8 encoded'')"
    by (simp add: B_row_def)
  then show ?thesis using held by (simp add: get_bool_option_def execute_set_def set_row_def B_row_def)
qed

theorem utf8_option_dangles_witness:
  "get_bool_option opt_utf8 first_state = int_vars first_state v_utf8_default"
  using utf8_option_dangles [OF first_state_reach [of plain_env]] by blast

text \<open>\<open>set\<close> on a string option stores a copy of the value and touches nothing else;
  \<open>unset\<close> on it after that makes it NULL.\<close>

theorem set_string_option:
  assumes "options_typed st" and "find_option name = Some r" and "row_type r = opt_string"
  shows "\<exists>st'. execute_set env (Some name) (Some v) st = Some ([], st')
    \<and> get_string (row_id r) st' = Some v
    \<and> (\<forall>i. i \<noteq> row_id r \<longrightarrow> get_option i st' = get_option i st)
    \<and> int_vars st' = int_vars st
    \<and> (\<exists>st''. execute_unset env name None st' = Some ([], st'') \<and> get_option (row_id r) st'' = Null)"
proof -
  have "\<forall>i. holders st (row_id r) \<noteq> IntVar i"
    using typed_rows [OF assms(1,2)] assms(3) by (simp add: typed_row_def)
  then have "execute_set env (Some name) (Some v) st
      = Some ([], st\<lparr>holders := (holders st)(row_id r := HeapString v)\<rparr>)"
    using assms(2,3) by (cases "holders st (row_id r)") (simp_all add: execute_set_def set_row_def)
  with assms(2,3) show ?thesis
    by (simp add: get_string_def execute_unset_def unset_row_def)
qed

theorem set_string_option_witness:
  "\<exists>st'. execute_set plain_env (Some ''editor'') (Some ''emacs'') first_state = Some ([], st')
     \<and> get_string opt_editor st' = Some ''emacs''"
proof -
  define r where "r = S2_row ''editor'' opt_editor ''Editor to use with `edit' command''"
  have "r \<in> set options" by (simp add: options_def r_def)
  from ot.find_key [OF this] have "find_option ''editor'' = Some r" by (simp add: r_def S2_row_def)
  from set_string_option [OF first_state_typed this, of plain_env "''emacs''"] show ?thesis
    by (auto simp: r_def S2_row_def)
qed

text \<open>\<open>set\<close> and \<open>unset\<close> do not look at the case of the option's name.\<close>

theorem option_names_ignore_case:
  assumes "strcaseeq name name'"
  shows "map_option snd (execute_set env (Some name) newv st)
      = map_option snd (execute_set env (Some name') newv st)
    \<and> map_option snd (execute_unset env name newv st) = map_option snd (execute_unset env name' newv st)"
proof -
  have "map_option snd (set_row env r name newv st) = map_option snd (set_row env r name' newv st)"
    "map_option snd (unset_row env r name newv st) = map_option snd (unset_row env r name' newv st)" for r
    by (cases "row_type r"; cases newv; simp add: set_row_def unset_row_def)+
  then show ?thesis
    using ot.find_cong [OF assms] by (cases "find_option name'") (simp_all add: execute_set_def execute_unset_def)
qed

theorem option_names_ignore_case_witness:
  "map_option snd (execute_set plain_env (Some ''Quiet'') None first_state)
     = map_option snd (execute_set plain_env (Some ''quiet'') None first_state)"
proof -
  have "strcaseeq ''Quiet'' ''quiet''" by code_simp
  from option_names_ignore_case [OF this, of plain_env None first_state] show ?thesis ..
qed

text \<open>\<open>set debug\<close> with a list of keywords turns on exactly the bits of the keywords, and
  \<open>unset debug\<close> with the same list turns them off again and no others.\<close>

theorem debug_set_unset:
  "\<exists>out st1 out' st2.
      do_debug env (Some s) True st = Some (out, st1) \<and> do_debug env (Some s) False st1 = Some (out', st2)
    \<and> (\<forall>n < 32. bit (ne_debug_mask st1) n
        = (bit (ne_debug_mask st) n \<or> (\<exists>f \<in> debug_flags env s. bit (dbg_bits env f) n)))
    \<and> (\<forall>n < 32. bit (ne_debug_mask st2) n
        = (bit (ne_debug_mask st) n \<and> \<not> (\<exists>f \<in> debug_flags env s. bit (dbg_bits env f) n)))"
  by (auto simp: do_debug_def Let_def case_prod_unfold debug_keywords_bit debug_flags_def)

theorem debug_set_unset_witness:
  "\<exists>out st1. do_debug plain_env (Some ''http,XML'') True first_state = Some (out, st1)
     \<and> bit (ne_debug_mask st1) 1"
proof -
  have flags: "NE_DBG_HTTP \<in> named_flags ''http''"
    by (auto simp: named_flags_def debug_map_def intro!: exI [of _ "''http''"])
  have "''http'' \<in> set (ne_tokens plain_env ''http,XML'' CHR '','')"
    by (simp add: plain_env_def) code_simp
  moreover have "bit (dbg_bits plain_env NE_DBG_HTTP) 1" by (simp add: plain_env_def)
  ultimately have "\<exists>f \<in> debug_flags plain_env ''http,XML''. bit (dbg_bits plain_env f) 1"
    using flags by (auto simp: debug_flags_def)
  then show ?thesis
    using debug_set_unset [of plain_env "''http,XML''" first_state] by (metis one_less_numeral_iff semiring_norm(76))
qed

end
