(* ===== verification/Command_Table.thy ===== *)
theory Command_Table
  imports Name_Table
begin

text \<open>
  The command tables of \<open>src/commands.c\<close> and \<open>src/cadaver.h\<close>: the names and aliases, the
  table of commands with the handlers as typed function pointers, the lookup, readline's name
  generator and the \<open>help\<close> command.
\<close>

section \<open>The tables\<close>

datatype (plugins only: code) command_id =
    cmd_ls | cmd_cd | cmd_quit | cmd_open | cmd_close | cmd_about | cmd_pwd | cmd_help | cmd_put
  | cmd_get | cmd_mkcol | cmd_delete | cmd_move | cmd_copy | cmd_less | cmd_cat | cmd_lpwd | cmd_lcd
  | cmd_lls | cmd_mput | cmd_mget | cmd_echo | cmd_set | cmd_unset | cmd_rmcol | cmd_rename | cmd_lock
  | cmd_unlock | cmd_steal | cmd_discover | cmd_showlocks | cmd_propedit | cmd_propnames | cmd_propget
  | cmd_propset | cmd_propdel | cmd_chexec | cmd_edit | cmd_logout | cmd_describe | cmd_search
  | cmd_version | cmd_checkin | cmd_checkout | cmd_uncheckout | cmd_history | cmd_label | cmd_head
  | cmd_resumeget | cmd_unknown

datatype command_scope = parmscope_none | parmscope_option | parmscope_local | parmscope_remote

text \<open>The functions a handler can point to, by their type.\<close>

datatype fn0 = pwd_fn | showlocks_fn | close_connection_fn | lpwd_fn | logout_fn | about_fn

datatype fn1 =
    ls_fn | cd_fn | edit_fn | head_fn | lock_fn | unlock_fn | discover_fn | steal_fn | version_fn
  | checkin_fn | checkout_fn | uncheckout_fn | history_fn | propnames_fn | open_connection_fn
  | no_fn | lcd_fn | help_fn | describe_fn

datatype fn2 =
    put_fn | get_fn | resumeget_fn | rename_fn | chexec_fn | propget_fn | propdel_fn | set_fn | unset_fn

datatype fn3 = label_fn | propset_fn

datatype fnV =
    mget_fn | mput_fn | less_fn | mkcol_fn | cat_fn | delete_fn | rmcol_fn | copy_fn | move_fn
  | search_fn | echo_fn | lls_fn

text \<open>The union in \<open>struct command\<close>.\<close>

datatype cmd_handler = T0 fn0 | T1 fn1 | T2 fn2 | T3 fn3 | TV fnV

record command =
  c_id :: command_id
  c_name :: cstring
  needs_connection :: bool
  min_args :: nat
  max_args :: nat
  c_scope :: command_scope
  c_handler :: cmd_handler
  c_call :: cstring
  short_help :: "cstring option"

definition CMD_VARY :: nat where
  "CMD_VARY = 9999"

definition command_names :: "(command_id \<times> cstring) list" where
  "command_names =
    [(cmd_ls, ''ls''), (cmd_cd, ''cd''), (cmd_quit, ''quit''), (cmd_open, ''open''),
     (cmd_logout, ''logout''), (cmd_close, ''close''), (cmd_set, ''set''),
     (cmd_unset, ''unset''), (cmd_pwd, ''pwd''), (cmd_help, ''help''), (cmd_put, ''put''),
     (cmd_get, ''get''), (cmd_mkcol, ''mkcol''), (cmd_delete, ''delete''),
     (cmd_move, ''move''), (cmd_copy, ''copy''), (cmd_less, ''less''), (cmd_cat, ''cat''),
     (cmd_lpwd, ''lpwd''), (cmd_lcd, ''lcd''), (cmd_lls, ''lls''), (cmd_echo, ''echo''),
     (cmd_quit, ''quit''), (cmd_about, ''about''), (cmd_rename, ''rename''),
     (cmd_head, ''head''), (cmd_resumeget, ''resumeget''), (cmd_mget, ''mget''),
     (cmd_mput, ''mput''), (cmd_rmcol, ''rmcol''), (cmd_lock, ''lock''),
     (cmd_unlock, ''unlock''), (cmd_discover, ''discover''), (cmd_steal, ''steal''),
     (cmd_chexec, ''chexec''), (cmd_showlocks, ''showlocks''), (cmd_version, ''version''),
     (cmd_propget, ''propget''), (cmd_propset, ''propset''), (cmd_propdel, ''propdel''),
     (cmd_describe, ''describe''), (cmd_search, ''search''), (cmd_version, ''version''),
     (cmd_checkin, ''checkin''), (cmd_checkout, ''checkout''),
     (cmd_uncheckout, ''uncheckout''), (cmd_history, ''history''), (cmd_label, ''label''),
     (cmd_propnames, ''propnames''), (cmd_edit, ''edit''), (cmd_less, ''more''),
     (cmd_mkcol, ''mkdir''), (cmd_delete, ''rm''), (cmd_copy, ''cp''), (cmd_move, ''mv''),
     (cmd_help, ''h''), (cmd_help, ''?''), (cmd_quit, ''exit''), (cmd_quit, ''bye'')]"

text \<open>One row, and the macros that abbreviate the common shapes.\<close>

definition cmd_row :: "command_id \<Rightarrow> cstring \<Rightarrow> bool \<Rightarrow> nat \<Rightarrow> nat \<Rightarrow> command_scope \<Rightarrow> cmd_handler
    \<Rightarrow> cstring \<Rightarrow> cstring option \<Rightarrow> command" where
  "cmd_row i n conn mn mx sc h call help =
     \<lparr>c_id = i, c_name = n, needs_connection = conn, min_args = mn, max_args = mx, c_scope = sc,
      c_handler = h, c_call = call, short_help = help\<rparr>"

definition search_help :: cstring where
  "search_help =
    ''DASL Search resource in current collection\<newline>'' @
     ''\<newline>'' @
     '' Examples:\<newline>'' @
     ''   - search where content length is smaller than 100:\<newline>'' @
     ''      > search getcontentlength < 100\<newline>'' @
     ''   - search where author is Smith or Jones\<newline>'' @
     ''      > search author = Smith or author = Jones\<newline>'' @
     '' Available operators and keywords:\<newline>'' @
     ''     - and, or , (, ), =, <, >, <=, >=, like\<newline>'' @
     '' (See also variables searchdepth, searchorder, searchdorder)\<newline>''"

definition commands :: "command list" where
  "commands =
    [cmd_row cmd_ls ''ls'' True 0 1 parmscope_remote (T1 ls_fn)
       ''ls [path]'' (Some ''List contents of current [or other] collection''),
     cmd_row cmd_cd ''cd'' True 1 1 parmscope_remote (T1 cd_fn)
       ''cd path'' (Some ''Change to specified collection''),
     cmd_row cmd_pwd ''pwd'' True 0 0 parmscope_none (T0 pwd_fn)
       ''pwd'' (Some ''Display name of current collection''),
     cmd_row cmd_put ''put'' True 1 2 parmscope_none (T2 put_fn)
       ''put local [remote]'' (Some ''Upload local file''),
     cmd_row cmd_get ''get'' True 1 2 parmscope_none (T2 get_fn)
       ''get remote [local]'' (Some ''Download remote resource''),
     cmd_row cmd_resumeget ''resumeget'' True 1 2 parmscope_none (T2 resumeget_fn)
       ''resumeget remote [local]'' (Some ''Resume download of remote resource''),
     cmd_row cmd_mget ''mget'' True 1 CMD_VARY parmscope_remote (TV mget_fn)
       ''mget remote...'' (Some ''Download many remote resources''),
     cmd_row cmd_mput ''mput'' True 1 CMD_VARY parmscope_local (TV mput_fn)
       ''mput local...'' (Some ''Upload many local files''),
     cmd_row cmd_edit ''edit'' True 1 1 parmscope_remote (T1 edit_fn)
       ''edit resource'' (Some ''Edit given resource''),
     cmd_row cmd_head ''head'' True 1 1 parmscope_remote (T1 head_fn)
       ''head remote'' (Some ''Show resource metadata''),
     cmd_row cmd_less ''less'' True 1 CMD_VARY parmscope_remote (TV less_fn)
       ''less remote...'' (Some ''Display remote resource through pager''),
     cmd_row cmd_mkcol ''mkcol'' True 1 CMD_VARY parmscope_remote (TV mkcol_fn)
       ''mkcol remote...'' (Some ''Create remote collection(s)''),
     cmd_row cmd_cat ''cat'' True 1 CMD_VARY parmscope_remote (TV cat_fn)
       ''cat remote...'' (Some ''Display remote resource(s)''),
     cmd_row cmd_delete ''delete'' True 1 CMD_VARY parmscope_remote (TV delete_fn)
       ''delete remote...'' (Some ''Delete non-collection resource(s)''),
     cmd_row cmd_rmcol ''rmcol'' True 1 CMD_VARY parmscope_remote (TV rmcol_fn)
       ''rmcol remote...'' (Some ''Delete remote collections and ALL contents''),
     cmd_row cmd_copy ''copy'' True 2 CMD_VARY parmscope_remote (TV copy_fn)
       ''copy source... dest'' (Some ''Copy resource(s) from source to dest''),
     cmd_row cmd_move ''move'' True 2 CMD_VARY parmscope_remote (TV move_fn)
       ''move source... dest'' (Some ''Move resource(s) from source to dest''),
     cmd_row cmd_rename ''rename'' True 2 2 parmscope_remote (T2 rename_fn)
       ''rename source dest'' (Some ''Rename resource from source to dest''),
     cmd_row cmd_lock ''lock'' True 1 1 parmscope_remote (T1 lock_fn)
       ''lock resource'' (Some ''Lock given resource''),
     cmd_row cmd_unlock ''unlock'' True 1 1 parmscope_remote (T1 unlock_fn)
       ''unlock resource'' (Some ''Unlock given resource''),
     cmd_row cmd_discover ''discover'' True 1 1 parmscope_remote (T1 discover_fn)
       ''discover resource'' (Some ''Display lock information for resource''),
     cmd_row cmd_steal ''steal'' True 1 1 parmscope_remote (T1 steal_fn)
       ''steal resource'' (Some ''Steal lock token for resource''),
     cmd_row cmd_showlocks ''showlocks'' True 0 0 parmscope_none (T0 showlocks_fn)
       ''showlocks'' (Some ''Display list of owned locks''),
     cmd_row cmd_version ''version'' True 1 1 parmscope_remote (T1 version_fn)
       ''version resource'' (Some ''Place given resource under version control''),
     cmd_row cmd_checkin ''checkin'' True 1 1 parmscope_remote (T1 checkin_fn)
       ''checkin resource'' (Some ''Checkin given resource''),
     cmd_row cmd_checkout ''checkout'' True 1 1 parmscope_remote (T1 checkout_fn)
       ''checkout resource'' (Some ''Checkout given resource''),
     cmd_row cmd_uncheckout ''uncheckout'' True 1 1 parmscope_remote (T1 uncheckout_fn)
       ''uncheckin resource'' (Some ''Uncheckout given resource''),
     cmd_row cmd_history ''history'' True 1 1 parmscope_remote (T1 history_fn)
       ''history resource'' (Some ''Show version history of resource''),
     cmd_row cmd_label ''label'' True 3 3 parmscope_none (T3 label_fn)
       ''label res [add|set|remove] labelname'' (Some ''Set/Del/Edit label on resource''),
     cmd_row cmd_propnames ''propnames'' True 1 1 parmscope_remote (T1 propnames_fn)
       ''propnames res'' (Some ''Names of properties defined on resource''),
     cmd_row cmd_chexec ''chexec'' True 2 2 parmscope_none (T2 chexec_fn)
       ''chexec [+|-] remote'' (Some ''Change isexecutable property of resource''),
     cmd_row cmd_propget ''propget'' True 1 2 parmscope_none (T2 propget_fn)
       ''propget res [propname]'' (Some ''Retrieve properties of resource''),
     cmd_row cmd_propdel ''propdel'' True 2 2 parmscope_none (T2 propdel_fn)
       ''propdel res propname'' (Some ''Delete property from resource''),
     cmd_row cmd_propset ''propset'' True 3 3 parmscope_none (T3 propset_fn)
       ''propset res propname value'' (Some ''Set property on resource''),
     cmd_row cmd_search ''search'' True 1 CMD_VARY parmscope_remote (TV search_fn)
       ''search query'' (Some search_help),
     cmd_row cmd_set ''set'' False 0 2 parmscope_none (T2 set_fn)
       ''set [option] [value]'' (Some ''Set an option, or display options''),
     cmd_row cmd_open ''open'' False 1 1 parmscope_none (T1 open_connection_fn)
       ''open URL'' (Some ''Open connection to given URL''),
     cmd_row cmd_close ''close'' True 0 0 parmscope_none (T0 close_connection_fn)
       ''close'' (Some ''Close current connection''),
     cmd_row cmd_echo ''echo'' False 1 CMD_VARY parmscope_remote (TV echo_fn)
       ''echo'' None,
     cmd_row cmd_quit ''quit'' False 0 1 parmscope_none (T1 no_fn)
       ''quit'' (Some ''Exit program''),
     cmd_row cmd_unset ''unset'' False 1 2 parmscope_none (T2 unset_fn)
       ''unset [option] [value]'' (Some ''Unsets or clears value from option.''),
     cmd_row cmd_lcd ''lcd'' False 0 1 parmscope_none (T1 lcd_fn)
       ''lcd [directory]'' (Some ''Change local working directory''),
     cmd_row cmd_lls ''lls'' False 0 CMD_VARY parmscope_local (TV lls_fn)
       ''lls [options]'' (Some ''Display local directory listing''),
     cmd_row cmd_lpwd ''lpwd'' False 0 0 parmscope_none (T0 lpwd_fn)
       ''lpwd'' (Some ''Print local working directory''),
     cmd_row cmd_logout ''logout'' True 0 0 parmscope_none (T0 logout_fn)
       ''logout'' (Some ''Logout of authentication session''),
     cmd_row cmd_help ''help'' False 0 1 parmscope_none (T1 help_fn)
       ''help [command]'' (Some ''Display help message''),
     cmd_row cmd_describe ''describe'' False 1 1 parmscope_none (T1 describe_fn)
       ''describe option'' (Some ''Describe an option variable''),
     cmd_row cmd_about ''about'' False 0 0 parmscope_none (T0 about_fn)
       ''about'' (Some ''Information about this version of cadaver'')]"

section \<open>Lookup, completion and help\<close>

definition find_command_name :: "cstring \<Rightarrow> (command_id \<times> cstring) option" where
  "find_command_name name = first_named snd command_names name"

fun find_command_id :: "command list \<Rightarrow> command_id \<Rightarrow> command option" where
  "find_command_id [] i = None"
| "find_command_id (c # cs) i = (if c_id c = i then Some c else find_command_id cs i)"

definition get_command :: "cstring \<Rightarrow> command option" where
  "get_command name =
     (case find_command_name name of
        Some (i, n) \<Rightarrow> find_command_id commands i
      | None \<Rightarrow> None)"

text \<open>
  \<open>command_generator\<close>: the static variables \<open>i\<close> and \<open>len\<close> are the state; a call returns
  the next name with the prefix.
\<close>

function generator_scan :: "nat \<Rightarrow> nat \<Rightarrow> cstring \<Rightarrow> cstring option \<times> nat" where
  "generator_scan i len text =
     (if i < length command_names then
        (if strneq (snd (command_names ! i)) text len then (Some (snd (command_names ! i)), Suc i)
         else generator_scan (Suc i) len text)
      else (None, i))"
  by pat_completeness auto
termination by (relation "measure (\<lambda>(i, len, text). length command_names - i)") auto

declare generator_scan.simps [simp del]

definition command_generator ::
  "cstring \<Rightarrow> int \<Rightarrow> nat \<times> nat \<Rightarrow> cstring option \<times> (nat \<times> nat)" where
  "command_generator text state vars =
     (let (i, len) = (if state = 0 then (0, length text) else vars);
          (name, i) = generator_scan i len text
      in (name, (i, len)))"

text \<open>The calls readline makes: state 0 first, then 1, until NULL.  The fuel bounds the calls.\<close>

fun generator_calls :: "nat \<Rightarrow> cstring \<Rightarrow> int \<Rightarrow> nat \<times> nat \<Rightarrow> cstring list" where
  "generator_calls 0 text state vars = []"
| "generator_calls (Suc fuel) text state vars =
     (case command_generator text state vars of
        (None, vars) \<Rightarrow> []
      | (Some name, vars) \<Rightarrow> name # generator_calls fuel text 1 vars)"

text \<open>The columns of \<open>display_help_message\<close>, seven to a line.\<close>

fun help_columns :: "command list \<Rightarrow> nat \<Rightarrow> string \<times> nat" where
  "help_columns [] pos = ([], pos)"
| "help_columns (c # cs) pos =
     (let (s, p) = help_columns cs ((pos + 1) mod 7)
      in (pad_right 11 (c_name c) @ (if pos = 6 then ''\<newline> '' else []) @ s, p))"

definition display_help_message :: string where
  "display_help_message =
     (let (s, pos) = help_columns commands 0
      in ''Available commands: \<newline> '' @ s @ (if pos = 6 then [CHR 0x0D] else ''\<newline>'')
         @ ''Aliases: rm=delete, mkdir=mkcol, mv=move, cp=copy, ''
         @ ''more=less, quit=exit=bye\<newline>'')"

definition execute_help :: "cstring option \<Rightarrow> string" where
  "execute_help arg =
     (case arg of
        None \<Rightarrow> display_help_message
      | Some a \<Rightarrow>
          (case get_command a of
             Some cmd \<Rightarrow> '' `'' @ c_call cmd @ CHR 0x27 # ''   '' @ str_or_null (short_help cmd) @ ''\<newline>''
               @ (if needs_connection cmd
                  then ''This command can only be used when connected to a server.\<newline>'' else [])
           | None \<Rightarrow> ''Command name not known: '' @ a @ ''\<newline>''))"

section \<open>Lemmas\<close>

lemma command_names_distinct: "distinct (map (\<lambda>r. map tolower (snd r)) (remdups command_names))"
  by code_simp

interpretation ct: name_table find_command_name snd command_names
proof
  show "r \<in> set command_names \<and> strcaseeq (snd r) n" if "find_command_name n = Some r" for n r
    using that unfolding find_command_name_def by (rule first_named_found)
  show "find_command_name n \<noteq> None" if "r \<in> set command_names" "strcaseeq (snd r) n" for n r
    using that unfolding find_command_name_def by (rule first_named_present)
  show "r = r'" if "r \<in> set command_names" "r' \<in> set command_names" "strcaseeq (snd r) (snd r')" for r r'
    using command_names_distinct that one_row_of_distinct [of snd "remdups command_names" r r'] by simp
qed

lemma cmd_row_simps [simp]:
  "c_id (cmd_row i n conn mn mx sc h call help) = i"
  "c_name (cmd_row i n conn mn mx sc h call help) = n"
  "needs_connection (cmd_row i n conn mn mx sc h call help) = conn"
  "min_args (cmd_row i n conn mn mx sc h call help) = mn"
  "max_args (cmd_row i n conn mn mx sc h call help) = mx"
  "c_handler (cmd_row i n conn mn mx sc h call help) = h"
  by (simp_all add: cmd_row_def)

definition command_ids :: "(command_id \<times> cstring) list" where
  "command_ids = map (\<lambda>c. (c_id c, c_name c)) commands"

lemmas command_ids_list = command_ids_def [unfolded commands_def list.map cmd_row_simps]

lemma command_ids_names: "map fst command_ids = map c_id commands"
  by (simp add: command_ids_def)

lemma command_ids_distinct: "distinct (map c_id commands)"
  unfolding command_ids_names [symmetric] command_ids_list list.map fst_conv by code_simp

lemma commands_named: "list_all (\<lambda>c. (c_id c, c_name c) \<in> set command_names) commands"
proof -
  have "list_all (\<lambda>r. r \<in> set command_names) command_ids"
    unfolding command_ids_list by code_simp
  then show ?thesis by (simp add: command_ids_def list_all_iff)
qed

lemma names_commanded: "list_all (\<lambda>(i, n). i \<in> set (map c_id commands)) command_names"
  unfolding command_ids_names [symmetric] command_ids_list list.map fst_conv by code_simp

lemma find_command_id_iff:
  "distinct (map c_id cs) \<Longrightarrow> find_command_id cs i = Some c \<longleftrightarrow> c \<in> set cs \<and> c_id c = i"
  by (induction cs) (auto simp: image_iff)

lemma get_command_iff:
  "get_command name = Some c \<longleftrightarrow>
     c \<in> set commands \<and> (\<exists>n. (c_id c, n) \<in> set command_names \<and> strcaseeq n name)"
proof
  assume "get_command name = Some c"
  then obtain i n where "find_command_name name = Some (i, n)" "find_command_id commands i = Some c"
    by (auto simp: get_command_def split: option.splits)
  then show "c \<in> set commands \<and> (\<exists>n. (c_id c, n) \<in> set command_names \<and> strcaseeq n name)"
    using ct.found [of name "(i, n)"] find_command_id_iff [OF command_ids_distinct, of i c] by auto
next
  assume "c \<in> set commands \<and> (\<exists>n. (c_id c, n) \<in> set command_names \<and> strcaseeq n name)"
  then obtain n where "c \<in> set commands" "(c_id c, n) \<in> set command_names" "strcaseeq n name" by blast
  then show "get_command name = Some c"
    using ct.find_iff [of name "(c_id c, n)"] find_command_id_iff [OF command_ids_distinct, of "c_id c" c]
    by (simp add: get_command_def)
qed

lemma get_command_own_name: "c \<in> set commands \<Longrightarrow> get_command (c_name c) = Some c"
  using commands_named by (auto simp: get_command_iff list_all_iff)

lemma command_kinds:
  "list_all (\<lambda>c. case c_handler c of
      T0 _ \<Rightarrow> min_args c = 0 \<and> max_args c = 0
    | T1 _ \<Rightarrow> max_args c = 1
    | T2 _ \<Rightarrow> max_args c = 2
    | T3 _ \<Rightarrow> min_args c = 3 \<and> max_args c = 3
    | TV _ \<Rightarrow> max_args c = CMD_VARY) commands"
  unfolding commands_def by simp

text \<open>The scan from \<open>i\<close> visits the rest of the names in order.\<close>

lemma generator_scan_filter:
  "case generator_scan i len s of
     (None, j) \<Rightarrow> filter (\<lambda>n. strneq n s len) (map snd (drop i command_names)) = []
   | (Some name, j) \<Rightarrow> filter (\<lambda>n. strneq n s len) (map snd (drop i command_names))
        = name # filter (\<lambda>n. strneq n s len) (map snd (drop j command_names)) \<and> i < j"
proof (induction i len s rule: generator_scan.induct)
  case (1 i len s)
  show ?case
  proof (cases "i < length command_names")
    case True
    then have drop: "drop i command_names = command_names ! i # drop (Suc i) command_names"
      by (simp add: Cons_nth_drop_Suc)
    show ?thesis
    proof (cases "strneq (snd (command_names ! i)) s len")
      case True
      with \<open>i < length command_names\<close> drop show ?thesis by (subst generator_scan.simps) simp
    next
      case False
      with 1 \<open>i < length command_names\<close> drop show ?thesis
        by (subst generator_scan.simps) (auto split: option.splits prod.splits)
    qed
  next
    case False
    then show ?thesis by (subst generator_scan.simps) simp
  qed
qed

lemma generator_calls_rest:
  assumes "length command_names - i < fuel" and "state \<noteq> 0"
  shows "generator_calls fuel s state (i, len) = filter (\<lambda>n. strneq n s len) (map snd (drop i command_names))"
  using assms
proof (induction fuel arbitrary: i state)
  case (Suc fuel)
  obtain r j where scan: "generator_scan i len s = (r, j)" by (cases "generator_scan i len s")
  show ?case
  proof (cases r)
    case None
    with scan generator_scan_filter [where i = i and len = len and s = s] Suc.prems show ?thesis
      by (simp add: command_generator_def)
  next
    case (Some name)
    with scan generator_scan_filter [where i = i and len = len and s = s]
    have *: "filter (\<lambda>n. strneq n s len) (map snd (drop i command_names))
        = name # filter (\<lambda>n. strneq n s len) (map snd (drop j command_names))" "i < j" by simp_all
    then have "i < length command_names" by (cases "i < length command_names") auto
    with *(2) Suc.prems have "length command_names - j < fuel" by simp
    with Suc.IH [of j 1] scan Some * Suc.prems show ?thesis by (simp add: command_generator_def)
  qed
qed simp

section \<open>Properties\<close>

text \<open>C20: every command can be run by its own name, and every name and alias of
  \<open>command_names\<close> stands for the command whose number it carries: no row of either table is
  forgotten in the other.\<close>

theorem command_tables_agree:
  "(\<forall>c \<in> set commands. get_command (c_name c) = Some c) \<and>
   (\<forall>(i, n) \<in> set command_names. \<exists>c \<in> set commands. get_command n = Some c \<and> c_id c = i)"
proof
  show "\<forall>c \<in> set commands. get_command (c_name c) = Some c" using get_command_own_name by blast
  show "\<forall>(i, n) \<in> set command_names. \<exists>c \<in> set commands. get_command n = Some c \<and> c_id c = i"
  proof clarify
    fix i n assume row: "(i, n) \<in> set command_names"
    then have "i \<in> set (map c_id commands)" using names_commanded by (auto simp: list_all_iff)
    then obtain c where "c \<in> set commands" "c_id c = i" by auto
    with row have "get_command n = Some c" by (auto simp: get_command_iff)
    with \<open>c \<in> set commands\<close> \<open>c_id c = i\<close> show "\<exists>c \<in> set commands. get_command n = Some c \<and> c_id c = i" by blast
  qed
qed

theorem command_tables_agree_witness:
  "\<exists>c \<in> set commands. get_command ''mkdir'' = Some c \<and> c_id c = cmd_mkcol"
proof -
  have "(cmd_mkcol, ''mkdir'') \<in> set command_names" by (simp add: command_names_def)
  with command_tables_agree show ?thesis by blast
qed

text \<open>A command is found whatever the case of the letters the user typed.\<close>

theorem get_command_ignores_case:
  assumes "strcaseeq name name'"
  shows "get_command name = get_command name'"
  using ct.find_cong [OF assms] by (simp add: get_command_def)

theorem get_command_ignores_case_witness: "get_command ''LS'' = get_command ''ls''"
proof -
  have "strcaseeq ''LS'' ''ls''" by code_simp
  then show ?thesis by (rule get_command_ignores_case)
qed

text \<open>C40: the union in \<open>struct command\<close> is used type-safely: the argument limits of a row,
  on which \<open>execute_command\<close> dispatches, name the member of the union the row was
  initialised with, and a handler of three arguments gets three.\<close>

theorem handler_member:
  assumes "get_command name = Some c"
  shows "case c_handler c of
      T0 f \<Rightarrow> min_args c = 0 \<and> max_args c = 0
    | T1 f \<Rightarrow> max_args c = 1
    | T2 f \<Rightarrow> max_args c = 2
    | T3 f \<Rightarrow> min_args c = 3 \<and> max_args c = 3
    | TV f \<Rightarrow> max_args c = CMD_VARY"
  using assms command_kinds by (auto simp: get_command_iff list_all_iff)

theorem handler_member_witness:
  "\<exists>c. get_command ''ls'' = Some c \<and> (case c_handler c of
      T0 f \<Rightarrow> min_args c = 0 \<and> max_args c = 0
    | T1 f \<Rightarrow> max_args c = 1
    | T2 f \<Rightarrow> max_args c = 2
    | T3 f \<Rightarrow> min_args c = 3 \<and> max_args c = 3
    | TV f \<Rightarrow> max_args c = CMD_VARY)"
proof -
  have "hd commands \<in> set commands" by (simp add: commands_def)
  then have "get_command (c_name (hd commands)) = Some (hd commands)" by (rule get_command_own_name)
  then have "get_command ''ls'' = Some (hd commands)" by (simp add: commands_def)
  from this handler_member [OF this] show ?thesis by (intro exI conjI)
qed

text \<open>The successive calls of \<open>command_generator\<close> return exactly the names that start
  with the text, in the order of the table, and then NULL, whatever the earlier calls left in
  the static variables.\<close>

theorem command_generator_complete:
  "generator_calls (length command_names + 2) s 0 vars
     = filter (\<lambda>n. strneq n s (length s)) (map snd command_names)"
proof -
  have "generator_calls (length command_names + 2) s 0 vars
      = generator_calls (length command_names + 2) s 1 (0, length s)"
    by (simp add: command_generator_def)
  also have "\<dots> = filter (\<lambda>n. strneq n s (length s)) (map snd command_names)"
    using generator_calls_rest [where i = 0 and fuel = "length command_names + 2" and state = 1 and s = s and len = "length s"] by simp
  finally show ?thesis .
qed

end
