(* ===== verification/Cmdline.thy ===== *)
theory Cmdline
  imports Command_Table Lib_Strings
begin

text \<open>
  \<open>src/cmdline.c\<close>: the tokeniser of command lines, a finite automaton over a fixed buffer,
  and \<open>parse_command\<close> with its expansion of file name patterns.  The routine \<open>glob\<close> (the
  C library's, or \<open>lib/glob\<close>) is a parameter that may change the world it runs in.
\<close>

section \<open>The tokeniser\<close>

definition has_glob_pattern :: "cstring \<Rightarrow> bool" where
  "has_glob_pattern str \<longleftrightarrow> (\<exists>c \<in> set str. c = CHR ''*'' \<or> c = CHR ''['' \<or> c = CHR ''?'')"

text \<open>The states 0, 1, 2, 3, 4, 8 and 9 of the comment in the code.\<close>

datatype gt_state = leading | normal | quoted | escaped | quoted_escaped | comment | accepted

definition is_quote :: "char \<Rightarrow> bool" where
  "is_quote c \<longleftrightarrow> c = CHR 0x27 \<or> c = CHR 0x22"

definition is_white :: "char \<Rightarrow> bool" where
  "is_white c \<longleftrightarrow> c = CHR '' '' \<or> c = CHR 0x09"

text \<open>One turn of the loop: the new state, quote and contents of the buffer.\<close>

definition gt_step :: "gt_state \<Rightarrow> char \<Rightarrow> cstring \<Rightarrow> char \<Rightarrow> gt_state \<times> char \<times> cstring" where
  "gt_step state q buf c =
     (case state of
        leading \<Rightarrow>
          if is_quote c then (quoted, c, buf)
          else if c = CHR ''#'' then (comment, q, buf)
          else if \<not> is_white c then (normal, q, buf @ [c])
          else (leading, q, buf)
      | normal \<Rightarrow>
          if is_white c then (accepted, q, buf)
          else if c = CHR ''#'' then (comment, q, buf)
          else if c = CHR 0x5C then (escaped, q, buf)
          else (normal, q, buf @ [c])
      | quoted \<Rightarrow>
          if c = q then (accepted, q, buf)
          else if c = CHR 0x5C then (quoted_escaped, q, buf)
          else (quoted, q, buf @ [c])
      | escaped \<Rightarrow> (normal, q, buf @ [c])
      | quoted_escaped \<Rightarrow> (quoted, q, buf @ [c])
      | comment \<Rightarrow> (comment, q, buf)
      | accepted \<Rightarrow> (accepted, q, buf))"

fun gt_loop :: "gt_state \<Rightarrow> char \<Rightarrow> cstring \<Rightarrow> cstring \<Rightarrow> cstring \<times> cstring" where
  "gt_loop state q buf [] = (buf, [])"
| "gt_loop state q buf (c # pnt) =
     (if state = accepted \<or> BUFSIZ \<le> length buf then (buf, c # pnt)
      else case gt_step state q buf c of (state, q, buf) \<Rightarrow> gt_loop state q buf pnt)"

text \<open>The token, \<open>None\<close> for NULL, and the new position.\<close>

definition gettoken :: "cstring \<Rightarrow> cstring option \<times> cstring" where
  "gettoken pointer =
     (let (buf, pnt) = gt_loop leading CHR 0x00 [] pointer in
      if length buf = BUFSIZ then (None, pointer)
      else if 0 < length buf then (Some buf, pnt)
      else (None, pnt))"

lemma gt_loop_rest: "length (snd (gt_loop state q buf pnt)) \<le> length pnt"
  by (induction pnt arbitrary: state q buf) (auto simp: le_SucI split: prod.split)

lemma gt_loop_progress:
  assumes "fst (gt_loop leading q [] pnt) \<noteq> []"
  shows "length (snd (gt_loop leading q [] pnt)) < length pnt"
proof (cases pnt)
  case Nil
  with assms show ?thesis by simp
next
  case (Cons c p)
  obtain s q' b where step: "gt_step leading q [] c = (s, q', b)" by (cases "gt_step leading q [] c")
  have "gt_loop leading q [] pnt = gt_loop s q' b p" using Cons step by (simp add: BUFSIZ_def)
  with gt_loop_rest [of s q' b p] Cons show ?thesis by simp
qed

lemma gettoken_progress: "gettoken p = (Some t, p') \<Longrightarrow> length p' < length p"
  using gt_loop_progress [of "CHR 0x00" p]
  by (auto simp: gettoken_def Let_def case_prod_unfold split: if_splits)

section \<open>Command lines\<close>

datatype glob_result = Glob_ok "cstring list" | Glob_nospace | Glob_aborted | Glob_nomatch | Glob_other

datatype output_type = o_start | o_upload | o_download | o_finish

text \<open>The calls of \<open>output\<close> that the expansion makes: the kind and the formatted text.\<close>

type_synonym output_call = "output_type \<times> string"

definition glob_report :: "glob_result \<Rightarrow> string" where
  "glob_report r =
     (case r of
        Glob_ok ms \<Rightarrow> if 1 < length ms then show_nat (length ms) @ '' matches.]\<newline>'' else ''1 match.]\<newline>''
      | Glob_nospace \<Rightarrow> ''failed: out of memory.]\<newline>''
      | Glob_aborted \<Rightarrow> ''aborted]\<newline>''
      | Glob_nomatch \<Rightarrow> ''no matches.]\<newline>''
      | Glob_other \<Rightarrow> ''failed.]\<newline>'')"

text \<open>The arguments of the call: the pattern, and whether the remote handlers are put in.\<close>

type_synonym 'w glob_fn = "cstring \<Rightarrow> bool \<Rightarrow> 'w \<Rightarrow> glob_result \<times> 'w"

text \<open>What becomes of a token that is not the first.\<close>

definition wants_glob :: "bool \<Rightarrow> command option \<Rightarrow> cstring \<Rightarrow> bool" where
  "wants_glob connected cmd token \<longleftrightarrow> has_glob_pattern token \<and>
     (case cmd of
        None \<Rightarrow> False
      | Some c \<Rightarrow> c_scope c = parmscope_remote \<and> connected \<or> c_scope c = parmscope_local)"

definition expand_token ::
  "'w glob_fn \<Rightarrow> bool \<Rightarrow> command option \<Rightarrow> cstring \<Rightarrow> 'w \<Rightarrow> cstring list \<times> output_call list \<times> 'w" where
  "expand_token glob connected cmd token w =
     (if wants_glob connected cmd token then
        let remote = (case cmd of Some c \<Rightarrow> c_scope c = parmscope_remote | None \<Rightarrow> False);
            (ret, w) = glob token remote w
        in (case ret of Glob_ok ms \<Rightarrow> ms | _ \<Rightarrow> [token],
            [(o_start, ''[Matching...''), (o_finish, glob_report ret)], w)
      else ([token], [], w))"

text \<open>The loop of \<open>parse_command\<close>: \<open>tokens\<close> is the array built so far.\<close>

function parse_loop ::
  "'w glob_fn \<Rightarrow> bool \<Rightarrow> command option \<Rightarrow> cstring list \<Rightarrow> output_call list \<Rightarrow> 'w \<Rightarrow> cstring
    \<Rightarrow> cstring list \<times> output_call list \<times> 'w" where
  "parse_loop glob connected cmd tokens outs w pnt =
     (case gettoken pnt of
        (None, _) \<Rightarrow> (tokens, outs, w)
      | (Some token, pnt') \<Rightarrow>
          if tokens = [] then parse_loop glob connected (get_command token) [token] outs w pnt'
          else case expand_token glob connected cmd token w of (ts, os, w') \<Rightarrow>
            parse_loop glob connected cmd (tokens @ ts) (outs @ os) w' pnt')"
  by pat_completeness auto
termination
  by (relation "measure (\<lambda>(glob, connected, cmd, tokens, outs, w, pnt). length pnt)")
    (auto dest: gettoken_progress [OF sym])

declare parse_loop.simps [simp del]

text \<open>\<open>*count\<close> is the length of the list; the NULL after it is implicit.\<close>

definition parse_command ::
  "'w glob_fn \<Rightarrow> bool \<Rightarrow> cstring \<Rightarrow> 'w \<Rightarrow> cstring list \<times> output_call list \<times> 'w" where
  "parse_command glob connected line w = parse_loop glob connected None [] [] w line"

section \<open>Lemmas\<close>

lemma gt_step_length: "gt_step state q buf c = (s, q', b) \<Longrightarrow> length b \<le> Suc (length buf)"
  by (auto simp: gt_step_def split: gt_state.splits if_splits)

lemma gt_loop_bound: "length buf \<le> BUFSIZ \<Longrightarrow> length (fst (gt_loop state q buf pnt)) \<le> BUFSIZ"
proof (induction pnt arbitrary: state q buf)
  case (Cons c pnt)
  obtain s q' b where step: "gt_step state q buf c = (s, q', b)" by (cases "gt_step state q buf c")
  then have "length b \<le> Suc (length buf)" by (rule gt_step_length)
  with Cons step show ?case by simp
qed simp

lemma gt_loop_accepted: "gt_loop accepted q buf pnt = (buf, pnt)"
  by (cases pnt) simp_all

text \<open>A word written in double quotes, quotes and backslashes in it escaped.\<close>

fun escape_arg :: "cstring \<Rightarrow> cstring" where
  "escape_arg [] = []"
| "escape_arg (c # cs) =
     (if c = CHR 0x22 \<or> c = CHR 0x5C then CHR 0x5C # c # escape_arg cs else c # escape_arg cs)"

definition quote_arg :: "cstring \<Rightarrow> cstring" where
  "quote_arg s = CHR 0x22 # escape_arg s @ [CHR 0x22]"

lemma gt_loop_quoted:
  "length buf + length s < BUFSIZ \<Longrightarrow>
   gt_loop quoted CHR 0x22 buf (escape_arg s @ CHR 0x22 # r) = (buf @ s, r)"
proof (induction s arbitrary: buf)
  case Nil
  then show ?case by (simp add: gt_step_def gt_loop_accepted)
next
  case (Cons c s)
  then show ?case by (auto simp: gt_step_def)
qed

lemma gettoken_quoted:
  assumes "s \<noteq> []" "length s < BUFSIZ"
  shows "gettoken (quote_arg s @ r) = (Some s, r)"
  using gt_loop_quoted [of "[]" s r] assms
  by (simp add: gettoken_def quote_arg_def gt_step_def is_quote_def BUFSIZ_def)

lemma gettoken_blank: "gettoken p = (Some t, r) \<Longrightarrow> gettoken (CHR '' '' # p) = (Some t, r)"
  by (auto simp: gettoken_def gt_step_def is_quote_def is_white_def BUFSIZ_def Let_def split: if_splits prod.splits)

lemma gettoken_Nil: "gettoken [] = (None, [])"
  by (simp add: gettoken_def BUFSIZ_def)

fun quote_args :: "cstring list \<Rightarrow> cstring" where
  "quote_args [] = []"
| "quote_args (a # as) = CHR '' '' # quote_arg a @ quote_args as"

definition arg_ok :: "cstring \<Rightarrow> bool" where
  "arg_ok s \<longleftrightarrow> s \<noteq> [] \<and> length s < BUFSIZ"

lemma parse_loop_args:
  assumes "tokens \<noteq> []" "\<forall>a \<in> set as. arg_ok a \<and> \<not> wants_glob connected cmd a"
  shows "parse_loop glob connected cmd tokens outs w (quote_args as) = (tokens @ as, outs, w)"
  using assms
proof (induction as arbitrary: tokens)
  case Nil
  then show ?case by (subst parse_loop.simps) (simp add: gettoken_Nil)
next
  case (Cons a as)
  have "gettoken (quote_args (a # as)) = (Some a, quote_args as)"
    using gettoken_blank [OF gettoken_quoted [of a "quote_args as"]] Cons.prems by (simp add: arg_ok_def)
  with Cons show ?case by (subst parse_loop.simps) (simp add: expand_token_def)
qed

lemma parse_command_first:
  assumes "arg_ok name"
  shows "parse_command glob connected (quote_arg name @ r) w
    = parse_loop glob connected (get_command name) [name] [] w r"
  using gettoken_quoted [of name r] assms unfolding parse_command_def
  by (subst parse_loop.simps) (simp add: arg_ok_def)

section \<open>Properties\<close>





text \<open>Quotes do not protect a pattern: an argument with a wildcard in it is expanded for a
  command on remote names although it was quoted, and is passed on unchanged only when the
  expansion fails.\<close>

theorem quoted_pattern_expanded:
  assumes "arg_ok name" and "arg_ok a" and "has_glob_pattern a"
    and "get_command name = Some c" and "c_scope c = parmscope_remote"
  shows "parse_command glob True (quote_arg name @ quote_args [a]) w
    = (name # (case fst (glob a True w) of Glob_ok ms \<Rightarrow> ms | _ \<Rightarrow> [a]),
       [(o_start, ''[Matching...''), (o_finish, glob_report (fst (glob a True w)))],
       snd (glob a True w))"
proof -
  have "gettoken (quote_args [a]) = (Some a, [])"
    using gettoken_blank [OF gettoken_quoted [of a "[]"]] assms(2) by (simp add: arg_ok_def)
  then have "parse_loop glob True (Some c) [name] [] w (quote_args [a])
      = (case expand_token glob True (Some c) a w of (ts, os, w') \<Rightarrow> ([name] @ ts, os, w'))"
    by (subst parse_loop.simps) (simp add: parse_loop.simps [of _ _ _ _ _ _ "[]"] gettoken_Nil case_prod_unfold)
  with assms(3-5) parse_command_first [OF assms(1), of glob True "quote_args [a]" w] show ?thesis
    by (simp add: expand_token_def wants_glob_def case_prod_unfold Let_def)
qed

theorem quoted_pattern_expanded_witness:
  "parse_command (\<lambda>p r w. (Glob_ok [''a'', ''b''], w)) True (quote_arg ''ls'' @ quote_args [''*'']) ()
     = ([''ls'', ''a'', ''b''], [(o_start, ''[Matching...''), (o_finish, ''2 matches.]\<newline>'')], ())"
proof -
  define ls where "ls = hd commands"
  have "get_command (c_name ls) = Some ls"
    by (rule get_command_own_name) (simp add: ls_def commands_def)
  then have ls: "get_command ''ls'' = Some ls" "c_scope ls = parmscope_remote"
    by (simp_all add: ls_def commands_def cmd_row_def)
  have report: "glob_report (Glob_ok [''a'', ''b'']) = ''2 matches.]\<newline>''" by code_simp
  have "arg_ok ''ls''" "arg_ok ''*''" "has_glob_pattern ''*''"
    by (simp_all add: arg_ok_def BUFSIZ_def has_glob_pattern_def)
  from quoted_pattern_expanded [OF this ls, of "\<lambda>p r w. (Glob_ok [''a'', ''b''], w)" "()"] report
  show ?thesis by simp
qed

text \<open>An argument written as two quotes ends the command line: it is not passed as an
  empty argument, and everything after it is silently dropped.\<close>

theorem empty_quotes_end_line:
  assumes "arg_ok name"
  shows "parse_command glob connected (quote_arg name @ CHR '' '' # quote_arg [] @ rest) w = ([name], [], w)"
proof -
  have "gettoken (CHR '' '' # quote_arg [] @ rest) = (None, rest)"
    by (simp add: gettoken_def quote_arg_def gt_step_def is_quote_def is_white_def gt_loop_accepted BUFSIZ_def)
  then show ?thesis
    using parse_command_first [OF assms, of glob connected "CHR '' '' # quote_arg [] @ rest" w]
    by (subst (asm) parse_loop.simps) simp
qed

theorem empty_quotes_end_line_witness:
  "parse_command (\<lambda>p r w. (Glob_nomatch, w)) True (quote_arg ''set'' @ CHR '' '' # quote_arg [] @ '' quiet'') ()
     = ([''set''], [], ())"
  by (rule empty_quotes_end_line) (simp add: arg_ok_def BUFSIZ_def)

end
