(* ===== verification/Netrc.thy ===== *)
theory Netrc
  imports Lib_Strings
begin

text \<open>
  \<open>lib/netrc.c\<close>: the parser of the .netrc file and the search for a host.  The model works
  on the contents of the file; warnings are kept as texts.  A pointer to an entry under
  construction that is NULL is \<open>None\<close>.
\<close>

section \<open>Entries\<close>

record netrc_entry =
  n_host :: "cstring option"
  n_account :: "cstring option"
  n_password :: "cstring option"

definition zero_entry :: netrc_entry where
  "zero_entry = \<lparr>n_host = None, n_account = None, n_password = None\<rparr>"

definition maybe_add_to_list ::
  "netrc_entry option \<Rightarrow> netrc_entry list \<Rightarrow> netrc_entry \<times> netrc_entry list" where
  "maybe_add_to_list newentry l =
     (case newentry of
        None \<Rightarrow> (zero_entry, l)
      | Some a \<Rightarrow> if n_account a = None then (zero_entry, l) else (zero_entry, a # l))"

section \<open>The parser\<close>

datatype last_token = tok_nothing | tok_account | tok_login | tok_macdef | tok_machine | tok_password

record netrc_state =
  last_token :: last_token
  current :: "netrc_entry option"
  retval :: "netrc_entry list"
  warnings :: "cstring list"

definition netrc_start :: netrc_state where
  "netrc_start = \<lparr>last_token = tok_nothing, current = None, retval = [], warnings = []\<rparr>"

text \<open>
  The token at the head of the line and what follows the byte that ends it; quotes are
  taken out in place.
\<close>

fun scan_token :: "char option \<Rightarrow> cstring \<Rightarrow> cstring \<times> cstring" where
  "scan_token quote [] = ([], [])"
| "scan_token quote (c # p) =
     (case quote of
        Some q \<Rightarrow>
          if q = c then scan_token None p
          else let (tok, r) = scan_token quote p in (c # tok, r)
      | None \<Rightarrow>
          if isspace c then ([], p)
          else if c = CHR 0x22 \<or> c = CHR 0x27 then scan_token (Some c) p
          else let (tok, r) = scan_token None p in (c # tok, r))"

definition premature :: "cstring \<Rightarrow> netrc_state \<Rightarrow> netrc_state" where
  "premature what st = st\<lparr>warnings := warnings st @ [''found '' @ what @ '' before any host names'']\<rparr>"

text \<open>The switch on the last token: \<open>tok\<close> is its value.\<close>

definition use_value :: "cstring \<Rightarrow> netrc_state \<Rightarrow> netrc_state" where
  "use_value tok st =
     (case last_token st of
        tok_login \<Rightarrow>
          (case current st of
             Some e \<Rightarrow> st\<lparr>current := Some (e\<lparr>n_account := Some tok\<rparr>)\<rparr>
           | None \<Rightarrow> premature ''login'' st)
      | tok_machine \<Rightarrow>
          (let (e, l) = maybe_add_to_list (current st) (retval st)
           in st\<lparr>current := Some (e\<lparr>n_host := Some tok\<rparr>), retval := l\<rparr>)
      | tok_password \<Rightarrow>
          (case current st of
             Some e \<Rightarrow> st\<lparr>current := Some (e\<lparr>n_password := Some tok\<rparr>)\<rparr>
           | None \<Rightarrow> premature ''password'' st)
      | tok_macdef \<Rightarrow> if current st = None then premature ''macdef'' st else st
      | tok_account \<Rightarrow> if current st = None then premature ''account'' st else st
      | tok_nothing \<Rightarrow> st)"

text \<open>The keyword \<open>tok\<close>.\<close>

definition use_keyword :: "cstring \<Rightarrow> netrc_state \<Rightarrow> netrc_state" where
  "use_keyword tok st =
     (if tok = ''default'' then
        let (e, l) = maybe_add_to_list (current st) (retval st)
        in st\<lparr>current := Some e, retval := l\<rparr>
      else if tok = ''login'' then st\<lparr>last_token := tok_login\<rparr>
      else if tok = ''user'' then st\<lparr>last_token := tok_login\<rparr>
      else if tok = ''macdef'' then st\<lparr>last_token := tok_macdef\<rparr>
      else if tok = ''machine'' then st\<lparr>last_token := tok_machine\<rparr>
      else if tok = ''password'' then st\<lparr>last_token := tok_password\<rparr>
      else if tok = ''passwd'' then st\<lparr>last_token := tok_password\<rparr>
      else if tok = ''account'' then st\<lparr>last_token := tok_account\<rparr>
      else st\<lparr>warnings := warnings st @ [''unknown token '' @ tok]\<rparr>)"

definition netrc_token :: "cstring \<Rightarrow> netrc_state \<Rightarrow> netrc_state" where
  "netrc_token tok st =
     (let st' = use_value tok st in
      if last_token st \<noteq> tok_nothing then st'\<lparr>last_token := tok_nothing\<rparr>
      else use_keyword tok st')"

lemma scan_token_shorter: "length (snd (scan_token q p)) \<le> length p"
proof (induction p arbitrary: q)
  case (Cons c p)
  show ?case using Cons.IH [of q] Cons.IH [of None] Cons.IH [of "Some c"]
    by (cases q) (simp_all add: case_prod_unfold Let_def)
qed simp

lemma scan_token_progress: "p \<noteq> [] \<Longrightarrow> length (snd (scan_token None p)) < length p"
proof (cases p)
  case (Cons c q)
  then show ?thesis
    using scan_token_shorter [of None q] scan_token_shorter [of "Some c" q]
    by (auto simp: case_prod_unfold Let_def)
qed simp

text \<open>The loop over one line.\<close>

function netrc_line :: "cstring \<Rightarrow> netrc_state \<Rightarrow> netrc_state" where
  "netrc_line p st =
     (if p = [] \<or> last_token st = tok_macdef then st
      else let p' = dropWhile isspace p in
        if p' \<noteq> [] \<and> hd p' = CHR ''#'' then st
        else netrc_line (snd (scan_token None p')) (netrc_token (fst (scan_token None p')) st))"
  by pat_completeness auto
termination
proof (relation "measure (\<lambda>(p, st). length p)")
  fix p and st :: netrc_state and p'
  assume "\<not> (p = [] \<or> last_token st = tok_macdef)" and p': "p' = dropWhile isspace p"
  then have "p \<noteq> []" by simp
  have "length (snd (scan_token None p')) < length p"
  proof (cases "p' = []")
    case True
    with \<open>p \<noteq> []\<close> show ?thesis by simp
  next
    case False
    have "length p' \<le> length p" using p' by (simp add: length_dropWhile_le)
    with scan_token_progress [OF False] show ?thesis by simp
  qed
  then show "((snd (scan_token None p'), netrc_token (fst (scan_token None p')) st), p, st)
      \<in> measure (\<lambda>(p, st). length p)" by simp
qed simp

declare netrc_line.simps [simp del]

text \<open>One line as \<open>fgets\<close> delivers it.\<close>

definition strip_line :: "cstring \<Rightarrow> cstring" where
  "strip_line buf = rev (dropWhile isspace (rev buf))"

definition netrc_read_line :: "netrc_state \<Rightarrow> cstring \<Rightarrow> netrc_state" where
  "netrc_read_line st buf =
     (let p = strip_line buf in
      if p = [] then
        (if last_token st = tok_macdef then netrc_line p (st\<lparr>last_token := tok_nothing\<rparr>) else st)
      else netrc_line p st)"

text \<open>\<open>parse_netrc\<close> on the contents of a file that could be opened.\<close>

definition netrc_scan :: "string \<Rightarrow> netrc_state" where
  "netrc_scan contents = foldl netrc_read_line netrc_start (fgets_lines BUFSIZ contents)"

definition parse_netrc :: "string option \<Rightarrow> netrc_entry list" where
  "parse_netrc contents =
     (case contents of
        None \<Rightarrow> []
      | Some text \<Rightarrow>
          let st = netrc_scan text;
              (_, l) = maybe_add_to_list (current st) (retval st)
          in rev l)"

fun search_netrc :: "netrc_entry list \<Rightarrow> cstring \<Rightarrow> netrc_entry option" where
  "search_netrc [] host = None"
| "search_netrc (e # es) host =
     (if n_host e = None then Some e
      else if n_host e = Some host then Some e
      else search_netrc es host)"

section \<open>Lemmas\<close>

definition complete_entries :: "netrc_entry list \<Rightarrow> bool" where
  "complete_entries l \<longleftrightarrow> (\<forall>e \<in> set l. n_account e \<noteq> None)"

lemma maybe_add_complete:
  "complete_entries l \<Longrightarrow> complete_entries (snd (maybe_add_to_list e l))"
  by (auto simp: maybe_add_to_list_def complete_entries_def split: option.splits)

lemma use_keyword_complete:
  "complete_entries (retval st) \<Longrightarrow> complete_entries (retval (use_keyword tok st))"
  using maybe_add_complete [of "retval st" "current st"]
  by (simp add: use_keyword_def case_prod_unfold Let_def)

lemma netrc_token_complete:
  "complete_entries (retval st) \<Longrightarrow> complete_entries (retval (netrc_token tok st))"
proof -
  assume c: "complete_entries (retval st)"
  have used: "complete_entries (retval (use_value tok st))"
    using c maybe_add_complete [of "retval st" "current st"]
    by (auto simp: use_value_def premature_def case_prod_unfold Let_def split: last_token.splits option.splits)
  have "complete_entries (retval (use_keyword tok (use_value tok st)))"
    using used by (rule use_keyword_complete)
  with used show ?thesis by (simp add: netrc_token_def Let_def)
qed

lemma netrc_line_complete: "complete_entries (retval st) \<Longrightarrow> complete_entries (retval (netrc_line p st))"
proof (induction p st rule: netrc_line.induct)
  case (1 p st)
  then show ?case by (subst netrc_line.simps) (simp add: Let_def netrc_token_complete)
qed

lemma netrc_read_line_complete:
  "complete_entries (retval st) \<Longrightarrow> complete_entries (retval (netrc_read_line st buf))"
  by (simp add: netrc_read_line_def Let_def netrc_line_complete)

lemma netrc_scan_complete: "complete_entries (retval (netrc_scan s))"
proof -
  have "complete_entries (retval st) \<Longrightarrow> complete_entries (retval (foldl netrc_read_line st ls))" for st ls
    by (induction ls arbitrary: st) (simp_all add: netrc_read_line_complete)
  moreover have "complete_entries (retval netrc_start)" by (simp add: netrc_start_def complete_entries_def)
  ultimately show ?thesis unfolding netrc_scan_def by blast
qed

lemma parse_netrc_complete: "complete_entries (parse_netrc contents)"
proof (cases contents)
  case (Some s)
  have "complete_entries (snd (maybe_add_to_list (current (netrc_scan s)) (retval (netrc_scan s))))"
    using netrc_scan_complete by (rule maybe_add_complete)
  with Some show ?thesis by (simp add: parse_netrc_def Let_def case_prod_unfold complete_entries_def)
qed (simp add: parse_netrc_def complete_entries_def)

section \<open>Files written as the manual describes\<close>

definition plain_word :: "cstring \<Rightarrow> bool" where
  "plain_word w \<longleftrightarrow> w \<noteq> [] \<and> hd w \<noteq> CHR ''#'' \<and> (\<forall>c \<in> set w. \<not> isspace c \<and> c \<noteq> CHR 0x22 \<and> c \<noteq> CHR 0x27)"

definition kw_machine :: cstring where "kw_machine = ''machine''"
definition kw_login :: cstring where "kw_login = ''login''"
definition kw_password :: cstring where "kw_password = ''password''"

definition entry_line :: "cstring \<times> cstring \<times> cstring \<Rightarrow> cstring" where
  "entry_line e = (case e of (h, a, p) \<Rightarrow>
     kw_machine @ CHR '' '' # h @ CHR '' '' # kw_login @ CHR '' '' # a @ CHR '' '' # kw_password @ CHR '' '' # p)"

definition entry_of :: "cstring \<times> cstring \<times> cstring \<Rightarrow> netrc_entry" where
  "entry_of e = (case e of (h, a, p) \<Rightarrow> \<lparr>n_host = Some h, n_account = Some a, n_password = Some p\<rparr>)"

lemma keywords_plain: "plain_word kw_machine" "plain_word kw_login" "plain_word kw_password"
  by code_simp+

lemma scan_token_word:
  "\<forall>c \<in> set w. \<not> isspace c \<and> c \<noteq> CHR 0x22 \<and> c \<noteq> CHR 0x27 \<Longrightarrow> scan_token None (w @ CHR '' '' # r) = (w, r)"
  "\<forall>c \<in> set w. \<not> isspace c \<and> c \<noteq> CHR 0x22 \<and> c \<noteq> CHR 0x27 \<Longrightarrow> scan_token None w = (w, [])"
  by (induction w) (auto simp: isspace_def)

lemma dropWhile_word: "plain_word w \<Longrightarrow> dropWhile isspace (w @ r) = w @ r"
  by (cases w) (auto simp: plain_word_def)

lemma netrc_line_word:
  assumes "plain_word w" "last_token st \<noteq> tok_macdef"
  shows "netrc_line (w @ CHR '' '' # r) st = netrc_line r (netrc_token w st)"
    and "netrc_line w st = netrc_token w st"
proof -
  have w: "w \<noteq> []" "hd w \<noteq> CHR ''#''" "\<forall>c \<in> set w. \<not> isspace c \<and> c \<noteq> CHR 0x22 \<and> c \<noteq> CHR 0x27"
    using assms(1) by (simp_all add: plain_word_def)
  show "netrc_line (w @ CHR '' '' # r) st = netrc_line r (netrc_token w st)"
    using assms(2) w scan_token_word(1) [OF w(3), of r]
    by (subst netrc_line.simps) (simp add: Let_def dropWhile_word [OF assms(1)])
  have "dropWhile isspace w = w" using dropWhile_word [OF assms(1), of "[]"] by simp
  moreover have "netrc_line [] st' = st'" for st' by (subst netrc_line.simps) simp
  ultimately show "netrc_line w st = netrc_token w st"
    using assms(2) w scan_token_word(2) [OF w(3)] by (subst netrc_line.simps) (simp add: Let_def)
qed

lemma strip_line_word: "plain_word w \<Longrightarrow> strip_line ((r @ w) @ [CHR 0x0A]) = r @ w"
  by (cases w rule: rev_cases) (auto simp: strip_line_def isspace_def plain_word_def)

definition pending :: "netrc_state \<Rightarrow> netrc_entry list" where
  "pending st = snd (maybe_add_to_list (current st) (retval st))"

lemma netrc_token_keywords:
  assumes "last_token s = tok_nothing"
  shows "netrc_token kw_machine s = s\<lparr>last_token := tok_machine\<rparr>"
    and "netrc_token kw_login s = s\<lparr>last_token := tok_login\<rparr>"
    and "netrc_token kw_password s = s\<lparr>last_token := tok_password\<rparr>"
  using assms by (simp_all add: netrc_token_def use_value_def use_keyword_def kw_machine_def kw_login_def kw_password_def)

lemma netrc_token_values:
  "netrc_token h (s\<lparr>last_token := tok_machine\<rparr>)
     = s\<lparr>last_token := tok_nothing, current := Some (zero_entry\<lparr>n_host := Some h\<rparr>), retval := pending s\<rparr>"
  "current s = Some e \<Longrightarrow> netrc_token a (s\<lparr>last_token := tok_login\<rparr>)
     = s\<lparr>last_token := tok_nothing, current := Some (e\<lparr>n_account := Some a\<rparr>)\<rparr>"
  "current s = Some e \<Longrightarrow> netrc_token p (s\<lparr>last_token := tok_password\<rparr>)
     = s\<lparr>last_token := tok_nothing, current := Some (e\<lparr>n_password := Some p\<rparr>)\<rparr>"
  by (simp_all add: netrc_token_def use_value_def Let_def case_prod_unfold pending_def
      maybe_add_to_list_def split: option.split)

lemma netrc_line_pair:
  assumes "plain_word k" "plain_word v" "last_token s = tok_nothing"
    and "netrc_token k s = s'" "last_token s' \<noteq> tok_macdef"
  shows "netrc_line (k @ CHR '' '' # v @ CHR '' '' # r) s = netrc_line r (netrc_token v s')"
    and "netrc_line (k @ CHR '' '' # v) s = netrc_token v s'"
  using assms by (simp_all add: netrc_line_word)

lemma strip_entry_line:
  assumes "plain_word p"
  shows "strip_line (entry_line (h, a, p) @ [CHR 0x0A]) = entry_line (h, a, p)"
  using strip_line_word [OF assms, of "kw_machine @ CHR '' '' # h @ CHR '' '' # kw_login @ CHR '' '' # a @ CHR '' '' # kw_password @ [CHR '' '']"]
  by (simp add: entry_line_def)

lemma read_entry_line:
  assumes "plain_word h" "plain_word a" "plain_word p" "last_token st = tok_nothing"
  shows "last_token (netrc_read_line st (entry_line (h, a, p) @ [CHR 0x0A])) = tok_nothing
    \<and> pending (netrc_read_line st (entry_line (h, a, p) @ [CHR 0x0A])) = entry_of (h, a, p) # pending st"
proof -
  define state where "state e = \<lparr>last_token = tok_nothing, current = Some e, retval = pending st,
    warnings = warnings st\<rparr>" for e
  have state: "last_token (state e) = tok_nothing" "current (state e) = Some e" for e
    by (simp_all add: state_def)
  have upd: "(state e)\<lparr>last_token := tok_nothing, current := Some e'\<rparr> = state e'" for e e'
    by (simp add: state_def)
  have start: "st\<lparr>last_token := tok_nothing, current := Some e, retval := pending st\<rparr> = state e" for e
    by (simp add: state_def)
  let ?s1 = "state (zero_entry\<lparr>n_host := Some h\<rparr>)"
  let ?s2 = "state (zero_entry\<lparr>n_host := Some h, n_account := Some a\<rparr>)"
  let ?s3 = "state (entry_of (h, a, p))"
  have "netrc_read_line st (entry_line (h, a, p) @ [CHR 0x0A]) = netrc_line (entry_line (h, a, p)) st"
    using strip_entry_line [OF assms(3), of h a] by (simp add: netrc_read_line_def entry_line_def)
  also have "\<dots> = netrc_line (kw_login @ CHR '' '' # a @ CHR '' '' # kw_password @ CHR '' '' # p) ?s1"
    using netrc_line_pair(1) [OF keywords_plain(1) assms(1,4) netrc_token_keywords(1) [OF assms(4)]]
    by (simp add: entry_line_def netrc_token_values start)
  also have "\<dots> = netrc_line (kw_password @ CHR '' '' # p) ?s2"
    using netrc_line_pair(1) [OF keywords_plain(2) assms(2) _ netrc_token_keywords(2) [of ?s1]]
    by (simp add: netrc_token_values(2) [OF state(2)] upd state)
  also have "\<dots> = ?s3"
    using netrc_line_pair(2) [OF keywords_plain(3) assms(3) _ netrc_token_keywords(3) [of ?s2]]
    by (simp add: netrc_token_values(3) [OF state(2)] upd state entry_of_def zero_entry_def)
  finally show ?thesis
    by (simp add: state_def pending_def maybe_add_to_list_def entry_of_def)
qed

definition writable_entry :: "cstring \<times> cstring \<times> cstring \<Rightarrow> bool" where
  "writable_entry e = (case e of (h, a, p) \<Rightarrow> plain_word h \<and> plain_word a \<and> plain_word p
     \<and> length (entry_line e) + 2 \<le> BUFSIZ)"

lemma plain_no_newline: "plain_word w \<Longrightarrow> CHR 0x0A \<notin> set w"
proof
  assume "plain_word w" "CHR 0x0A \<in> set w"
  then have "\<not> isspace (CHR 0x0A)" unfolding plain_word_def by blast
  then show False by (simp add: isspace_def)
qed

lemma entry_line_no_newline: "writable_entry e \<Longrightarrow> CHR 0x0A \<notin> set (entry_line e)"
proof -
  assume w: "writable_entry e"
  obtain h a p where e: "e = (h, a, p)" by (cases e)
  have "plain_word h" "plain_word a" "plain_word p" using w by (simp_all add: writable_entry_def e)
  note words = plain_no_newline [OF \<open>plain_word h\<close>] plain_no_newline [OF \<open>plain_word a\<close>]
    plain_no_newline [OF \<open>plain_word p\<close>] keywords_plain [THEN plain_no_newline]
  then show ?thesis by (simp add: entry_line_def e)
qed

definition netrc_text :: "(cstring \<times> cstring \<times> cstring) list \<Rightarrow> string" where
  "netrc_text es = concat (map (\<lambda>e. entry_line e @ [CHR 0x0A]) es)"

lemma netrc_scan_entries:
  assumes "\<forall>e \<in> set es. writable_entry e" "last_token st = tok_nothing"
  shows "pending (foldl netrc_read_line st (fgets_lines BUFSIZ (netrc_text es))) = rev (map entry_of es) @ pending st"
  using assms
proof (induction es arbitrary: st)
  case (Cons e es)
  obtain h a p where e: "e = (h, a, p)" by (cases e)
  have w: "writable_entry e" using Cons.prems by simp
  have "fgets_lines BUFSIZ (netrc_text (e # es)) = (entry_line e @ [CHR 0x0A]) # fgets_lines BUFSIZ (netrc_text es)"
    using fgets_lines_line [OF entry_line_no_newline [OF w], of BUFSIZ "netrc_text es"] w
    by (simp add: netrc_text_def writable_entry_def split: prod.splits)
  then show ?case
    using read_entry_line [of h a p st] w Cons by (simp add: e writable_entry_def)
qed (simp add: netrc_text_def fgets_lines_Nil)

lemma parse_netrc_text:
  assumes "\<forall>e \<in> set es. writable_entry e"
  shows "parse_netrc (Some (netrc_text es)) = map entry_of es"
proof -
  have "pending (netrc_scan (netrc_text es)) = rev (map entry_of es)"
    using netrc_scan_entries [OF assms, of netrc_start]
    by (simp add: netrc_scan_def netrc_start_def pending_def maybe_add_to_list_def)
  then show ?thesis by (simp add: parse_netrc_def Let_def case_prod_unfold pending_def rev_map)
qed

definition sample_entries :: "(cstring \<times> cstring \<times> cstring) list" where
  "sample_entries = [(''a.b'', ''joe'', ''x1''), (''c'', ''ann'', ''y'')]"

lemma sample_entries_writable: "\<forall>e \<in> set sample_entries. writable_entry e"
proof -
  have "list_all (\<lambda>(h, a, p). plain_word h \<and> plain_word a \<and> plain_word p) sample_entries"
    by code_simp
  then show ?thesis
    by (simp add: sample_entries_def writable_entry_def entry_line_def BUFSIZ_def kw_machine_def kw_login_def kw_password_def)
qed

section \<open>Properties\<close>

text \<open>C16: writing entries one per line, as machine, login and password words, and parsing
  the file gives back exactly the entries, in the order of the file.\<close>

theorem netrc_roundtrip:
  assumes "\<forall>e \<in> set es. writable_entry e"
  shows "parse_netrc (Some (netrc_text es)) = map entry_of es"
  using assms by (rule parse_netrc_text)

theorem netrc_roundtrip_witness: "parse_netrc (Some (netrc_text sample_entries)) = map entry_of sample_entries"
  using sample_entries_writable by (rule netrc_roundtrip)

text \<open>Every entry that \<open>parse_netrc\<close> returns has a login name, whatever the file
  contains.\<close>

theorem netrc_entries_have_login: "\<forall>e \<in> set (parse_netrc contents). n_account e \<noteq> None"
  using parse_netrc_complete [of contents] by (simp add: complete_entries_def)

theorem netrc_entries_have_login_witness:
  "n_account (hd (parse_netrc (Some (netrc_text sample_entries)))) \<noteq> None"
proof -
  have "hd (parse_netrc (Some (netrc_text sample_entries))) \<in> set (parse_netrc (Some (netrc_text sample_entries)))"
    using parse_netrc_text [OF sample_entries_writable] by (simp add: sample_entries_def)
  with netrc_entries_have_login show ?thesis by blast
qed

text \<open>\<open>search_netrc\<close> finds the first entry for the host or the first default entry,
  whichever comes first in the list.\<close>

theorem search_netrc_first:
  "search_netrc es host = (case dropWhile (\<lambda>e. n_host e \<noteq> None \<and> n_host e \<noteq> Some host) es of
     [] \<Rightarrow> None | e # _ \<Rightarrow> Some e)"
  by (induction es) auto

end
