(* ===== verification/Session_State.thy ===== *)
theory Session_State
  imports Listing Option_Table Cmdline Netrc
begin

text \<open>
  The state of a running cadaver and the world around it.  The global variables of
  \<open>src/cadaver.c\<close> are the fields of \<open>shell\<close>; the functions of neon and of the operating
  system that the handlers call are the fields of \<open>env\<close>, over an abstract world; a handler
  is a computation in the state monad.  Three fields are not in the program: \<open>s_trace\<close>
  records what is printed and asked for, \<open>s_ub\<close> is set by undefined behaviour, and
  \<open>s_world\<close> is the world.
\<close>

section \<open>Requests\<close>

datatype lock_timeout = NE_TIMEOUT_INFINITE | NE_TIMEOUT_INVALID | Seconds int

text \<open>\<open>struct ne_lock\<close>; a depth of \<open>None\<close> is none of the three values.\<close>

record lock =
  l_uri :: uri
  l_token :: "cstring option"
  l_owner :: "cstring option"
  l_scope :: lock_scope
  l_write :: bool
  l_depth :: "depth option"
  l_timeout :: lock_timeout

text \<open>Calls that send a request and return a code.\<close>

datatype request =
    Mkcol cstring
  | Delete cstring
  | Move bool cstring cstring
  | Copy bool cstring cstring
  | Get cstring int
  | Get_range cstring int int
  | Put cstring int
  | Unlock lock
  | Proppatch cstring "(propname \<times> cstring option) list"
  | Method cstring cstring "cstring option"

text \<open>Calls for their effect on the session, the hooks and the store of owned locks.\<close>

datatype neon_command =
    Session_create cstring cstring nat
  | Session_destroy
  | Session_setup
  | Session_flags int int
  | System_proxy
  | Session_proxy cstring int
  | Forget_auth
  | Set_error string
  | Lockstore_add lock
  | Lockstore_remove lock
  | Hook_etag
  | Unhook_etag
  | Hook_if_match cstring
  | Unhook_if_match
  | Set_clicert

text \<open>\<open>ne_server_capabilities\<close>.\<close>

record capabilities =
  dav_class1 :: bool
  dav_class2 :: bool
  dav_executable :: bool

text \<open>One call of a lock discovery callback: a lock, or a path with the status of its failure.\<close>

datatype lock_answer = Lock_found lock | Lock_failed "cstring option" int cstring

text \<open>An XML request: method, path, depth header and body; it answers with raw callbacks.\<close>

datatype raw_event = Raw_start cstring cstring | Raw_cdata cstring | Raw_end

datatype open_flags = O_RDONLY | O_CREAT_TRUNC | O_CREAT_EXCL | O_APPEND

record file_stat =
  st_regular :: bool
  st_size :: int
  st_mtime :: int

section \<open>The environment\<close>

text \<open>Functions of neon and the C library without effects.\<close>

record lib_env =
  e_options :: option_env
  ne_path_escape :: "cstring \<Rightarrow> cstring"
  ne_path_unescape :: "cstring \<Rightarrow> cstring option"
  ne_path_has_trailing_slash :: "cstring \<Rightarrow> bool"
  ne_path_compare :: "cstring \<Rightarrow> cstring \<Rightarrow> int"
  ne_uri_parse :: "cstring \<Rightarrow> bool \<times> uri"
  ne_uri_defaultport :: "cstring option \<Rightarrow> nat"
  ne_uri_resolve :: "uri \<Rightarrow> uri \<Rightarrow> uri"
  ne_uri_unparse :: "uri \<Rightarrow> cstring"
  ne_uri_cmp :: "uri \<Rightarrow> uri \<Rightarrow> int"
  ne_has_ssl :: bool
  ne_httpdate_parse :: "cstring \<Rightarrow> int"
  ne_shave :: "cstring \<Rightarrow> cstring \<Rightarrow> cstring"
  ne_ls_mapid :: ls_mapid
  ne_search_xml :: "cstring \<Rightarrow> cstring"
  ne_version :: cstring
  out_charset :: cstring
  ne_lock_create :: lock
  os_getenv :: "cstring \<Rightarrow> cstring option"
  os_strftime :: "cstring \<Rightarrow> int \<Rightarrow> cstring option"
  os_isatty :: bool

text \<open>Functions that read or change the world.\<close>

record 'w env = lib_env +
  n_send :: "request \<Rightarrow> 'w \<Rightarrow> ne_ret \<times> 'w"
  n_exec :: "neon_command \<Rightarrow> 'w \<Rightarrow> 'w"
  n_get_error :: "'w \<Rightarrow> cstring"
  n_redirect :: "'w \<Rightarrow> uri option"
  n_server_uri :: "'w \<Rightarrow> uri"
  n_status :: "'w \<Rightarrow> int \<times> cstring"
  n_options :: "cstring \<Rightarrow> 'w \<Rightarrow> (ne_ret \<times> capabilities) \<times> 'w"
  n_propfind :: "cstring \<Rightarrow> depth \<Rightarrow> propname list option \<Rightarrow> 'w \<Rightarrow> (ne_ret \<times> prop_set list) \<times> 'w"
  n_propnames :: "cstring \<Rightarrow> 'w \<Rightarrow> (ne_ret \<times> propname list list) \<times> 'w"
  n_discover :: "cstring \<Rightarrow> 'w \<Rightarrow> (ne_ret \<times> lock_answer list) \<times> 'w"
  n_lock :: "lock \<Rightarrow> 'w \<Rightarrow> (ne_ret \<times> lock) \<times> 'w"
  n_locks :: "'w \<Rightarrow> lock list"
  n_find_lock :: "uri \<Rightarrow> 'w \<Rightarrow> lock option"
  n_xml :: "cstring \<Rightarrow> cstring \<Rightarrow> depth option \<Rightarrow> string \<Rightarrow> 'w \<Rightarrow> (ne_ret \<times> raw_event list) \<times> 'w"
  n_head :: "cstring \<Rightarrow> 'w \<Rightarrow> (ne_ret \<times> (cstring \<times> cstring) list) \<times> 'w"
  n_etag :: "'w \<Rightarrow> cstring option"
  os_glob :: "'w glob_fn"
  os_iconv :: "bool \<Rightarrow> cstring \<Rightarrow> 'w \<Rightarrow> (bool \<times> cstring) \<times> 'w"
  os_stat :: "cstring \<Rightarrow> 'w \<Rightarrow> file_stat option"
  os_strerror :: "'w \<Rightarrow> cstring"
  os_open :: "cstring \<Rightarrow> open_flags \<Rightarrow> 'w \<Rightarrow> int option \<times> 'w"
  os_close :: "int \<Rightarrow> 'w \<Rightarrow> bool \<times> 'w"
  os_mkstemp :: "cstring \<Rightarrow> 'w \<Rightarrow> (int option \<times> cstring) \<times> 'w"
  os_fchmod :: "int \<Rightarrow> 'w \<Rightarrow> bool \<times> 'w"
  os_unlink :: "cstring \<Rightarrow> 'w \<Rightarrow> bool \<times> 'w"
  os_system :: "cstring \<Rightarrow> 'w \<Rightarrow> int \<times> 'w"
  os_popen :: "cstring \<Rightarrow> 'w \<Rightarrow> int option \<times> 'w"
  os_pclose :: "int \<Rightarrow> 'w \<Rightarrow> int \<times> 'w"
  os_chdir :: "cstring \<Rightarrow> 'w \<Rightarrow> bool \<times> 'w"
  os_getcwd :: "'w \<Rightarrow> cstring option"
  os_read_file :: "cstring \<Rightarrow> 'w \<Rightarrow> string option"
  os_run_ls :: "cstring list \<Rightarrow> 'w \<Rightarrow> string \<times> 'w"
  os_getpass :: "cstring \<Rightarrow> 'w \<Rightarrow> cstring option \<times> 'w"
  os_time :: "'w \<Rightarrow> int"

section \<open>The state\<close>

text \<open>A \<open>char *\<close> that owns its string: NULL, a live string, or one that was freed.\<close>

datatype 'a owned = No_pointer | Live 'a | Freed

datatype out_state =
    out_none | out_incommand | out_transfer_upload | out_transfer_download
  | out_transfer_plain | out_transfer_pretty | out_transfer_done

datatype event =
    Out string
  | Req request
  | Cmd neon_command
  | Locked lock
  | Query cstring cstring
  | Opened cstring open_flags
  | Ran cstring

record 'w shell =
  s_uri :: uri
  s_sess :: bool
  s_connected :: bool
  s_isdav :: bool
  s_lastwp :: "cstring owned"
  s_caps :: capabilities
  s_opts :: option_state
  s_out :: out_state
  s_completion :: bool
  s_child :: bool
  s_creds :: "(cstring \<times> cstring) option"
  s_proxy :: "cstring option"
  s_netrc :: "netrc_entry list"
  s_input :: string
  s_trace :: "event list"
  s_ub :: bool
  s_world :: 'w

type_synonym ('w, 'a) handler_m = "('w shell, 'a) state"

section \<open>Primitives\<close>

definition gets :: "('s \<Rightarrow> 'a) \<Rightarrow> ('s, 'a) state" where
  "gets f = State (\<lambda>s. (f s, s))"

definition modify :: "('s \<Rightarrow> 's) \<Rightarrow> ('s, unit) state" where
  "modify f = State (\<lambda>s. ((), f s))"

definition note_event :: "event \<Rightarrow> ('w, unit) handler_m" where
  "note_event e = modify (\<lambda>s. s\<lparr>s_trace := s_trace s @ [e]\<rparr>)"

text \<open>\<open>printf\<close>, \<open>puts\<close>, \<open>putchar\<close> and their kin.\<close>

definition say :: "string \<Rightarrow> ('w, unit) handler_m" where
  "say t = note_event (Out t)"

text \<open>Undefined behaviour, with a value to go on with.\<close>

definition undefined_behaviour :: "'a \<Rightarrow> ('w, 'a) handler_m" where
  "undefined_behaviour a = State (\<lambda>s. (a, s\<lparr>s_ub := True\<rparr>))"

definition world_op :: "('w \<Rightarrow> 'a \<times> 'w) \<Rightarrow> ('w, 'a) handler_m" where
  "world_op f = State (\<lambda>s. case f (s_world s) of (a, w) \<Rightarrow> (a, s\<lparr>s_world := w\<rparr>))"

definition read_world :: "('w \<Rightarrow> 'a) \<Rightarrow> ('w, 'a) handler_m" where
  "read_world f = gets (\<lambda>s. f (s_world s))"

definition send :: "'w env \<Rightarrow> request \<Rightarrow> ('w, ne_ret) handler_m" where
  "send E r = do { note_event (Req r); world_op (n_send E r) }"

definition exec :: "'w env \<Rightarrow> neon_command \<Rightarrow> ('w, unit) handler_m" where
  "exec E c = do { note_event (Cmd c); world_op (\<lambda>w. ((), n_exec E c w)) }"

definition last_error :: "'w env \<Rightarrow> ('w, cstring) handler_m" where
  "last_error E = read_world (n_get_error E)"

definition strerror :: "'w env \<Rightarrow> ('w, cstring) handler_m" where
  "strerror E = read_world (os_strerror E)"

text \<open>Options.\<close>

definition bool_option :: "option_id \<Rightarrow> ('w, bool) handler_m" where
  "bool_option i = gets (\<lambda>s. get_bool_option i (s_opts s) \<noteq> 0)"

definition string_option :: "option_id \<Rightarrow> ('w, cstring option) handler_m" where
  "string_option i = gets (\<lambda>s. get_string i (s_opts s))"

text \<open>
  \<open>readline\<close> as \<open>src/cadaver.c\<close> defines it for a build without the readline library: a
  line of at most 255 bytes of standard input.
\<close>

definition readline :: "'w env \<Rightarrow> string \<Rightarrow> ('w, cstring option) handler_m" where
  "readline E prompt = do {
     say prompt;
     inp \<leftarrow> gets s_input;
     case fgets 256 inp of
       None \<Rightarrow> State_Monad.return None
     | Some (buf, rest) \<Rightarrow> do {
         modify (\<lambda>s. s\<lparr>s_input := rest\<rparr>);
         State_Monad.return (Some (ne_shave E buf [CHR 0x0D, CHR 0x0A])) } }"

definition ask_yesno :: "('w, bool) handler_m" where
  "ask_yesno = do {
     inp \<leftarrow> gets s_input;
     let (answer, rest) = yesno inp;
     modify (\<lambda>s. s\<lparr>s_input := rest\<rparr>);
     State_Monad.return answer }"

lemma run_primitives [simp]:
  "run_state (gets f) s = (f s, s)"
  "run_state (modify g) s = ((), g s)"
  "run_state (note_event e) s1 = ((), s1\<lparr>s_trace := s_trace s1 @ [e]\<rparr>)"
  "run_state (say t) s1 = ((), s1\<lparr>s_trace := s_trace s1 @ [Out t]\<rparr>)"
  "run_state (undefined_behaviour a) s1 = (a, s1\<lparr>s_ub := True\<rparr>)"
  "run_state (read_world h) s1 = (h (s_world s1), s1)"
  "run_state (last_error E) s1 = (n_get_error E (s_world s1), s1)"
  "run_state (strerror E) s1 = (os_strerror E (s_world s1), s1)"
  "run_state (bool_option i) s1 = (get_bool_option i (s_opts s1) \<noteq> 0, s1)"
  "run_state (string_option i) s1 = (get_string i (s_opts s1), s1)"
  by (simp_all add: gets_def modify_def note_event_def say_def undefined_behaviour_def read_world_def
      last_error_def strerror_def bool_option_def string_option_def)

end
