(* ===== verification/Paths.thy ===== *)
theory Paths
  imports Session_State
begin

text \<open>
  Paths and resource types: the conversions between native paths, UTF-8 and URI paths of
  \<open>src/commands.c\<close>, the PROPFIND of \<open>src/ls.c\<close>, \<open>getrestype\<close> of \<open>src/utils.c\<close> and
  \<open>set_path\<close> of \<open>src/cadaver.c\<close>.
\<close>

section \<open>Character sets\<close>

text \<open>
  \<open>run_iconv\<close>: the mode \<open>True\<close> is TO_UTF8.  The conversion returns whether it succeeded
  and what it wrote to the buffer of BUFSIZ bytes; after a failure room is made for three
  bytes and they are put there.
\<close>

definition run_iconv :: "'w env \<Rightarrow> cstring \<Rightarrow> bool \<Rightarrow> ('w, cstring) handler_m" where
  "run_iconv E instr to_utf8 = do {
     (ok, outbuf) \<leftarrow> world_op (os_iconv E to_utf8 instr);
     if ok then State_Monad.return outbuf
     else do {
       quiet \<leftarrow> gets s_completion;
       (if quiet then State_Monad.return ()
        else say (''cadaver: Warning: Character(s) could not be translated to '' @
          (if to_utf8 then ''UTF-8'' else out_charset E) @ ''\<newline>''));
       State_Monad.return (take (BUFSIZ - 3) outbuf @ ''[?]'') } }"

definition utf8_from_native :: "'w env \<Rightarrow> cstring \<Rightarrow> ('w, cstring) handler_m" where
  "utf8_from_native E native = do {
     utf8 \<leftarrow> bool_option opt_utf8;
     if \<not> utf8 then run_iconv E native True else State_Monad.return native }"

definition native_from_utf8 :: "'w env \<Rightarrow> cstring \<Rightarrow> ('w, cstring) handler_m" where
  "native_from_utf8 E native = do {
     utf8 \<leftarrow> bool_option opt_utf8;
     if \<not> utf8 then run_iconv E native False else State_Monad.return native }"

definition native_path_from_uri :: "'w env \<Rightarrow> cstring \<Rightarrow> ('w, cstring option) handler_m" where
  "native_path_from_uri E uri_path =
     (case ne_path_unescape E uri_path of
        None \<Rightarrow> State_Monad.return None
      | Some utf8 \<Rightarrow> do {
          opt \<leftarrow> bool_option opt_utf8;
          if \<not> opt then do { native \<leftarrow> native_from_utf8 E utf8; State_Monad.return (Some native) }
          else State_Monad.return (Some utf8) })"

section \<open>URI paths\<close>

text \<open>The path of a URI that neon resolved, which always has one.\<close>

definition path_of :: "uri \<Rightarrow> cstring" where
  "path_of u = (case u_path u of Some p \<Rightarrow> p | None \<Rightarrow> [])"

definition path_native_resolver :: "'w env \<Rightarrow> cstring \<Rightarrow> bool \<Rightarrow> ('w, cstring) handler_m" where
  "path_native_resolver E native_path is_coll = do {
     utf_path \<leftarrow> utf8_from_native E native_path;
     let rel = ne_path_escape E utf_path;
     let rel = (if is_coll \<and> \<not> ne_path_has_trailing_slash E rel then rel @ [slash] else rel);
     base \<leftarrow> gets s_uri;
     State_Monad.return (path_of (ne_uri_resolve E base (empty_uri\<lparr>u_path := Some rel\<rparr>))) }"

definition uri_resolve_native :: "'w env \<Rightarrow> cstring \<Rightarrow> ('w, cstring) handler_m" where
  "uri_resolve_native E native = path_native_resolver E native False"

definition uri_resolve_native_coll :: "'w env \<Rightarrow> cstring \<Rightarrow> ('w, cstring) handler_m" where
  "uri_resolve_native_coll E native = path_native_resolver E native True"

section \<open>Resource types\<close>

definition fetch_resource_list ::
  "'w env \<Rightarrow> cstring \<Rightarrow> depth \<Rightarrow> bool \<Rightarrow> ('w, ne_ret \<times> resource list) handler_m" where
  "fetch_resource_list E path d include_target = do {
     note_event (Query ''PROPFIND'' path);
     (ret, psets) \<leftarrow> world_op (n_propfind E path d (Some ls_props));
     State_Monad.return (ret, collect_resources (ne_ls_mapid E) (ne_httpdate_parse E)
       (ne_path_compare E) path include_target psets) }"

text \<open>With a successful answer that holds no resource \<open>res->uri\<close> is read through NULL.\<close>

definition getrestype :: "'w env \<Rightarrow> cstring \<Rightarrow> ('w, resource_type) handler_m" where
  "getrestype E uri_path = do {
     (ret, res) \<leftarrow> fetch_resource_list E uri_path NE_DEPTH_ZERO True;
     if ret = NE_OK then
       (case res of
          [] \<Rightarrow> undefined_behaviour resr_error
        | r # _ \<Rightarrow>
            if ne_path_compare E uri_path (r_uri r) = 0 then State_Monad.return (r_type r)
            else do {
              exec E (Set_error (''Unknown resource found at '' @ [CHR 0x27] @ r_uri r @ [CHR 0x27] @ '' without WebDAV support''));
              State_Monad.return resr_error })
     else State_Monad.return resr_error }"

text \<open>The resolved path and whether it is a collection.\<close>

definition uri_resolve_native_true :: "'w env \<Rightarrow> cstring \<Rightarrow> ('w, cstring \<times> bool) handler_m" where
  "uri_resolve_native_true E path = do {
     uri_path \<leftarrow> uri_resolve_native E path;
     t \<leftarrow> getrestype E uri_path;
     redir \<leftarrow> read_world (n_redirect E);
     server \<leftarrow> read_world (n_server_uri E);
     (uri_path, is_coll) \<leftarrow>
       (case redir of
          Some dest \<Rightarrow>
            (case u_path dest of
               Some rpath \<Rightarrow>
                 if t \<noteq> resr_collection \<and> ne_path_has_trailing_slash E rpath then
                   let here = server\<lparr>u_path := Some rpath\<rparr>;
                       here = (if u_port here = ne_uri_defaultport E (u_scheme here)
                               then here\<lparr>u_port := 0\<rparr> else here)
                   in if ne_uri_cmp E dest here = 0 then do {
                        t' \<leftarrow> getrestype E rpath;
                        State_Monad.return (rpath, t' = resr_collection) }
                      else State_Monad.return (uri_path, t = resr_collection)
                 else State_Monad.return (uri_path, t = resr_collection)
             | None \<Rightarrow> State_Monad.return (uri_path, t = resr_collection))
        | None \<Rightarrow> State_Monad.return (uri_path, t = resr_collection));
     State_Monad.return
       (if is_coll \<and> \<not> ne_path_has_trailing_slash E uri_path then uri_path @ [slash] else uri_path, is_coll) }"

definition getowner :: "('w, cstring option) handler_m" where
  "getowner = do {
     owner \<leftarrow> string_option opt_lockowner;
     State_Monad.return (map_option (\<lambda>t. ''<href>'' @ t @ ''</href>'') owner) }"

text \<open>\<open>tolerant\<close> is a variable, not read through the option table.\<close>

definition is_tolerant :: "('w, bool) handler_m" where
  "is_tolerant = gets (\<lambda>s. int_vars (s_opts s) v_tolerant \<noteq> 0)"

text \<open>True is the return value 0.\<close>

definition set_path :: "'w env \<Rightarrow> cstring \<Rightarrow> ('w, bool) handler_m" where
  "set_path E uri_path = do {
     t \<leftarrow> getrestype E uri_path;
     tol \<leftarrow> is_tolerant;
     if t = resr_collection \<or> tol then do {
       (if t \<noteq> resr_collection then do {
          modify (\<lambda>s. s\<lparr>s_isdav := False\<rparr>);
          err \<leftarrow> last_error E;
          say (''Ignored error: '' @ uri_path @ '' not WebDAV-enabled:\<newline>'' @ err @ ''\<newline>'') }
        else modify (\<lambda>s. s\<lparr>s_isdav := True\<rparr>));
       State_Monad.return True }
     else do {
       err \<leftarrow> last_error E;
       say (''Could not access '' @ uri_path @ '' (not WebDAV-enabled?):\<newline>'' @ err @ ''\<newline>'');
       State_Monad.return False } }"

end
