(* ===== verification/Session_Frame.thy ===== *)
theory Session_Frame
  imports Paths
begin

text \<open>
  What a handler leaves alone.  A reflexive and transitive relation between the states before
  and after is kept by a computation when it is kept by its parts; the two relations used
  below are that the trace only grows by events of a kind, and that the fields of the
  session are as before.
\<close>

locale state_relation =
  fixes R :: "'s \<Rightarrow> 's \<Rightarrow> bool"
  assumes R_refl: "R s s"
    and R_trans: "R s t \<Longrightarrow> R t u \<Longrightarrow> R s u"
begin

definition keeps :: "('s, 'a) state \<Rightarrow> bool" where
  "keeps m \<longleftrightarrow> (\<forall>s. R s (snd (run_state m s)))"

lemma keepsD: "keeps m \<Longrightarrow> run_state m s = (a, s') \<Longrightarrow> R s s'"
  by (metis keeps_def snd_conv)

lemma keepsI: "(\<And>s. R s (snd (run_state m s))) \<Longrightarrow> keeps m"
  by (simp add: keeps_def)

lemma keeps_return: "keeps (State_Monad.return a)"
  by (simp add: keeps_def R_refl)

lemma keeps_gets: "keeps (gets f)"
  by (simp add: keeps_def R_refl)

lemma keeps_bind:
  assumes "keeps m" "\<And>a. keeps (f a)"
  shows "keeps (State_Monad.bind m f)"
  using assms by (auto simp: keeps_def split: prod.split intro: R_trans dest: spec)

lemma keeps_if: "(b \<Longrightarrow> keeps m) \<Longrightarrow> (\<not> b \<Longrightarrow> keeps n) \<Longrightarrow> keeps (if b then m else n)"
  by simp

lemma keeps_prod: "(\<And>a b. keeps (f a b)) \<Longrightarrow> keeps (case p of (a, b) \<Rightarrow> f a b)"
  by (cases p) simp

lemma keeps_option: "keeps m \<Longrightarrow> (\<And>a. keeps (f a)) \<Longrightarrow> keeps (case x of None \<Rightarrow> m | Some a \<Rightarrow> f a)"
  by (cases x) simp_all

lemma keeps_list: "keeps m \<Longrightarrow> (\<And>a b. keeps (f a b)) \<Longrightarrow> keeps (case x of [] \<Rightarrow> m | a # b \<Rightarrow> f a b)"
  by (cases x) simp_all

lemmas keeps_intros = keeps_return keeps_gets keeps_bind keeps_if keeps_prod keeps_option keeps_list

end

text \<open>The trace grows by events that satisfy \<open>Q\<close>.\<close>

definition grows_by :: "(event \<Rightarrow> bool) \<Rightarrow> 'w shell \<Rightarrow> 'w shell \<Rightarrow> bool" where
  "grows_by Q s s' \<longleftrightarrow> (\<exists>es. s_trace s' = s_trace s @ es \<and> list_all Q es)"

interpretation gr: state_relation "grows_by Q" for Q
proof
  show "grows_by Q s s" for s :: "'w shell" by (simp add: grows_by_def)
  show "grows_by Q s t \<Longrightarrow> grows_by Q t u \<Longrightarrow> grows_by Q s u" for s t u :: "'w shell"
    by (auto simp: grows_by_def)
qed

text \<open>The fields that say where the user is.\<close>

definition same_session :: "'w shell \<Rightarrow> 'w shell \<Rightarrow> bool" where
  "same_session s s' \<longleftrightarrow> s_uri s' = s_uri s \<and> s_sess s' = s_sess s \<and> s_connected s' = s_connected s
     \<and> s_lastwp s' = s_lastwp s \<and> s_opts s' = s_opts s \<and> s_creds s' = s_creds s \<and> s_netrc s' = s_netrc s"

interpretation ss: state_relation same_session
  by unfold_locales (auto simp: same_session_def)

section \<open>The primitives and the path functions\<close>

lemma keeps_world_op: "gr.keeps Q (world_op f)" "ss.keeps (world_op f)"
  by (auto simp: gr.keeps_def ss.keeps_def world_op_def grows_by_def same_session_def split: prod.split)

lemma keeps_note: "Q e \<Longrightarrow> gr.keeps Q (note_event e)" "ss.keeps (note_event e)"
  by (auto simp: gr.keeps_def ss.keeps_def grows_by_def same_session_def)

lemma keeps_say: "Q (Out t) \<Longrightarrow> gr.keeps Q (say t)" "ss.keeps (say t)"
  by (auto simp: gr.keeps_def ss.keeps_def grows_by_def same_session_def)

lemma keeps_ub: "gr.keeps Q (undefined_behaviour a)" "ss.keeps (undefined_behaviour a)"
  by (auto simp: gr.keeps_def ss.keeps_def grows_by_def same_session_def)

lemma keeps_reads:
  "gr.keeps Q (read_world f)" "ss.keeps (read_world f)"
  "gr.keeps Q (last_error E)" "ss.keeps (last_error E)"
  "gr.keeps Q (strerror E)" "ss.keeps (strerror E)"
  "gr.keeps Q (bool_option i)" "ss.keeps (bool_option i)"
  "gr.keeps Q (string_option i)" "ss.keeps (string_option i)"
  by (auto simp: gr.keeps_def ss.keeps_def grows_by_def same_session_def)

lemma keeps_modify:
  "(\<And>s. s_trace (f s) = s_trace s) \<Longrightarrow> gr.keeps Q (modify f)"
  "(\<And>s. same_session s (f s)) \<Longrightarrow> ss.keeps (modify f)"
  by (auto simp: gr.keeps_def ss.keeps_def grows_by_def)

lemma keeps_send: "Q (Req r) \<Longrightarrow> gr.keeps Q (send E r)" "ss.keeps (send E r)"
  unfolding send_def by (auto intro!: gr.keeps_intros ss.keeps_intros keeps_note keeps_world_op)

lemma keeps_exec: "Q (Cmd c) \<Longrightarrow> gr.keeps Q (exec E c)" "ss.keeps (exec E c)"
  unfolding exec_def by (auto intro!: gr.keeps_intros ss.keeps_intros keeps_note keeps_world_op)

lemmas frame_rules =
  gr.keeps_intros ss.keeps_intros keeps_world_op keeps_note keeps_say keeps_ub keeps_reads
  keeps_send keeps_exec

text \<open>Events that are not a request which changes something on the server.\<close>

fun harmless :: "event \<Rightarrow> bool" where
  "harmless (Out t) \<longleftrightarrow> True"
| "harmless (Query m p) \<longleftrightarrow> True"
| "harmless (Cmd (Set_error t)) \<longleftrightarrow> True"
| "harmless e \<longleftrightarrow> False"

lemma keeps_paths:
  "gr.keeps harmless (run_iconv E t b)" "ss.keeps (run_iconv E t b)"
  "gr.keeps harmless (utf8_from_native E t)" "ss.keeps (utf8_from_native E t)"
  "gr.keeps harmless (native_from_utf8 E t)" "ss.keeps (native_from_utf8 E t)"
  "gr.keeps harmless (native_path_from_uri E t)" "ss.keeps (native_path_from_uri E t)"
  "gr.keeps harmless (path_native_resolver E t b)" "ss.keeps (path_native_resolver E t b)"
  "gr.keeps harmless (uri_resolve_native E t)" "ss.keeps (uri_resolve_native E t)"
  "gr.keeps harmless (uri_resolve_native_coll E t)" "ss.keeps (uri_resolve_native_coll E t)"
  "gr.keeps harmless (fetch_resource_list E t d b)" "ss.keeps (fetch_resource_list E t d b)"
  "gr.keeps harmless (getrestype E t)" "ss.keeps (getrestype E t)"
  unfolding run_iconv_def utf8_from_native_def native_from_utf8_def native_path_from_uri_def
    path_native_resolver_def uri_resolve_native_def uri_resolve_native_coll_def
    fetch_resource_list_def getrestype_def Let_def
  by (auto intro!: frame_rules)

lemma keeps_true_path:
  "gr.keeps harmless (uri_resolve_native_true E t)" "ss.keeps (uri_resolve_native_true E t)"
  unfolding uri_resolve_native_true_def Let_def
  by (auto intro!: frame_rules keeps_paths)

lemma grows_mono: "gr.keeps Q m \<Longrightarrow> (\<And>e. Q e \<Longrightarrow> Q' e) \<Longrightarrow> gr.keeps Q' m"
  by (fastforce simp: gr.keeps_def grows_by_def list_all_iff)

end
