(* ===== verification/Sample_Server.thy ===== *)
theory Sample_Server
  imports Session_Frame
begin

text \<open>
  A concrete environment for the evaluation of the handlers on inputs: a server with a flat
  list of paths, each a collection or not, that answers as RFC 4918 describes, a list of local
  files, and a list of owned locks.
\<close>

record sample =
  sv_tree :: "(cstring \<times> bool) list"
  sv_files :: "cstring list"
  sv_locks :: "lock list"

definition strip_slash :: "cstring \<Rightarrow> cstring" where
  "strip_slash p = (if p \<noteq> [] \<and> last p = slash then butlast p else p)"

definition same_path :: "cstring \<Rightarrow> cstring \<Rightarrow> bool" where
  "same_path p q \<longleftrightarrow> strip_slash p = strip_slash q"

definition sample_pset :: "cstring \<times> bool \<Rightarrow> prop_set" where
  "sample_pset e =
     \<lparr>ps_path = fst e, ps_value = (\<lambda>n. None), ps_status = (\<lambda>n. None),
      ps_starts = (if snd e then [(NE_207_STATE_PROP, ''DAV:'', ''resourcetype''),
        (ELM_resourcetype, ''DAV:'', ''collection'')] else []),
      ps_items = []\<rparr>"

fun sample_send :: "request \<Rightarrow> sample \<Rightarrow> ne_ret \<times> sample" where
  "sample_send (Mkcol p) w = (NE_OK, w\<lparr>sv_tree := sv_tree w @ [(p, True)]\<rparr>)"
| "sample_send (Delete p) w =
     (NE_OK, w\<lparr>sv_tree := filter (\<lambda>(q, c). \<not> same_path p q) (sv_tree w)\<rparr>)"
| "sample_send (Move ow p q) w =
     (NE_OK, w\<lparr>sv_tree := map (\<lambda>(r, c). (if same_path p r then q else r, c)) (sv_tree w)\<rparr>)"
| "sample_send (Copy ow p q) w = (NE_OK, w\<lparr>sv_tree := sv_tree w @ [(q, False)]\<rparr>)"
| "sample_send (Put p fd) w = (NE_OK, w\<lparr>sv_tree := sv_tree w @ [(p, False)]\<rparr>)"
| "sample_send (Unlock l) w = (NE_OK, w)"
| "sample_send r w = (NE_OK, w)"

fun sample_exec :: "neon_command \<Rightarrow> sample \<Rightarrow> sample" where
  "sample_exec (Lockstore_add l) w = w\<lparr>sv_locks := l # sv_locks w\<rparr>"
| "sample_exec (Lockstore_remove l) w = w\<lparr>sv_locks := remove1 l (sv_locks w)\<rparr>"
| "sample_exec c w = w"

definition sample_lock :: lock where
  "sample_lock = \<lparr>l_uri = empty_uri, l_token = None, l_owner = None, l_scope = ne_lockscope_exclusive,
     l_write = True, l_depth = Some NE_DEPTH_ZERO, l_timeout = NE_TIMEOUT_INVALID\<rparr>"

definition sample_resolve :: "uri \<Rightarrow> uri \<Rightarrow> uri" where
  "sample_resolve base rel =
     (case u_path rel of
        Some (c # cs) \<Rightarrow>
          if c = slash then base\<lparr>u_path := Some (c # cs)\<rparr>
          else base\<lparr>u_path := Some (path_of base @ c # cs)\<rparr>
      | _ \<Rightarrow> base)"

definition sample_env :: "sample env" where
  "sample_env =
    \<lparr>e_options = \<lparr>dbg_bits = (\<lambda>b. 0), ne_tokens = (\<lambda>s c. [s])\<rparr>,
     ne_path_escape = (\<lambda>p. p), ne_path_unescape = Some,
     ne_path_has_trailing_slash = (\<lambda>p. p \<noteq> [] \<and> last p = slash),
     ne_path_compare = (\<lambda>p q. if same_path p q then 0 else 1),
     ne_uri_parse = (\<lambda>s. (True, empty_uri\<lparr>u_scheme := Some ''http'', u_host := Some s\<rparr>)),
     ne_uri_defaultport = (\<lambda>s. 80),
     ne_uri_resolve = sample_resolve, ne_uri_unparse = path_of,
     ne_uri_cmp = (\<lambda>u v. if u_path u = u_path v then 0 else 1),
     ne_has_ssl = False, ne_httpdate_parse = (\<lambda>s. 0),
     ne_shave = (\<lambda>s cs. filter (\<lambda>c. c \<notin> set cs) s),
     ne_ls_mapid = (\<lambda>t ns n. if n = ''resourcetype'' then ELM_resourcetype
       else if n = ''collection'' then ELM_collection else other_state),
     ne_search_xml = (\<lambda>s. s), ne_version = ''neon'', out_charset = ''UTF-8'',
     ne_lock_create = sample_lock, os_getenv = (\<lambda>v. None), os_strftime = (\<lambda>f t. None),
     os_isatty = False,
     n_send = sample_send, n_exec = sample_exec, n_get_error = (\<lambda>w. ''error''),
     n_redirect = (\<lambda>w. None), n_server_uri = (\<lambda>w. empty_uri), n_status = (\<lambda>w. (200, ''OK'')),
     n_options = (\<lambda>p w. ((NE_OK, \<lparr>dav_class1 = True, dav_class2 = True, dav_executable = False\<rparr>), w)),
     n_propfind = (\<lambda>p d ps w. (case filter (\<lambda>(q, c). same_path p q) (sv_tree w) of
        [] \<Rightarrow> ((NE_ERROR, []), w) | e # es \<Rightarrow> ((NE_OK, [sample_pset e]), w))),
     n_propnames = (\<lambda>p w. ((NE_OK, []), w)),
     n_discover = (\<lambda>p w. ((NE_OK, []), w)),
     n_lock = (\<lambda>l w. ((NE_OK, l\<lparr>l_token := Some ''token''\<rparr>), w)),
     n_locks = sv_locks,
     n_find_lock = (\<lambda>u w. find (\<lambda>l. u_path (l_uri l) = u_path u) (sv_locks w)),
     n_xml = (\<lambda>m p d b w. ((NE_OK, []), w)),
     n_head = (\<lambda>p w. ((NE_OK, []), w)),
     n_etag = (\<lambda>w. None),
     os_glob = (\<lambda>pat remote w. (Glob_nomatch, w)),
     os_iconv = (\<lambda>to s w. ((True, s), w)),
     os_stat = (\<lambda>p w. if p \<in> set (sv_files w)
       then Some \<lparr>st_regular = True, st_size = 0, st_mtime = 0\<rparr> else None),
     os_strerror = (\<lambda>w. ''No such file''),
     os_open = (\<lambda>p fl w. (Some 3, w\<lparr>sv_files := List.insert p (sv_files w)\<rparr>)),
     os_close = (\<lambda>fd w. (True, w)),
     os_mkstemp = (\<lambda>t w. ((Some 3, t), w\<lparr>sv_files := List.insert t (sv_files w)\<rparr>)),
     os_fchmod = (\<lambda>fd w. (True, w)),
     os_unlink = (\<lambda>p w. (True, w\<lparr>sv_files := removeAll p (sv_files w)\<rparr>)),
     os_system = (\<lambda>c w. (0, w)), os_popen = (\<lambda>c w. (Some 4, w)), os_pclose = (\<lambda>h w. (0, w)),
     os_chdir = (\<lambda>p w. (True, w)), os_getcwd = (\<lambda>w. Some ''/home''),
     os_read_file = (\<lambda>p w. None), os_run_ls = (\<lambda>a w. ([], w)), os_getpass = (\<lambda>p w. (Some ''secret'', w)),
     os_time = (\<lambda>w. 0)\<rparr>"

definition sample_shell :: "sample shell" where
  "sample_shell =
    \<lparr>s_uri = empty_uri\<lparr>u_scheme := Some ''http'', u_host := Some ''h'', u_port := 80, u_path := Some ''/d/''\<rparr>,
     s_sess = True, s_connected = True, s_isdav = True, s_lastwp = Live ''/'',
     s_caps = \<lparr>dav_class1 = True, dav_class2 = True, dav_executable = False\<rparr>,
     s_opts = init_options None None ''UTF-8'' (initial_options NE_DEPTH_INFINITE),
     s_out = out_none, s_completion = False, s_child = False, s_creds = None, s_proxy = None,
     s_netrc = [], s_input = ''bob\<newline>yes\<newline>'', s_trace = [], s_ub = False,
     s_world = \<lparr>sv_tree = [(''/'', True), (''/d/'', True), (''/d/f'', False), (''/d/c/'', True)],
       sv_files = [''old''], sv_locks = []\<rparr>\<rparr>"

end
