(* ===== verification/Output.thy ===== *)
theory Output
  imports Sample_Server
begin

text \<open>
  What the user sees while a command runs: \<open>output\<close> and the state machine \<open>out_state\<close>,
  neon's notifications, the progress bar and the prompts for credentials (\<open>src/cadaver.c\<close>),
  and the \<open>out_*\<close> functions of \<open>src/commands.c\<close>.
\<close>

section \<open>Messages\<close>

definition after_output :: "output_type \<Rightarrow> out_state" where
  "after_output t =
     (case t of
        o_start \<Rightarrow> out_incommand
      | o_upload \<Rightarrow> out_transfer_upload
      | o_download \<Rightarrow> out_transfer_download
      | o_finish \<Rightarrow> out_none)"

definition output_msg :: "output_type \<Rightarrow> string \<Rightarrow> ('w, unit) handler_m" where
  "output_msg t msg = do {
     st \<leftarrow> gets s_out;
     (if t = o_finish then say (if st = out_transfer_plain then ''] '' else '' '')
      else State_Monad.return ());
     say msg;
     modify (\<lambda>s. s\<lparr>s_out := after_output t\<rparr>) }"

definition out_start :: "string \<Rightarrow> string \<Rightarrow> ('w, unit) handler_m" where
  "out_start verb noun = output_msg o_start (verb @ '' `'' @ noun @ [CHR 0x27] @ '':'')"

definition out_start_uri :: "'w env \<Rightarrow> string \<Rightarrow> cstring \<Rightarrow> ('w, unit) handler_m" where
  "out_start_uri E verb path = do {
     native \<leftarrow> native_path_from_uri E path;
     output_msg o_start (verb @ '' `'' @ str_or_null native @ [CHR 0x27] @ '':'') }"

definition out_start_2uri :: "'w env \<Rightarrow> string \<Rightarrow> cstring \<Rightarrow> cstring \<Rightarrow> ('w, unit) handler_m" where
  "out_start_2uri E verb path1 path2 = do {
     native1 \<leftarrow> native_path_from_uri E path1;
     native2 \<leftarrow> native_path_from_uri E path2;
     output_msg o_start (verb @ '' `'' @ str_or_null native1 @ [CHR 0x27] @ '' to `'' @ str_or_null native2
       @ [CHR 0x27] @ '':'') }"

definition out_success :: "('w, unit) handler_m" where
  "out_success = output_msg o_finish ''succeeded.\<newline>''"

definition out_result :: "'w env \<Rightarrow> ne_ret \<Rightarrow> ('w, unit) handler_m" where
  "out_result E ret =
     (case ret of
        NE_OK \<Rightarrow> out_success
      | NE_AUTH \<Rightarrow> output_msg o_finish ''authentication failed.\<newline>''
      | NE_PROXYAUTH \<Rightarrow> output_msg o_finish ''authentication failed.\<newline>''
      | NE_CONNECT \<Rightarrow> output_msg o_finish ''could not connect to server.\<newline>''
      | NE_TIMEOUT \<Rightarrow> output_msg o_finish ''connection timed out.\<newline>''
      | _ \<Rightarrow> do {
          dest \<leftarrow> read_world (n_redirect E);
          err \<leftarrow> last_error E;
          (case (if ret = NE_REDIRECT then dest else None) of
             Some d \<Rightarrow> output_msg o_finish (''redirect to '' @ ne_uri_unparse E d @ ''\<newline>'')
           | None \<Rightarrow> output_msg o_finish (''failed:\<newline>'' @ err @ ''\<newline>'')) })"

definition out_handle :: "'w env \<Rightarrow> ne_ret \<Rightarrow> ('w, bool) handler_m" where
  "out_handle E ret = do { out_result E ret; State_Monad.return (ret = NE_OK) }"

section \<open>Progress\<close>

type_synonym timeval = "int \<times> int"

definition sub_timeval :: "timeval \<Rightarrow> timeval \<Rightarrow> timeval" where
  "sub_timeval t1 t0 =
     (let sec = fst t1 - fst t0; usec = snd t1 - snd t0
      in if usec < 0 then (sec - 1, usec + 1000000) else (sec, usec))"

text \<open>The loop that draws thirty columns.\<close>

definition bar_columns :: "int \<Rightarrow> string" where
  "bar_columns len =
     map (\<lambda>n. if int n < len - 1 then CHR ''='' else if int n = len - 1 then CHR ''>'' else CHR '' '') [0..<30]"

text \<open>
  \<open>pretty_progress_bar\<close>.  The current time is \<open>None\<close> when \<open>gettimeofday\<close> fails; \<open>percent\<close>
  is the floating-point part: the length of the bar and the percentage as printed.  The
  result is the text and the new value of the static variable.
\<close>

definition pretty_progress_bar ::
  "(int \<Rightarrow> int \<Rightarrow> int \<times> string) \<Rightarrow> timeval option \<Rightarrow> timeval \<Rightarrow> int \<Rightarrow> int \<Rightarrow> string \<times> timeval" where
  "pretty_progress_bar percent now last_call progress total_size =
     (if total_size < 0 then ([], last_call)
      else
        let early = (case now of
                       Some t \<Rightarrow> progress < total_size \<and> fst (sub_timeval t last_call) = 0
                         \<and> snd (sub_timeval t last_call) < 100000
                     | None \<Rightarrow> False);
            last_call' = (case now of Some t \<Rightarrow> if progress < total_size then t else last_call
                          | None \<Rightarrow> last_call);
            (len, pc) = (if progress = 0 \<or> total_size = 0 then (0, ''  0.0'') else percent progress total_size)
        in if early then ([], last_call)
           else ([CHR 0x0D] @ ''Progress: ['' @ bar_columns len @ ''] '' @ pc @ ''% of ''
                 @ show_int total_size @ '' bytes'', last_call'))"

datatype session_status =
    ne_status_lookup | ne_status_connecting | ne_status_connected
  | ne_status_handshake cstring "cstring option"
  | ne_status_sending int int | ne_status_recving int int | ne_status_other

record out_machine =
  m_state :: out_state
  m_last :: timeval

text \<open>What the notifier looks at besides its argument.\<close>

record notify_env =
  nv_quiet :: bool
  nv_completion :: bool
  nv_isatty :: bool
  nv_now :: "timeval option"
  nv_percent :: "int \<Rightarrow> int \<Rightarrow> int \<times> string"

definition transfer_of :: "session_status \<Rightarrow> (int \<times> int) option" where
  "transfer_of st =
     (case st of ne_status_sending p t \<Rightarrow> Some (p, t) | ne_status_recving p t \<Rightarrow> Some (p, t) | _ \<Rightarrow> None)"

definition is_recving :: "session_status \<Rightarrow> bool" where
  "is_recving st = (case st of ne_status_recving p t \<Rightarrow> True | _ \<Rightarrow> False)"

definition notify_idle :: "notify_env \<Rightarrow> session_status \<Rightarrow> string" where
  "notify_idle N st =
     (if nv_quiet N then []
      else case st of
          ne_status_lookup \<Rightarrow> ''Looking up hostname... ''
        | ne_status_connecting \<Rightarrow> ''Connecting to server... ''
        | ne_status_connected \<Rightarrow> ''connected.\<newline>''
        | ne_status_handshake proto cipher \<Rightarrow>
            ''TLS handshake completed: protocol version '' @ proto @ '', cipher ''
            @ (case cipher of Some c \<Rightarrow> c | None \<Rightarrow> ''unknown'') @ ''\<newline>''
        | _ \<Rightarrow> [])"

definition notify_command :: "notify_env \<Rightarrow> out_machine \<Rightarrow> session_status \<Rightarrow> string \<times> out_machine" where
  "notify_command N m st =
     (case st of
        ne_status_connecting \<Rightarrow> (if nv_quiet N then [] else '' (reconnecting...'', m)
      | ne_status_connected \<Rightarrow> (if nv_quiet N then [] else ''done)'', m)
      | _ \<Rightarrow>
          (case transfer_of st of
             None \<Rightarrow> ([], m)
           | Some (progress, ptotal) \<Rightarrow>
               if m_state m = out_transfer_download \<and> is_recving st
                  \<or> m_state m = out_transfer_upload \<and> \<not> is_recving st then
                 (if nv_isatty N \<and> ptotal > 0 then
                    let (t, l) = pretty_progress_bar (nv_percent N) (nv_now N) (m_last m) progress ptotal
                    in (''\<newline>'' @ t, \<lparr>m_state = out_transfer_pretty, m_last = l\<rparr>)
                  else ('' [.'', m\<lparr>m_state := out_transfer_plain\<rparr>))
               else ([], m)))"

definition notify_plain :: "out_machine \<Rightarrow> session_status \<Rightarrow> string \<times> out_machine" where
  "notify_plain m st =
     (case st of
        ne_status_connecting \<Rightarrow> (''] reconnecting: '', m)
      | ne_status_connected \<Rightarrow> (''okay ['', m)
      | _ \<Rightarrow>
          (case transfer_of st of
             None \<Rightarrow> ([], m)
           | Some (progress, ptotal) \<Rightarrow>
               (''.'', if progress = ptotal then m\<lparr>m_state := out_transfer_done\<rparr> else m)))"

definition notify_pretty :: "notify_env \<Rightarrow> out_machine \<Rightarrow> session_status \<Rightarrow> string \<times> out_machine" where
  "notify_pretty N m st =
     (case st of
        ne_status_connecting \<Rightarrow>
          (if nv_quiet N then [] else [CHR 0x0D] @ ''Transfer timed out, reconnecting... '', m)
      | ne_status_connected \<Rightarrow> (if nv_quiet N then [] else ''okay.'', m)
      | _ \<Rightarrow>
          (case transfer_of st of
             None \<Rightarrow> ([], m)
           | Some (progress, ptotal) \<Rightarrow>
               let (t, l) = pretty_progress_bar (nv_percent N) (nv_now N) (m_last m) progress ptotal
               in (t, \<lparr>m_state = (if progress = ptotal then out_transfer_done else m_state m), m_last = l\<rparr>)))"

definition notifier :: "notify_env \<Rightarrow> out_machine \<Rightarrow> session_status \<Rightarrow> string \<times> out_machine" where
  "notifier N m st =
     (if nv_completion N then ([], m)
      else case m_state m of
          out_none \<Rightarrow> (notify_idle N st, m)
        | out_transfer_plain \<Rightarrow> notify_plain m st
        | out_transfer_pretty \<Rightarrow> notify_pretty N m st
        | _ \<Rightarrow> notify_command N m st)"

section \<open>Credentials\<close>

definition creds_lead :: "out_state \<Rightarrow> string" where
  "creds_lead st =
     (case st of
        out_transfer_pretty \<Rightarrow> ''\<newline>'' | out_transfer_done \<Rightarrow> ''\<newline>''
      | out_none \<Rightarrow> []
      | out_transfer_plain \<Rightarrow> ''] ''
      | _ \<Rightarrow> '' '')"

definition creds_retry :: "out_state \<Rightarrow> string" where
  "creds_retry st =
     (case st of
        out_none \<Rightarrow> [] | out_transfer_pretty \<Rightarrow> []
      | out_transfer_plain \<Rightarrow> ''Retrying [''
      | _ \<Rightarrow> ''Retrying:'')"

text \<open>
  \<open>supply_creds\<close>: the name and password copied to the caller's buffers of \<open>abufsiz\<close>
  (\<open>NE_ABUFSIZ\<close>) bytes, or \<open>None\<close> for the return value -1.
\<close>

definition supply_creds ::
  "'w env \<Rightarrow> nat \<Rightarrow> string \<Rightarrow> ('w, (cstring \<times> cstring) option) handler_m" where
  "supply_creds E abufsiz prompt = do {
     st \<leftarrow> gets s_out;
     say (creds_lead st);
     say prompt;
     user \<leftarrow> readline E ''Username: '';
     (case user of
        None \<Rightarrow> do { say ([CHR 0x0D] @ ''Authentication aborted!\<newline>''); State_Monad.return None }
      | Some u \<Rightarrow>
          if abufsiz \<le> length u then do {
            say ([CHR 0x0D] @ ''Username too long (>'' @ show_nat abufsiz @ '')\<newline>'');
            State_Monad.return None }
          else do {
            pass \<leftarrow> world_op (os_getpass E ''Password: '');
            (case pass of
               None \<Rightarrow> do { say ''Authentication aborted!\<newline>''; State_Monad.return None }
             | Some p \<Rightarrow>
                 if abufsiz \<le> length p then do {
                   say ([CHR 0x0D] @ ''Password too long (>'' @ show_nat abufsiz @ '')\<newline>'');
                   State_Monad.return None }
                 else do {
                   say (creds_retry st);
                   State_Monad.return (Some (u, p)) }) }) }"

text \<open>\<open>ne_strnzcpy\<close> into the buffer.\<close>

definition strnzcpy :: "nat \<Rightarrow> cstring \<Rightarrow> cstring" where
  "strnzcpy n src = take (n - 1) src"

text \<open>The decrement happens only when there are credentials from the .netrc file.\<close>

definition supply_creds_server ::
  "'w env \<Rightarrow> nat \<Rightarrow> cstring \<Rightarrow> int \<Rightarrow> ('w, (cstring \<times> cstring) option) handler_m" where
  "supply_creds_server E abufsiz realm attempt = do {
     creds \<leftarrow> gets s_creds;
     u \<leftarrow> gets s_uri;
     let prompt = ''Authentication required for '' @ realm @ '' on server `'' @ str_or_null (u_host u)
       @ [CHR 0x27] @ '':\<newline>'';
     (case creds of
        Some (user, pass) \<Rightarrow>
          if attempt = 0 then
            State_Monad.return (Some (strnzcpy abufsiz user, strnzcpy abufsiz pass))
          else if attempt - 1 > 1 then State_Monad.return None
          else supply_creds E abufsiz prompt
      | None \<Rightarrow>
          if attempt > 1 then State_Monad.return None else supply_creds E abufsiz prompt) }"

definition supply_creds_proxy ::
  "'w env \<Rightarrow> nat \<Rightarrow> cstring \<Rightarrow> int \<Rightarrow> ('w, (cstring \<times> cstring) option) handler_m" where
  "supply_creds_proxy E abufsiz realm attempt = do {
     host \<leftarrow> gets s_proxy;
     if attempt > 1 then State_Monad.return None
     else supply_creds E abufsiz (''Authentication required for '' @ realm @ '' on proxy server `''
       @ str_or_null host @ [CHR 0x27] @ '':\<newline>'') }"

section \<open>The machine\<close>

fun notify_all :: "notify_env \<Rightarrow> session_status list \<Rightarrow> out_machine \<Rightarrow> string \<times> out_machine" where
  "notify_all N [] m = ([], m)"
| "notify_all N (st # sts) m =
     (let (t, m1) = notifier N m st; (t', m2) = notify_all N sts m1 in (t @ t', m2))"

text \<open>A step of the machine is a message of the program or a notification of neon.\<close>

inductive out_step :: "notify_env \<Rightarrow> out_machine \<Rightarrow> out_machine \<Rightarrow> bool" for N where
  message: "out_step N m (m\<lparr>m_state := after_output t\<rparr>)"
| notification: "out_step N m (snd (notifier N m st))"

inductive_cases out_stepE: "out_step N m m'"

lemmas notifier_defs =
  notifier_def notify_command_def notify_plain_def notify_pretty_def transfer_of_def is_recving_def

lemma after_output_not_pretty: "after_output t \<noteq> out_transfer_pretty" "after_output t \<noteq> out_transfer_plain"
  by (cases t; simp add: after_output_def)+

lemma notifier_enters_pretty:
  "m_state (snd (notifier N m st)) = out_transfer_pretty \<Longrightarrow> m_state m = out_transfer_pretty \<or> nv_isatty N"
  by (auto simp: notifier_defs split: out_state.splits session_status.splits if_splits prod.splits)

lemma notifier_last_call:
  "m_state m \<noteq> out_transfer_pretty \<Longrightarrow> \<not> nv_isatty N \<Longrightarrow> m_last (snd (notifier N m st)) = m_last m"
  by (auto simp: notifier_defs split: out_state.splits session_status.splits if_splits prod.splits)

lemma notifier_outside_transfer:
  "m_state m \<in> {out_none, out_incommand} \<Longrightarrow> snd (notifier N m st) = m"
  by (auto simp: notifier_defs split: out_state.splits session_status.splits if_splits prod.splits)

text \<open>Without \<open>o_upload\<close> or \<open>o_download\<close> no progress is drawn, whatever neon notifies.\<close>

lemma notify_all_outside_transfer:
  "m_state m \<in> {out_none, out_incommand} \<Longrightarrow> snd (notify_all N sts m) = m"
proof (induction sts)
  case (Cons st sts)
  then have "snd (notifier N m st) = m" by (rule_tac notifier_outside_transfer)
  with Cons show ?case by (cases "notifier N m st") (auto split: prod.split)
qed simp

lemma out_reach_invariant:
  assumes "(out_step N)\<^sup>*\<^sup>* m m'" "m_state m \<noteq> out_transfer_pretty" "\<not> nv_isatty N"
  shows "m_state m' \<noteq> out_transfer_pretty \<and> m_last m' = m_last m"
  using assms(1)
proof induction
  case base
  from assms(2) show ?case by simp
next
  case (step y z)
  from step(2) show ?case
  proof (cases rule: out_step.cases)
    case (message t)
    with step.IH show ?thesis by (simp add: after_output_not_pretty)
  next
    case (notification st)
    with step.IH notifier_enters_pretty [of N y st] notifier_last_call [of y N st] assms(3)
    show ?thesis by auto
  qed
qed

section \<open>Properties\<close>

text \<open>The progress bar is drawn on a terminal only: when standard output is not one, no
  sequence of messages and notifications from the initial state of the machine reaches the
  state of the bar, and the clock of the bar stays at its initial value.\<close>

theorem pretty_only_on_tty:
  assumes "(out_step N)\<^sup>*\<^sup>* \<lparr>m_state = out_none, m_last = (0, 0)\<rparr> m" "\<not> nv_isatty N"
  shows "m_state m \<noteq> out_transfer_pretty \<and> m_last m = (0, 0)"
  using out_reach_invariant [OF assms(1) _ assms(2)] by simp

definition sample_notify :: notify_env where
  "sample_notify = \<lparr>nv_quiet = False, nv_completion = False, nv_isatty = False, nv_now = Some (7, 0),
     nv_percent = \<lambda>p t. (30 * p div t, show_int (100 * p div t))\<rparr>"

theorem pretty_only_on_tty_witness:
  "m_state (snd (notifier sample_notify \<lparr>m_state = out_transfer_download, m_last = (0, 0)\<rparr>
     (ne_status_recving 10 20))) \<noteq> out_transfer_pretty"
proof -
  have a: "out_step sample_notify \<lparr>m_state = out_none, m_last = (0, 0)\<rparr>
      \<lparr>m_state = out_transfer_download, m_last = (0, 0)\<rparr>"
    using out_step.message [of sample_notify "\<lparr>m_state = out_none, m_last = (0, 0)\<rparr>" o_download]
    by (simp add: after_output_def)
  have "(out_step sample_notify)\<^sup>*\<^sup>* \<lparr>m_state = out_none, m_last = (0, 0)\<rparr>
      (snd (notifier sample_notify \<lparr>m_state = out_transfer_download, m_last = (0, 0)\<rparr> (ne_status_recving 10 20)))"
    by (rule rtranclp.rtrancl_into_rtrancl [rotated], rule out_step.notification,
        rule r_into_rtranclp [where r = "out_step sample_notify", OF a])
  from pretty_only_on_tty [OF this] show ?thesis by (simp add: sample_notify_def)
qed

lemma notify_all_append:
  "notify_all N (xs @ ys) m =
     (let (t, m1) = notify_all N xs m; (t', m2) = notify_all N ys m1 in (t @ t', m2))"
  by (induction xs arbitrary: m) (simp_all add: Let_def split: prod.split)

lemma notify_plain_middle:
  assumes "\<not> nv_completion N" "tot \<notin> set ps" "m_state m = out_transfer_plain"
  shows "notify_all N (map (\<lambda>p. ne_status_recving p tot) ps) m = (replicate (length ps) CHR ''.'', m)"
  using assms by (induction ps) (auto simp: notifier_defs)

text \<open>A download whose progress is not drawn as a bar opens a bracket and never closes it:
  when the last block is reported the machine leaves the plain state, so the message that ends
  the command prints a blank and not the closing bracket.\<close>

theorem plain_transfer_bracket:
  assumes "\<not> nv_isatty N" "\<not> nv_completion N" "tot \<notin> set ps"
  shows "notify_all N (ne_status_recving p tot # map (\<lambda>p. ne_status_recving p tot) ps
           @ [ne_status_recving tot tot]) \<lparr>m_state = out_transfer_download, m_last = l\<rparr>
         = ('' [.'' @ replicate (length ps) CHR ''.'' @ ''.'', \<lparr>m_state = out_transfer_done, m_last = l\<rparr>)
       \<and> s_trace (snd (run_state out_success (s\<lparr>s_out := out_transfer_done\<rparr>)))
         = s_trace s @ [Out '' '', Out ''succeeded.\<newline>'']"
proof
  have first: "notifier N \<lparr>m_state = out_transfer_download, m_last = l\<rparr> (ne_status_recving p tot)
      = ('' [.'', \<lparr>m_state = out_transfer_plain, m_last = l\<rparr>)"
    using assms by (simp add: notifier_defs)
  have last: "notifier N \<lparr>m_state = out_transfer_plain, m_last = l\<rparr> (ne_status_recving tot tot)
      = (''.'', \<lparr>m_state = out_transfer_done, m_last = l\<rparr>)"
    using assms by (simp add: notifier_defs)
  show "notify_all N (ne_status_recving p tot # map (\<lambda>p. ne_status_recving p tot) ps
           @ [ne_status_recving tot tot]) \<lparr>m_state = out_transfer_download, m_last = l\<rparr>
         = ('' [.'' @ replicate (length ps) CHR ''.'' @ ''.'', \<lparr>m_state = out_transfer_done, m_last = l\<rparr>)"
    using assms by (simp add: first last notify_all_append notify_plain_middle)
  show "s_trace (snd (run_state out_success (s\<lparr>s_out := out_transfer_done\<rparr>)))
         = s_trace s @ [Out '' '', Out ''succeeded.\<newline>'']"
    by (simp add: out_success_def output_msg_def)
qed

theorem plain_transfer_bracket_witness:
  "fst (notify_all sample_notify [ne_status_recving 10 30, ne_status_recving 20 30, ne_status_recving 30 30]
     \<lparr>m_state = out_transfer_download, m_last = (0, 0)\<rparr>) = '' [...''"
proof -
  have "fst (notify_all sample_notify (ne_status_recving 10 30 # map (\<lambda>p. ne_status_recving p 30) [20]
      @ [ne_status_recving 30 30]) \<lparr>m_state = out_transfer_download, m_last = (0, 0)\<rparr>) = '' [...''"
    by (subst plain_transfer_bracket [THEN conjunct1]) (simp_all add: sample_notify_def)
  then show ?thesis by (simp only: list.map append.simps)
qed

text \<open>C37: The credentials fit: whatever the user types and the .netrc file holds, the name and
  the password handed to neon are shorter than its buffers.\<close>

theorem creds_fit:
  assumes "run_state (supply_creds_server E n realm attempt) s = (Some (u, p), s')
    \<or> run_state (supply_creds_proxy E n realm attempt) s = (Some (u, p), s')" "0 < n"
  shows "length u < n \<and> length p < n"
proof -
  have ask: "length u < n \<and> length p < n"
    if "run_state (supply_creds E n prompt) t = (Some (u, p), t')" for prompt t t'
    using that by (auto simp: supply_creds_def world_op_def split: option.splits prod.splits if_splits)
  have "length (strnzcpy n x) < n" for x :: cstring
    using assms(2) by (simp add: strnzcpy_def)
  then show ?thesis
    using assms(1) ask by (auto simp: supply_creds_server_def supply_creds_proxy_def Let_def
        split: option.splits prod.splits if_splits)
qed


theorem creds_fit_witness:
  "let r = fst (run_state (supply_creds_server sample_env 256 ''realm'' 0) sample_shell)
   in r = Some (''bob'', ''secret'') \<and> length (fst (the r)) < 256 \<and> length (snd (the r)) < 256"
proof -
  have r: "fst (run_state (supply_creds_server sample_env 256 ''realm'' 0) sample_shell)
      = Some (''bob'', ''secret'')" by code_simp
  then obtain s' where "run_state (supply_creds_server sample_env 256 ''realm'' 0) sample_shell
      = (Some (''bob'', ''secret''), s')" by (metis prod.collapse)
  from creds_fit [OF disjI1 [OF this]] r show ?thesis by simp
qed

end
