(* ===== verification/Handler_Rules.thy ===== *)
theory Handler_Rules
  imports Output
begin

text \<open>
  What the proofs about the handlers share: the requests of a run, which parts of a handler
  send none, and combinators for the loops of the handlers.
\<close>

section \<open>Loops\<close>

text \<open>A loop over a list for its effects.\<close>

fun for_each :: "('a \<Rightarrow> ('s, unit) state) \<Rightarrow> 'a list \<Rightarrow> ('s, unit) state" where
  "for_each f [] = State_Monad.return ()"
| "for_each f (x # xs) = do { f x; for_each f xs }"

lemma for_each_append: "for_each f (xs @ ys) = do { for_each f xs; for_each f ys }"
  by (induction xs) simp_all

lemma keeps_for_each:
  "(\<And>x. gr.keeps Q (f x)) \<Longrightarrow> gr.keeps Q (for_each f xs)"
  "(\<And>x. ss.keeps (g x)) \<Longrightarrow> ss.keeps (for_each g xs)"
  by (induction xs) (auto intro!: gr.keeps_intros ss.keeps_intros)

section \<open>Requests\<close>

fun request_of :: "event \<Rightarrow> request option" where
  "request_of (Req r) = Some r"
| "request_of e = None"

definition reqs :: "'w shell \<Rightarrow> request list" where
  "reqs s = List.map_filter request_of (s_trace s)"

lemma map_filter_append [simp]:
  "List.map_filter f (xs @ ys) = List.map_filter f xs @ List.map_filter f ys"
  by (simp add: List.map_filter_def)

lemma reqs_simps [simp]:
  "reqs (s\<lparr>s_trace := s_trace s @ [e]\<rparr>) = reqs s @ (case request_of e of Some r \<Rightarrow> [r] | None \<Rightarrow> [])"
  "reqs (s\<lparr>s_uri := a\<rparr>) = reqs s"
  "reqs (s\<lparr>s_lastwp := b\<rparr>) = reqs s"
  "reqs (s\<lparr>s_isdav := i\<rparr>) = reqs s"
  "reqs (s\<lparr>s_out := ou\<rparr>) = reqs s"
  "reqs (s\<lparr>s_child := k\<rparr>) = reqs s"
  "reqs (s\<lparr>s_input := j\<rparr>) = reqs s"
  "reqs (s\<lparr>s_ub := v\<rparr>) = reqs s"
  "reqs (s\<lparr>s_world := w\<rparr>) = reqs s"
  by (auto simp: reqs_def List.map_filter_def split: option.split)

definition no_request :: "event \<Rightarrow> bool" where
  "no_request e \<longleftrightarrow> request_of e = None"

lemma harmless_no_request: "harmless e \<Longrightarrow> no_request e"
  by (cases e rule: harmless.cases) (simp_all add: no_request_def)

text \<open>A computation that sends no request.\<close>

abbreviation silent :: "('w shell, 'a) state \<Rightarrow> bool" where
  "silent m \<equiv> gr.keeps no_request m"

lemma silent_reqs: "silent m \<Longrightarrow> reqs (snd (run_state m s)) = reqs s"
proof -
  assume "silent m"
  then obtain es where "s_trace (snd (run_state m s)) = s_trace s @ es" "list_all no_request es"
    by (auto simp: gr.keeps_def grows_by_def)
  moreover have "list_all no_request es \<Longrightarrow> List.map_filter request_of es = []" for es
    by (induction es) (auto simp: no_request_def List.map_filter_def)
  ultimately show ?thesis by (simp add: reqs_def)
qed

lemma silent_harmless: "gr.keeps harmless m \<Longrightarrow> silent m"
  by (rule grows_mono, assumption) (rule harmless_no_request)

lemma reqs_send [simp]: "reqs (snd (run_state (send E r) s)) = reqs s @ [r]"
  by (simp add: send_def world_op_def split: prod.split)

lemma reqs_bind [simp]:
  "reqs (snd (run_state (State_Monad.bind m f) s)) =
     reqs (snd (run_state (f (fst (run_state m s))) (snd (run_state m s))))"
  by (simp add: split_def)

section \<open>Output\<close>

lemma keeps_ask:
  "(\<And>t. Q (Out t)) \<Longrightarrow> gr.keeps Q (readline E p)" "ss.keeps (readline E p)"
  "gr.keeps Q ask_yesno" "ss.keeps ask_yesno"
  unfolding readline_def ask_yesno_def Let_def
  by (auto intro!: frame_rules keeps_modify simp: same_session_def split: prod.split)

lemma keeps_output:
  "gr.keeps harmless (output_msg t m)" "ss.keeps (output_msg t m)"
  "gr.keeps harmless (out_start v n)" "ss.keeps (out_start v n)"
  "gr.keeps harmless out_success" "ss.keeps out_success"
  unfolding output_msg_def out_start_def out_success_def
  by (auto intro!: frame_rules keeps_modify simp: same_session_def)

lemma keeps_out:
  "gr.keeps harmless (out_start_uri E v p)" "ss.keeps (out_start_uri E v p)"
  "gr.keeps harmless (out_start_2uri E v p q)" "ss.keeps (out_start_2uri E v p q)"
  unfolding out_start_uri_def out_start_2uri_def
  by (auto intro!: frame_rules keeps_paths keeps_output)

lemma keeps_result:
  "gr.keeps harmless (out_result E r)" "ss.keeps (out_result E r)"
  "gr.keeps harmless (out_handle E r)" "ss.keeps (out_handle E r)"
proof -
  show r: "gr.keeps harmless (out_result E r)" "ss.keeps (out_result E r)"
    unfolding out_result_def by (cases r; auto intro!: frame_rules keeps_output)+
  show "gr.keeps harmless (out_handle E r)" "ss.keeps (out_handle E r)"
    unfolding out_handle_def by (auto intro!: frame_rules r)
qed

lemmas handler_frames =
  frame_rules keeps_paths keeps_true_path keeps_ask keeps_output keeps_out keeps_result keeps_for_each

text \<open>The parts of the handlers that send nothing, as rewrite rules for the requests.\<close>

lemmas silent_parts [simp] =
  keeps_paths(1,3,5,7,9,11,13,15,17) [THEN silent_harmless, THEN silent_reqs]
  keeps_true_path(1) [THEN silent_harmless, THEN silent_reqs]
  keeps_output(1,3,5) [THEN silent_harmless, THEN silent_reqs]
  keeps_out(1,3) [THEN silent_harmless, THEN silent_reqs]
  keeps_result(1,3) [THEN silent_harmless, THEN silent_reqs]

lemma reqs_world_op [simp]: "reqs (snd (run_state (world_op f) s)) = reqs s"
  by (simp add: world_op_def split: prod.split)

lemma reqs_exec [simp]: "reqs (snd (run_state (exec E c) s)) = reqs s"
  by (simp add: exec_def)

lemma reqs_readline [simp]: "reqs (snd (run_state (readline E p) s)) = reqs s"
  by (rule silent_reqs, rule keeps_ask) (simp add: no_request_def)

lemma out_handle_ok [simp]: "fst (run_state (out_handle E r) s) \<longleftrightarrow> r = NE_OK"
  by (simp add: out_handle_def split_def)

section \<open>Effects\<close>

text \<open>The events that are not harmless: requests, commands to neon, files opened, programs run.\<close>

definition effects :: "'w shell \<Rightarrow> event list" where
  "effects s = filter (\<lambda>e. \<not> harmless e) (s_trace s)"

lemma effects_simps [simp]:
  "effects (s\<lparr>s_trace := s_trace s @ [e]\<rparr>) = effects s @ (if harmless e then [] else [e])"
  "effects (s\<lparr>s_uri := a\<rparr>) = effects s"
  "effects (s\<lparr>s_lastwp := b\<rparr>) = effects s"
  "effects (s\<lparr>s_isdav := i\<rparr>) = effects s"
  "effects (s\<lparr>s_out := ou\<rparr>) = effects s"
  "effects (s\<lparr>s_child := k\<rparr>) = effects s"
  "effects (s\<lparr>s_input := j\<rparr>) = effects s"
  "effects (s\<lparr>s_ub := v\<rparr>) = effects s"
  "effects (s\<lparr>s_world := w\<rparr>) = effects s"
  by (simp_all add: effects_def)

lemma harmless_effects: "gr.keeps harmless m \<Longrightarrow> effects (snd (run_state m s)) = effects s"
proof -
  assume "gr.keeps harmless m"
  then obtain es where "s_trace (snd (run_state m s)) = s_trace s @ es" "list_all harmless es"
    by (auto simp: gr.keeps_def grows_by_def)
  moreover have "list_all harmless es \<Longrightarrow> filter (\<lambda>e. \<not> harmless e) es = []" for es
    by (induction es) auto
  ultimately show ?thesis by (simp add: effects_def)
qed

lemma effects_bind [simp]:
  "effects (snd (run_state (State_Monad.bind m f) s)) =
     effects (snd (run_state (f (fst (run_state m s))) (snd (run_state m s))))"
  by (simp add: split_def)

lemma effects_world [simp]:
  "effects (snd (run_state (world_op f) s)) = effects s"
  "effects (snd (run_state (send E r) s)) = effects s @ [Req r]"
  "effects (snd (run_state (exec E c) s)) = effects s @ (if harmless (Cmd c) then [] else [Cmd c])"
  "effects (snd (run_state (readline E p) s)) = effects s"
  by (simp_all add: world_op_def send_def exec_def harmless_effects keeps_ask split: prod.split)

lemmas harmless_parts [simp] =
  keeps_paths(1,3,5,7,9,11,13,15,17) [THEN harmless_effects]
  keeps_true_path(1) [THEN harmless_effects]
  keeps_output(1,3,5) [THEN harmless_effects]
  keeps_out(1,3) [THEN harmless_effects]
  keeps_result(1,3) [THEN harmless_effects]

section \<open>The place of the user\<close>

lemma same_sessionD: "ss.keeps m \<Longrightarrow> same_session s (snd (run_state m s))"
  by (simp add: ss.keeps_def)

lemma same_session_uri: "ss.keeps m \<Longrightarrow> s_uri (snd (run_state m s)) = s_uri s"
  by (drule same_sessionD [of _ s]) (simp add: same_session_def)

end
