(* ===== verification/Lock_Commands.thy ===== *)
theory Lock_Commands
  imports Handler_Rules
begin

text \<open>
  The commands \<open>lock\<close>, \<open>unlock\<close>, \<open>discover\<close>, \<open>steal\<close> and \<open>showlocks\<close> and the removal of owned
  locks after a deletion (\<open>src/commands.c\<close>).  The store of owned locks is neon's.
\<close>

section \<open>Display\<close>

definition get_lockscope :: "lock_scope \<Rightarrow> string" where
  "get_lockscope s =
     (case s of ne_lockscope_exclusive \<Rightarrow> ''exclusive'' | ne_lockscope_shared \<Rightarrow> ''shared''
      | ne_lockscope_other \<Rightarrow> ''unknown'')"

definition get_locktype :: "bool \<Rightarrow> string" where
  "get_locktype w = (if w then ''write'' else ''unknown'')"

definition get_timeout :: "lock_timeout \<Rightarrow> string" where
  "get_timeout t =
     (case t of NE_TIMEOUT_INFINITE \<Rightarrow> ''infinite'' | NE_TIMEOUT_INVALID \<Rightarrow> ''invalid''
      | Seconds n \<Rightarrow> show_int n @ '' seconds'')"

definition get_depth :: "depth option \<Rightarrow> string" where
  "get_depth d =
     (case d of Some NE_DEPTH_INFINITE \<Rightarrow> ''infinity'' | Some NE_DEPTH_ZERO \<Rightarrow> ''0''
      | Some NE_DEPTH_ONE \<Rightarrow> ''1'' | None \<Rightarrow> ''invalid'')"

definition print_uri :: "'w env \<Rightarrow> uri \<Rightarrow> ('w, unit) handler_m" where
  "print_uri E u = say (ne_uri_unparse E u)"

definition print_lock :: "'w env \<Rightarrow> lock \<Rightarrow> ('w, unit) handler_m" where
  "print_lock E l =
     say (''Lock token <'' @ str_or_null (l_token l) @ ''>:\<newline>  Depth '' @ get_depth (l_depth l)
       @ '' on `'' @ ne_uri_unparse E (l_uri l) @ [CHR 0x27] @ ''\<newline>  Scope: '' @ get_lockscope (l_scope l)
       @ ''  Type: '' @ get_locktype (l_write l) @ ''  Timeout: '' @ get_timeout (l_timeout l)
       @ ''\<newline>  Owner: '' @ (case l_owner l of Some ow \<Rightarrow> ow | None \<Rightarrow> ''(none)'') @ ''\<newline>'')"

section \<open>Discovery\<close>

text \<open>The callbacks: the counter before and after.\<close>

definition lock_failure :: "cstring option \<Rightarrow> int \<Rightarrow> cstring \<Rightarrow> ('w, unit) handler_m" where
  "lock_failure path st_code reason =
     say (''Failed on '' @ str_or_null path @ '': '' @ show_int st_code @ '' '' @ reason @ ''\<newline>'')"

definition discover_result :: "'w env \<Rightarrow> lock_answer \<Rightarrow> nat \<Rightarrow> ('w, nat) handler_m" where
  "discover_result E a cnt =
     (case a of
        Lock_found l \<Rightarrow> do {
          (if cnt = 0 then say ''\<newline>'' else State_Monad.return ());
          print_lock E l;
          State_Monad.return (cnt + 1) }
      | Lock_failed path st_code reason \<Rightarrow> do {
          lock_failure path st_code reason;
          State_Monad.return cnt })"

definition steal_result :: "'w env \<Rightarrow> lock_answer \<Rightarrow> nat \<Rightarrow> ('w, nat) handler_m" where
  "steal_result E a cnt =
     (case a of
        Lock_found l \<Rightarrow> do {
          (if cnt = 0 then say ''\<newline>'' else State_Monad.return ());
          print_uri E (l_uri l);
          say ('': <'' @ str_or_null (l_token l) @ ''>\<newline>'');
          exec E (Lockstore_add l);
          State_Monad.return (cnt + 1) }
      | Lock_failed path st_code reason \<Rightarrow> do {
          lock_failure path st_code reason;
          State_Monad.return cnt })"

fun call_back :: "('a \<Rightarrow> 'c \<Rightarrow> ('s, 'c) state) \<Rightarrow> 'a list \<Rightarrow> 'c \<Rightarrow> ('s, 'c) state" where
  "call_back cb [] c = State_Monad.return c"
| "call_back cb (a # as) c = do { c' \<leftarrow> cb a c; call_back cb as c' }"

definition do_discover ::
  "'w env \<Rightarrow> (lock_answer \<Rightarrow> nat \<Rightarrow> ('w, nat) handler_m) \<Rightarrow> string \<Rightarrow> cstring \<Rightarrow> ('w, unit) handler_m" where
  "do_discover E result_cb mesg path = do {
     uri_path \<leftarrow> uri_resolve_native E path;
     out_start mesg path;
     note_event (Query ''LOCKDISCOVERY'' uri_path);
     (ret, answers) \<leftarrow> world_op (n_discover E uri_path);
     cnt \<leftarrow> call_back result_cb answers 0;
     if ret = NE_OK then
       (if cnt = 0 then say '' no locks found.\<newline>'' else State_Monad.return ())
     else out_result E ret }"

definition execute_discover :: "'w env \<Rightarrow> cstring \<Rightarrow> ('w, unit) handler_m" where
  "execute_discover E path = do_discover E (discover_result E) ''Discovering locks on'' path"

definition execute_steal :: "'w env \<Rightarrow> cstring \<Rightarrow> ('w, unit) handler_m" where
  "execute_steal E path = do_discover E (steal_result E) ''Stealing locks on'' path"

definition execute_showlocks :: "'w env \<Rightarrow> ('w, unit) handler_m" where
  "execute_showlocks E = do {
     locks \<leftarrow> read_world (n_locks E);
     for_each (print_lock E) locks;
     if locks = [] then say ''No owned locks.\<newline>'' else State_Monad.return () }"

section \<open>Locking\<close>

definition execute_lock :: "'w env \<Rightarrow> cstring \<Rightarrow> ('w, unit) handler_m" where
  "execute_lock E path = do {
     (uri_path, iscoll) \<leftarrow> uri_resolve_native_true E path;
     (if iscoll then out_start ''Locking collection'' path else out_start ''Locking'' path);
     opts \<leftarrow> gets s_opts;
     owner \<leftarrow> getowner;
     server \<leftarrow> read_world (n_server_uri E);
     let lk = (ne_lock_create E)\<lparr>l_scope := lockscope opts, l_owner := owner,
       l_depth := Some (if iscoll then lockdepth opts else NE_DEPTH_ZERO),
       l_uri := server\<lparr>u_path := Some uri_path\<rparr>\<rparr>;
     note_event (Locked lk);
     (ret, lk') \<leftarrow> world_op (n_lock E lk);
     ok \<leftarrow> out_handle E ret;
     if ok then exec E (Lockstore_add lk') else State_Monad.return () }"

text \<open>
  \<open>execute_unlock\<close>.  An owned lock leaves the store before the request is made.
\<close>

definition execute_unlock :: "'w env \<Rightarrow> cstring \<Rightarrow> ('w, unit) handler_m" where
  "execute_unlock E res = do {
     base \<leftarrow> gets s_uri;
     (path, _) \<leftarrow> uri_resolve_native_true E res;
     out_start ''Unlocking'' res;
     found \<leftarrow> read_world (n_find_lock E (base\<lparr>u_path := Some path\<rparr>));
     (case found of
        Some lk \<Rightarrow> do {
          exec E (Lockstore_remove lk);
          ret \<leftarrow> send E (Unlock lk);
          out_result E ret }
      | None \<Rightarrow> do {
          token \<leftarrow> readline E ''Enter locktoken: '';
          if token = None \<or> token = Some [] then State_Monad.return ()
          else do {
            server \<leftarrow> read_world (n_server_uri E);
            ret \<leftarrow> send E (Unlock ((ne_lock_create E)\<lparr>l_token := token,
              l_uri := server\<lparr>u_path := Some path\<rparr>\<rparr>));
            out_result E ret } }) }"

text \<open>
  \<open>remove_locks\<close>: the depth is not looked at.  The loop runs while a lock is found; each
  round takes a lock from the store, so that the number of owned locks bounds the rounds
  (\<open>remove_locks_ends\<close>).
\<close>

fun remove_locks_loop :: "nat \<Rightarrow> 'w env \<Rightarrow> uri \<Rightarrow> ('w, bool) handler_m" where
  "remove_locks_loop 0 E sought = State_Monad.return False"
| "remove_locks_loop (Suc n) E sought = do {
     lk \<leftarrow> read_world (n_find_lock E sought);
     case lk of
       None \<Rightarrow> State_Monad.return True
     | Some l \<Rightarrow> do { exec E (Lockstore_remove l); remove_locks_loop n E sought } }"

definition remove_locks :: "'w env \<Rightarrow> cstring \<Rightarrow> depth \<Rightarrow> ('w, bool) handler_m" where
  "remove_locks E p d = do {
     server \<leftarrow> read_world (n_server_uri E);
     fuel \<leftarrow> read_world (\<lambda>w. Suc (length (n_locks E w)));
     remove_locks_loop fuel E (server\<lparr>u_path := Some p\<rparr>) }"

section \<open>Lemmas\<close>

lemma keeps_call_back:
  "(\<And>a c. gr.keeps Q (cb a c)) \<Longrightarrow> gr.keeps Q (call_back cb as c)"
  "(\<And>a c. ss.keeps (cb' a c)) \<Longrightarrow> ss.keeps (call_back cb' as c)"
  by (induction as arbitrary: c) (auto intro!: handler_frames)

text \<open>The documented behaviour of neon's lock store, the locks compared by their URI.\<close>

definition lockstore_laws :: "(uri \<Rightarrow> uri \<Rightarrow> bool) \<Rightarrow> 'w env \<Rightarrow> bool" where
  "lockstore_laws same E \<longleftrightarrow>
     (\<forall>u w. n_find_lock E u w = List.find (\<lambda>l. same u (l_uri l)) (n_locks E w)) \<and>
     (\<forall>l w. n_locks E (n_exec E (Lockstore_remove l) w) = remove1 l (n_locks E w)) \<and>
     (\<forall>l w. n_locks E (n_exec E (Lockstore_add l) w) = l # n_locks E w)"

lemma find_Some_mem: "List.find P xs = Some x \<Longrightarrow> P x \<and> x \<in> set xs"
  by (auto simp: find_Some_iff)

lemma filter_remove1_match: "List.find P xs = Some x \<Longrightarrow> filter (\<lambda>y. \<not> P y) (remove1 x xs) = filter (\<lambda>y. \<not> P y) xs"
  by (induction xs) (auto dest: find_Some_mem split: if_splits)

lemma remove_locks_loop_result:
  assumes "lockstore_laws same E" "length (n_locks E (s_world s)) < n"
  shows "fst (run_state (remove_locks_loop n E u) s) \<and>
    n_locks E (s_world (snd (run_state (remove_locks_loop n E u) s)))
      = filter (\<lambda>l. \<not> same u (l_uri l)) (n_locks E (s_world s))"
  using assms(2)
proof (induction n arbitrary: s)
  case (Suc n)
  note laws = assms(1) [unfolded lockstore_laws_def]
  show ?case
  proof (cases "n_find_lock E u (s_world s)")
    case None
    then have "\<forall>l \<in> set (n_locks E (s_world s)). \<not> same u (l_uri l)"
      using laws by (auto simp: find_None_iff)
    with None show ?thesis by simp
  next
    case (Some l)
    then have f: "List.find (\<lambda>l. same u (l_uri l)) (n_locks E (s_world s)) = Some l"
      using laws by simp
    let ?t = "snd (run_state (exec E (Lockstore_remove l)) s)"
    have t: "n_locks E (s_world ?t) = remove1 l (n_locks E (s_world s))"
      using laws by (simp add: exec_def world_op_def)
    moreover have "length (remove1 l (n_locks E (s_world s))) < n"
      using Suc.prems find_Some_mem [OF f] by (simp add: length_remove1) (metis Suc_less_SucD Suc_pred length_pos_if_in_set)
    ultimately show ?thesis
      using Suc.IH [of ?t] Some filter_remove1_match [OF f] by (simp add: split_def)
  qed
qed simp

section \<open>Properties\<close>

text \<open>C31: Removing the locks of a deleted resource ends, and takes from the store exactly the
  owned locks on its URI: locks on other resources stay, also those on the members of a deleted
  collection, although the command passes an infinite depth.\<close>

theorem remove_locks_ends:
  assumes "lockstore_laws same E"
  shows "fst (run_state (remove_locks E p d) s) \<and>
    n_locks E (s_world (snd (run_state (remove_locks E p d) s)))
      = filter (\<lambda>l. \<not> same ((n_server_uri E (s_world s))\<lparr>u_path := Some p\<rparr>) (l_uri l))
          (n_locks E (s_world s))"
  using remove_locks_loop_result [OF assms, of s "Suc (length (n_locks E (s_world s)))"]
  by (simp add: remove_locks_def)

definition two_locks :: "sample shell" where
  "two_locks = sample_shell\<lparr>s_world := (s_world sample_shell)\<lparr>sv_locks :=
     [sample_lock\<lparr>l_uri := empty_uri\<lparr>u_path := Some ''/d/c/''\<rparr>\<rparr>,
      sample_lock\<lparr>l_uri := empty_uri\<lparr>u_path := Some ''/d/c/x''\<rparr>\<rparr>]\<rparr>\<rparr>"

lemma sample_lockstore: "lockstore_laws (\<lambda>u v. u_path v = u_path u) sample_env"
  by (simp add: lockstore_laws_def sample_env_def)

theorem remove_locks_ends_witness:
  "map (\<lambda>l. u_path (l_uri l)) (sv_locks (s_world (snd (run_state
     (remove_locks sample_env ''/d/c/'' NE_DEPTH_INFINITE) two_locks)))) = [Some ''/d/c/x'']"
  using remove_locks_ends [OF sample_lockstore, of "''/d/c/''" NE_DEPTH_INFINITE two_locks]
  by (simp add: sample_env_def two_locks_def sample_shell_def empty_uri_def)

text \<open>C32: Unlocking a resource whose lock is owned forgets the lock before the server is asked:
  the lock leaves the store and one UNLOCK is sent, and nothing puts the lock back when the
  server refuses.\<close>

theorem unlock_forgets_lock:
  assumes "run_state (uri_resolve_native_true E res) s = ((path, c), t)"
    "n_find_lock E ((s_uri s)\<lparr>u_path := Some path\<rparr>) (s_world t) = Some lk"
  shows "effects (snd (run_state (execute_unlock E res) s))
    = effects s @ [Cmd (Lockstore_remove lk), Req (Unlock lk)]"
proof -
  have t: "effects t = effects s"
    using assms(1) harmless_parts by (metis snd_conv)
  have w: "s_world (snd (run_state (out_start v n) t)) = s_world t" for v n
    by (simp add: out_start_def output_msg_def)
  show ?thesis
    using assms by (simp add: execute_unlock_def split_def w t)
qed

theorem unlock_forgets_lock_witness:
  "effects (snd (run_state (execute_unlock sample_env ''c'') two_locks))
    = [Cmd (Lockstore_remove (hd (sv_locks (s_world two_locks)))),
       Req (Unlock (hd (sv_locks (s_world two_locks))))]"
proof -
  have a: "fst (run_state (uri_resolve_native_true sample_env ''c'') two_locks) = (''/d/c/'', True)"
    by code_simp
  obtain t where t: "run_state (uri_resolve_native_true sample_env ''c'') two_locks = ((''/d/c/'', True), t)"
    using a by (metis prod.collapse)
  have "s_world (snd (run_state (uri_resolve_native_true sample_env ''c'') two_locks)) = s_world two_locks"
    by code_simp
  then have w: "s_world t = s_world two_locks" by (simp add: t)
  have "n_find_lock sample_env ((s_uri two_locks)\<lparr>u_path := Some ''/d/c/''\<rparr>) (s_world t)
      = Some (hd (sv_locks (s_world two_locks)))"
    unfolding w by code_simp
  from unlock_forgets_lock [OF t this] show ?thesis
    by (simp add: effects_def two_locks_def sample_shell_def)
qed

end
