(* ===== verification/Resource_Commands.thy ===== *)
theory Resource_Commands
  imports Lock_Commands
begin

text \<open>
  The commands that change resources and properties on the server: \<open>mkcol\<close>, \<open>delete\<close>,
  \<open>rmcol\<close>, \<open>copy\<close>, \<open>move\<close>, \<open>rename\<close>, \<open>propset\<close>, \<open>propdel\<close>, \<open>propget\<close>, \<open>propnames\<close> and
  \<open>chexec\<close> (\<open>src/commands.c\<close>).
\<close>

section \<open>Collections and deletion\<close>

definition dispatch ::
  "'w env \<Rightarrow> string \<Rightarrow> cstring \<Rightarrow> (cstring \<Rightarrow> request) \<Rightarrow> cstring \<Rightarrow> ('w, unit) handler_m" where
  "dispatch E verb filename func arg = do {
     out_start verb filename;
     ret \<leftarrow> send E (func arg);
     out_result E ret }"

definition execute_mkcol :: "'w env \<Rightarrow> cstring \<Rightarrow> ('w, unit) handler_m" where
  "execute_mkcol E path = do {
     uri_path \<leftarrow> uri_resolve_native_coll E path;
     dispatch E ''Creating'' path Mkcol uri_path }"

definition execute_delete :: "'w env \<Rightarrow> cstring \<Rightarrow> ('w, unit) handler_m" where
  "execute_delete E path = do {
     (uri_path, is_coll) \<leftarrow> uri_resolve_native_true E path;
     out_start_uri E ''Deleting'' uri_path;
     if is_coll then
       output_msg o_finish (''is a collection resource.\<newline>The `rm'' @ [CHR 0x27]
         @ '' command cannot be used to delete a collection.\<newline>Use `rmcol '' @ path @ [CHR 0x27]
         @ '' to delete this collection and ALL its contents.\<newline>'')
     else do {
       ret \<leftarrow> send E (Delete uri_path);
       ok \<leftarrow> out_handle E ret;
       if ok then do { remove_locks E uri_path NE_DEPTH_ZERO; State_Monad.return () }
       else State_Monad.return () } }"

definition execute_rmcol :: "'w env \<Rightarrow> cstring \<Rightarrow> ('w, unit) handler_m" where
  "execute_rmcol E path = do {
     (uri_path, is_coll) \<leftarrow> uri_resolve_native_true E path;
     out_start_uri E ''Deleting collection'' uri_path;
     if \<not> is_coll then
       output_msg o_finish (''is not a collection.\<newline>The `rmcol'' @ [CHR 0x27]
         @ '' command can only be used to delete collections.\<newline>Use `rm '' @ path @ [CHR 0x27]
         @ '' to delete this resource.\<newline>'')
     else do {
       ret \<leftarrow> send E (Delete uri_path);
       ok \<leftarrow> out_handle E ret;
       if ok then do { remove_locks E uri_path NE_DEPTH_INFINITE; State_Monad.return () }
       else State_Monad.return () } }"

section \<open>Copying and moving\<close>

text \<open>The destination of one source, or the message of the error that stops the command.\<close>

definition copy_destination ::
  "string \<Rightarrow> cstring \<Rightarrow> bool \<Rightarrow> cstring \<Rightarrow> bool \<Rightarrow> string + cstring" where
  "copy_destination v2 uri_dest dest_is_coll src src_is_coll =
     (if src = ''/'' then
        Inl (''Error: Refusing to '' @ v2 @ '' the server root '' @ [CHR 0x27] @ ''/'' @ [CHR 0x27] @ ''\<newline>'')
      else if dest_is_coll \<and> src_is_coll then Inr (uri_dest @ base_name (take (length src - 1) src))
      else if src_is_coll \<and> \<not> dest_is_coll then
        Inl (''Error: Refusing to '' @ v2 @ '' collection '' @ [CHR 0x27] @ src @ [CHR 0x27]
          @ '' to non-collection '' @ [CHR 0x27] @ uri_dest @ [CHR 0x27] @ ''\<newline>'')
      else if dest_is_coll then Inr (uri_dest @ base_name src)
      else Inr uri_dest)"

text \<open>The first loop of \<open>do_copymove\<close>: the pairs of source and destination, if no error.\<close>

fun copy_pairs ::
  "'w env \<Rightarrow> string \<Rightarrow> cstring \<Rightarrow> bool \<Rightarrow> cstring list \<Rightarrow> ('w, (cstring \<times> cstring) list option) handler_m" where
  "copy_pairs E v2 uri_dest dest_is_coll [] = State_Monad.return (Some [])"
| "copy_pairs E v2 uri_dest dest_is_coll (arg # args) = do {
     (src, src_is_coll) \<leftarrow> uri_resolve_native_true E arg;
     case copy_destination v2 uri_dest dest_is_coll src src_is_coll of
       Inl msg \<Rightarrow> do { say msg; State_Monad.return None }
     | Inr dest \<Rightarrow> do {
         ops \<leftarrow> copy_pairs E v2 uri_dest dest_is_coll args;
         State_Monad.return (map_option (\<lambda>l. (src, dest) # l) ops) } }"

text \<open>The parameter \<open>v1\<close> of \<open>do_copymove\<close> is not used by it.\<close>

definition do_copymove ::
  "'w env \<Rightarrow> cstring list \<Rightarrow> string \<Rightarrow> (cstring \<Rightarrow> cstring \<Rightarrow> ('w, unit) handler_m) \<Rightarrow> ('w, unit) handler_m" where
  "do_copymove E argv v2 cb = do {
     (uri_dest, dest_is_coll) \<leftarrow> uri_resolve_native_true E (last argv);
     ops \<leftarrow> copy_pairs E v2 uri_dest dest_is_coll (butlast argv);
     case ops of
       None \<Rightarrow> State_Monad.return ()
     | Some l \<Rightarrow> for_each (\<lambda>op. cb (fst op) (snd op)) l }"

definition simple_move :: "'w env \<Rightarrow> cstring \<Rightarrow> cstring \<Rightarrow> ('w, unit) handler_m" where
  "simple_move E src dest = do {
     out_start_2uri E ''Moving'' src dest;
     overwrite \<leftarrow> bool_option opt_overwrite;
     ret \<leftarrow> send E (Move overwrite src dest);
     out_result E ret }"

definition simple_copy :: "'w env \<Rightarrow> cstring \<Rightarrow> cstring \<Rightarrow> ('w, unit) handler_m" where
  "simple_copy E src dest = do {
     out_start_2uri E ''Copying'' src dest;
     overwrite \<leftarrow> bool_option opt_overwrite;
     ret \<leftarrow> send E (Copy overwrite src dest);
     out_result E ret }"

definition execute_rename :: "'w env \<Rightarrow> cstring \<Rightarrow> cstring \<Rightarrow> ('w, unit) handler_m" where
  "execute_rename E native_src native_dest = do {
     (uri_src, src_is_coll) \<leftarrow> uri_resolve_native_true E native_src;
     uri_dest \<leftarrow> uri_resolve_native E native_dest;
     out_start_2uri E ''Renaming'' uri_src uri_dest;
     if \<not> src_is_coll \<and> ne_path_has_trailing_slash E uri_dest then
       output_msg o_finish ''failed, source path is not a collection.\<newline>''
     else do {
       ret \<leftarrow> send E (Move False uri_src uri_dest);
       out_result E ret } }"

definition map_multi :: "(cstring \<Rightarrow> ('w, unit) handler_m) \<Rightarrow> cstring list \<Rightarrow> ('w, unit) handler_m" where
  "map_multi func argv = for_each func argv"

definition multi_copy :: "'w env \<Rightarrow> cstring list \<Rightarrow> ('w, unit) handler_m" where
  "multi_copy E argv = do_copymove E argv ''copy'' (simple_copy E)"

definition multi_move :: "'w env \<Rightarrow> cstring list \<Rightarrow> ('w, unit) handler_m" where
  "multi_move E argv = do_copymove E argv ''move'' (simple_move E)"

definition multi_mkcol :: "'w env \<Rightarrow> cstring list \<Rightarrow> ('w, unit) handler_m" where
  "multi_mkcol E argv = map_multi (execute_mkcol E) argv"

definition multi_delete :: "'w env \<Rightarrow> cstring list \<Rightarrow> ('w, unit) handler_m" where
  "multi_delete E argv = map_multi (execute_delete E) argv"

definition multi_rmcol :: "'w env \<Rightarrow> cstring list \<Rightarrow> ('w, unit) handler_m" where
  "multi_rmcol E argv = map_multi (execute_rmcol E) argv"

section \<open>Properties of resources\<close>

definition bullet_str :: "('w, string) handler_m" where
  "bullet_str = do {
     utf8 \<leftarrow> bool_option opt_utf8;
     State_Monad.return (if utf8 then [CHR 0xE2, CHR 0x80, CHR 0xA2] else ''-'') }"

text \<open>\<open>native_from_utf8\<close> of a pointer that may be NULL, which it reads.\<close>

definition native_from_pointer :: "'w env \<Rightarrow> cstring option \<Rightarrow> ('w, cstring) handler_m" where
  "native_from_pointer E p =
     (case p of Some t \<Rightarrow> native_from_utf8 E t | None \<Rightarrow> undefined_behaviour [])"

definition all_iterator ::
  "'w env \<Rightarrow> propname \<times> cstring option \<times> (int \<times> cstring) option \<Rightarrow> ('w, unit) handler_m" where
  "all_iterator E item = (case item of (pname, val, status) \<Rightarrow> do {
     nnspace \<leftarrow> native_from_pointer E (pn_nspace pname);
     nname \<leftarrow> native_from_utf8 E (pn_name pname);
     (case val of
        Some v \<Rightarrow> do {
          nval \<leftarrow> native_from_utf8 E v;
          b \<leftarrow> bullet_str;
          say (b @ '' '' @ nnspace @ nname @ '' = ''
            @ ne_shave E nval [CHR '' '', CHR 0x0D, CHR 0x0A, CHR 0x09] @ ''\<newline>'') }
      | None \<Rightarrow>
          (case status of
             Some (_, reason) \<Rightarrow> say (''-- failed for '' @ nnspace @ nname @ '': '' @ reason @ ''\<newline>'')
           | None \<Rightarrow> State_Monad.return ())) })"

definition pget_results :: "'w env \<Rightarrow> propname option \<Rightarrow> prop_set \<Rightarrow> ('w, unit) handler_m" where
  "pget_results E userdata pset = do {
     say ''\<newline>'';
     (case userdata of
        None \<Rightarrow> for_each (all_iterator E) (ps_items pset)
      | Some pname \<Rightarrow> do {
          nname \<leftarrow> native_from_utf8 E (pn_name pname);
          (case ps_value pset pname of
             Some v \<Rightarrow> do {
               nval \<leftarrow> native_from_utf8 E v;
               say (''Value of '' @ nname @ '' is: '' @ nval @ ''\<newline>'') }
           | None \<Rightarrow>
               (case ps_status pset pname of
                  Some (st_code, reason) \<Rightarrow>
                    say (''Could not fetch property: '' @ show_int st_code @ '' '' @ reason @ ''\<newline>'')
                | None \<Rightarrow> say (''Server did not return result for '' @ nname @ ''\<newline>''))) }) }"

definition propop :: "'w env \<Rightarrow> string \<Rightarrow> cstring \<Rightarrow> cstring \<Rightarrow> cstring option \<Rightarrow> ('w, unit) handler_m" where
  "propop E descr path name val = do {
     uri_path \<leftarrow> uri_resolve_native E path;
     name_utf \<leftarrow> utf8_from_native E name;
     val_utf \<leftarrow> (case val of
                  Some v \<Rightarrow> do { u \<leftarrow> utf8_from_native E v; State_Monad.return (Some u) }
                | None \<Rightarrow> State_Monad.return None);
     nspace \<leftarrow> string_option opt_namespace;
     out_start descr path;
     ret \<leftarrow> send E (Proppatch uri_path [(\<lparr>pn_nspace = nspace, pn_name = name_utf\<rparr>, val_utf)]);
     out_handle E ret;
     State_Monad.return () }"

definition execute_propset :: "'w env \<Rightarrow> cstring \<Rightarrow> cstring \<Rightarrow> cstring \<Rightarrow> ('w, unit) handler_m" where
  "execute_propset E res name val = propop E ''Setting property on'' res name (Some val)"

definition execute_propdel :: "'w env \<Rightarrow> cstring \<Rightarrow> cstring \<Rightarrow> ('w, unit) handler_m" where
  "execute_propdel E res name = propop E ''Deleting property on'' res name None"

definition execute_propget :: "'w env \<Rightarrow> cstring \<Rightarrow> cstring option \<Rightarrow> ('w, unit) handler_m" where
  "execute_propget E res name = do {
     uri_path \<leftarrow> uri_resolve_native E res;
     props \<leftarrow> (case name of
                None \<Rightarrow> State_Monad.return None
              | Some n \<Rightarrow> do {
                  nspace \<leftarrow> string_option opt_namespace;
                  uname \<leftarrow> utf8_from_native E n;
                  State_Monad.return (Some \<lparr>pn_nspace = nspace, pn_name = uname\<rparr>) });
     out_start ''Fetching properties for'' res;
     note_event (Query ''PROPFIND'' uri_path);
     (ret, psets) \<leftarrow> world_op (n_propfind E uri_path NE_DEPTH_ZERO (map_option (\<lambda>p. [p]) props));
     for_each (pget_results E props) psets;
     if ret \<noteq> NE_OK then out_result E ret else State_Monad.return () }"

definition propname_iterator :: "propname \<Rightarrow> ('w, unit) handler_m" where
  "propname_iterator pname = say (''\<newline> '' @ str_or_null (pn_nspace pname) @ pn_name pname)"

definition propname_results :: "propname list \<Rightarrow> ('w, unit) handler_m" where
  "propname_results pset = for_each propname_iterator pset"

definition execute_propnames :: "'w env \<Rightarrow> cstring \<Rightarrow> ('w, unit) handler_m" where
  "execute_propnames E path = do {
     uri_path \<leftarrow> uri_resolve_native E path;
     say (''Fetching property names for '' @ path @ '':'');
     note_event (Query ''PROPFIND'' uri_path);
     (ret, psets) \<leftarrow> world_op (n_propnames E uri_path);
     for_each propname_results psets;
     if ret \<noteq> NE_OK then out_result E ret else say ''\<newline>'' }"

definition execute_chexec :: "'w env \<Rightarrow> cstring \<Rightarrow> cstring \<Rightarrow> ('w, unit) handler_m" where
  "execute_chexec E val native_path = do {
     uri_path \<leftarrow> uri_resolve_native E native_path;
     if val \<noteq> ''+'' \<and> val \<noteq> ''-'' then
       say (''Use:\<newline>   chexec + '' @ native_path @ ''   to make the resource executable\<newline>or chexec - ''
         @ native_path @ ''   to make the resource unexecutable\<newline>'')
     else do {
       out_start ''Setting isexecutable'' native_path;
       note_event (Query ''OPTIONS'' uri_path);
       (ret, caps) \<leftarrow> world_op (n_options E uri_path);
       if ret \<noteq> NE_OK then out_result E ret
       else if \<not> dav_executable caps then do {
         exec E (Set_error (''The server does not support the '' @ [CHR 0x27] @ ''isexecutable'' @ [CHR 0x27]
           @ '' property.''));
         out_result E NE_ERROR }
       else do {
         ret \<leftarrow> send E (Proppatch uri_path
           [(\<lparr>pn_nspace = Some ''http://apache.org/dav/props/'', pn_name = ''executable''\<rparr>,
             Some (if val = ''+'' then ''T'' else ''F''))]);
         out_result E ret } } }"

section \<open>Lemmas\<close>

lemma silent_remove_locks_loop: "silent (remove_locks_loop n E u)"
  by (induction n) (auto intro!: handler_frames simp: no_request_def)

lemma silent_remove_locks [simp]: "reqs (snd (run_state (remove_locks E p d) s)) = reqs s"
  by (rule silent_reqs) (auto simp: remove_locks_def intro!: handler_frames silent_remove_locks_loop)

lemma reqs_if [simp]:
  "reqs (snd (run_state (if b then m else n) s)) =
     (if b then reqs (snd (run_state m s)) else reqs (snd (run_state n s)))"
  by simp

lemma keeps_remove_locks: "ss.keeps (remove_locks E p d)"
proof -
  have "ss.keeps (remove_locks_loop n E u)" for n u
    by (induction n) (auto intro!: handler_frames)
  then show ?thesis by (auto simp: remove_locks_def intro!: handler_frames)
qed

lemma copy_pairs_frames:
  "gr.keeps harmless (copy_pairs E v d c args)" "ss.keeps (copy_pairs E v d c args)"
  by (induction args) (auto intro!: handler_frames split: sum.split)

lemmas copy_pairs_silent [simp] =
  copy_pairs_frames(1) [THEN silent_harmless, THEN silent_reqs]
  copy_pairs_frames(1) [THEN harmless_effects]

lemma copy_pairs_result:
  "fst (run_state (copy_pairs E v d c args) s) = Some ops \<Longrightarrow>
     length ops = length args \<and> list_all (\<lambda>(a, b). \<exists>sc. copy_destination v d c a sc = Inr b) ops"
proof (induction args arbitrary: s ops)
  case (Cons arg args)
  from Cons.prems Cons.IH show ?case
    by (fastforce simp: split_def split: sum.splits)
qed simp

lemma copy_destination_not_root:
  "copy_destination v d c a sc = Inr b \<Longrightarrow> a \<noteq> ''/'' \<and> (if c then (\<exists>n. b = d @ n) else b = d)"
  by (auto simp: copy_destination_def split: if_splits)

text \<open>A loop that sends one request per round.\<close>

lemma for_each_requests:
  assumes "\<And>x s. g s \<Longrightarrow> reqs (snd (run_state (f x) s)) = reqs s @ [r x]"
    "\<And>x s. g s \<Longrightarrow> g (snd (run_state (f x) s))" "g s"
  shows "reqs (snd (run_state (for_each f xs) s)) = reqs s @ map r xs"
  using assms(3) by (induction xs arbitrary: s) (simp_all add: assms(1,2) split_def)

section \<open>Properties\<close>

definition overwrites :: "'w shell \<Rightarrow> bool" where
  "overwrites s \<longleftrightarrow> get_bool_option opt_overwrite (s_opts s) \<noteq> 0"

lemma overwrites_same: "ss.keeps m \<Longrightarrow> overwrites (snd (run_state m s)) = overwrites s"
  by (drule same_sessionD [of _ s]) (simp add: same_session_def overwrites_def)

lemma move_copy_frames: "ss.keeps (simple_move E a b)" "ss.keeps (simple_copy E a b)"
  unfolding simple_move_def simple_copy_def by (auto intro!: handler_frames)

lemma move_copy_requests:
  "reqs (snd (run_state (simple_move E a b) s)) = reqs s @ [Move (overwrites s) a b]"
  "reqs (snd (run_state (simple_copy E a b) s)) = reqs s @ [Copy (overwrites s) a b]"
  using overwrites_same [OF keeps_out(4), of E _ a b s]
  by (simp_all add: simple_move_def simple_copy_def split_def overwrites_def)

text \<open>What a copy or move asks the server for, given the request of one pair.\<close>

lemma do_copymove_requests:
  assumes "\<And>a b s. reqs (snd (run_state (cb a b) s)) = reqs s @ [r (overwrites s) a b]"
    "\<And>a b. ss.keeps (cb a b)"
    "fst (run_state (uri_resolve_native_true E (last argv)) s) = (dest, dest_is_coll)"
  shows "\<exists>ops. reqs (snd (run_state (do_copymove E argv v2 cb) s))
      = reqs s @ map (\<lambda>(a, b). r (overwrites s) a b) ops
    \<and> (ops = [] \<or> length ops = length argv - 1)
    \<and> list_all (\<lambda>(a, b). a \<noteq> ''/'' \<and> (if dest_is_coll then (\<exists>n. b = dest @ n) else b = dest)) ops"
proof -
  define t where "t = snd (run_state (uri_resolve_native_true E (last argv)) s)"
  define u where "u = snd (run_state (copy_pairs E v2 dest dest_is_coll (butlast argv)) t)"
  have quiet: "reqs u = reqs s" by (simp add: u_def t_def)
  have ow: "overwrites u = overwrites s"
    by (simp add: u_def t_def overwrites_same keeps_true_path copy_pairs_frames)
  show ?thesis
  proof (cases "fst (run_state (copy_pairs E v2 dest dest_is_coll (butlast argv)) t)")
    case None
    then have "reqs (snd (run_state (do_copymove E argv v2 cb) s)) = reqs s"
      using assms(3) quiet by (simp add: do_copymove_def split_def t_def u_def)
    then show ?thesis by (intro exI [of _ "[]"]) simp
  next
    case (Some ops)
    have "reqs (snd (run_state (for_each (\<lambda>op. cb (fst op) (snd op)) ops) u))
        = reqs u @ map (\<lambda>op. r (overwrites s) (fst op) (snd op)) ops"
      by (rule for_each_requests [where g = "\<lambda>x. overwrites x = overwrites s"])
        (simp_all add: assms(1) overwrites_same assms(2) ow)
    then have "reqs (snd (run_state (do_copymove E argv v2 cb) s))
        = reqs s @ map (\<lambda>(a, b). r (overwrites s) a b) ops"
      using assms(3) quiet Some by (simp add: do_copymove_def split_def t_def u_def)
    moreover have "length ops = length argv - 1"
      using copy_pairs_result [OF Some] by simp
    moreover have "list_all (\<lambda>(a, b). a \<noteq> ''/'' \<and> (if dest_is_coll then (\<exists>n. b = dest @ n) else b = dest)) ops"
      using copy_pairs_result [OF Some] by (auto simp: list_all_iff dest!: copy_destination_not_root)
    ultimately show ?thesis by (intro exI [of _ ops]) simp
  qed
qed


text \<open>The same for copies.\<close>

lemma copy_all_or_nothing:
  assumes "fst (run_state (uri_resolve_native_true E (last argv)) s) = (dest, dest_is_coll)"
  shows "\<exists>ops. reqs (snd (run_state (multi_copy E argv) s))
      = reqs s @ map (\<lambda>(a, b). Copy (overwrites s) a b) ops
    \<and> (ops = [] \<or> length ops = length argv - 1)
    \<and> list_all (\<lambda>(a, b). a \<noteq> ''/'' \<and> (if dest_is_coll then (\<exists>n. b = dest @ n) else b = dest)) ops"
  unfolding multi_copy_def
  by (rule do_copymove_requests) (simp_all add: move_copy_requests move_copy_frames assms)


text \<open>C6: \<open>delete\<close> never deletes a collection and \<open>rmcol\<close> nothing but a collection: each sends one
  DELETE for the resolved path, or nothing when the resource is of the other kind.\<close>

theorem delete_by_kind:
  assumes "fst (run_state (uri_resolve_native_true E path) s) = (p, is_coll)"
  shows "reqs (snd (run_state (execute_delete E path) s)) = reqs s @ (if is_coll then [] else [Delete p])
    \<and> reqs (snd (run_state (execute_rmcol E path) s)) = reqs s @ (if is_coll then [Delete p] else [])"
  using assms by (simp add: execute_delete_def execute_rmcol_def split_def)

theorem delete_by_kind_witness:
  "reqs (snd (run_state (execute_delete sample_env ''c'') sample_shell)) = []
   \<and> reqs (snd (run_state (execute_rmcol sample_env ''c'') sample_shell)) = [Delete ''/d/c/'']"
proof -
  have "fst (run_state (uri_resolve_native_true sample_env ''c'') sample_shell) = (''/d/c/'', True)"
    by code_simp
  from delete_by_kind [OF this] show ?thesis by (simp add: reqs_def sample_shell_def)
qed

end
