(* ===== verification/Transfer_Commands.thy ===== *)
theory Transfer_Commands
  imports Resource_Commands
begin

text \<open>
  The commands that move data between the server and local files or programs: \<open>get\<close>,
  \<open>resumeget\<close>, \<open>put\<close>, \<open>mget\<close>, \<open>mput\<close>, \<open>less\<close>, \<open>cat\<close> and \<open>head\<close> (\<open>src/commands.c\<close>).
\<close>

section \<open>Downloads\<close>

definition get_filename :: "cstring \<Rightarrow> cstring option \<Rightarrow> cstring" where
  "get_filename native_remote native_local =
     (case native_local of Some l \<Rightarrow> l | None \<Rightarrow> base_name native_remote)"

definition get_prompt :: "cstring \<Rightarrow> string" where
  "get_prompt native_remote =
     take (BUFSIZ - 1) (''Enter local filename for `'' @ native_remote @ [CHR 0x27] @ '': '')"

text \<open>
  The choice of the file: its name, the flags and where a range starts, or \<open>None\<close> for
  \<open>goto fail\<close>.
\<close>

definition get_plan ::
  "'w env \<Rightarrow> cstring \<Rightarrow> cstring \<Rightarrow> bool \<Rightarrow> ('w, (cstring \<times> open_flags \<times> int) option) handler_m" where
  "get_plan E native_remote filename resume = do {
     st \<leftarrow> read_world (os_stat E filename);
     (case st of
        Some sb \<Rightarrow>
          if \<not> resume then do {
            line \<leftarrow> readline E (get_prompt native_remote);
            (case line of
               None \<Rightarrow> do { say ''cancelled.\<newline>''; State_Monad.return None }
             | Some f \<Rightarrow>
                 if f = [] then do { say ''cancelled.\<newline>''; State_Monad.return None }
                 else State_Monad.return (Some (f, O_CREAT_TRUNC, 0))) }
          else if st_regular sb then State_Monad.return (Some (filename, O_APPEND, st_size sb))
          else do {
            say (''Cannot resume download to `'' @ filename @ [CHR 0x27] @ '' - not a regular file.\<newline>'');
            State_Monad.return None }
      | None \<Rightarrow>
          if resume then do {
            err \<leftarrow> strerror E;
            say (''Cannot resume download to `'' @ filename @ [CHR 0x27] @ '': '' @ err @ ''\<newline>'');
            State_Monad.return None }
          else State_Monad.return (Some (filename, O_CREAT_EXCL, 0))) }"

text \<open>The rest, from the call of \<open>open\<close> on.\<close>

definition get_transfer ::
  "'w env \<Rightarrow> cstring \<Rightarrow> cstring \<Rightarrow> bool \<Rightarrow> cstring \<times> open_flags \<times> int \<Rightarrow> ('w, unit) handler_m" where
  "get_transfer E native_remote uri_path resume plan = (case plan of (filename, flags, start) \<Rightarrow> do {
     note_event (Opened filename flags);
     fd \<leftarrow> world_op (os_open E filename flags);
     output_msg o_download (''Downloading `'' @ native_remote @ [CHR 0x27] @ '' to `'' @ filename
       @ [CHR 0x27] @ '':'');
     (case fd of
        None \<Rightarrow> do {
          err \<leftarrow> strerror E;
          output_msg o_finish (''failed:\<newline>'' @ err @ ''\<newline>'') }
      | Some d \<Rightarrow> do {
          ret \<leftarrow> (if resume then send E (Get_range uri_path start d) else send E (Get uri_path d));
          closed \<leftarrow> world_op (os_close E d);
          ret \<leftarrow> (if \<not> closed \<and> ret = NE_OK then do {
                    err \<leftarrow> strerror E;
                    exec E (Set_error (''Could not write to file: '' @ err));
                    State_Monad.return NE_ERROR }
                  else State_Monad.return ret);
          out_result E ret }) })"

definition do_get :: "'w env \<Rightarrow> cstring \<Rightarrow> cstring option \<Rightarrow> bool \<Rightarrow> ('w, unit) handler_m" where
  "do_get E native_remote native_local resume = do {
     uri_path \<leftarrow> uri_resolve_native E native_remote;
     plan \<leftarrow> get_plan E native_remote (get_filename native_remote native_local) resume;
     (case plan of
        None \<Rightarrow> State_Monad.return ()
      | Some pl \<Rightarrow> get_transfer E native_remote uri_path resume pl) }"

definition execute_get :: "'w env \<Rightarrow> cstring \<Rightarrow> cstring option \<Rightarrow> ('w, unit) handler_m" where
  "execute_get E remote localf = do_get E remote localf False"

definition execute_resumeget :: "'w env \<Rightarrow> cstring \<Rightarrow> cstring option \<Rightarrow> ('w, unit) handler_m" where
  "execute_resumeget E remote localf = do_get E remote localf True"

definition multi_mget :: "'w env \<Rightarrow> cstring list \<Rightarrow> ('w, unit) handler_m" where
  "multi_mget E argv = for_each (\<lambda>a. execute_get E a None) argv"

section \<open>Uploads\<close>

definition simple_put :: "'w env \<Rightarrow> cstring \<Rightarrow> cstring \<Rightarrow> ('w, unit) handler_m" where
  "simple_put E localf remote = do {
     note_event (Opened localf O_RDONLY);
     fd \<leftarrow> world_op (os_open E localf O_RDONLY);
     output_msg o_upload (''Uploading '' @ localf @ '' to `'' @ remote @ [CHR 0x27] @ '':'');
     (case fd of
        None \<Rightarrow> do {
          err \<leftarrow> strerror E;
          output_msg o_finish (''Could not open file: '' @ err @ ''\<newline>'') }
      | Some d \<Rightarrow> do {
          ret \<leftarrow> send E (Put remote d);
          out_result E ret;
          world_op (os_close E d);
          State_Monad.return () }) }"

definition execute_put :: "'w env \<Rightarrow> cstring \<Rightarrow> cstring option \<Rightarrow> ('w, unit) handler_m" where
  "execute_put E localf remote = do {
     uri_path \<leftarrow> uri_resolve_native E (case remote of Some r \<Rightarrow> r | None \<Rightarrow> base_name localf);
     simple_put E localf uri_path }"

definition multi_mput :: "'w env \<Rightarrow> cstring list \<Rightarrow> ('w, unit) handler_m" where
  "multi_mput E argv = for_each (\<lambda>a. do { uri_path \<leftarrow> uri_resolve_native E a; simple_put E a uri_path }) argv"

section \<open>Display\<close>

definition choose_pager :: "'w env \<Rightarrow> ('w, cstring) handler_m" where
  "choose_pager E = do {
     opt \<leftarrow> string_option opt_pager;
     (case opt of
        Some p \<Rightarrow> State_Monad.return p
      | None \<Rightarrow>
          (case os_getenv E ''PAGER'' of
             Some p \<Rightarrow> State_Monad.return p
           | None \<Rightarrow> do {
               usr \<leftarrow> read_world (os_stat E ''/usr/bin/less'');
               bin \<leftarrow> read_world (os_stat E ''/bin/less'');
               State_Monad.return
                 (if usr \<noteq> None then ''/usr/bin/less'' else if bin \<noteq> None then ''/bin/less''
                  else ''/bin/more'') })) }"

definition execute_less :: "'w env \<Rightarrow> cstring \<Rightarrow> ('w, unit) handler_m" where
  "execute_less E native = do {
     pager \<leftarrow> choose_pager E;
     say (''Displaying `'' @ native @ [CHR 0x27] @ '':\<newline>'');
     note_event (Ran pager);
     p \<leftarrow> world_op (os_popen E pager);
     (case p of
        None \<Rightarrow> do {
          err \<leftarrow> strerror E;
          say (''Error! Could not spawn pager `'' @ pager @ [CHR 0x27] @ '':\<newline>'' @ err @ ''\<newline>'') }
      | Some h \<Rightarrow> do {
          uri_path \<leftarrow> uri_resolve_native E native;
          modify (\<lambda>s. s\<lparr>s_child := True\<rparr>);
          ret \<leftarrow> send E (Get uri_path h);
          status \<leftarrow> world_op (os_pclose E h);
          (if ret \<noteq> NE_OK then out_result E ret
           else if status \<noteq> 0 then
             say (''Warning: Abnormal exit from pager ('' @ show_int status @ '').\<newline>'')
           else State_Monad.return ());
          modify (\<lambda>s. s\<lparr>s_child := False\<rparr>) }) }"

text \<open>The descriptor of standard output is 1.\<close>

definition execute_cat :: "'w env \<Rightarrow> cstring \<Rightarrow> ('w, unit) handler_m" where
  "execute_cat E native_path = do {
     uri_path \<leftarrow> uri_resolve_native E native_path;
     ret \<leftarrow> send E (Get uri_path 1);
     if ret \<noteq> NE_OK then do { out_start ''Fetching'' native_path; out_result E ret }
     else State_Monad.return () }"

definition multi_less :: "'w env \<Rightarrow> cstring list \<Rightarrow> ('w, unit) handler_m" where
  "multi_less E argv = map_multi (execute_less E) argv"

definition multi_cat :: "'w env \<Rightarrow> cstring list \<Rightarrow> ('w, unit) handler_m" where
  "multi_cat E argv = map_multi (execute_cat E) argv"

definition execute_head :: "'w env \<Rightarrow> cstring \<Rightarrow> ('w, unit) handler_m" where
  "execute_head E native_path = do {
     uri_path \<leftarrow> uri_resolve_native E native_path;
     note_event (Query ''HEAD'' uri_path);
     (ret, headers) \<leftarrow> world_op (n_head E uri_path);
     if ret = NE_OK then do {
       status \<leftarrow> read_world (n_status E);
       say (''Response status-code '' @ show_int (fst status) @ '', headers:\<newline>'');
       for_each (\<lambda>(name, v). do {
         b \<leftarrow> bullet_str;
         say (b @ '' '' @ name @ '': '' @ v @ ''\<newline>'') }) headers }
     else State_Monad.return () }"

section \<open>Lemmas\<close>

text \<open>The line that \<open>readline\<close> returns, as a function of the input.\<close>

definition typed :: "'w env \<Rightarrow> string \<Rightarrow> cstring option" where
  "typed E inp = map_option (\<lambda>r. ne_shave E (fst r) [CHR 0x0D, CHR 0x0A]) (fgets 256 inp)"

lemma readline_typed: "fst (run_state (readline E p) s) = typed E (s_input s)"
  by (simp add: readline_def typed_def split: option.split prod.split)

lemma resolve_input: "s_input (snd (run_state (uri_resolve_native E p) s)) = s_input s"
  by (simp add: uri_resolve_native_def path_native_resolver_def utf8_from_native_def run_iconv_def
      world_op_def split: prod.split)

text \<open>What may happen to a local file when a download chooses it.\<close>

definition open_allowed :: "'w env \<Rightarrow> 'w \<Rightarrow> string \<Rightarrow> cstring \<Rightarrow> bool \<Rightarrow> event \<Rightarrow> bool" where
  "open_allowed E w inp filename resume e \<longleftrightarrow>
     (case e of
        Opened f flags \<Rightarrow>
          if resume then f = filename \<and> flags = O_APPEND \<and> os_stat E filename w \<noteq> None
          else if os_stat E filename w = None then f = filename \<and> flags = O_CREAT_EXCL
          else flags = O_CREAT_TRUNC \<and> f \<noteq> [] \<and> typed E inp = Some f
      | Req r \<Rightarrow> (case r of Get_range u a fd \<Rightarrow> resume | Get u fd \<Rightarrow> \<not> resume | _ \<Rightarrow> False)
      | e \<Rightarrow> harmless e)"

lemma harmless_allowed: "harmless e \<Longrightarrow> open_allowed E w inp filename resume e"
  by (cases e) (auto simp: open_allowed_def)

lemma get_plan_allowed:
  assumes "fst (run_state (get_plan E remote filename resume) s) = Some (f, flags, start)"
  shows "open_allowed E (s_world s) (s_input s) filename resume (Opened f flags)"
  using assms
  by (auto simp: get_plan_def open_allowed_def split_def readline_typed split: option.splits if_splits)

lemma get_plan_frames: "gr.keeps harmless (get_plan E remote filename resume)"
  unfolding get_plan_def by (auto intro!: handler_frames)

text \<open>The part of \<open>do_get\<close> after the file was chosen.\<close>

lemma allowed_frames:
  "gr.keeps (open_allowed E w inp fn resume) (output_msg t m)"
  "gr.keeps (open_allowed E w inp fn resume) (out_result E ret)"
  "gr.keeps (open_allowed E w inp fn resume) (uri_resolve_native E p)"
  "gr.keeps (open_allowed E w inp fn resume) (get_plan E remote fn resume')"
  by (rule grows_mono [OF _ harmless_allowed], rule keeps_output keeps_result keeps_paths get_plan_frames,
      assumption)+

lemma allowed_events:
  "open_allowed E w inp fn True (Req (Get_range u a d))"
  "open_allowed E w inp fn False (Req (Get u d))"
  "open_allowed E w inp fn resume (Cmd (Set_error t))"
  by (simp_all add: open_allowed_def)

lemma get_transfer_allowed:
  assumes "open_allowed E w inp fn resume (Opened f flags)"
  shows "gr.keeps (open_allowed E w inp fn resume) (get_transfer E remote u resume (f, flags, start))"
  using assms unfolding get_transfer_def prod.case
  by (cases resume) (auto intro!: handler_frames allowed_frames allowed_events)

section \<open>Properties\<close>

text \<open>C2: A download does not destroy a local file unasked.  Whatever the command prints, asks and
  sends, every file it opens is the one named when that did not exist, then exclusively created;
  or a name the user typed when it did exist; or, when resuming, the existing file for
  appending.\<close>

theorem get_keeps_files:
  "grows_by (open_allowed E (s_world (snd (run_state (uri_resolve_native E remote) s))) (s_input s)
      (get_filename remote localf) resume) s (snd (run_state (do_get E remote localf resume) s))"
proof -
  define fn where "fn = get_filename remote localf"
  define t where "t = snd (run_state (uri_resolve_native E remote) s)"
  define u where "u = snd (run_state (get_plan E remote fn resume) t)"
  define path where "path = fst (run_state (uri_resolve_native E remote) s)"
  let ?Q = "open_allowed E (s_world t) (s_input s) fn resume"
  have "grows_by ?Q s t"
    unfolding t_def by (rule gr.keepsD [OF allowed_frames(3) surjective_pairing])
  moreover have "grows_by ?Q t u"
    unfolding u_def by (rule gr.keepsD [OF allowed_frames(4) surjective_pairing])
  ultimately have su: "grows_by ?Q s u" by (rule gr.R_trans)
  show ?thesis
  proof (cases "fst (run_state (get_plan E remote fn resume) t)")
    case None
    with su show ?thesis by (simp add: do_get_def split_def fn_def t_def u_def)
  next
    case (Some pl)
    obtain f flags start where pl: "pl = (f, flags, start)" by (cases pl)
    have "?Q (Opened f flags)"
      using get_plan_allowed [of E remote fn resume t f flags start] Some pl resolve_input [of E remote s]
      by (simp add: t_def)
    then have "grows_by ?Q u (snd (run_state (get_transfer E remote path resume pl) u))"
      unfolding pl by (rule gr.keepsD [OF get_transfer_allowed surjective_pairing])
    from gr.R_trans [OF su this] Some show ?thesis
      by (simp add: do_get_def split_def fn_def t_def u_def path_def)
  qed
qed

end
