(* ===== verification/Place_Commands.thy ===== *)
theory Place_Commands
  imports Transfer_Commands
begin

text \<open>
  Where the user is and what is there: \<open>cd\<close>, \<open>pwd\<close>, \<open>ls\<close>, the local \<open>lcd\<close>, \<open>lpwd\<close> and
  \<open>lls\<close>, and the small commands \<open>echo\<close>, \<open>about\<close> and \<open>logout\<close> (\<open>src/commands.c\<close> and
  \<open>src/ls.c\<close>).
\<close>

section \<open>The current collection\<close>

definition uri_path_owned :: "uri \<Rightarrow> cstring owned" where
  "uri_path_owned u = (case u_path u of Some p \<Rightarrow> Live p | None \<Rightarrow> No_pointer)"

text \<open>
  \<open>execute_cd\<close>.  A previous collection that was freed is read by \<open>cd -\<close> and freed again by
  any other \<open>cd\<close> that succeeds.
\<close>

definition execute_cd :: "'w env \<Rightarrow> cstring \<Rightarrow> ('w, unit) handler_m" where
  "execute_cd E native_path =
     (if native_path = ''-'' then do {
        lastwp \<leftarrow> gets s_lastwp;
        (case lastwp of
           No_pointer \<Rightarrow> say ''No previous collection.\<newline>''
         | Freed \<Rightarrow> undefined_behaviour ()
         | Live dest \<Rightarrow> do {
             ok \<leftarrow> set_path E dest;
             if ok then
               modify (\<lambda>s. s\<lparr>s_lastwp := uri_path_owned (s_uri s), s_uri := (s_uri s)\<lparr>u_path := Some dest\<rparr>\<rparr>)
             else State_Monad.return () }) }
      else do {
        dest \<leftarrow> uri_resolve_native_coll E native_path;
        ok \<leftarrow> set_path E dest;
        if ok then do {
          lastwp \<leftarrow> gets s_lastwp;
          (if lastwp = Freed then undefined_behaviour () else State_Monad.return ());
          modify (\<lambda>s. s\<lparr>s_lastwp := uri_path_owned (s_uri s), s_uri := (s_uri s)\<lparr>u_path := Some dest\<rparr>\<rparr>) }
        else State_Monad.return () })"

definition execute_pwd :: "'w env \<Rightarrow> ('w, unit) handler_m" where
  "execute_pwd E = do {
     u \<leftarrow> gets s_uri;
     say (''Current collection is `'' @ ne_uri_unparse E u @ [CHR 0x27] @ ''.\<newline>'') }"

section \<open>Listing\<close>

text \<open>The loop over the resources, those with a longer path than the collection.\<close>

definition display_resource :: "'w env \<Rightarrow> cstring \<Rightarrow> resource \<Rightarrow> ('w, unit) handler_m" where
  "display_resource E uri_path res =
     (if length uri_path < length (r_uri res) then do {
        native \<leftarrow> native_path_from_uri E (ls_name (ne_path_has_trailing_slash E) (r_uri res));
        now \<leftarrow> read_world (os_time E);
        say (display_ls_line (ne_path_has_trailing_slash E) (\<lambda>p. native)
          (format_time (os_strftime E) now) res) }
      else State_Monad.return ())"

definition execute_ls :: "'w env \<Rightarrow> cstring option \<Rightarrow> ('w, unit) handler_m" where
  "execute_ls E native_path = do {
     uri_path \<leftarrow> (case native_path of
                   Some p \<Rightarrow> uri_resolve_native_coll E p
                 | None \<Rightarrow> gets (\<lambda>s. path_of (s_uri s)));
     out_start_uri E ''Listing collection'' uri_path;
     (ret, reslist) \<leftarrow> fetch_resource_list E uri_path NE_DEPTH_ONE False;
     if ret = NE_OK then
       (if reslist = [] then output_msg o_finish ''collection is empty.\<newline>''
        else do {
          out_success;
          for_each (display_resource E uri_path) reslist })
     else out_result E ret }"

section \<open>The local side\<close>

definition execute_lpwd :: "'w env \<Rightarrow> ('w, unit) handler_m" where
  "execute_lpwd E = do {
     pwd \<leftarrow> read_world (os_getcwd E);
     (case pwd of
        None \<Rightarrow> do { err \<leftarrow> strerror E; say (''pwd: '' @ err @ ''\<newline>'') }
      | Some d \<Rightarrow> say (''Local directory: '' @ d @ ''\<newline>'')) }"

text \<open>
  \<open>execute_lls\<close>: the child process gets the argument vector of the whole command, whose first
  element is the name the user typed; what is printed by this side is an error of \<open>fork\<close> or
  \<open>execvp\<close>.
\<close>

definition execute_lls :: "'w env \<Rightarrow> cstring \<Rightarrow> cstring list \<Rightarrow> ('w, unit) handler_m" where
  "execute_lls E command_token argv = do {
     note_event (Ran ''ls'');
     msg \<leftarrow> world_op (os_run_ls E (command_token # argv));
     say msg }"

definition execute_lcd :: "'w env \<Rightarrow> cstring option \<Rightarrow> ('w, unit) handler_m" where
  "execute_lcd E p =
     (case (case p of Some d \<Rightarrow> Some d | None \<Rightarrow> os_getenv E ''HOME'') of
        None \<Rightarrow> say ''Could not determine home directory from environment.\<newline>''
      | Some real_path \<Rightarrow> do {
          ok \<leftarrow> world_op (os_chdir E real_path);
          if ok then State_Monad.return ()
          else do {
            err \<leftarrow> strerror E;
            say (''Could not change local directory:\<newline>chdir: '' @ err @ ''\<newline>'') } })"

definition execute_echo :: "cstring list \<Rightarrow> ('w, unit) handler_m" where
  "execute_echo args = do {
     for_each (\<lambda>a. say (a @ '' '')) args;
     say ''\<newline>'' }"

text \<open>The version of the package comes from the build.\<close>

definition execute_about :: "'w env \<Rightarrow> string \<Rightarrow> ('w, unit) handler_m" where
  "execute_about E package_version =
     say (''cadaver '' @ package_version @ ''\<newline>'' @ ne_version E @ ''\<newline>'')"

definition execute_logout :: "'w env \<Rightarrow> ('w, unit) handler_m" where
  "execute_logout E = exec E Forget_auth"

section \<open>Lemmas\<close>

lemma keeps_isdav: "ss.keeps (modify (\<lambda>s. s\<lparr>s_isdav := b\<rparr>))" "gr.keeps Q (modify (\<lambda>s. s\<lparr>s_isdav := b\<rparr>))"
  by (auto intro!: keeps_modify simp: same_session_def)

lemma set_path_frames: "ss.keeps (set_path E p)" "gr.keeps harmless (set_path E p)"
proof -
  have "ss.keeps is_tolerant" "gr.keeps Q is_tolerant" for Q :: "event \<Rightarrow> bool"
    by (auto simp: is_tolerant_def intro!: frame_rules)
  then show "ss.keeps (set_path E p)" "gr.keeps harmless (set_path E p)"
    unfolding set_path_def by (auto intro!: handler_frames keeps_isdav)
qed

lemma cd_frames: "gr.keeps harmless (execute_cd E p)"
  unfolding execute_cd_def by (auto intro!: handler_frames set_path_frames keeps_modify split: owned.split)

lemma ls_frames: "gr.keeps harmless (execute_ls E p)" "ss.keeps (execute_ls E p)"
  unfolding execute_ls_def display_resource_def
  by (auto intro!: handler_frames split: option.split)

section \<open>Properties\<close>

text \<open>What a user sees of the place: the path of the current collection and the previous one.\<close>

definition place :: "'w shell \<Rightarrow> cstring option \<times> cstring owned" where
  "place s = (u_path (s_uri s), s_lastwp s)"

text \<open>C33: \<open>cd\<close> only moves the user: it changes nothing on the server, and after it the place is
  either what it was or the new collection with the old one remembered.  From a place with a
  remembered collection \<open>cd -\<close> goes there and remembers where it came from, so that two of
  them come back; no pointer that was freed is used.\<close>

theorem cd_dash_swaps:
  assumes "s_lastwp s = Live q" "u_path (s_uri s) = Some p" "fst (run_state (set_path E q) s)"
  shows "effects (snd (run_state (execute_cd E ''-'') s)) = effects s
    \<and> place (snd (run_state (execute_cd E ''-'') s)) = (Some q, Live p)
    \<and> (fst (run_state (set_path E p) (snd (run_state (execute_cd E ''-'') s))) \<longrightarrow>
         place (snd (run_state (execute_cd E ''-'') (snd (run_state (execute_cd E ''-'') s)))) = place s)"
proof -
  have once: "place (snd (run_state (execute_cd E ''-'') r)) = (Some b, Live a)"
    if "s_lastwp r = Live b" "u_path (s_uri r) = Some a" "fst (run_state (set_path E b) r)" for r a b
  proof -
    have "same_session r (snd (run_state (set_path E b) r))"
      by (rule same_sessionD [OF set_path_frames(1)])
    with that show ?thesis
      by (simp add: execute_cd_def split_def place_def same_session_def uri_path_owned_def)
  qed
  have first: "place (snd (run_state (execute_cd E ''-'') s)) = (Some q, Live p)"
    using assms by (rule once)
  moreover have "place (snd (run_state (execute_cd E ''-'') (snd (run_state (execute_cd E ''-'') s)))) = place s"
    if "fst (run_state (set_path E p) (snd (run_state (execute_cd E ''-'') s)))"
    using once [OF _ _ that] first assms by (simp add: place_def)
  ultimately show ?thesis
    using harmless_effects [OF cd_frames] by blast
qed

theorem cd_dash_swaps_witness:
  "place (snd (run_state (execute_cd sample_env ''-'') sample_shell)) = (Some ''/'', Live ''/d/'')"
proof -
  have "fst (run_state (set_path sample_env ''/'') sample_shell)" by code_simp
  then show ?thesis
    using cd_dash_swaps [of sample_shell "''/''" "''/d/''" sample_env] by (simp add: sample_shell_def)
qed

end
