(* ===== verification/Versioning.thy ===== *)
theory Versioning
  imports Place_Commands Search_Results
begin

text \<open>
  \<open>src/version.c\<close>: the DeltaV commands \<open>version\<close>, \<open>checkin\<close>, \<open>checkout\<close>, \<open>uncheckout\<close>,
  \<open>history\<close> and \<open>label\<close>.  The XML callbacks of \<open>history\<close> are a second handler that
  collects responses.
\<close>

section \<open>The answer to a REPORT\<close>

record report_res =
  rr_href :: "cstring option"
  rr_version_name :: "cstring option"
  rr_creator_displayname :: "cstring option"
  rr_getcontentlength :: "cstring option"
  rr_getlastmodified :: "cstring option"
  rr_successor_set :: "cstring option"

definition new_report_res :: report_res where
  "new_report_res = \<lparr>rr_href = None, rr_version_name = None, rr_creator_displayname = None,
     rr_getcontentlength = None, rr_getlastmodified = None, rr_successor_set = None\<rparr>"

record report_ctx =
  rx_root :: "report_res list"
  rx_curr :: "report_res option"
  rx_result_num :: nat
  rx_start_prop :: bool
  rx_err_code :: ne_ret
  rx_cdata :: cstring
  rx_message :: "string option"

definition init_report_ctx :: report_ctx where
  "init_report_ctx = \<lparr>rx_root = [], rx_curr = None, rx_result_num = 0, rx_start_prop = False,
     rx_err_code = NE_OK, rx_cdata = [], rx_message = None\<rparr>"

datatype report_elem =
    RELEM_unknown | RELEM_multistatus | RELEM_response | RELEM_href | RELEM_prop | RELEM_propstat
  | RELEM_status | RELEM_version_name | RELEM_creator_displayname | RELEM_getcontentlength
  | RELEM_getlastmodified | RELEM_ignore

definition report_elements :: "report_elem idmap" where
  "report_elements =
    [(''DAV:'', ''multistatus'', RELEM_multistatus), (''DAV:'', ''response'', RELEM_response),
     (''DAV:'', ''href'', RELEM_href), (''DAV:'', ''propstat'', RELEM_propstat),
     (''DAV:'', ''prop'', RELEM_prop), (''DAV:'', ''status'', RELEM_status),
     (''DAV:'', ''version-name'', RELEM_version_name),
     (''DAV:'', ''creator-displayname'', RELEM_creator_displayname),
     (''DAV:'', ''getcontentlength'', RELEM_getcontentlength),
     (''DAV:'', ''getlastmodified'', RELEM_getlastmodified)]"

type_synonym report_mapid = "report_elem idmap \<Rightarrow> cstring \<Rightarrow> cstring \<Rightarrow> report_elem"

definition report_xml_error :: "string \<Rightarrow> report_ctx \<Rightarrow> report_ctx" where
  "report_xml_error msg c = c\<lparr>rx_message := Some (take 511 msg), rx_err_code := NE_ERROR\<rparr>"

definition report_start ::
  "report_mapid \<Rightarrow> report_ctx \<Rightarrow> cstring \<Rightarrow> cstring \<Rightarrow> report_elem accept \<times> report_ctx" where
  "report_start mapid c nspace name =
     (let state = mapid report_elements nspace name in
      if rx_err_code c \<noteq> NE_OK then (Abort (rx_err_code c), c)
      else
        let c = c\<lparr>rx_cdata := []\<rparr> in
        (Accept state,
         case state of
           RELEM_response \<Rightarrow> c\<lparr>rx_curr := Some new_report_res, rx_result_num := Suc (rx_result_num c)\<rparr>
         | RELEM_prop \<Rightarrow>
             (case rx_curr c of
                None \<Rightarrow> report_xml_error (''XML : <'' @ name @ ''> is in the wrong place'') c
              | Some _ \<Rightarrow> c\<lparr>rx_start_prop := True\<rparr>)
         | _ \<Rightarrow> c))"

definition cdata_report :: "report_ctx \<Rightarrow> cstring \<Rightarrow> report_ctx" where
  "cdata_report c buf = c\<lparr>rx_cdata := rx_cdata c @ buf\<rparr>"

text \<open>\<open>REPORT_CP_ELEM\<close>.\<close>

definition report_cp_elem ::
  "(cstring \<Rightarrow> report_res \<Rightarrow> report_res) \<Rightarrow> cstring \<Rightarrow> report_ctx \<Rightarrow> report_ctx" where
  "report_cp_elem put name c =
     (case rx_curr c of
        None \<Rightarrow> report_xml_error (''XML : </'' @ name @ ''> is in the wrong place'') c
      | Some res \<Rightarrow> c\<lparr>rx_curr := Some (put (rx_cdata c) res)\<rparr>)"

definition report_end_response :: "cstring \<Rightarrow> report_ctx \<Rightarrow> report_ctx" where
  "report_end_response name c =
     (case rx_curr c of
        None \<Rightarrow> report_xml_error (''XML : </'' @ name @ ''> is in the wrong place'') c
      | Some res \<Rightarrow>
          if rr_href res = None then
            report_xml_error (''XML : No href info in the <'' @ name @ ''>...</'' @ name @ ''>'') c
          else c\<lparr>rx_root := res # rx_root c, rx_curr := None\<rparr>)"

definition report_end :: "report_ctx \<Rightarrow> report_elem \<Rightarrow> cstring \<Rightarrow> cstring \<Rightarrow> ne_ret \<times> report_ctx" where
  "report_end c state nspace name =
     (if rx_err_code c \<noteq> NE_OK then (rx_err_code c, c)
      else
       (NE_OK,
        case state of
          RELEM_response \<Rightarrow> report_end_response name c
        | RELEM_href \<Rightarrow> report_cp_elem (\<lambda>v r. r\<lparr>rr_href := Some v\<rparr>) name c
        | RELEM_version_name \<Rightarrow> report_cp_elem (\<lambda>v r. r\<lparr>rr_version_name := Some v\<rparr>) name c
        | RELEM_creator_displayname \<Rightarrow> report_cp_elem (\<lambda>v r. r\<lparr>rr_creator_displayname := Some v\<rparr>) name c
        | RELEM_getcontentlength \<Rightarrow> report_cp_elem (\<lambda>v r. r\<lparr>rr_getcontentlength := Some v\<rparr>) name c
        | RELEM_getlastmodified \<Rightarrow> report_cp_elem (\<lambda>v r. r\<lparr>rr_getlastmodified := Some v\<rparr>) name c
        | RELEM_prop \<Rightarrow>
            (case rx_curr c of
               None \<Rightarrow> report_xml_error (''XML : </'' @ name @ ''> is in the wrong place'') c
             | Some _ \<Rightarrow> c\<lparr>rx_start_prop := False\<rparr>)
        | _ \<Rightarrow> c))"

definition report_step :: "report_mapid \<Rightarrow> report_ctx \<Rightarrow> report_elem xml_event \<Rightarrow> report_ctx option" where
  "report_step mapid c e =
     (case e of
        StartElm nspace name \<Rightarrow> Some (snd (report_start mapid c nspace name))
      | Cdata buf \<Rightarrow> Some (cdata_report c buf)
      | EndElm state nspace name \<Rightarrow> Some (snd (report_end c state nspace name)))"

section \<open>The parse\<close>

text \<open>
  neon calls the end callback of an element with the state its start callback returned: the
  open elements with their states are a stack.  After an error the callbacks do not look at the
  state any more, so that \<open>unknown\<close> stands for the state of an element that was refused.
\<close>

fun nested_events ::
  "'e \<Rightarrow> ('e idmap \<Rightarrow> cstring \<Rightarrow> cstring \<Rightarrow> 'e) \<Rightarrow> 'e idmap \<Rightarrow> ('e \<times> cstring \<times> cstring) list
    \<Rightarrow> raw_event list \<Rightarrow> 'e xml_event list" where
  "nested_events unknown mapid tab stack [] = []"
| "nested_events unknown mapid tab stack (Raw_start ns n # es) =
     StartElm ns n # nested_events unknown mapid tab ((mapid tab ns n, ns, n) # stack) es"
| "nested_events unknown mapid tab stack (Raw_cdata t # es) =
     Cdata t # nested_events unknown mapid tab stack es"
| "nested_events unknown mapid tab [] (Raw_end # es) = []"
| "nested_events unknown mapid tab ((st, ns, n) # stack) (Raw_end # es) =
     EndElm st ns n # nested_events unknown mapid tab stack es"

definition report_parse :: "report_mapid \<Rightarrow> report_ctx \<Rightarrow> raw_event list \<Rightarrow> report_ctx option" where
  "report_parse mapid c es =
     run_events (report_step mapid) c (nested_events RELEM_unknown mapid report_elements [] es)"

section \<open>Commands\<close>

text \<open>\<open>ne_get_status (req)->klass\<close> is the code divided by 100.\<close>

definition klass_2 :: "int \<Rightarrow> bool" where
  "klass_2 st_code \<longleftrightarrow> st_code div 100 = 2"

definition req_result :: "'w env \<Rightarrow> ne_ret \<Rightarrow> ('w, unit) handler_m" where
  "req_result E ret = do {
     status \<leftarrow> read_world (n_status E);
     if ret \<noteq> NE_OK then out_result E ret
     else if \<not> klass_2 (fst status) then out_result E NE_ERROR
     else out_success }"

text \<open>Without a path \<open>ne_strdup (NULL)\<close> is called.\<close>

definition coll_path :: "'w env \<Rightarrow> cstring option \<Rightarrow> ('w, cstring) handler_m" where
  "coll_path E native_path =
     (case native_path of
        Some p \<Rightarrow> uri_resolve_native_coll E p
      | None \<Rightarrow> undefined_behaviour [])"

definition simple_request :: "'w env \<Rightarrow> cstring option \<Rightarrow> string \<Rightarrow> cstring \<Rightarrow> ('w, unit) handler_m" where
  "simple_request E native_path verb method = do {
     uri_path \<leftarrow> coll_path E native_path;
     out_start_uri E verb uri_path;
     ret \<leftarrow> send E (Method method uri_path None);
     req_result E ret }"

definition execute_version :: "'w env \<Rightarrow> cstring option \<Rightarrow> ('w, unit) handler_m" where
  "execute_version E remote = simple_request E remote ''Versioning'' ''VERSION-CONTROL''"

definition execute_checkin :: "'w env \<Rightarrow> cstring option \<Rightarrow> ('w, unit) handler_m" where
  "execute_checkin E remote = simple_request E remote ''Checking in'' ''CHECKIN''"

definition execute_checkout :: "'w env \<Rightarrow> cstring option \<Rightarrow> ('w, unit) handler_m" where
  "execute_checkout E remote = simple_request E remote ''Checking out'' ''CHECKOUT''"

definition execute_uncheckout :: "'w env \<Rightarrow> cstring option \<Rightarrow> ('w, unit) handler_m" where
  "execute_uncheckout E remote = simple_request E remote ''Cancelling check out of'' ''UNCHECKOUT''"

definition report_line :: "'w env \<Rightarrow> int \<Rightarrow> report_res \<Rightarrow> string" where
  "report_line E now res =
     (let modtime = (case rr_getlastmodified res of Some t \<Rightarrow> ne_httpdate_parse E t | None \<Rightarrow> 0);
          size = (case rr_getcontentlength res of Some t \<Rightarrow> to_int (atol t) | None \<Rightarrow> 0)
      in pad_right 40 (str_or_null (rr_href res)) @ '' '' @ pad_left 10 (show_int size) @ ''  ''
         @ format_time (os_strftime E) now modtime @ '' <'' @ str_or_null (rr_version_name res) @ ''>\<newline>'')"

definition display_report_results :: "'w env \<Rightarrow> report_ctx \<Rightarrow> ('w, unit) handler_m" where
  "display_report_results E rctx =
     (if rx_err_code rctx \<noteq> NE_OK then State_Monad.return ()
      else do {
        say ('' '' @ show_nat (rx_result_num rctx) @ '' version''
          @ (if rx_result_num rctx = 1 then [] else ''s'') @ '' in history:\<newline>'');
        now \<leftarrow> read_world (os_time E);
        for_each (\<lambda>res. say (report_line E now res)) (rx_root rctx) })"

definition report_body :: string where
  "report_body =
     ''<?xml version=\"1.0\" encoding=\"utf-8\" ?>'' @ ''<D:version-tree xmlns:D=\"DAV:\">'' @
     '' <D:prop>'' @ ''  <D:version-name/>'' @ ''  <D:creator-displayname/>'' @
     ''  <D:getcontentlength/>'' @ ''  <D:getlastmodified/>'' @ ''  <D:successor-set/>'' @
     '' </D:prop>'' @ ''</D:version-tree>''"

text \<open>The code of a status as a return value; 0 is \<open>NE_OK\<close>.\<close>

definition status_ret :: "int \<Rightarrow> ne_ret" where
  "status_ret st_code = (if st_code = 0 then NE_OK else HTTP_CODE st_code)"

definition do_report :: "'w env \<Rightarrow> report_mapid \<Rightarrow> cstring \<Rightarrow> ('w, ne_ret \<times> report_ctx) handler_m" where
  "do_report E mapid real_remote = do {
     note_event (Query ''REPORT'' real_remote);
     (ret, events) \<leftarrow> world_op (n_xml E ''REPORT'' real_remote None report_body);
     status \<leftarrow> read_world (n_status E);
     let ret = (if \<not> klass_2 (fst status) then status_ret (fst status) else ret);
     (case report_parse mapid init_report_ctx events of
        None \<Rightarrow> undefined_behaviour (ret, init_report_ctx)
      | Some rctx \<Rightarrow> do {
          (case rx_message rctx of
             Some m \<Rightarrow> exec E (Set_error m)
           | None \<Rightarrow> State_Monad.return ());
          State_Monad.return (ret, rctx) }) }"

definition execute_history :: "'w env \<Rightarrow> report_mapid \<Rightarrow> cstring option \<Rightarrow> ('w, unit) handler_m" where
  "execute_history E mapid native_path = do {
     uri_path \<leftarrow> coll_path E native_path;
     out_start_uri E ''Version history of'' uri_path;
     (ret, rctx) \<leftarrow> do_report E mapid uri_path;
     if ret \<noteq> NE_OK then out_result E ret else display_report_results E rctx }"

definition label_body :: "cstring \<Rightarrow> cstring \<Rightarrow> string" where
  "label_body act val =
     ''<?xml version=\"1.0\" encoding=\"utf-8\" ?>\<newline>'' @ ''<D:label xmlns:D=\"DAV:\">\<newline>''
     @ ''<D:'' @ act @ ''><D:label-name>'' @ val @ ''</D:label-name></D:'' @ act @ ''>'' @ ''</D:label>\<newline>''"

definition execute_label :: "'w env \<Rightarrow> cstring option \<Rightarrow> cstring \<Rightarrow> cstring \<Rightarrow> ('w, unit) handler_m" where
  "execute_label E native_path act val =
     (if \<not> strcaseeq act ''add'' \<and> \<not> strcaseeq act ''remove'' \<and> \<not> strcaseeq act ''set'' then
        say (''Invalid action `'' @ act @ [CHR 0x27] @ '' given.\<newline>'')
      else do {
        uri_path \<leftarrow> coll_path E native_path;
        out_start_uri E ''Labelling'' uri_path;
        ret \<leftarrow> send E (Method ''LABEL'' uri_path (Some (label_body act val)));
        req_result E ret })"

definition vcr_props :: "propname list" where
  "vcr_props = [dav ''checked-in'', dav ''checked-out'']"

definition vcr_results :: "nat \<Rightarrow> prop_set \<Rightarrow> nat" where
  "vcr_results isvcr pset =
     (if ps_value pset (vcr_props ! 0) \<noteq> None then 1
      else if ps_value pset (vcr_props ! 1) \<noteq> None then 2 else isvcr)"

text \<open>1: checked in, 2: checked out, 0: not under version control, or not known.\<close>

definition is_vcr :: "'w env \<Rightarrow> cstring \<Rightarrow> ('w, nat) handler_m" where
  "is_vcr E u = do {
     note_event (Query ''PROPFIND'' u);
     (ret, psets) \<leftarrow> world_op (n_propfind E u NE_DEPTH_ZERO (Some vcr_props));
     State_Monad.return (if ret \<noteq> NE_OK then 0 else foldl vcr_results 0 psets) }"

section \<open>Lemmas\<close>

definition report_failed :: "report_ctx \<Rightarrow> bool" where
  "report_failed c \<longleftrightarrow> rx_err_code c \<noteq> NE_OK"

definition report_active :: "report_ctx \<Rightarrow> bool" where
  "report_active c \<longleftrightarrow> rx_curr c \<noteq> None"

definition report_complete :: "report_res \<Rightarrow> bool" where
  "report_complete r \<longleftrightarrow> rr_href r \<noteq> None"

lemmas report_callback_defs =
  report_step_def report_start_def report_end_def cdata_report_def report_cp_elem_def
  report_end_response_def report_xml_error_def

lemma report_step_failed:
  "report_failed c \<Longrightarrow> report_step mapid c e = Some c' \<Longrightarrow> report_failed c' \<and> rx_root c' = rx_root c"
  by (auto simp: report_callback_defs report_failed_def Let_def split: xml_event.splits)

lemma report_step_root:
  assumes "report_step mapid c e = Some c'"
  shows "rx_root c' = rx_root c \<or>
    (\<exists>r. report_complete r \<and> report_active c \<and> \<not> report_active c' \<and> rx_root c' = r # rx_root c)"
  using assms
  by (cases e)
    (auto simp: report_callback_defs report_complete_def report_active_def Let_def
      split: report_elem.splits option.splits if_splits)

lemma report_step_opened:
  assumes "report_step mapid c e = Some c'"
  shows "rx_result_num c' = rx_result_num c \<and> (report_active c' \<longrightarrow> report_active c) \<or>
    rx_result_num c' = Suc (rx_result_num c) \<and> rx_root c' = rx_root c"
  using assms
  by (cases e)
    (auto simp: report_callback_defs report_active_def Let_def
      split: report_elem.splits option.splits if_splits)

interpretation vr: response_collector "report_step mapid" report_failed rx_root rx_result_num
    report_active report_complete
  for mapid
  by unfold_locales (fact report_step_failed report_step_root report_step_opened)+

lemma report_run_total: "run_events (report_step mapid) c es \<noteq> None"
proof (induction es arbitrary: c)
  case (Cons e es)
  then show ?case by (cases e) (simp_all add: report_step_def)
qed simp

lemma coll_path_frames: "gr.keeps harmless (coll_path E p)" "ss.keeps (coll_path E p)"
  unfolding coll_path_def by (auto intro!: handler_frames split: option.split)

lemma req_result_frames: "gr.keeps harmless (req_result E r)" "ss.keeps (req_result E r)"
  unfolding req_result_def by (auto intro!: handler_frames)

lemmas version_parts [simp] =
  coll_path_frames(1) [THEN harmless_effects] req_result_frames(1) [THEN harmless_effects]
  coll_path_frames(1) [THEN silent_harmless, THEN silent_reqs]
  req_result_frames(1) [THEN silent_harmless, THEN silent_reqs]

section \<open>Properties\<close>

text \<open>Whatever the server answers to a REPORT, the parse does not crash, every version that is
  displayed has the \<open>href\<close> its line prints, and there are at most as many as announced.\<close>

theorem report_results_have_href:
  "\<exists>c. report_parse mapid init_report_ctx es = Some c \<and> list_all (\<lambda>r. rr_href r \<noteq> None) (rx_root c)
     \<and> length (rx_root c) \<le> rx_result_num c"
proof -
  obtain c where run: "run_events (report_step mapid) init_report_ctx
      (nested_events RELEM_unknown mapid report_elements [] es) = Some c"
    using report_run_total by blast
  have "vr.counted init_report_ctx"
    by (simp add: vr.counted_def init_report_ctx_def report_active_def)
  with run have "length (rx_root c) \<le> rx_result_num c" by (rule vr.run_length [rotated])
  moreover have "list_all (\<lambda>r. rr_href r \<noteq> None) (rx_root c)"
    using vr.run_root [OF run] by (auto simp: init_report_ctx_def report_complete_def list_all_iff)
  ultimately show ?thesis using run by (auto simp: report_parse_def)
qed

text \<open>The version requests name a collection.\<close>

definition trailing_preserved :: "'w env \<Rightarrow> bool" where
  "trailing_preserved E \<longleftrightarrow>
     (\<forall>p. ne_path_has_trailing_slash E p \<longleftrightarrow> p \<noteq> [] \<and> last p = slash) \<and>
     (\<forall>base p. p \<noteq> [] \<longrightarrow> last p = slash \<longrightarrow>
        ne_path_has_trailing_slash E (path_of (ne_uri_resolve E base (empty_uri\<lparr>u_path := Some p\<rparr>))))"

lemma resolve_coll_trailing:
  assumes "trailing_preserved E"
  shows "ne_path_has_trailing_slash E (fst (run_state (uri_resolve_native_coll E p) s))"
  using assms
  by (auto simp: uri_resolve_native_coll_def path_native_resolver_def trailing_preserved_def split_def Let_def)

text \<open>The version commands always ask for a collection: the path in the request ends with a
  slash, whatever the resource is.  So a plain file is never checked out by its own path.\<close>

theorem version_requests_collection:
  assumes "trailing_preserved E"
  shows "\<exists>p. ne_path_has_trailing_slash E p
    \<and> reqs (snd (run_state (execute_checkout E (Some name)) s)) = reqs s @ [Method ''CHECKOUT'' p None]"
  using resolve_coll_trailing [OF assms, of name s]
  by (intro exI [of _ "fst (run_state (uri_resolve_native_coll E name) s)"])
    (simp add: execute_checkout_def simple_request_def coll_path_def split_def)

lemma sample_trailing: "trailing_preserved sample_env"
  by (auto simp: trailing_preserved_def sample_env_def sample_resolve_def path_of_def empty_uri_def
      split: list.split)

theorem version_requests_collection_witness:
  "\<exists>p. p \<noteq> [] \<and> last p = slash \<and>
     reqs (snd (run_state (execute_checkout sample_env (Some ''f'')) sample_shell)) = [Method ''CHECKOUT'' p None]"
  using version_requests_collection [OF sample_trailing, of "''f''" sample_shell]
  by (auto simp: sample_env_def sample_shell_def reqs_def)

text \<open>A history request that got no answer looks like an empty history: when neon has no status
  (code 0) the return code of the request is replaced by \<open>NE_OK\<close>, so an error of the
  connection is not reported.\<close>

theorem history_hides_failure:
  assumes "run_state (do_report E mapid p) s = ((ret, rctx), t)"
    "fst (n_status E (snd (n_xml E ''REPORT'' p None report_body (s_world s)))) = 0"
  shows "ret = NE_OK"
  using assms
  by (auto simp: do_report_def world_op_def split_def Let_def klass_2_def status_ret_def
      split: option.splits)

definition offline_env :: "sample env" where
  "offline_env = sample_env\<lparr>n_xml := (\<lambda>m p d b w. ((NE_CONNECT, []), w)), n_status := (\<lambda>w. (0, []))\<rparr>"

theorem history_hides_failure_witness:
  "fst (n_xml offline_env ''REPORT'' ''/d/f'' None report_body (s_world sample_shell)) = (NE_CONNECT, [])
   \<and> fst (fst (run_state (do_report offline_env (idmap_lookup RELEM_unknown) ''/d/f'') sample_shell)) = NE_OK"
proof
  show "fst (n_xml offline_env ''REPORT'' ''/d/f'' None report_body (s_world sample_shell)) = (NE_CONNECT, [])"
    by (simp add: offline_env_def)
  obtain ret c t where r: "run_state (do_report offline_env (idmap_lookup RELEM_unknown) ''/d/f'') sample_shell
      = ((ret, c), t)" by (metis prod.collapse)
  with history_hides_failure [OF r] show
    "fst (fst (run_state (do_report offline_env (idmap_lookup RELEM_unknown) ''/d/f'') sample_shell)) = NE_OK"
    by (simp add: offline_env_def)
qed

end
