(* ===== verification/Search_Command.thy ===== *)
theory Search_Command
  imports Versioning Search_Query
begin

text \<open>
  The command \<open>search\<close> (\<open>src/search.c\<close>): the body of the SEARCH request around the compiled
  condition, the request and the display of its results.
\<close>

section \<open>The body\<close>

definition NSPACE :: "cstring option \<Rightarrow> string" where
  "NSPACE x = (case x of Some n \<Rightarrow> n | None \<Rightarrow> [])"

text \<open>\<open>order_props_create\<close>: the words of an option as properties, NULL when there are none.\<close>

definition order_props_create :: "cstring option \<Rightarrow> propname list option" where
  "order_props_create str =
     (case str of
        None \<Rightarrow> None
      | Some s \<Rightarrow>
          (case strtok_all [CHR '' '', CHR 0x09, CHR 0x0A, CHR 0x0D] s of
             [] \<Rightarrow> None
           | toks \<Rightarrow> Some (map dav toks)))"

definition prop_element :: "propname \<Rightarrow> string" where
  "prop_element p = ''<'' @ pn_name p @ '' xmlns=\"'' @ NSPACE (pn_nspace p) @ ''\"/>'' @ EOL"

definition search_select_gen :: "propname list option \<Rightarrow> string \<Rightarrow> string" where
  "search_select_gen props basic_search =
     basic_search @
     (case props of
        None \<Rightarrow> ''<D:select><D:allprop/></D:select>'' @ EOL
      | Some ps \<Rightarrow> ''<D:select><D:prop>'' @ EOL @ concat (map prop_element ps) @ ''</D:prop></D:select>'' @ EOL)"

definition search_from_gen :: "cstring \<Rightarrow> depth \<Rightarrow> string \<Rightarrow> string" where
  "search_from_gen target d basic_search =
     basic_search @ ''<D:from><D:scope><D:href>'' @ target @ ''</D:href><D:depth>''
     @ (case d of NE_DEPTH_ONE \<Rightarrow> ''1'' | NE_DEPTH_ZERO \<Rightarrow> ''0'' | _ \<Rightarrow> ''infinity'')
     @ ''</D:depth></D:scope></D:from>'' @ EOL"

definition order_element :: "string \<Rightarrow> propname \<Rightarrow> string" where
  "order_element dir p = ''<D:order><D:prop>'' @ EOL @ prop_element p @ ''</D:prop><D:'' @ dir @ ''/></D:order>'' @ EOL"

definition search_orderby_gen :: "propname list option \<Rightarrow> propname list option \<Rightarrow> string \<Rightarrow> string" where
  "search_orderby_gen asc des basic_search =
     (if asc = None \<and> des = None then basic_search
      else basic_search @ ''<D:orderby>'' @ EOL
        @ concat (map (order_element ''ascending'') (case asc of Some l \<Rightarrow> l | None \<Rightarrow> []))
        @ concat (map (order_element ''descending'') (case des of Some l \<Rightarrow> l | None \<Rightarrow> []))
        @ ''</D:orderby>'' @ EOL)"

text \<open>The body of the request, or the error of the condition.\<close>

definition search_body ::
  "cstring \<Rightarrow> depth \<Rightarrow> cstring \<Rightarrow> propname list option \<Rightarrow> propname list option \<Rightarrow> perror + string" where
  "search_body uri d query asc des =
     andthen (search_where_gen query
       (search_from_gen uri d (search_select_gen None
         (''<?xml version=\"1.0\" encoding=\"utf-8\" ?>'' @ EOL
          @ ''<D:searchrequest xmlns:D=\"DAV:\"><D:basicsearch>'' @ EOL))))
     (\<lambda>b. Inr (search_orderby_gen asc des b @ ''</D:basicsearch></D:searchrequest>'' @ EOL))"

section \<open>The request\<close>

definition search_parse :: "search_mapid \<Rightarrow> bool \<Rightarrow> raw_event list \<Rightarrow> search_ctx option" where
  "search_parse mapid searchall es =
     search_run mapid searchall init_search_ctx (nested_events ELEM_unknown mapid search_elements [] es)"

definition searchall_on :: "('w, bool) handler_m" where
  "searchall_on = bool_option opt_searchall"

text \<open>
  \<open>run_search\<close>.  An error in the condition is an early return; an overflow of a word array and
  a crash of the callbacks are undefined behaviour.
\<close>

definition run_search ::
  "'w env \<Rightarrow> search_mapid \<Rightarrow> cstring \<Rightarrow> depth \<Rightarrow> cstring \<Rightarrow> ('w, ne_ret \<times> search_ctx) handler_m" where
  "run_search E mapid uri d query = do {
     searchorder \<leftarrow> string_option opt_searchorder;
     searchdorder \<leftarrow> string_option opt_searchdorder;
     (case search_body uri d query (order_props_create searchorder) (order_props_create searchdorder) of
        Inl (Syntax (Some msg)) \<Rightarrow> do { exec E (Set_error msg); State_Monad.return (NE_ERROR, init_search_ctx) }
      | Inl (Syntax None) \<Rightarrow> State_Monad.return (NE_ERROR, init_search_ctx)
      | Inl _ \<Rightarrow> undefined_behaviour (NE_ERROR, init_search_ctx)
      | Inr body \<Rightarrow> do {
          note_event (Query ''SEARCH'' uri);
          (ret, events) \<leftarrow> world_op (n_xml E ''SEARCH'' uri (Some d) body);
          searchall \<leftarrow> searchall_on;
          (case search_parse mapid searchall events of
             None \<Rightarrow> undefined_behaviour (NE_ERROR, init_search_ctx)
           | Some sctx \<Rightarrow> do {
               (case sx_message sctx of
                  Some m \<Rightarrow> exec E (Set_error m)
                | None \<Rightarrow> State_Monad.return ());
               status \<leftarrow> read_world (n_status E);
               State_Monad.return
                 (if ret \<noteq> NE_OK then ret
                  else if sx_err_code sctx \<noteq> NE_OK then NE_ERROR
                  else if fst status \<noteq> 207 then NE_ERROR
                  else NE_OK, sctx) }) }) }"

text \<open>An argument with a blank or a tab is put in single quotes.\<close>

definition query_arg :: "cstring \<Rightarrow> string" where
  "query_arg a =
     (if strchr a CHR '' '' \<noteq> None \<or> strchr a CHR 0x09 \<noteq> None
      then [QUOTE] @ a @ [QUOTE] @ '' '' else a @ '' '')"

definition search_query :: "cstring list \<Rightarrow> cstring" where
  "search_query args = concat (map query_arg args)"

definition show_results :: "'w env \<Rightarrow> search_ctx \<Rightarrow> ('w, unit) handler_m" where
  "show_results E sctx = do {
     inp \<leftarrow> gets s_input;
     now \<leftarrow> read_world (os_time E);
     searchall \<leftarrow> searchall_on;
     let (out, left) = display_results (ne_httpdate_parse E) (format_time (os_strftime E) now) searchall sctx inp;
     for_each say out;
     modify (\<lambda>s. s\<lparr>s_input := left\<rparr>) }"

definition execute_search :: "'w env \<Rightarrow> search_mapid \<Rightarrow> cstring list \<Rightarrow> ('w, unit) handler_m" where
  "execute_search E mapid args = do {
     let query = search_query args;
     say ''Using query: '';
     say (query @ '', '');
     here \<leftarrow> gets (\<lambda>s. path_of (s_uri s));
     d \<leftarrow> gets (\<lambda>s. searchdepth (s_opts s));
     (ret, sctx) \<leftarrow> run_search E mapid here d query;
     (if ret = NE_OK then show_results E sctx else State_Monad.return ());
     out_result E ret }"

section \<open>Lemmas\<close>

lemma search_frames:
  "gr.keeps harmless (run_search E mapid u d q)" "ss.keeps (run_search E mapid u d q)"
  unfolding run_search_def searchall_on_def
  by (intro handler_frames; auto intro!: handler_frames split: sum.split perror.split option.split)+

text \<open>The body of an accepted query: the parts in the order RFC 5323 wants them.\<close>

lemma search_body_shape:
  "search_body u d q asc des = Inr body \<Longrightarrow>
     \<exists>cond. body = ''<?xml version=\"1.0\" encoding=\"utf-8\" ?>'' @ EOL
        @ ''<D:searchrequest xmlns:D=\"DAV:\"><D:basicsearch>'' @ EOL
        @ search_select_gen None [] @ search_from_gen u d [] @ ''<D:where>'' @ EOL @ cond @ ''</D:where>'' @ EOL
        @ search_orderby_gen asc des [] @ ''</D:basicsearch></D:searchrequest>'' @ EOL"
  by (auto simp: search_body_def search_where_gen_def search_select_gen_def search_from_gen_def
      search_orderby_gen_def andthen_def with_error_def split: sum.splits prod.splits if_splits option.splits perror.splits)

section \<open>Properties\<close>

text \<open>A query that does not compile is not sent.  When the condition is rejected with a syntax
  error, \<open>search\<close> asks the server for nothing: the world is changed by nothing but the error text,
  and the command reports a failure.\<close>

theorem rejected_query_not_sent:
  assumes "search_body (path_of (s_uri s)) (searchdepth (s_opts s)) (search_query args)
      (order_props_create (get_string opt_searchorder (s_opts s)))
      (order_props_create (get_string opt_searchdorder (s_opts s))) = Inl (Syntax msg)"
  shows "filter (\<lambda>e. case e of Query m p \<Rightarrow> True | Req r \<Rightarrow> True | _ \<Rightarrow> False)
      (s_trace (snd (run_state (execute_search E mapid args) s)))
    = filter (\<lambda>e. case e of Query m p \<Rightarrow> True | Req r \<Rightarrow> True | _ \<Rightarrow> False) (s_trace s)
    \<and> s_world (snd (run_state (execute_search E mapid args) s))
      = (case msg of Some m \<Rightarrow> n_exec E (Set_error m) (s_world s) | None \<Rightarrow> s_world s)"
  using assms
  by (cases msg)
    (simp_all add: execute_search_def run_search_def Let_def out_result_def output_msg_def exec_def world_op_def
      split_def)

theorem rejected_query_not_sent_witness:
  "s_world (snd (run_state (execute_search sample_env (idmap_lookup ELEM_unknown) [''(a'']) sample_shell))
    = s_world sample_shell"
proof -
  have "search_body (path_of (s_uri sample_shell)) (searchdepth (s_opts sample_shell)) (search_query [''(a''])
      (order_props_create (get_string opt_searchorder (s_opts sample_shell)))
      (order_props_create (get_string opt_searchdorder (s_opts sample_shell)))
      = search_body ''/d/'' NE_DEPTH_INFINITE ''(a '' None None"
    by code_simp
  moreover have "(case search_body ''/d/'' NE_DEPTH_INFINITE ''(a '' None None of
      Inl (Syntax msg) \<Rightarrow> True | _ \<Rightarrow> False)"
    by code_simp
  ultimately obtain msg where "search_body (path_of (s_uri sample_shell)) (searchdepth (s_opts sample_shell))
      (search_query [''(a''])
      (order_props_create (get_string opt_searchorder (s_opts sample_shell)))
      (order_props_create (get_string opt_searchdorder (s_opts sample_shell))) = Inl (Syntax msg)"
    by (auto split: sum.splits perror.splits)
  from rejected_query_not_sent [OF this, of sample_env "idmap_lookup ELEM_unknown"]
  show ?thesis by (simp add: sample_env_def split: option.splits)
qed

end
