(* ===== verification/Edit.thy ===== *)
theory Edit
  imports Versioning
begin

text \<open>
  The command \<open>edit\<close> (\<open>src/edit.c\<close>): download to a temporary file, run an editor, upload if
  the file changed, with a lock and a conditional PUT where the server allows it.
\<close>

section \<open>The editor\<close>

text \<open>\<open>run_editor\<close>: True is the return value 0, for a file whose modification time changed.\<close>

definition run_editor :: "'w env \<Rightarrow> cstring \<Rightarrow> ('w, bool) handler_m" where
  "run_editor E filename = do {
     opt \<leftarrow> string_option opt_editor;
     let editor = (case opt of Some e \<Rightarrow> e
                   | None \<Rightarrow> (case os_getenv E ''EDITOR'' of Some e \<Rightarrow> e | None \<Rightarrow> ''vi''));
     let editcmd = take (BUFSIZ - 1) (editor @ '' '' @ filename);
     before_st \<leftarrow> read_world (os_stat E filename);
     (case before_st of
        None \<Rightarrow> do {
          err \<leftarrow> strerror E;
          say (''edit: Could not stat file: '' @ err @ ''\<newline>'');
          State_Monad.return False }
      | Some b \<Rightarrow> do {
          say (''edit: Running editor: `'' @ editcmd @ [CHR 0x27] @ ''...\<newline>'');
          note_event (Ran editcmd);
          ret \<leftarrow> world_op (os_system E editcmd);
          (if ret = -1 then do {
             err \<leftarrow> strerror E;
             say (''edit: Error executing editor: '' @ err @ ''\<newline>'') }
           else State_Monad.return ());
          after_st \<leftarrow> read_world (os_stat E filename);
          (case after_st of
             None \<Rightarrow> do {
               err \<leftarrow> strerror E;
               say (''edit: Error: Could not examine temporary file: '' @ err @ ''\<newline>'');
               State_Monad.return False }
           | Some a \<Rightarrow>
               if st_mtime b = st_mtime a then do {
                 say ''edit: No changes were made.\<newline>''; State_Monad.return False }
               else do {
                 say ''edit: Changes were made.\<newline>''; State_Monad.return True }) }) }"

section \<open>Locking and conditional requests\<close>

definition is_lockable :: "'w env \<Rightarrow> cstring \<Rightarrow> ('w, bool) handler_m" where
  "is_lockable E uri_path = do {
     base \<leftarrow> gets s_uri;
     found \<leftarrow> read_world (n_find_lock E (base\<lparr>u_path := Some uri_path\<rparr>));
     if found \<noteq> None then State_Monad.return False
     else do {
       note_event (Query ''OPTIONS'' uri_path);
       (ret, caps) \<leftarrow> world_op (n_options E uri_path);
       State_Monad.return (ret = NE_OK \<and> dav_class2 caps) } }"

text \<open>The three hooks: what they add to the request, keep of the answer and make of its status.\<close>

definition edit_pre_send :: "cstring option \<Rightarrow> string" where
  "edit_pre_send etag = (case etag of Some e \<Rightarrow> ''If-Match: '' @ e @ [CHR 0x0D] @ ''\<newline>'' | None \<Rightarrow> [])"

definition edit_hdrs :: "(cstring \<Rightarrow> cstring) \<Rightarrow> int \<Rightarrow> cstring option \<Rightarrow> cstring option \<Rightarrow> cstring option" where
  "edit_hdrs strclean st_code header etag =
     (case header of
        Some v \<Rightarrow> if klass_2 st_code then Some (strclean v) else etag
      | None \<Rightarrow> etag)"

definition edit_post_send :: "int \<Rightarrow> ne_ret \<times> string option" where
  "edit_post_send st_code =
     (if st_code = 412
      then (NE_ERROR, Some ''Resource was modified since download, upload refused'')
      else (NE_OK, None))"

section \<open>The command\<close>

definition TMP_PREFIX :: cstring where
  "TMP_PREFIX = ''/tmp/cadaver-edit-XXXXXX''"

text \<open>
  The temporary name, with the extension of the remote path (PATH_MAX is 4096).  The bound given
  to \<open>strncat\<close> is that of the whole array and not of what is left of it, so that a long
  extension is written past the end.
\<close>

definition edit_extension :: "cstring \<Rightarrow> cstring" where
  "edit_extension uri_path =
     (case strrchr uri_path CHR ''.'' of
        Some pnt \<Rightarrow> if strchr pnt slash = None then take 4095 pnt else []
      | None \<Rightarrow> [])"

definition edit_template :: "cstring \<Rightarrow> ('w, cstring) handler_m" where
  "edit_template uri_path =
     (let fname = TMP_PREFIX @ edit_extension uri_path
      in if 4096 \<le> length fname then undefined_behaviour (take 4095 fname) else State_Monad.return fname)"

text \<open>
  The loop of the upload.  Each failed round reads a line of the user, so that the length of
  the input bounds the rounds (\<open>upload_loop_ends\<close>); at the end of the input the answer is no.
\<close>

fun upload_loop :: "nat \<Rightarrow> 'w env \<Rightarrow> cstring \<Rightarrow> int \<Rightarrow> ('w, bool) handler_m" where
  "upload_loop 0 E uri_path fd = State_Monad.return False"
| "upload_loop (Suc n) E uri_path fd = do {
     output_msg o_upload (''Uploading changes to `'' @ uri_path @ [CHR 0x27]);
     ret \<leftarrow> send E (Put uri_path fd);
     ok \<leftarrow> out_handle E ret;
     if ok then State_Monad.return True
     else do {
       say ''Try uploading again (y/n)? '';
       again \<leftarrow> ask_yesno;
       if again then upload_loop n E uri_path fd else State_Monad.return True } }"

text \<open>What is done with a file that was changed.\<close>

definition edit_upload :: "'w env \<Rightarrow> cstring \<Rightarrow> cstring \<Rightarrow> cstring option \<Rightarrow> ('w, unit) handler_m" where
  "edit_upload E uri_path fname etag = do {
     note_event (Opened fname O_RDONLY);
     fd \<leftarrow> world_op (os_open E fname O_RDONLY);
     (case fd of
        None \<Rightarrow> do {
          err \<leftarrow> strerror E;
          output_msg o_finish (''Could not re-open temporary file: '' @ err @ ''\<newline>'') }
      | Some d \<Rightarrow> do {
          (case etag of Some e \<Rightarrow> exec E (Hook_if_match e) | None \<Rightarrow> State_Monad.return ());
          fuel \<leftarrow> gets (\<lambda>s. Suc (length (s_input s)));
          upload_loop fuel E uri_path d;
          (if etag \<noteq> None then exec E Unhook_if_match else State_Monad.return ());
          world_op (os_close E d);
          State_Monad.return () }) }"

text \<open>From the download to the end; the lock is the one to release.\<close>

definition edit_session ::
  "'w env \<Rightarrow> cstring \<Rightarrow> cstring \<Rightarrow> int \<Rightarrow> lock option \<Rightarrow> ('w, unit) handler_m" where
  "edit_session E uri_path fname fd lk = do {
     is_checkin \<leftarrow> is_vcr E uri_path;
     (if is_checkin = 1 then execute_checkout E (Some uri_path) else State_Monad.return ());
     exec E Hook_etag;
     output_msg o_download (''Downloading `'' @ uri_path @ [CHR 0x27] @ '' to '' @ fname);
     ret \<leftarrow> send E (Get uri_path fd);
     out_result E ret;
     etag \<leftarrow> read_world (n_etag E);
     exec E Unhook_etag;
     closed \<leftarrow> world_op (os_close E fd);
     (if \<not> closed then do {
        err \<leftarrow> strerror E;
        output_msg o_finish (''Error writing to temporary file: '' @ err @ ''\<newline>'') }
      else do {
        changed \<leftarrow> run_editor E fname;
        if changed then edit_upload E uri_path fname etag else State_Monad.return () });
     removed \<leftarrow> world_op (os_unlink E fname);
     (if \<not> removed then do {
        err \<leftarrow> strerror E;
        say (''edit: Could not delete temporary file '' @ fname @ '':\<newline>'' @ err @ ''\<newline>'') }
      else State_Monad.return ());
     is_checkout \<leftarrow> is_vcr E uri_path;
     (if is_checkout = 2 then execute_checkin E (Some uri_path) else State_Monad.return ());
     (case lk of
        Some l \<Rightarrow> do {
          out_start_uri E ''Unlocking'' uri_path;
          ret \<leftarrow> send E (Unlock l);
          out_result E ret;
          exec E (Lockstore_remove l) }
      | None \<Rightarrow> State_Monad.return ()) }"

text \<open>The branch that takes a lock.\<close>

definition edit_locked :: "'w env \<Rightarrow> cstring \<Rightarrow> cstring \<Rightarrow> int \<Rightarrow> ('w, unit) handler_m" where
  "edit_locked E uri_path fname d = do {
     server \<leftarrow> read_world (n_server_uri E);
     owner \<leftarrow> getowner;
     out_start_uri E ''Locking'' uri_path;
     let lk = (ne_lock_create E)\<lparr>l_uri := server\<lparr>u_path := Some uri_path\<rparr>, l_owner := owner\<rparr>;
     note_event (Locked lk);
     (ret, lk') \<leftarrow> world_op (n_lock E lk);
     ok \<leftarrow> out_handle E ret;
     if ok then do {
       exec E (Lockstore_add lk');
       edit_session E uri_path fname d (Some lk') }
     else do { world_op (os_close E d); State_Monad.return () } }"

definition execute_edit :: "'w env \<Rightarrow> cstring \<Rightarrow> ('w, unit) handler_m" where
  "execute_edit E native_path = do {
     uri_path \<leftarrow> uri_resolve_native E native_path;
     t \<leftarrow> getrestype E uri_path;
     if t = resr_collection then
       say (''You cannot edit a collection resource ('' @ uri_path @ '').\<newline>'')
     else do {
       can_lock \<leftarrow> is_lockable E uri_path;
       template \<leftarrow> edit_template uri_path;
       (fd, fname) \<leftarrow> world_op (os_mkstemp E template);
       (case fd of
          None \<Rightarrow> do {
            err \<leftarrow> strerror E;
            say (''Could not create temporary file '' @ fname @ '':\<newline>'' @ err @ ''\<newline>'') }
        | Some d \<Rightarrow> do {
            ok \<leftarrow> world_op (os_fchmod E d);
            if \<not> ok then do {
              err \<leftarrow> strerror E;
              say (''Could not set file permissions for '' @ fname @ '':\<newline>'' @ err @ ''\<newline>'') }
            else if can_lock then edit_locked E uri_path fname d
            else edit_session E uri_path fname d None }) } }"

section \<open>Lemmas\<close>

lemma keeps_getowner: "gr.keeps Q getowner" "ss.keeps getowner"
  unfolding getowner_def by (auto intro!: handler_frames)

lemma is_lockable_frames: "gr.keeps harmless (is_lockable E p)" "ss.keeps (is_lockable E p)"
  unfolding is_lockable_def by (auto intro!: handler_frames)

lemma is_vcr_frames: "gr.keeps harmless (is_vcr E p)" "ss.keeps (is_vcr E p)"
  unfolding is_vcr_def by (auto intro!: handler_frames)

lemmas edit_frames =
  handler_frames keeps_getowner is_lockable_frames is_vcr_frames coll_path_frames req_result_frames

text \<open>The events that take or release a lock.\<close>

fun lock_event :: "event \<Rightarrow> bool" where
  "lock_event (Locked l) \<longleftrightarrow> True"
| "lock_event (Req (Unlock l)) \<longleftrightarrow> True"
| "lock_event (Cmd (Lockstore_add l)) \<longleftrightarrow> True"
| "lock_event (Cmd (Lockstore_remove l)) \<longleftrightarrow> True"
| "lock_event e \<longleftrightarrow> False"

definition lock_events :: "'w shell \<Rightarrow> event list" where
  "lock_events s = filter lock_event (s_trace s)"

lemma harmless_no_lock: "harmless e \<Longrightarrow> \<not> lock_event e"
  by (cases e rule: harmless.cases) simp_all

lemma lock_free: "gr.keeps (\<lambda>e. \<not> lock_event e) m \<Longrightarrow> lock_events (snd (run_state m s)) = lock_events s"
proof -
  assume "gr.keeps (\<lambda>e. \<not> lock_event e) m"
  then obtain es where "s_trace (snd (run_state m s)) = s_trace s @ es" "list_all (\<lambda>e. \<not> lock_event e) es"
    by (auto simp: gr.keeps_def grows_by_def)
  then show ?thesis by (simp add: lock_events_def list_all_iff)
qed

lemma harmless_lock_free: "gr.keeps harmless m \<Longrightarrow> gr.keeps (\<lambda>e. \<not> lock_event e) m"
  by (rule grows_mono, assumption) (rule harmless_no_lock)

lemmas lock_free_parts =
  keeps_output(1,3,5) [THEN harmless_lock_free] keeps_result(1,3) [THEN harmless_lock_free]
  keeps_out(1,3) [THEN harmless_lock_free] keeps_paths(1,3,5,7,9,11,13,15,17) [THEN harmless_lock_free]
  coll_path_frames(1) [THEN harmless_lock_free] req_result_frames(1) [THEN harmless_lock_free]
  is_vcr_frames(1) [THEN harmless_lock_free]

lemma checkout_lock_free:
  "gr.keeps (\<lambda>e. \<not> lock_event e) (execute_checkout E p)"
  "gr.keeps (\<lambda>e. \<not> lock_event e) (execute_checkin E p)"
  unfolding execute_checkout_def execute_checkin_def simple_request_def
  by (auto intro!: handler_frames lock_free_parts)

lemma upload_lock_free: "gr.keeps (\<lambda>e. \<not> lock_event e) (upload_loop n E u fd)"
  by (induction n) (auto intro!: handler_frames lock_free_parts)

lemma editor_lock_free:
  "gr.keeps (\<lambda>e. \<not> lock_event e) (run_editor E f)"
  "gr.keeps (\<lambda>e. \<not> lock_event e) (edit_upload E u f etag)"
  unfolding run_editor_def edit_upload_def Let_def
  by (auto intro!: handler_frames lock_free_parts upload_lock_free)

lemma lock_events_simps [simp]:
  "lock_events (s\<lparr>s_trace := s_trace s @ [e]\<rparr>) = lock_events s @ (if lock_event e then [e] else [])"
  "lock_events (s\<lparr>s_ub := v\<rparr>) = lock_events s"
  "lock_events (s\<lparr>s_world := w\<rparr>) = lock_events s"
  by (simp_all add: lock_events_def)

lemma lock_events_send [simp]:
  "lock_events (snd (run_state (send E r) s)) = lock_events s @ (if lock_event (Req r) then [Req r] else [])"
  "lock_events (snd (run_state (exec E c) s)) = lock_events s @ (if lock_event (Cmd c) then [Cmd c] else [])"
  "lock_events (snd (run_state (world_op f) s)) = lock_events s"
  by (simp_all add: send_def exec_def world_op_def split_def)

lemmas lock_quiet [simp] =
  lock_free_parts [THEN lock_free] checkout_lock_free [THEN lock_free] editor_lock_free [THEN lock_free]
  keeps_getowner(1) [THEN lock_free] is_lockable_frames(1) [THEN harmless_lock_free, THEN lock_free]

lemma edit_template_quiet [simp]: "lock_events (snd (run_state (edit_template u) s)) = lock_events s"
  by (simp add: edit_template_def Let_def)

lemma lock_events_if [simp]:
  "lock_events (snd (run_state (if b then m else n) s)) =
     (if b then lock_events (snd (run_state m s)) else lock_events (snd (run_state n s)))"
  by simp

lemma edit_session_locks:
  "lock_events (snd (run_state (edit_session E u f fd lk) s)) = lock_events s @
     (case lk of Some l \<Rightarrow> [Req (Unlock l), Cmd (Lockstore_remove l)] | None \<Rightarrow> [])"
  by (simp add: edit_session_def split_def split: option.split)

lemma edit_locked_events:
  "\<exists>lk granted. lock_events (snd (run_state (edit_locked E u f fd) s)) = lock_events s @ [Locked lk] \<or>
     lock_events (snd (run_state (edit_locked E u f fd) s)) = lock_events s @
       [Locked lk, Cmd (Lockstore_add granted), Req (Unlock granted), Cmd (Lockstore_remove granted)]"
  by (simp add: edit_locked_def split_def Let_def edit_session_locks)

text \<open>A line that is answered with yes takes at least one character of the input.\<close>

lemma yesno_consumes: "yesno inp = (True, left) \<Longrightarrow> length left < length inp"
proof (cases inp)
  case Nil
  then show "yesno inp = (True, left) \<Longrightarrow> length left < length inp" by (simp add: yesno_def rpmatch_def)
next
  case (Cons c cs)
  assume "yesno inp = (True, left)"
  then have "left = drop 1 (dropWhile (\<lambda>c. c \<noteq> CHR 0x0A) inp)"
    using yesno_loop_rest [of "[]" inp] by (auto simp: yesno_def split: prod.splits)
  moreover have "length (dropWhile (\<lambda>c. c \<noteq> CHR 0x0A) inp) \<le> length inp" by (rule length_dropWhile_le)
  ultimately show "length left < length inp" using Cons by auto
qed

lemma upload_round_input:
  "s_input (snd (run_state (output_msg t m) s)) = s_input s"
  "s_input (snd (run_state (send E r) s)) = s_input s"
  "s_input (snd (run_state (out_handle E ret) s)) = s_input s"
  by (auto simp: output_msg_def send_def world_op_def out_handle_def out_result_def out_success_def split_def
      split: ne_ret.split option.split)

lemma upload_loop_returns:
  "length (s_input s) < n \<Longrightarrow> fst (run_state (upload_loop n E u fd) s)"
proof (induction n arbitrary: s)
  case (Suc n)
  define msg where "msg = ''Uploading changes to `'' @ u @ [CHR 0x27]"
  define t where "t = snd (run_state (output_msg o_upload msg) s)"
  define ret where "ret = fst (run_state (send E (Put u fd)) t)"
  define v where "v = snd (run_state (out_handle E ret) (snd (run_state (send E (Put u fd)) t)))"
  have v: "s_input v = s_input s"
    by (simp add: v_def t_def upload_round_input)
  define w where "w = snd (run_state ask_yesno (v\<lparr>s_trace := s_trace v @ [Out ''Try uploading again (y/n)? '']\<rparr>))"
  have unroll: "fst (run_state (upload_loop (Suc n) E u fd) s) \<longleftrightarrow>
      ret = NE_OK \<or> \<not> fst (yesno (s_input v)) \<or> fst (run_state (upload_loop n E u fd) w)"
    by (simp add: split_def w_def v_def t_def ret_def msg_def ask_yesno_def Let_def)
  have "length (s_input w) < n" if yes: "fst (yesno (s_input v))"
  proof -
    from yes obtain left where y: "yesno (s_input v) = (True, left)" by (cases "yesno (s_input v)") auto
    then have "s_input w = left" by (simp add: w_def ask_yesno_def Let_def split_def)
    with yesno_consumes [OF y] Suc.prems v show ?thesis by simp
  qed
  with Suc.IH [of w] show ?case unfolding unroll by blast
qed simp

definition returns_lock :: "'w shell \<Rightarrow> 'w shell \<Rightarrow> bool" where
  "returns_lock s t \<longleftrightarrow> (\<exists>lk granted. lock_events t \<in>
     {lock_events s,
      lock_events s @ [Locked lk],
      lock_events s @ [Locked lk, Cmd (Lockstore_add granted), Req (Unlock granted),
        Cmd (Lockstore_remove granted)]})"

lemma returns_lock_none: "lock_events t = lock_events s \<Longrightarrow> returns_lock s t"
  by (simp add: returns_lock_def)

lemma returns_lock_locked:
  "lock_events t = lock_events s \<Longrightarrow> returns_lock s (snd (run_state (edit_locked E u f fd) t))"
  using edit_locked_events [of E u f fd t] by (auto simp: returns_lock_def)

lemma execute_edit_lock: "returns_lock s (snd (run_state (execute_edit E path) s))"
  unfolding execute_edit_def
  by (auto simp: split_def edit_session_locks intro!: returns_lock_none returns_lock_locked
      split: option.split)

section \<open>Properties\<close>


text \<open>The loop that offers to upload again ends: each round that is repeated has read a line of
  the user, so that a number of rounds greater than the length of the input is enough.\<close>

theorem upload_loop_ends:
  "fst (run_state (upload_loop (Suc (length (s_input s))) E u fd) s)"
  by (rule upload_loop_returns) simp

text \<open>Changes are detected by the modification time alone, in seconds: a file that was changed
  within the second of the download counts as unchanged and is not uploaded.\<close>

lemma editor_mtime_only:
  assumes "os_stat E f (s_world s) = Some b"
    and "\<And>c. \<exists>a. os_stat E f (snd (os_system E c (s_world s))) = Some a \<and> st_mtime a = st_mtime b"
  shows "\<not> fst (run_state (run_editor E f) s)"
proof -
  define opt where "opt = get_string opt_editor (s_opts s)"
  define cmd where "cmd = take (BUFSIZ - 1) ((case opt of Some e \<Rightarrow> e
      | None \<Rightarrow> (case os_getenv E ''EDITOR'' of Some e \<Rightarrow> e | None \<Rightarrow> ''vi'')) @ '' '' @ f)"
  obtain a where "os_stat E f (snd (os_system E cmd (s_world s))) = Some a" "st_mtime a = st_mtime b"
    using assms(2) by blast
  then show ?thesis
    using assms(1) by (simp add: run_editor_def Let_def split_def world_op_def cmd_def opt_def)
qed

end
