(* ===== verification/Connection.thy ===== *)
theory Connection
  imports Edit
begin

text \<open>
  Opening and closing the connection (\<open>src/cadaver.c\<close>): the URL, TLS with server and client
  certificates, proxy and .netrc, the capabilities of the server and the first collection.
\<close>

section \<open>TLS\<close>

text \<open>Certificates are neon's: what the code asks of them.\<close>

record clicert =
  cc_encrypted :: bool
  cc_name :: "cstring option"
  cc_decrypt :: "cstring \<Rightarrow> bool"

record server_cert =
  sc_identity :: "cstring option"
  sc_digest :: "cstring option"
  sc_subject :: cstring
  sc_issuer :: cstring
  sc_from :: cstring
  sc_to :: cstring

record ssl_env =
  clicert_fromuri :: "cstring \<Rightarrow> clicert option"
  clicert_read :: "cstring \<Rightarrow> clicert option"
  stdin_isatty :: bool

text \<open>\<open>cert_verify\<close>: True is the return value 0, the certificate is accepted.\<close>

definition cert_verify :: "ssl_env \<Rightarrow> bool \<Rightarrow> server_cert \<Rightarrow> ('w, bool) handler_m" where
  "cert_verify ssl idmismatch c = do {
     (case sc_identity c of
        Some ident \<Rightarrow> say (''WARNING: Untrusted server certificate presented for `'' @ ident @ [CHR 0x27] @ '':\<newline>'')
      | None \<Rightarrow> say ''WARNING: Untrusted server certificate presented:\<newline>\<newline>'');
     (case sc_digest c of
        Some t \<Rightarrow> say (''Server certificate SHA-256 digest: '' @ t @ ''\<newline>'')
      | None \<Rightarrow> State_Monad.return ());
     u \<leftarrow> gets s_uri;
     (if idmismatch then do {
        say (''Certificate was issued to hostname `'' @ str_or_null (sc_identity c) @ [CHR 0x27]
          @ '' rather than `'' @ str_or_null (u_host u) @ [CHR 0x27] @ ''\<newline>'');
        say ''This connection could have been intercepted.\<newline>'' }
      else State_Monad.return ());
     say (''Issued to: '' @ sc_subject c @ ''\<newline>'');
     say (''Issued by: '' @ sc_issuer c @ ''\<newline>'');
     say (''Certificate is valid from '' @ sc_from c @ '' to '' @ sc_to c @ ''\<newline>'');
     if stdin_isatty ssl then do {
       say ''Do you wish to accept the certificate? (y/n) '';
       ask_yesno }
     else do {
       say ''Certificate rejected.\<newline>'';
       State_Monad.return False } }"

text \<open>The loop of at most three passwords: is the certificate still encrypted after it?\<close>

fun decrypt_loop :: "nat \<Rightarrow> 'w env \<Rightarrow> clicert \<Rightarrow> ('w, bool) handler_m" where
  "decrypt_loop 0 E cc = State_Monad.return True"
| "decrypt_loop (Suc n) E cc = do {
     pass \<leftarrow> world_op (os_getpass E ''Decryption password: '');
     (case pass of
        None \<Rightarrow> State_Monad.return True
      | Some p \<Rightarrow>
          if cc_decrypt cc p then State_Monad.return False
          else do { say ''Password incorrect, try again.\<newline>''; decrypt_loop n E cc }) }"

definition use_clicert :: "'w env \<Rightarrow> cstring \<Rightarrow> clicert option \<Rightarrow> ('w, unit) handler_m" where
  "use_clicert E name found =
     (case found of
        None \<Rightarrow> say (''Could not load client certificate from `'' @ name @ [CHR 0x27] @ ''.\<newline>'')
      | Some cc \<Rightarrow> do {
          still \<leftarrow> (if cc_encrypted cc then do {
                      say (''Client certificate `'' @ (case cc_name cc of Some f \<Rightarrow> f | None \<Rightarrow> name)
                        @ [CHR 0x27] @ '' is encrypted.\<newline>'');
                      decrypt_loop 3 E cc }
                    else State_Monad.return False);
          if \<not> still then do {
            say ''Using client certificate.\<newline>'';
            exec E Set_clicert }
          else State_Monad.return () })"

definition setup_ssl :: "'w env \<Rightarrow> ssl_env \<Rightarrow> ('w, unit) handler_m" where
  "setup_ssl E ssl = do {
     ccfn \<leftarrow> string_option opt_clicert;
     ccuri \<leftarrow> string_option opt_clicert_uri;
     (case ccuri of
        Some u \<Rightarrow> use_clicert E u (clicert_fromuri ssl u)
      | None \<Rightarrow>
          (case ccfn of
             Some f \<Rightarrow> use_clicert E f (clicert_read ssl f)
           | None \<Rightarrow> State_Monad.return ())) }"

section \<open>Closing\<close>

text \<open>The path of the previous collection is freed and the pointer kept.\<close>

definition free_lastwp :: "('w, unit) handler_m" where
  "free_lastwp = do {
     lastwp \<leftarrow> gets s_lastwp;
     (case lastwp of
        No_pointer \<Rightarrow> State_Monad.return ()
      | Live p \<Rightarrow> modify (\<lambda>s. s\<lparr>s_lastwp := Freed\<rparr>)
      | Freed \<Rightarrow> undefined_behaviour ()) }"

definition close_connection :: "'w env \<Rightarrow> ('w, unit) handler_m" where
  "close_connection E = do {
     sess \<leftarrow> gets s_sess;
     (if sess then exec E Session_destroy else State_Monad.return ());
     modify (\<lambda>s. s\<lparr>s_sess := False\<rparr>);
     connected \<leftarrow> gets s_connected;
     u \<leftarrow> gets s_uri;
     (case (if connected then u_host u else None) of
        Some host \<Rightarrow> say (''Connection to `'' @ host @ [CHR 0x27] @ '' closed.\<newline>'')
      | None \<Rightarrow> State_Monad.return ());
     modify (\<lambda>s. s\<lparr>s_connected := False, s_uri := empty_uri\<rparr>);
     free_lastwp }"

section \<open>Opening\<close>

text \<open>The URI of the session made of the parsed URL: the port and the trailing slash.\<close>

definition session_uri :: "'w env \<Rightarrow> uri \<Rightarrow> uri" where
  "session_uri E u =
     (let u = (if u_port u = 0 then u\<lparr>u_port := ne_uri_defaultport E (u_scheme u)\<rparr> else u)
      in if ne_path_has_trailing_slash E (path_of u) then u
         else u\<lparr>u_path := Some (path_of u @ [slash])\<rparr>)"

text \<open>The scheme: TLS is set up for https; False is \<open>goto fail\<close>.\<close>

definition prepare_scheme :: "'w env \<Rightarrow> ssl_env \<Rightarrow> cstring \<Rightarrow> cstring \<Rightarrow> ('w, bool) handler_m" where
  "prepare_scheme E ssl url scheme =
     (if strcaseeq scheme ''https'' then
        (if \<not> ne_has_ssl E then do {
           say (''No SSL/TLS support, cannot use URL `'' @ url @ [CHR 0x27] @ ''\<newline>'');
           State_Monad.return False }
         else do { setup_ssl E ssl; State_Monad.return True })
      else if \<not> strcaseeq scheme ''http'' then do {
        say (''URL scheme '' @ [CHR 0x27] @ scheme @ [CHR 0x27] @ '' not supported.\<newline>'');
        State_Monad.return False }
      else State_Monad.return True)"

text \<open>Credentials of the .netrc file: those of an earlier host stay when there are none.\<close>

definition netrc_creds :: "cstring \<Rightarrow> ('w, unit) handler_m" where
  "netrc_creds host =
     modify (\<lambda>s. case search_netrc (s_netrc s) host of
         Some found \<Rightarrow>
           (case (n_account found, n_password found) of
              (Some a, Some p) \<Rightarrow> s\<lparr>s_creds := Some (a, p)\<rparr>
            | _ \<Rightarrow> s)
       | None \<Rightarrow> s)"

definition proxy_setup :: "'w env \<Rightarrow> cstring option \<Rightarrow> int \<Rightarrow> ('w, unit) handler_m" where
  "proxy_setup E proxy_host proxy_port = do {
     systemproxy \<leftarrow> bool_option opt_systemproxy;
     if systemproxy then exec E System_proxy
     else (case proxy_host of
             Some h \<Rightarrow> do {
               modify (\<lambda>s. s\<lparr>s_proxy := Some h\<rparr>);
               exec E (Session_proxy h proxy_port) }
           | None \<Rightarrow> State_Monad.return ()) }"

text \<open>The switch on the result of \<open>ne_options2\<close>: True when the connection stands.\<close>

definition open_result ::
  "'w env \<Rightarrow> uri \<Rightarrow> cstring option \<Rightarrow> int \<Rightarrow> ne_ret \<Rightarrow> capabilities \<Rightarrow> ('w, bool) handler_m" where
  "open_result E u proxy_host proxy_port ret caps =
     (case ret of
        NE_OK \<Rightarrow> do {
          tol \<leftarrow> is_tolerant;
          (if \<not> dav_class1 caps then
             say ((if tol then ''Warning'' else ''Error'')
               @ '': Location does not advertise WebDAV class 1 support.\<newline>'')
           else State_Monad.return ());
          if \<not> dav_class1 caps \<and> \<not> tol then State_Monad.return False
          else set_path E (path_of u) }
      | NE_CONNECT \<Rightarrow> do {
          err \<leftarrow> last_error E;
          proxy \<leftarrow> gets s_proxy;
          say (''Could not connect to `''
            @ (if proxy_host \<noteq> None then str_or_null proxy else str_or_null (u_host u)) @ [CHR 0x27] @ '' on port ''
            @ (if proxy_host \<noteq> None then show_int proxy_port else show_nat (u_port u)) @ '':\<newline>'' @ err @ ''\<newline>'');
          State_Monad.return False }
      | NE_LOOKUP \<Rightarrow> do {
          err \<leftarrow> last_error E; say (err @ ''\<newline>''); State_Monad.return False }
      | _ \<Rightarrow> do {
          err \<leftarrow> last_error E;
          say (''Could not open collection:\<newline>'' @ err @ ''\<newline>'');
          State_Monad.return False })"

text \<open>From the creation of the session on; True when the connection stands.\<close>

definition open_session ::
  "'w env \<Rightarrow> ssl_env \<Rightarrow> cstring \<Rightarrow> uri \<Rightarrow> cstring \<Rightarrow> cstring \<Rightarrow> cstring option \<Rightarrow> ('w, bool) handler_m" where
  "open_session E ssl url u scheme host proxy_host = do {
     modify (\<lambda>s. s\<lparr>s_uri := u\<rparr>);
     exec E (Session_create scheme host (u_port u));
     modify (\<lambda>s. s\<lparr>s_sess := True\<rparr>);
     prepared \<leftarrow> prepare_scheme E ssl url scheme;
     if \<not> prepared then State_Monad.return False
     else do {
       exec E Session_setup;
       keepalive \<leftarrow> gets (\<lambda>s. get_bool_option opt_keepalive (s_opts s));
       expect100 \<leftarrow> gets (\<lambda>s. get_bool_option opt_expect100 (s_opts s));
       exec E (Session_flags keepalive expect100);
       port_opt \<leftarrow> string_option opt_proxy_port;
       let proxy_port = (case (proxy_host, port_opt) of
                           (Some h, Some p) \<Rightarrow> to_int (atol p) | _ \<Rightarrow> 8080);
       netrc_creds host;
       modify (\<lambda>s. s\<lparr>s_connected := False\<rparr>);
       proxy_setup E proxy_host proxy_port;
       note_event (Query ''OPTIONS'' (path_of u));
       (ret, caps) \<leftarrow> world_op (n_options E (path_of u));
       modify (\<lambda>s. s\<lparr>s_caps := caps\<rparr>);
       stands \<leftarrow> open_result E u proxy_host proxy_port ret caps;
       (if stands then modify (\<lambda>s. s\<lparr>s_connected := True\<rparr>) else State_Monad.return ());
       State_Monad.return stands } }"

definition open_connection :: "'w env \<Rightarrow> ssl_env \<Rightarrow> cstring \<Rightarrow> ('w, unit) handler_m" where
  "open_connection E ssl url = do {
     proxy_host \<leftarrow> string_option opt_proxy;
     close_connection E;
     let (parsed, u) = ne_uri_parse E url;
     modify (\<lambda>s. s\<lparr>s_uri := u\<rparr>);
     stands \<leftarrow>
       (case (if parsed then (u_path u, u_scheme u, u_host u) else (None, None, None)) of
          (Some path, Some scheme, Some host) \<Rightarrow>
            if u_userinfo u \<noteq> None then do {
              say (''User info must not be used in URL `'' @ url @ [CHR 0x27] @ ''\<newline>'');
              State_Monad.return False }
            else open_session E ssl url (session_uri E u) scheme host proxy_host
        | _ \<Rightarrow> do {
            say (''Could not parse URL `'' @ url @ [CHR 0x27] @ ''\<newline>'');
            State_Monad.return False });
     if stands then State_Monad.return () else close_connection E }"

text \<open>\<open>set_proxy\<close>: the host and the port of HOST[:PORT].\<close>

definition set_proxy :: "cstring \<Rightarrow> ('w, unit) handler_m" where
  "set_proxy str =
     (case strchr str CHR '':'' of
        Some pnt \<Rightarrow>
          modify (\<lambda>s. s\<lparr>s_opts := set_option opt_proxy
            (HeapString (take (length str - length pnt) str))
            (if tl pnt \<noteq> [] then set_option opt_proxy_port (HeapString (tl pnt)) (s_opts s) else s_opts s)\<rparr>)
      | None \<Rightarrow> modify (\<lambda>s. s\<lparr>s_opts := set_option opt_proxy (HeapString str) (s_opts s)\<rparr>))"

text \<open>The store of owned locks is created empty; the file option is only read.\<close>

definition init_locking :: "('w, cstring option) handler_m" where
  "init_locking = string_option opt_lockstore"

section \<open>Lemmas\<close>

lemma keeps_modify_ss:
  "ss.keeps (modify (\<lambda>s. s\<lparr>s_proxy := p\<rparr>))" "ss.keeps (modify (\<lambda>s. s\<lparr>s_caps := c\<rparr>))"
  by (auto intro!: keeps_modify simp: same_session_def)

lemma decrypt_frames: "ss.keeps (decrypt_loop n E cc)"
  by (induction n) (auto intro!: handler_frames split: option.split)

lemma setup_ssl_frames: "ss.keeps (setup_ssl E ssl)"
proof -
  have "ss.keeps (use_clicert E n f)" for n f
    unfolding use_clicert_def by (auto intro!: handler_frames decrypt_frames split: option.split)
  then show ?thesis unfolding setup_ssl_def by (auto intro!: handler_frames split: option.split)
qed

lemma connection_frames:
  "ss.keeps (prepare_scheme E ssl url scheme)" "ss.keeps (proxy_setup E h p)"
  "ss.keeps (open_result E u h p ret caps)"
proof -
  show "ss.keeps (prepare_scheme E ssl url scheme)"
    unfolding prepare_scheme_def by (auto intro!: handler_frames setup_ssl_frames)
  show "ss.keeps (proxy_setup E h p)"
    unfolding proxy_setup_def by (auto intro!: handler_frames keeps_modify_ss split: option.split)
  have "ss.keeps is_tolerant" by (auto simp: is_tolerant_def intro!: frame_rules)
  then show "ss.keeps (open_result E u h p ret caps)"
    unfolding open_result_def by (cases ret) (auto intro!: handler_frames set_path_frames)
qed

section \<open>The invariant of the connection\<close>

definition connection_ok :: "'w shell \<Rightarrow> bool" where
  "connection_ok s \<longleftrightarrow>
     (s_connected s \<longrightarrow> s_sess s \<and> u_path (s_uri s) \<noteq> None \<and> u_host (s_uri s) \<noteq> None)"

lemma connection_ok_same: "same_session s t \<Longrightarrow> connection_ok s \<Longrightarrow> connection_ok t"
  by (simp add: same_session_def connection_ok_def)

lemma close_connection_closed:
  "\<not> s_connected (snd (run_state (close_connection E) s))"
  "connection_ok (snd (run_state (close_connection E) s))"
  "s_opts (snd (run_state (close_connection E) s)) = s_opts s"
  "s_lastwp (snd (run_state (close_connection E) s)) =
     (case s_lastwp s of Live p \<Rightarrow> Freed | No_pointer \<Rightarrow> No_pointer | Freed \<Rightarrow> Freed)"
  "s_ub (snd (run_state (close_connection E) s)) \<longleftrightarrow> s_ub s \<or> s_lastwp s = Freed"
  by (cases "s_lastwp s"; cases "u_host (s_uri s)";
      simp add: close_connection_def free_lastwp_def connection_ok_def exec_def world_op_def split_def)+

lemma ss_preserves: "ss.keeps m \<Longrightarrow> same_session s (snd (run_state m s))"
  by (rule same_sessionD)

text \<open>A session that stands: the fields set on the way are those at the end.\<close>

lemma run_ss:
  assumes "ss.keeps m"
  shows "s_uri (snd (run_state m s)) = s_uri s" "s_sess (snd (run_state m s)) = s_sess s"
    "s_connected (snd (run_state m s)) = s_connected s" "s_lastwp (snd (run_state m s)) = s_lastwp s"
    "s_opts (snd (run_state m s)) = s_opts s" "s_creds (snd (run_state m s)) = s_creds s"
    "s_netrc (snd (run_state m s)) = s_netrc s"
  using same_sessionD [OF assms, of s] by (simp_all add: same_session_def)

lemmas connection_fields =
  run_ss [OF keeps_exec(2)] run_ss [OF keeps_world_op(2)] run_ss [OF connection_frames(1)]
  run_ss [OF connection_frames(2)] run_ss [OF connection_frames(3)]

lemma netrc_creds_fields [simp]:
  "s_uri (snd (run_state (netrc_creds h) s)) = s_uri s" "s_sess (snd (run_state (netrc_creds h) s)) = s_sess s"
  "s_lastwp (snd (run_state (netrc_creds h) s)) = s_lastwp s"
  "s_netrc (snd (run_state (netrc_creds h) s)) = s_netrc s"
  "s_opts (snd (run_state (netrc_creds h) s)) = s_opts s"
  by (simp_all add: netrc_creds_def split: option.split)

lemma open_session_stands:
  assumes "fst (run_state (open_session E ssl url u scheme host proxy) s)"
  shows "s_connected (snd (run_state (open_session E ssl url u scheme host proxy) s))"
    "s_sess (snd (run_state (open_session E ssl url u scheme host proxy) s))"
    "s_uri (snd (run_state (open_session E ssl url u scheme host proxy) s)) = u"
  using assms
  by (auto simp: open_session_def Let_def split_def connection_fields split: if_splits)

lemma session_uri_fields:
  "u_host (session_uri E u) = u_host u" "u_path u \<noteq> None \<Longrightarrow> u_path (session_uri E u) \<noteq> None"
  by (auto simp: session_uri_def Let_def)

lemma open_connection_ok: "connection_ok (snd (run_state (open_connection E ssl url) s))"
proof -
  obtain parsed u where u: "ne_uri_parse E url = (parsed, u)" by fastforce
  show ?thesis
    using open_session_stands [where E = E and ssl = ssl and url = url and u = "session_uri E u"] session_uri_fields [where E = E and u = u]
    by (auto simp: open_connection_def u Let_def split_def close_connection_closed connection_ok_def
        split: option.splits if_splits)
qed

section \<open>Credentials of another host\<close>

definition creds_kept :: "cstring \<Rightarrow> 'w shell \<Rightarrow> 'w shell \<Rightarrow> bool" where
  "creds_kept h s t \<longleftrightarrow>
     (search_netrc (s_netrc s) h = None \<longrightarrow> s_creds t = s_creds s \<and> s_netrc t = s_netrc s)"

interpretation cr: state_relation "creds_kept h" for h
  by unfold_locales (auto simp: creds_kept_def)

lemma ss_creds: "ss.keeps m \<Longrightarrow> cr.keeps h m"
  by (rule cr.keepsI) (simp add: creds_kept_def run_ss)

lemma creds_modify:
  "(\<And>s. s_creds (f s) = s_creds s \<and> s_netrc (f s) = s_netrc s) \<Longrightarrow> cr.keeps h (modify f)"
  by (rule cr.keepsI) (simp add: creds_kept_def)

lemma creds_netrc: "cr.keeps h (netrc_creds h)"
  by (rule cr.keepsI) (simp add: creds_kept_def netrc_creds_def split: option.split)

lemma creds_close: "cr.keeps h (close_connection E)"
  unfolding close_connection_def free_lastwp_def
  by (auto intro!: cr.keeps_intros creds_modify ss_creds [OF keeps_exec(2)] ss_creds [OF keeps_say(2)]
      ss_creds [OF keeps_ub(2)] split: owned.split option.split)

lemmas creds_parts =
  connection_frames [THEN ss_creds] keeps_exec(2) [THEN ss_creds] keeps_say(2) [THEN ss_creds]
  keeps_note(2) [THEN ss_creds] keeps_world_op(2) [THEN ss_creds] keeps_reads(2,4,6,8,10) [THEN ss_creds]

lemma creds_open:
  assumes "u_host (snd (ne_uri_parse E url)) = Some h"
  shows "cr.keeps h (open_connection E ssl url)"
proof -
  have session: "cr.keeps h (open_session E ssl url u scheme h p)" for u scheme p
    unfolding open_session_def Let_def
    by (auto intro!: cr.keeps_intros creds_modify creds_netrc creds_parts)
  obtain parsed u where u: "ne_uri_parse E url = (parsed, u)" by fastforce
  have host: "u_host u = Some h" using assms u by simp
  have opened: "cr.keeps h (case (if parsed then (u_path u, u_scheme u, u_host u) else (None, None, None)) of
          (Some path, Some scheme, Some host) \<Rightarrow>
            if u_userinfo u \<noteq> None then do {
              say (''User info must not be used in URL `'' @ url @ [CHR 0x27] @ ''\<newline>'');
              State_Monad.return False }
            else open_session E ssl url (session_uri E u) scheme host proxy_host
        | _ \<Rightarrow> do {
            say (''Could not parse URL `'' @ url @ [CHR 0x27] @ ''\<newline>'');
            State_Monad.return False })" for proxy_host
    by (cases "u_path u"; cases "u_scheme u")
      (auto simp: host intro!: cr.keeps_intros creds_parts session)
  show ?thesis
    unfolding open_connection_def Let_def u prod.case
    by (intro cr.keeps_intros creds_modify creds_close creds_parts opened; simp)
qed

section \<open>Properties\<close>

text \<open>The credentials found for one host are offered to the next: when the .netrc file has no
  entry for the host of a new connection, the name and the password of the entry used before
  are still what the first challenge of the new server is answered with.\<close>

theorem netrc_creds_survive:
  assumes "u_host (snd (ne_uri_parse E url)) = Some h" "search_netrc (s_netrc s) h = None"
    and "s_creds s = Some (user, pass)" "length user < n" "length pass < n"
  shows "fst (run_state (supply_creds_server E n realm 0) (snd (run_state (open_connection E ssl url) s)))
    = Some (user, pass)"
proof -
  have "s_creds (snd (run_state (open_connection E ssl url) s)) = Some (user, pass)"
    using cr.keepsD [OF creds_open [OF assms(1), of ssl] surjective_pairing, of s] assms(2,3)
    by (simp add: creds_kept_def)
  then show ?thesis
    using assms(4,5) by (simp add: supply_creds_server_def strnzcpy_def)
qed

definition sample_ssl :: ssl_env where
  "sample_ssl = \<lparr>clicert_fromuri = (\<lambda>u. None), clicert_read = (\<lambda>f. None), stdin_isatty = False\<rparr>"

definition logged_in :: "sample shell" where
  "logged_in = sample_shell\<lparr>s_creds := Some (''bob'', ''secret''),
     s_netrc := [\<lparr>n_host = Some ''trusted'', n_account = Some ''bob'', n_password = Some ''secret''\<rparr>]\<rparr>"

theorem netrc_creds_survive_witness:
  "fst (run_state (supply_creds_server sample_env 256 ''realm'' 0)
     (snd (run_state (open_connection sample_env sample_ssl ''other'') logged_in))) = Some (''bob'', ''secret'')"
  by (rule netrc_creds_survive [where h = "''other''"])
    (simp_all add: sample_env_def logged_in_def empty_uri_def)

text \<open>C34: After any \<open>cd\<close>, opening a URL that does not parse frees the path of the previous
  collection twice: \<open>close_connection\<close> runs before the URL is looked at and again at the end,
  and does not reset the pointer it frees.\<close>

theorem open_double_free:
  assumes "s_lastwp s = Live p" "\<not> fst (ne_uri_parse E url)"
  shows "s_ub (snd (run_state (open_connection E ssl url) s))"
  using assms by (simp add: open_connection_def Let_def split_def close_connection_closed)

definition unparsed_env :: "sample env" where
  "unparsed_env = sample_env\<lparr>ne_uri_parse := (\<lambda>s. (False, empty_uri))\<rparr>"

theorem open_double_free_witness:
  "\<not> s_ub sample_shell \<and> s_ub (snd (run_state (open_connection unparsed_env sample_ssl '':'') sample_shell))"
proof
  show "\<not> s_ub sample_shell" by (simp add: sample_shell_def)
  have "s_lastwp sample_shell = Live ''/''" by (simp add: sample_shell_def)
  then show "s_ub (snd (run_state (open_connection unparsed_env sample_ssl '':'') sample_shell))"
    by (rule open_double_free) (simp add: unparsed_env_def)
qed

end
