(* ===== verification/Fnmatch.thy ===== *)
theory Fnmatch
  imports Cprelude
begin

text \<open>
  \<open>lib/fnmatch.c\<close>: matching of a name against a file name pattern, with which \<open>lib/glob/glob.c\<close>
  selects the entries of a directory.  A pointer into a string is the suffix that starts there;
  the terminator can be read at its end, and what is behind the terminator is \<open>None\<close>: a match
  that reads there has the result \<open>Overread\<close>.  Characters are compared as signed bytes.
\<close>

section \<open>Flags, characters, pointers\<close>

record fnm_flags =
  FNM_PATHNAME :: bool
  FNM_NOESCAPE :: bool
  FNM_PERIOD :: bool
  FNM_LEADING_DIR :: bool
  FNM_CASEFOLD :: bool

datatype fnm_result = FNM_MATCH | FNM_NOMATCH | Overread

abbreviation NUL :: char where
  "NUL \<equiv> CHR 0x00"

abbreviation backslash :: char where
  "backslash \<equiv> CHR 0x5C"

abbreviation solidus :: char where
  "solidus \<equiv> CHR ''/''"

definition signed_char :: "char \<Rightarrow> int" where
  "signed_char c = signed_take_bit 7 (int (code c))"

definition FOLD :: "fnm_flags \<Rightarrow> char \<Rightarrow> char" where
  "FOLD fl c = (if FNM_CASEFOLD fl then tolower c else c)"

text \<open>\<open>*p\<close> for a pointer that is not behind the terminator.\<close>

definition deref :: "cstring \<Rightarrow> char" where
  "deref p = (case p of [] \<Rightarrow> NUL | c # _ \<Rightarrow> c)"

text \<open>\<open>*p++\<close>: the character and the pointer after it.\<close>

definition get_char :: "cstring \<Rightarrow> char \<times> cstring option" where
  "get_char p = (case p of [] \<Rightarrow> (NUL, None) | c # cs \<Rightarrow> (c, Some cs))"

text \<open>A leading period, which no wildcard matches.\<close>

definition leading_period :: "fnm_flags \<Rightarrow> char option \<Rightarrow> cstring \<Rightarrow> bool" where
  "leading_period fl prev n \<longleftrightarrow> FNM_PERIOD fl \<and> deref n = CHR ''.'' \<and>
     (prev = None \<or> FNM_PATHNAME fl \<and> prev = Some solidus)"

section \<open>Brackets\<close>

text \<open>
  From \<open>matched\<close> on: the pattern after the closing bracket, or the result when there is none.
  \<open>c\<close> is the character read last.
\<close>

function (sequential) skip_bracket :: "fnm_flags \<Rightarrow> char \<Rightarrow> cstring option \<Rightarrow> fnm_result + cstring" where
  "skip_bracket fl c None = (if c = CHR '']'' \<or> c = NUL then Inl FNM_NOMATCH else Inl Overread)"
| "skip_bracket fl c (Some p) =
     (if c = CHR '']'' then Inr p
      else if c = NUL then Inl FNM_NOMATCH
      else case get_char p of
          (c', p') \<Rightarrow>
            if \<not> FNM_NOESCAPE fl \<and> c' = backslash then
              skip_bracket fl c' (case p' of Some (_ # q) \<Rightarrow> Some q | _ \<Rightarrow> None)
            else skip_bracket fl c' p')"
  by pat_completeness auto
termination
  by (relation "measure (\<lambda>(fl, c, p). case p of None \<Rightarrow> 0 | Some q \<Rightarrow> Suc (length q))")
    (auto simp: get_char_def split: list.splits option.splits if_splits)

text \<open>
  One turn of the loop over the items: \<open>Inl\<close> is the result of the whole match, \<open>Inr\<close> whether the
  item matches, with the character read last and the pointer.
\<close>

definition bracket_item ::
  "fnm_flags \<Rightarrow> char \<Rightarrow> char \<Rightarrow> cstring option \<Rightarrow> fnm_result + bool \<times> char \<times> cstring option" where
  "bracket_item fl ch c p =
     (let escaped = (\<not> FNM_NOESCAPE fl \<and> c = backslash)
      in case (if escaped then map_option get_char p else Some (c, p)) of
           None \<Rightarrow> Inl Overread
         | Some (cstart, p) \<Rightarrow>
             if c = NUL then Inl FNM_NOMATCH
             else case p of
                 None \<Rightarrow> Inl Overread
               | Some q \<Rightarrow>
                   (case get_char q of (c, p) \<Rightarrow>
                      let cstart = FOLD fl cstart; c = FOLD fl c;
                          inside = (\<lambda>cend. signed_char cstart \<le> signed_char ch \<and> signed_char ch \<le> signed_char cend)
                      in if FNM_PATHNAME fl \<and> c = solidus then Inl FNM_NOMATCH
                         else case p of
                             Some r \<Rightarrow>
                               if c = CHR ''-'' \<and> deref r \<noteq> CHR '']'' then
                                 (case get_char r of (cend, p) \<Rightarrow>
                                    (case (if \<not> FNM_NOESCAPE fl \<and> cend = backslash then map_option get_char p
                                           else Some (cend, p)) of
                                       None \<Rightarrow> Inl Overread
                                     | Some (cend, p) \<Rightarrow>
                                         if cend = NUL then Inl FNM_NOMATCH
                                         else case p of
                                             None \<Rightarrow> Inl Overread
                                           | Some t \<Rightarrow>
                                               (case get_char t of (c, p) \<Rightarrow> Inr (inside (FOLD fl cend), c, p))))
                               else Inr (inside cstart, c, Some r)
                           | None \<Rightarrow> Inr (inside cstart, c, None)))"

definition left_after :: "cstring option \<Rightarrow> nat" where
  "left_after p = (case p of None \<Rightarrow> 0 | Some q \<Rightarrow> Suc (length q))"

lemma left_after_simps [simp]: "left_after None = 0" "left_after (Some q) = Suc (length q)"
  by (simp_all add: left_after_def)

lemma get_char_left: "get_char q = (c, p) \<Longrightarrow> left_after p = length q"
  by (auto simp: get_char_def left_after_def split: list.splits)

lemma bracket_item_progress:
  "bracket_item fl ch c p = Inr (m, c', p') \<Longrightarrow> left_after p' < left_after p"
  unfolding bracket_item_def Let_def
  by (auto split: option.splits if_splits prod.splits dest!: get_char_left)

text \<open>The loop over the items, which a closing bracket ends: does the set contain the character?\<close>

function bracket_items ::
  "fnm_flags \<Rightarrow> char \<Rightarrow> char \<Rightarrow> cstring option \<Rightarrow> fnm_result + bool \<times> char \<times> cstring option" where
  "bracket_items fl ch c p =
     (case bracket_item fl ch c p of
        Inl r \<Rightarrow> Inl r
      | Inr (True, c', p') \<Rightarrow> Inr (True, c', p')
      | Inr (False, c', p') \<Rightarrow>
          if c' = CHR '']'' then Inr (False, c', p') else bracket_items fl ch c' p')"
  by pat_completeness auto

termination
  by (relation "measure (\<lambda>(fl, ch, c, p). left_after p)") (auto dest: bracket_item_progress)

declare bracket_items.simps [simp del]

text \<open>\<open>case '['\<close> from the test of \<open>not\<close> on: the rest of the pattern when the character fits.\<close>

definition match_bracket :: "fnm_flags \<Rightarrow> char \<Rightarrow> cstring \<Rightarrow> fnm_result + cstring" where
  "match_bracket fl ch p =
     (let inverted = (deref p = CHR ''!'' \<or> deref p = CHR ''^'');
          (c, p) = get_char (if inverted then tl p else p)
      in case bracket_items fl ch c p of
           Inl r \<Rightarrow> Inl r
         | Inr (True, c, p) \<Rightarrow>
             (case skip_bracket fl c p of
                Inl r \<Rightarrow> Inl r
              | Inr p \<Rightarrow> if inverted then Inl FNM_NOMATCH else Inr p)
         | Inr (False, c, p) \<Rightarrow>
             if inverted then (case p of Some p \<Rightarrow> Inr p | None \<Rightarrow> Inl Overread) else Inl FNM_NOMATCH)"

section \<open>The match\<close>

text \<open>
  The loop over what follows a star: the first character \<open>c\<close> that is neither \<open>?\<close> nor \<open>*\<close>, with
  the pattern from it on, and where the name is then.
\<close>

fun star_run :: "fnm_flags \<Rightarrow> cstring \<Rightarrow> cstring option \<Rightarrow> fnm_result + cstring \<times> cstring option" where
  "star_run fl [] n = Inr ([], n)"
| "star_run fl (c # p) n =
     (if c = CHR ''?'' \<or> c = CHR ''*'' then
        case n of
          None \<Rightarrow> if FNM_PATHNAME fl \<or> c = CHR ''?'' then Inl Overread else star_run fl p None
        | Some s \<Rightarrow>
            if FNM_PATHNAME fl \<and> deref s = solidus \<or> c = CHR ''?'' \<and> s = [] then Inl FNM_NOMATCH
            else star_run fl p (case s of [] \<Rightarrow> None | _ # t \<Rightarrow> Some t)
      else Inr (c # p, n))"

text \<open>The calls of \<open>fnmatch\<close> for the rests of the name that begin with the right character.\<close>

fun search_rest :: "(char \<Rightarrow> bool) \<Rightarrow> (cstring \<Rightarrow> fnm_result) \<Rightarrow> cstring \<Rightarrow> fnm_result" where
  "search_rest ok f [] = FNM_NOMATCH"
| "search_rest ok f (ch # n) =
     (if ok ch then
        case f (ch # n) of
          FNM_NOMATCH \<Rightarrow> search_rest ok f n
        | r \<Rightarrow> r
      else search_rest ok f n)"

lemma star_run_shorter: "star_run fl p n = Inr (q, m) \<Longrightarrow> length q \<le> length p"
  by (induction fl p n rule: star_run.induct) (auto split: if_splits option.splits simp: le_SucI)

lemma skip_bracket_shorter: "skip_bracket fl c p = Inr q \<Longrightarrow> length q < left_after p"
  by (induction fl c p rule: skip_bracket.induct)
    (auto split: if_splits prod.splits option.splits list.splits simp: get_char_def)

lemma bracket_items_progress:
  "bracket_items fl ch c p = Inr (m, c', p') \<Longrightarrow> left_after p' < left_after p"
proof (induction fl ch c p rule: bracket_items.induct)
  case hyps: (1 fl ch c p)
  show ?case
  proof (cases "bracket_item fl ch c p")
    case (Inr t)
    obtain b d q where t: "t = (b, d, q)" by (cases t)
    have "left_after q < left_after p" using Inr t bracket_item_progress by blast
    then show ?thesis
      using hyps Inr t by (subst (asm) (2) bracket_items.simps) (force split: bool.splits if_splits)
  next
    case (Inl r)
    with hyps.prems show ?thesis by (simp add: bracket_items.simps)
  qed
qed

lemma match_bracket_shorter: "match_bracket fl ch p = Inr q \<Longrightarrow> length q < length p"
proof -
  define r where "r = (if deref p = CHR ''!'' \<or> deref p = CHR ''^'' then tl p else p)"
  obtain c s where s: "get_char r = (c, s)" by (cases "get_char r")
  then have r: "left_after s \<le> length p" using get_char_left [OF s] by (simp add: r_def)
  assume "match_bracket fl ch p = Inr q"
  then have "\<exists>b d t. bracket_items fl ch c s = Inr (b, d, t) \<and> length q < left_after t"
    using s unfolding match_bracket_def Let_def r_def [symmetric]
    by (auto split: sum.splits prod.splits bool.splits option.splits if_splits dest: skip_bracket_shorter)
  with r show ?thesis by (auto dest: bracket_items_progress)
qed

text \<open>
  The loop of \<open>fnmatch\<close>: \<open>prev\<close> is the character of the name before the pointer, \<open>None\<close> at the
  beginning.
\<close>

function fnmatch_from :: "fnm_flags \<Rightarrow> cstring \<Rightarrow> char option \<Rightarrow> cstring \<Rightarrow> fnm_result" where
  "fnmatch_from fl [] prev n =
     (if n = [] \<or> FNM_LEADING_DIR fl \<and> deref n = solidus then FNM_MATCH else FNM_NOMATCH)"
| "fnmatch_from fl (c0 # p) prev n =
     (let c = FOLD fl c0
      in if c = CHR ''?'' then
           if n = [] \<or> FNM_PATHNAME fl \<and> deref n = solidus \<or> leading_period fl prev n then FNM_NOMATCH
           else fnmatch_from fl p (Some (deref n)) (tl n)
         else if c = backslash then
           if FNM_NOESCAPE fl then
             if FOLD fl (deref n) \<noteq> c then FNM_NOMATCH else fnmatch_from fl p (Some (deref n)) (tl n)
           else if FOLD fl (deref n) \<noteq> FOLD fl (deref p) then FNM_NOMATCH
           else case p of [] \<Rightarrow> Overread | _ # q \<Rightarrow> fnmatch_from fl q (Some (deref n)) (tl n)
         else if c = CHR ''*'' then
           if leading_period fl prev n then FNM_NOMATCH
           else case star_run fl p (Some n) of
               Inl r \<Rightarrow> r
             | Inr ([], _) \<Rightarrow> FNM_MATCH
             | Inr (q, None) \<Rightarrow> Overread
             | Inr (q, Some m) \<Rightarrow>
                 let c1 = FOLD fl (if \<not> FNM_NOESCAPE fl \<and> deref q = backslash then deref (tl q) else deref q)
                 in search_rest (\<lambda>ch. deref q = CHR ''['' \<or> FOLD fl ch = c1)
                      (fnmatch_from (fl\<lparr>FNM_PERIOD := False\<rparr>) q None) m
         else if c = CHR ''['' then
           if n = [] \<or> leading_period fl prev n then FNM_NOMATCH
           else case match_bracket fl (FOLD fl (deref n)) p of
               Inl r \<Rightarrow> r
             | Inr q \<Rightarrow> fnmatch_from fl q (Some (deref n)) (tl n)
         else if c \<noteq> FOLD fl (deref n) then FNM_NOMATCH
         else fnmatch_from fl p (Some (deref n)) (tl n))"
  by pat_completeness auto
termination
  by (relation "measure (\<lambda>(fl, p, b, n). length p)")
    (auto dest: star_run_shorter match_bracket_shorter)

declare fnmatch_from.simps [simp del]

definition fnmatch :: "cstring \<Rightarrow> cstring \<Rightarrow> fnm_flags \<Rightarrow> fnm_result" where
  "fnmatch pattern string fl = fnmatch_from fl pattern None string"

section \<open>Patterns and what they mean\<close>

text \<open>
  The documented meaning: characters, \<open>?\<close>, \<open>*\<close>, and sets of ranges (\<open>True\<close> for the complement),
  each with its text.
\<close>

datatype pat_token = Lit char | One | Many | Among bool "(char \<times> char) list"

type_synonym pat = "pat_token list"

definition item_tail :: "char \<times> char \<Rightarrow> cstring" where
  "item_tail r = (if fst r = snd r then [] else [CHR ''-'', snd r])"

definition render_item :: "char \<times> char \<Rightarrow> cstring" where
  "render_item r = fst r # item_tail r"

definition render_items :: "(char \<times> char) list \<Rightarrow> cstring" where
  "render_items rs = concat (map render_item rs)"

fun render_token :: "pat_token \<Rightarrow> cstring" where
  "render_token (Lit c) =
     (if c \<in> {CHR ''?'', CHR ''*'', CHR ''['', backslash} then [backslash, c] else [c])"
| "render_token One = ''?''"
| "render_token Many = ''*''"
| "render_token (Among inverted rs) =
     CHR ''['' # (if inverted then ''!'' else []) @ render_items rs @ '']''"

definition render :: "pat \<Rightarrow> cstring" where
  "render ps = concat (map render_token ps)"

definition within :: "char \<Rightarrow> (char \<times> char) list \<Rightarrow> bool" where
  "within c rs \<longleftrightarrow> (\<exists>(a, b) \<in> set rs. signed_char a \<le> signed_char c \<and> signed_char c \<le> signed_char b)"

function matches :: "pat \<Rightarrow> string \<Rightarrow> bool" where
  "matches [] s \<longleftrightarrow> s = []"
| "matches (Lit a # ps) s \<longleftrightarrow> s \<noteq> [] \<and> hd s = a \<and> matches ps (tl s)"
| "matches (One # ps) s \<longleftrightarrow> s \<noteq> [] \<and> matches ps (tl s)"
| "matches (Among inverted rs # ps) s \<longleftrightarrow> s \<noteq> [] \<and> within (hd s) rs \<noteq> inverted \<and> matches ps (tl s)"
| "matches (Many # ps) s \<longleftrightarrow> matches ps s \<or> (case s of [] \<Rightarrow> False | _ # t \<Rightarrow> matches (Many # ps) t)"
  by pat_completeness auto
termination by (relation "measure (\<lambda>(ps, s). length ps + length s)") auto

declare matches.simps(5) [simp del]

text \<open>
  The patterns the code treats as documented: sets without the characters that have a meaning in a
  bracket, and no star that follows a star directly or after question marks.
\<close>

definition plain :: "char \<Rightarrow> bool" where
  "plain c \<longleftrightarrow> c \<notin> {NUL, CHR '']'', CHR ''-'', CHR ''!'', CHR ''^'', backslash}"

fun token_ok :: "pat_token \<Rightarrow> bool" where
  "token_ok (Lit c) \<longleftrightarrow> c \<noteq> NUL"
| "token_ok (Among inverted rs) \<longleftrightarrow> rs \<noteq> [] \<and> list_all (\<lambda>(a, b). plain a \<and> plain b) rs"
| "token_ok _ \<longleftrightarrow> True"

definition starts_set :: "pat \<Rightarrow> bool" where
  "starts_set ps \<longleftrightarrow> (case ps of Lit _ # _ \<Rightarrow> True | Among _ _ # _ \<Rightarrow> True | _ \<Rightarrow> False)"

fun stars_apart :: "pat \<Rightarrow> bool" where
  "stars_apart [] \<longleftrightarrow> True"
| "stars_apart (Many # ps) \<longleftrightarrow>
     (let qs = dropWhile (\<lambda>t. t = One) ps in qs = [] \<or> starts_set qs) \<and> stars_apart ps"
| "stars_apart (_ # ps) \<longleftrightarrow> stars_apart ps"

definition pat_ok :: "pat \<Rightarrow> bool" where
  "pat_ok ps \<longleftrightarrow> list_all token_ok ps \<and> stars_apart ps"

text \<open>The flags that \<open>glob\<close> passes when it is called without \<open>GLOB_NOESCAPE\<close>.\<close>

definition simple_flags :: "fnm_flags \<Rightarrow> bool" where
  "simple_flags fl \<longleftrightarrow>
     \<not> FNM_PATHNAME fl \<and> \<not> FNM_NOESCAPE fl \<and> \<not> FNM_LEADING_DIR fl \<and> \<not> FNM_CASEFOLD fl"

text \<open>With \<open>FNM_PERIOD\<close>, a period at the beginning is only matched by itself.\<close>

definition hidden :: "fnm_flags \<Rightarrow> pat \<Rightarrow> string \<Rightarrow> bool" where
  "hidden fl ps s \<longleftrightarrow> FNM_PERIOD fl \<and> deref s = CHR ''.'' \<and> (case ps of Lit _ # _ \<Rightarrow> False | _ \<Rightarrow> True)"

section \<open>Lemmas\<close>

lemma simple_flags_simps:
  "simple_flags fl \<Longrightarrow> \<not> FNM_PATHNAME fl" "simple_flags fl \<Longrightarrow> \<not> FNM_NOESCAPE fl"
  "simple_flags fl \<Longrightarrow> \<not> FNM_LEADING_DIR fl" "simple_flags fl \<Longrightarrow> FOLD fl c = c"
  "simple_flags fl \<Longrightarrow> simple_flags (fl\<lparr>FNM_PERIOD := p\<rparr>)"
  by (simp_all add: simple_flags_def FOLD_def)

lemma deref_simps [simp]: "deref [] = NUL" "deref (c # p) = c"
  by (simp_all add: deref_def)

lemma get_char_simps [simp]: "get_char [] = (NUL, None)" "get_char (c # p) = (c, Some p)"
  by (simp_all add: get_char_def)

lemma render_simps [simp]: "render [] = []" "render (t # ps) = render_token t @ render ps"
  by (simp_all add: render_def)

lemma render_items_simps [simp]:
  "render_items [] = []" "render_items (r # rs) = render_item r @ render_items rs"
  by (simp_all add: render_items_def)

text \<open>Sets.\<close>

definition skipped :: "char \<Rightarrow> bool" where
  "skipped c \<longleftrightarrow> c \<notin> {NUL, CHR '']'', backslash}"

lemma plain_skipped: "plain c \<Longrightarrow> skipped c" "skipped CHR ''-''"
  by (simp_all add: plain_def skipped_def)

lemma skip_bracket_plain:
  "list_all skipped u \<Longrightarrow> u @ CHR '']'' # q = d # t \<Longrightarrow> skip_bracket fl d (Some t) = Inr q"
proof (induction u arbitrary: d t)
  case (Cons a u)
  then obtain e s where "u @ CHR '']'' # q = e # s" by (cases "u @ CHR '']'' # q") auto
  with Cons.prems(2) Cons.IH [of e s] Cons.prems(1) show ?case
    by (cases u) (auto simp: skipped_def)
qed simp

lemma bracket_item_plain:
  assumes "simple_flags fl" "plain a" "plain b" "d \<noteq> CHR ''-''"
  shows "bracket_item fl ch a (Some (item_tail (a, b) @ d # t))
    = Inr (within ch [(a, b)], d, Some t)"
  using assms by (auto simp: bracket_item_def item_tail_def simple_flags_simps plain_def within_def)

lemma items_next:
  assumes "list_all (\<lambda>(a, b). plain a \<and> plain b) rs"
  obtains d t where "render_items rs @ CHR '']'' # q = d # t" "d \<noteq> CHR ''-''"
    "rs = [] \<Longrightarrow> d = CHR '']'' \<and> t = q" "rs \<noteq> [] \<Longrightarrow> plain d"
proof (cases rs)
  case (Cons r rs')
  obtain a b where "r = (a, b)" by (cases r)
  with Cons assms that [of a "item_tail r @ render_items rs' @ CHR '']'' # q"] show ?thesis
    by (auto simp: render_item_def plain_def)
qed (use that in auto)

lemma plain_items: "list_all (\<lambda>(a, b). plain a \<and> plain b) rs \<Longrightarrow> list_all skipped (render_items rs)"
  by (induction rs) (simp_all add: render_item_def item_tail_def plain_skipped split_beta)

lemma bracket_items_plain:
  assumes "simple_flags fl"
  shows "list_all (\<lambda>(a, b). plain a \<and> plain b) (r # rs) \<Longrightarrow> render_items (r # rs) @ CHR '']'' # q = c # p \<Longrightarrow>
    (if within ch (r # rs) then \<exists>u d t. bracket_items fl ch c (Some p) = Inr (True, d, Some t)
        \<and> u @ CHR '']'' # q = d # t \<and> list_all skipped u
     else bracket_items fl ch c (Some p) = Inr (False, CHR '']'', Some q))"
proof (induction rs arbitrary: r c p)
  case hyps: (Nil r c p)
  obtain a b where r: "r = (a, b)" by (cases r)
  with hyps have cp: "c = a" "p = item_tail (a, b) @ CHR '']'' # q"
    by (auto simp: render_item_def)
  from hyps r have "bracket_item fl ch c (Some p) = Inr (within ch [(a, b)], CHR '']'', Some q)"
    unfolding cp by (intro bracket_item_plain assms) simp_all
  then show ?case using r
    by (subst bracket_items.simps, subst (2) bracket_items.simps) (auto intro: exI [of _ "[]"])
next
  case hyps: (Cons x rs r c p)
  obtain a b where r: "r = (a, b)" by (cases r)
  obtain d t where dt: "render_items (x # rs) @ CHR '']'' # q = d # t" "d \<noteq> CHR ''-''" "plain d"
    by (rule items_next [of "x # rs" q]) (use hyps.prems(1) in auto)
  from hyps.prems r dt have cp: "c = a" "p = item_tail (a, b) @ d # t"
    by (auto simp: render_item_def)
  from hyps.prems r dt have item: "bracket_item fl ch c (Some p) = Inr (within ch [(a, b)], d, Some t)"
    unfolding cp by (intro bracket_item_plain assms) simp_all
  show ?case
  proof (cases "within ch [(a, b)]")
    case True
    then have "within ch (r # x # rs)" by (simp add: within_def r)
    moreover have "bracket_items fl ch c (Some p) = Inr (True, d, Some t)"
      using item True by (subst bracket_items.simps) simp
    moreover have "list_all skipped (render_items (x # rs))" using plain_items [of "x # rs"] hyps.prems(1) by simp
    ultimately show ?thesis using dt(1) by (auto intro!: exI [of _ "render_items (x # rs)"])
  next
    case False
    then have "within ch (r # x # rs) = within ch (x # rs)" by (auto simp: within_def r)
    moreover have "bracket_items fl ch c (Some p) = bracket_items fl ch d (Some t)"
      using item False dt(3) by (subst bracket_items.simps) (simp add: plain_def)
    ultimately show ?thesis using hyps.IH [OF _ dt(1)] hyps.prems(1) by simp
  qed
qed

lemma match_bracket_plain:
  assumes "simple_flags fl" "token_ok (Among inverted rs)"
  shows "match_bracket fl ch ((if inverted then ''!'' else []) @ render_items rs @ CHR '']'' # q)
    = (if within ch rs \<noteq> inverted then Inr q else Inl FNM_NOMATCH)"
proof -
  obtain r rs' where rs: "rs = r # rs'" using assms(2) by (cases rs) auto
  obtain c p where cp: "render_items rs @ CHR '']'' # q = c # p" "plain c"
    by (rule items_next [of rs q]) (use assms(2) in auto)
  have "match_bracket fl ch ((if inverted then ''!'' else []) @ c # p)
      = (if within ch rs \<noteq> inverted then Inr q else Inl FNM_NOMATCH)"
    using bracket_items_plain [OF assms(1) _ cp(1) [unfolded rs], of ch] assms(2) cp(2) skip_bracket_plain [of _ q]
    unfolding match_bracket_def Let_def rs [symmetric]
    by (auto simp: plain_def split: if_splits)
  with cp(1) show ?thesis by simp
qed

text \<open>One step of the match for each token.\<close>

lemma fnmatch_nil: "simple_flags fl \<Longrightarrow> fnmatch_from fl [] prev n = (if n = [] then FNM_MATCH else FNM_NOMATCH)"
  by (simp add: fnmatch_from.simps simple_flags_simps)

lemma fnmatch_lit:
  assumes "simple_flags fl" "a \<noteq> NUL"
  shows "fnmatch_from fl (render_token (Lit a) @ q) prev n
    = (if n \<noteq> [] \<and> hd n = a then fnmatch_from fl q (Some (hd n)) (tl n) else FNM_NOMATCH)"
  using assms by (cases n) (auto simp: fnmatch_from.simps simple_flags_simps)

lemma leading_period_simple:
  "simple_flags fl \<Longrightarrow> leading_period fl prev n \<longleftrightarrow> FNM_PERIOD fl \<and> prev = None \<and> deref n = CHR ''.''"
  by (auto simp: leading_period_def simple_flags_simps)

lemma fnmatch_one:
  assumes "simple_flags fl"
  shows "fnmatch_from fl (CHR ''?'' # q) prev n
    = (if n = [] \<or> leading_period fl prev n then FNM_NOMATCH else fnmatch_from fl q (Some (hd n)) (tl n))"
  using assms by (cases n) (auto simp: fnmatch_from.simps simple_flags_simps)

lemma fnmatch_among:
  assumes "simple_flags fl" "token_ok (Among inverted rs)"
  shows "fnmatch_from fl (render_token (Among inverted rs) @ q) prev n
    = (if n = [] \<or> leading_period fl prev n then FNM_NOMATCH
       else if within (hd n) rs \<noteq> inverted then fnmatch_from fl q (Some (hd n)) (tl n) else FNM_NOMATCH)"
proof (cases n)
  case (Cons c s)
  have "match_bracket fl c ((if inverted then ''!'' else []) @ render_items rs @ CHR '']'' # q)
      = (if within c rs \<noteq> inverted then Inr q else Inl FNM_NOMATCH)"
    by (rule match_bracket_plain [OF assms])
  with Cons assms(1) show ?thesis by (simp add: fnmatch_from.simps(2) simple_flags_simps)
qed (use assms(1) in \<open>simp add: fnmatch_from.simps simple_flags_simps\<close>)

text \<open>After a star.\<close>

lemma star_run_ones:
  assumes "simple_flags fl" "q = [] \<or> hd q \<notin> {CHR ''?'', CHR ''*''}"
  shows "star_run fl (replicate k CHR ''?'' @ q) (Some n)
    = (if k \<le> length n then Inr (q, Some (drop k n)) else Inl FNM_NOMATCH)"
  using assms
proof (induction k arbitrary: n)
  case 0
  then show ?case by (cases q) auto
next
  case (Suc k)
  then show ?case by (cases n) (auto simp: simple_flags_simps)
qed

lemma search_rest_many:
  assumes "\<And>m. f m = (if matches ps m then FNM_MATCH else FNM_NOMATCH)"
    and "\<And>c m. matches ps (c # m) \<Longrightarrow> ok c" "\<not> matches ps []"
  shows "search_rest ok f n = (if matches (Many # ps) n then FNM_MATCH else FNM_NOMATCH)"
  using assms by (induction n) (simp_all add: matches.simps(5))

lemma matches_many_one: "matches (Many # One # ps) s \<longleftrightarrow> s \<noteq> [] \<and> matches (Many # ps) (tl s)"
proof (induction s)
  case (Cons c s)
  then show ?case by (cases s) (auto simp: matches.simps(5))
qed (simp add: matches.simps(5))

lemma matches_many_ones:
  "matches (Many # replicate k One @ ps) s \<longleftrightarrow> k \<le> length s \<and> matches (Many # ps) (drop k s)"
proof (induction k arbitrary: s)
  case (Suc k)
  then show ?case by (cases s) (simp_all add: matches_many_one)
qed simp

lemma matches_many_end: "matches [Many] s"
  by (induction s) (simp_all add: matches.simps(5))

section \<open>The code matches as documented\<close>

lemma leading_ones: "\<exists>k qs. ps = replicate k One @ qs \<and> (\<forall>rs. qs \<noteq> One # rs) \<and> qs = dropWhile (\<lambda>t. t = One) ps"
proof (induction ps)
  case (Cons t ps)
  then obtain k qs where k: "ps = replicate k One @ qs" "\<forall>rs. qs \<noteq> One # rs" "qs = dropWhile (\<lambda>t. t = One) ps"
    by blast
  show ?case
  proof (cases "t = One")
    case True
    with k show ?thesis by (intro exI [of _ "Suc k"] exI [of _ qs]) simp
  next
    case False
    then show ?thesis by (intro exI [of _ 0] exI [of _ "t # ps"]) simp
  qed
qed simp

lemma render_ones: "render (replicate k One @ qs) = replicate k CHR ''?'' @ render qs"
  by (induction k) simp_all

lemma star_first:
  assumes "starts_set qs"
  shows "hd (render qs) \<notin> {CHR ''?'', CHR ''*''}" "render qs \<noteq> []"
    and "matches qs s \<Longrightarrow> s \<noteq> []"
    and "matches qs (c # m) \<Longrightarrow> deref (render qs) = CHR ''['' \<or>
      c = (if deref (render qs) = backslash then deref (tl (render qs)) else deref (render qs))"
  using assms by (cases qs rule: list.exhaust; cases "hd qs"; auto simp: starts_set_def)+

lemma stars_apart_ones: "stars_apart (replicate k One @ qs) = stars_apart qs"
  by (induction k) simp_all

lemma fnmatch_star:
  assumes "simple_flags fl" "qs = [] \<or> starts_set qs"
    and "\<And>m. fnmatch_from (fl\<lparr>FNM_PERIOD := False\<rparr>) (render qs) None m = (if matches qs m then FNM_MATCH else FNM_NOMATCH)"
  shows "fnmatch_from fl (CHR ''*'' # replicate k CHR ''?'' @ render qs) prev n
    = (if matches (Many # replicate k One @ qs) n \<and> \<not> leading_period fl prev n then FNM_MATCH else FNM_NOMATCH)"
proof -
  let ?q = "render qs"
  define c1 where "c1 = (if deref ?q = backslash then deref (tl ?q) else deref ?q)"
  have run: "star_run fl (replicate k CHR ''?'' @ ?q) (Some n)
      = (if k \<le> length n then Inr (?q, Some (drop k n)) else Inl FNM_NOMATCH)"
    using assms(2) star_first(1) by (intro star_run_ones [OF assms(1)]) auto
  show ?thesis
  proof (cases "qs = []")
    case True
    with run assms(1) show ?thesis
      using matches_many_ones [of k "[]" n]
      by (auto simp: fnmatch_from.simps(2) simple_flags_simps matches_many_end)
  next
    case False
    with assms(2) have qs: "starts_set qs" by simp
    then obtain a r where q: "?q = a # r" using star_first(2) by (cases ?q) auto
    have "search_rest (\<lambda>ch. deref ?q = CHR ''['' \<or> ch = c1)
        (fnmatch_from (fl\<lparr>FNM_PERIOD := False\<rparr>) ?q None) m
      = (if matches (Many # qs) m then FNM_MATCH else FNM_NOMATCH)" for m
      using star_first [OF qs] unfolding c1_def by (intro search_rest_many assms(3)) blast+
    with run assms(1) q show ?thesis
      using matches_many_ones [of k qs n]
      by (auto simp: fnmatch_from.simps(2) simple_flags_simps c1_def)
  qed
qed

lemma fnmatch_from_matches:
  assumes "simple_flags fl" "pat_ok ps"
  shows "fnmatch_from fl (render ps) prev n =
    (if matches ps n \<and> (prev = None \<longrightarrow> \<not> hidden fl ps n) then FNM_MATCH else FNM_NOMATCH)"
  using assms
proof (induction "length ps" arbitrary: fl ps prev n rule: less_induct)
  case less
  note fl = less.prems(1)
  show ?case
  proof (cases ps)
    case Nil
    with fl show ?thesis by (simp add: fnmatch_nil hidden_def)
  next
    case (Cons t ps')
    then have IH: "pat_ok ps' \<Longrightarrow> fnmatch_from fl (render ps') (Some c) m =
        (if matches ps' m then FNM_MATCH else FNM_NOMATCH)" for c m
      using less.hyps [of ps' fl] fl by simp
    show ?thesis
    proof (cases t)
      case (Lit a)
      with Cons less.prems IH show ?thesis by (simp add: fnmatch_lit pat_ok_def hidden_def del: render_token.simps)
    next
      case One
      with Cons less.prems IH show ?thesis
        by (cases n) (auto simp: fnmatch_one pat_ok_def hidden_def leading_period_simple)
    next
      case (Among i rs)
      with Cons less.prems have "token_ok (Among i rs)" "pat_ok ps'" by (simp_all add: pat_ok_def)
      with Among Cons fl IH show ?thesis
        by (cases n) (auto simp: fnmatch_among hidden_def leading_period_simple simp del: render_token.simps)
    next
      case Many
      obtain k qs where k: "ps' = replicate k One @ qs" "\<forall>rs. qs \<noteq> One # rs" "qs = dropWhile (\<lambda>t. t = One) ps'"
        using leading_ones by blast
      have ok: "list_all token_ok ps'" "stars_apart ps'"
          "dropWhile (\<lambda>t. t = One) ps' = [] \<or> starts_set (dropWhile (\<lambda>t. t = One) ps')"
        using less.prems(2) unfolding pat_ok_def Cons Many by (simp_all add: Let_def)
      have "list_all token_ok qs" "stars_apart qs"
        using ok(1,2) unfolding k(1) by (simp_all add: stars_apart_ones)
      with ok(3) k(3) have qs: "qs = [] \<or> starts_set qs" "pat_ok qs" by (simp_all add: pat_ok_def)
      have shorter: "length qs < length ps" using Cons k(1) by simp
      have "fnmatch_from fl (CHR ''*'' # replicate k CHR ''?'' @ render qs) prev n
        = (if matches (Many # replicate k One @ qs) n \<and> \<not> leading_period fl prev n then FNM_MATCH else FNM_NOMATCH)"
        using less.hyps [OF shorter simple_flags_simps(5) [OF fl] qs(2)]
        by (intro fnmatch_star fl qs(1)) (simp add: hidden_def)
      moreover have "ps = Many # replicate k One @ qs" using Cons Many k(1) by simp
      ultimately show ?thesis
        using fl by (simp add: render_ones hidden_def leading_period_simple)
    qed
  qed
qed

section \<open>Properties\<close>

definition glob_flags :: fnm_flags where
  "glob_flags = \<lparr>FNM_PATHNAME = False, FNM_NOESCAPE = False, FNM_PERIOD = True,
     FNM_LEADING_DIR = False, FNM_CASEFOLD = False\<rparr>"

lemma simple_glob_flags: "simple_flags glob_flags"
  by (simp add: simple_flags_def glob_flags_def)



text \<open>A second star consumes a character although it could stand for nothing: two stars match
  what one star and a question mark do.  On the empty name the match reads behind its end.\<close>

theorem fnmatch_double_star:
  assumes "simple_flags fl" "pat_ok ps" "starts_set ps"
  shows "fnmatch (''**'' @ render ps) (c # s) fl =
      (if matches (Many # One # ps) (c # s) \<and> \<not> leading_period fl None (c # s) then FNM_MATCH else FNM_NOMATCH)
    \<and> fnmatch (''**'' @ render ps) [] fl = Overread"
proof -
  obtain a r where q: "render ps = a # r" "a \<notin> {CHR ''?'', CHR ''*''}"
    using star_first [OF assms(3)] by (cases "render ps") auto
  have "star_run fl (CHR ''*'' # render ps) (Some n) =
      (case n of [] \<Rightarrow> Inr (render ps, None) | _ # m \<Rightarrow> Inr (render ps, Some m))" for n
    using q assms(1) by (auto simp: simple_flags_simps split: list.split)
  moreover have "star_run fl (CHR ''?'' # render ps) (Some (c # s)) = Inr (render ps, Some s)"
    using q assms(1) by (auto simp: simple_flags_simps)
  ultimately have "fnmatch_from fl (CHR ''*'' # CHR ''*'' # render ps) None (c # s)
      = fnmatch_from fl (CHR ''*'' # CHR ''?'' # render ps) None (c # s)"
    and "fnmatch_from fl (CHR ''*'' # CHR ''*'' # render ps) None [] = Overread"
    using q assms(1) by (auto simp: fnmatch_from.simps(2) simple_flags_simps leading_period_simple)
  moreover have "fnmatch_from fl (CHR ''*'' # CHR ''?'' # render ps) None (c # s) =
      (if matches (Many # One # ps) (c # s) \<and> \<not> leading_period fl None (c # s) then FNM_MATCH else FNM_NOMATCH)"
    using fnmatch_star [OF assms(1) disjI2 [OF assms(3)], where k = 1 and prev = None and n = "c # s"]
      fnmatch_from_matches [OF simple_flags_simps(5) [OF assms(1)] assms(2), of False None]
    by (simp add: hidden_def)
  ultimately show ?thesis
    by (simp add: fnmatch_def)
qed

theorem fnmatch_double_star_witness:
  "fnmatch ''**a'' ''a'' glob_flags = FNM_NOMATCH \<and> fnmatch ''**a'' [] glob_flags = Overread"
proof -
  have r: "render [Lit CHR ''a''] = ''a''" by code_simp
  have ok: "pat_ok [Lit CHR ''a'']" "starts_set [Lit CHR ''a'']" by code_simp+
  have "\<not> matches [Many, One, Lit CHR ''a''] ''a''" by code_simp
  with fnmatch_double_star [OF simple_glob_flags ok, of "CHR ''a''" "[]"] show ?thesis by (simp add: r)
qed

text \<open>A backslash at the end of a pattern quotes the terminator: when the name has been matched
  up to it, the terminators are taken for equal characters and the match goes on behind them.\<close>

theorem fnmatch_trailing_backslash:
  assumes "simple_flags fl" "NUL \<notin> set name"
  shows "fnmatch (render (map Lit name) @ [backslash]) name fl = Overread"
proof -
  have "fnmatch_from fl (render (map Lit name) @ [backslash]) prev name = Overread" for prev
    using assms(2)
  proof (induction name arbitrary: prev)
    case Nil
    with assms(1) show ?case by (simp add: fnmatch_from.simps(2) simple_flags_simps)
  next
    case (Cons c name)
    then have "c \<noteq> NUL" by auto
    with fnmatch_lit [OF assms(1) this] Cons show ?case by (simp del: render_token.simps)
  qed
  then show ?thesis by (simp add: fnmatch_def)
qed

theorem fnmatch_trailing_backslash_witness:
  "fnmatch (''notes'' @ [backslash]) ''notes'' glob_flags = Overread"
proof -
  have "render (map Lit ''notes'') = ''notes''" by code_simp
  with fnmatch_trailing_backslash [OF simple_glob_flags, of "''notes''"] show ?thesis by simp
qed

text \<open>A quoted bracket behind the matching item of a set is taken for the end of the set.\<close>

lemma fnmatch_quoted_bracket:
  "fnmatch ([CHR ''['', CHR ''a'', backslash, CHR '']'', CHR '']'']) ''a'' glob_flags = FNM_NOMATCH"
  by code_simp

end
