(* ===== verification/Glob.thy ===== *)
theory Glob
  imports Fnmatch
begin

text \<open>
  \<open>lib/glob/glob.c\<close>: the expansion of file name patterns that cadaver compiles in where the C
  library has no \<open>GLOB_ALTDIRFUNC\<close>.  It runs in any state monad: the functions on directories
  (those the caller gives with \<open>GLOB_ALTDIRFUNC\<close>, and the system's), the user database and
  \<open>strcoll\<close> are a record that is an argument of the definitions.  The result vector is a list, a NULL
  pointer in it is \<open>None\<close>; memory is not exhausted and the freeing of the vectors is left out.
  \<open>Glob_crash\<close> is a read outside of a string or through NULL.
\<close>

section \<open>Data\<close>

datatype errno = EACCES | ENOENT | ENOTDIR | Other_errno

datatype file_type = DT_UNKNOWN | DT_DIR | DT_REG | DT_OTHER

record dirent =
  d_name :: cstring
  d_type :: file_type
  d_ino :: nat

datatype glob_flag =
    GLOB_ERR | GLOB_MARK | GLOB_NOSORT | GLOB_DOOFFS | GLOB_NOCHECK | GLOB_APPEND | GLOB_NOESCAPE
  | GLOB_PERIOD | GLOB_MAGCHAR | GLOB_ALTDIRFUNC | GLOB_BRACE | GLOB_NOMAGIC | GLOB_TILDE
  | GLOB_ONLYDIR | GLOB_TILDE_CHECK

datatype glob_status = GLOB_OK | GLOB_INVALID | GLOB_NOSPACE | GLOB_ABORTED | GLOB_NOMATCH | Glob_crash

record glob_t =
  gl_pathv :: "cstring option list"
  gl_offs :: nat
  gl_flags :: "glob_flag set"

definition gl_pathc :: "glob_t \<Rightarrow> nat" where
  "gl_pathc g = length (gl_pathv g)"

definition empty_glob :: glob_t where
  "empty_glob = \<lparr>gl_pathv = [], gl_offs = 0, gl_flags = {}\<rparr>"

text \<open>
  Directories: \<open>gl_stat\<close> fails with \<open>None\<close> and otherwise says whether the name is a directory;
  \<open>gl_left\<close> is how many more calls of \<open>gl_readdir\<close> return an entry at most.
\<close>

record ('s, 'd) dir_functions =
  gl_opendir :: "cstring \<Rightarrow> ('s, errno + 'd) state"
  gl_readdir :: "'d \<Rightarrow> ('s, dirent option \<times> 'd) state"
  gl_closedir :: "'d \<Rightarrow> ('s, unit) state"
  gl_stat :: "cstring \<Rightarrow> ('s, bool option) state"
  gl_left :: "'d \<Rightarrow> nat"

record ('s, 'd) glob_env =
  ge_alt :: "('s, 'd) dir_functions"
  ge_system :: "('s, 'd) dir_functions"
  ge_errfunc :: "(cstring \<Rightarrow> errno \<Rightarrow> ('s, int) state) option"
  ge_interrupt_state :: "('s, bool) state"
  ge_home :: "cstring option"
  ge_login :: "cstring option"
  ge_getpwnam :: "cstring \<Rightarrow> cstring option"
  ge_strcoll :: "cstring \<Rightarrow> cstring \<Rightarrow> int"

definition functions_for :: "('s, 'd) glob_env \<Rightarrow> glob_flag set \<Rightarrow> ('s, 'd) dir_functions" where
  "functions_for W flags = (if GLOB_ALTDIRFUNC \<in> flags then ge_alt W else ge_system W)"

section \<open>Metacharacters and braces\<close>

fun glob_pattern_scan :: "bool \<Rightarrow> bool \<Rightarrow> cstring \<Rightarrow> bool" where
  "glob_pattern_scan quote bracket [] = False"
| "glob_pattern_scan quote bracket (c # p) =
     (if c = CHR ''?'' \<or> c = CHR ''*'' then True
      else if c = backslash then
        (case p of
           [] \<Rightarrow> glob_pattern_scan quote bracket p
         | d # q \<Rightarrow> if quote then glob_pattern_scan quote bracket q else glob_pattern_scan quote bracket p)
      else if c = CHR ''['' then glob_pattern_scan quote True p
      else if c = CHR '']'' \<and> bracket then True
      else glob_pattern_scan quote bracket p)"

definition glob_pattern_p :: "cstring \<Rightarrow> bool \<Rightarrow> bool" where
  "glob_pattern_p pattern quote = glob_pattern_scan quote False pattern"

text \<open>The inner loop of \<open>next_brace_sub\<close>, which does not count the braces it opens.\<close>

fun nested_brace :: "nat \<Rightarrow> cstring \<Rightarrow> cstring option" where
  "nested_brace depth [] = None"
| "nested_brace depth (c # cp) =
     (if c \<noteq> CHR ''}'' \<or> depth > 0 then nested_brace (if c = CHR ''}'' then depth - 1 else depth) cp
      else Some (c # cp))"

text \<open>The end of a sub-pattern, which can be the end of the string; \<open>None\<close> is NULL.\<close>

fun next_brace_sub :: "cstring \<Rightarrow> cstring option" where
  "next_brace_sub [] = Some []"
| "next_brace_sub (c # cp) =
     (if c = CHR '','' \<or> c = CHR ''}'' then Some (c # cp)
      else if c = CHR ''{'' then nested_brace 1 cp
      else next_brace_sub cp)"

datatype 'a brace = Brace_overrun | Brace_illegal | Brace 'a

lemma nested_brace_length: "nested_brace d p = Some q \<Longrightarrow> length q \<le> length p"
  by (induction d p rule: nested_brace.induct) (auto split: if_splits simp: le_SucI)

lemma next_brace_sub_length: "next_brace_sub p = Some q \<Longrightarrow> length q \<le> length p"
  by (induction p rule: next_brace_sub.induct) (auto split: if_splits simp: le_SucI dest: nested_brace_length)

text \<open>
  The sub-patterns from \<open>p\<close> on and what follows the closing brace.  The end of the string is taken
  for the end of a sub-pattern, and the search goes on behind it.
\<close>

function brace_subs :: "cstring \<Rightarrow> (cstring list \<times> cstring) brace" where
  "brace_subs p =
     (case next_brace_sub p of
        None \<Rightarrow> Brace_illegal
      | Some [] \<Rightarrow> Brace_overrun
      | Some (c # r) \<Rightarrow>
          let alt = take (length p - length (c # r)) p
          in if c = CHR ''}'' then Brace ([alt], r)
             else case brace_subs r of
                 Brace (alts, rest) \<Rightarrow> Brace (alt # alts, rest)
               | b \<Rightarrow> b)"
  by pat_completeness auto
termination by (relation "measure length") (auto dest: next_brace_sub_length)

declare brace_subs.simps [simp del]

text \<open>The patterns a pattern with a brace stands for.\<close>

definition brace_patterns :: "cstring \<Rightarrow> cstring list brace" where
  "brace_patterns pattern =
     (let prefix = takeWhile (\<lambda>c. c \<noteq> CHR ''{'') pattern
      in case brace_subs (drop (Suc (length prefix)) pattern) of
           Brace (alts, rest) \<Rightarrow> Brace (map (\<lambda>alt. prefix @ alt @ rest) alts)
         | Brace_overrun \<Rightarrow> Brace_overrun
         | Brace_illegal \<Rightarrow> Brace_illegal)"

section \<open>One directory\<close>

definition prefix_array :: "cstring \<Rightarrow> cstring option list \<Rightarrow> cstring option list" where
  "prefix_array dirname array =
     (let dir = (if dirname = [solidus] then [] else dirname)
      in map (map_option (\<lambda>elt. dir @ solidus # elt)) array)"

text \<open>\<open>prefix_array\<close> on the entries from \<open>n\<close> on.\<close>

definition prefix_from :: "nat \<Rightarrow> cstring \<Rightarrow> glob_t \<Rightarrow> glob_t" where
  "prefix_from n dirname g =
     g\<lparr>gl_pathv := take n (gl_pathv g) @ prefix_array dirname (drop n (gl_pathv g))\<rparr>"

text \<open>The slots that the caller reserved.\<close>

definition reserve_offs :: "glob_flag set \<Rightarrow> glob_t \<Rightarrow> glob_t" where
  "reserve_offs flags g =
     (if GLOB_DOOFFS \<in> flags
      then g\<lparr>gl_pathv := gl_pathv g @ replicate (gl_offs g - gl_pathc g) None\<rparr> else g)"

definition fnm_flags_of :: "glob_flag set \<Rightarrow> fnm_flags" where
  "fnm_flags_of flags =
     \<lparr>FNM_PATHNAME = False, FNM_NOESCAPE = (GLOB_NOESCAPE \<in> flags), FNM_PERIOD = (GLOB_PERIOD \<notin> flags),
      FNM_LEADING_DIR = False, FNM_CASEFOLD = False\<rparr>"

text \<open>The loop over the entries: the matching names, the last one first.\<close>

fun read_entries ::
  "nat \<Rightarrow> ('s, 'd) dir_functions \<Rightarrow> cstring \<Rightarrow> glob_flag set \<Rightarrow> 'd \<Rightarrow> cstring list
    \<Rightarrow> ('s, cstring list option \<times> 'd) state" where
  "read_entries 0 F pattern flags stream names = State_Monad.return (Some names, stream)"
| "read_entries (Suc n) F pattern flags stream names = do {
     (entry, stream) \<leftarrow> gl_readdir F stream;
     (case entry of
        None \<Rightarrow> State_Monad.return (Some names, stream)
      | Some d \<Rightarrow>
          if d_ino d = 0 \<or> GLOB_ONLYDIR \<in> flags \<and> d_type d \<notin> {DT_UNKNOWN, DT_DIR}
          then read_entries n F pattern flags stream names
          else case fnmatch pattern (d_name d) (fnm_flags_of flags) of
              FNM_MATCH \<Rightarrow> read_entries n F pattern flags stream (d_name d # names)
            | FNM_NOMATCH \<Rightarrow> read_entries n F pattern flags stream names
            | Overread \<Rightarrow> State_Monad.return (None, stream)) }"

text \<open>The end of \<open>glob_in_dir\<close>: the names found are appended to the result.\<close>

definition add_names :: "cstring \<Rightarrow> glob_flag set \<Rightarrow> cstring list \<Rightarrow> glob_t \<Rightarrow> glob_status \<times> glob_t" where
  "add_names pattern flags names g =
     (let names = (if names = [] \<and> GLOB_NOCHECK \<in> flags then [pattern] else names)
      in if names = [] then (GLOB_NOMATCH, g)
         else let g = reserve_offs flags g
              in (GLOB_OK, g\<lparr>gl_pathv := gl_pathv g @ map Some names, gl_flags := flags\<rparr>))"

definition glob_in_dir ::
  "('s, 'd) glob_env \<Rightarrow> cstring \<Rightarrow> cstring \<Rightarrow> glob_flag set \<Rightarrow> glob_t \<Rightarrow> ('s, glob_status \<times> glob_t) state" where
  "glob_in_dir W pattern directory flags g =
     (let F = functions_for W flags
      in if \<not> glob_pattern_p pattern (GLOB_NOESCAPE \<notin> flags) then do {
           found \<leftarrow> (if flags \<inter> {GLOB_NOCHECK, GLOB_NOMAGIC} \<noteq> {} then State_Monad.return True
                     else do {
                       st \<leftarrow> gl_stat F (directory @ solidus # pattern);
                       State_Monad.return (st \<noteq> None) });
           State_Monad.return
             (add_names pattern (if found then insert GLOB_NOCHECK flags else flags) [] g) }
         else if pattern = [] then State_Monad.return (add_names pattern flags [[]] g)
         else do {
           opened \<leftarrow> gl_opendir F directory;
           (case opened of
              Inl err \<Rightarrow> do {
                give_up \<leftarrow> (if err = ENOTDIR then State_Monad.return False
                            else case ge_errfunc W of
                                None \<Rightarrow> State_Monad.return (GLOB_ERR \<in> flags)
                              | Some errfunc \<Rightarrow> do {
                                  r \<leftarrow> errfunc directory err;
                                  State_Monad.return (r \<noteq> 0 \<or> GLOB_ERR \<in> flags) });
                State_Monad.return
                  (if give_up then (GLOB_ABORTED, g) else add_names pattern flags [] g) }
            | Inr stream \<Rightarrow> do {
                let flags = insert GLOB_MAGCHAR flags;
                (names, stream) \<leftarrow> read_entries (Suc (gl_left F stream)) F pattern flags stream [];
                (case names of
                   None \<Rightarrow> State_Monad.return (Glob_crash, g)
                 | Some names \<Rightarrow> do {
                     gl_closedir F stream;
                     State_Monad.return (add_names pattern flags names g) }) }) })"

section \<open>The pattern and its directory\<close>

text \<open>
  The file name part, NULL for the directory of \<open>~name\<close>, the directory and \<open>dirlen\<close>.
\<close>

definition split_pattern :: "glob_flag set \<Rightarrow> cstring \<Rightarrow> cstring option \<times> cstring \<times> nat" where
  "split_pattern flags pattern =
     (case strrchr pattern solidus of
        None \<Rightarrow>
          if flags \<inter> {GLOB_TILDE, GLOB_TILDE_CHECK} \<noteq> {} \<and> deref pattern = CHR ''~''
          then (None, pattern, length pattern)
          else (Some pattern, ''.'', 0)
      | Some filename \<Rightarrow>
          if filename = pattern then (Some (tl filename), [solidus], 1)
          else let dirlen = length pattern - length filename
               in (Some (tl filename), take dirlen pattern, dirlen))"

text \<open>The home directory of the user who runs the program.\<close>

definition own_home :: "('s, 'd) glob_env \<Rightarrow> glob_flag set \<Rightarrow> cstring option" where
  "own_home W flags =
     (let home_dir = ge_home W;
          home_dir = (if home_dir = None \<or> home_dir = Some [] then
                        case ge_login W of
                          None \<Rightarrow> home_dir
                        | Some name \<Rightarrow> (case ge_getpwnam W name of Some d \<Rightarrow> Some d | None \<Rightarrow> home_dir)
                      else home_dir)
      in if home_dir = None \<or> home_dir = Some [] then
           if GLOB_TILDE_CHECK \<in> flags then None else Some ''~''
         else home_dir)"

text \<open>The directory with its tilde expanded; \<open>None\<close> is \<open>GLOB_NOMATCH\<close>.\<close>

definition expand_tilde :: "('s, 'd) glob_env \<Rightarrow> glob_flag set \<Rightarrow> cstring \<Rightarrow> cstring option" where
  "expand_tilde W flags dirname =
     (if flags \<inter> {GLOB_TILDE, GLOB_TILDE_CHECK} \<noteq> {} \<and> deref dirname = CHR ''~'' then
        if deref (tl dirname) = NUL \<or> deref (tl dirname) = solidus then
          map_option (\<lambda>home_dir. home_dir @ tl dirname) (own_home W flags)
        else
          let user_name = takeWhile (\<lambda>c. c \<noteq> solidus) (tl dirname);
              end_name = dropWhile (\<lambda>c. c \<noteq> solidus) dirname
          in case ge_getpwnam W user_name of
               Some home_dir \<Rightarrow> Some (home_dir @ end_name)
             | None \<Rightarrow> if GLOB_TILDE_CHECK \<in> flags then None else Some dirname
      else Some dirname)"

text \<open>\<open>~\<close> or \<open>~name\<close> alone.\<close>

definition tilde_alone ::
  "('s, 'd) glob_env \<Rightarrow> cstring \<Rightarrow> glob_flag set \<Rightarrow> glob_t \<Rightarrow> ('s, glob_status \<times> glob_t) state" where
  "tilde_alone W dirname flags g = do {
     ok \<leftarrow> (if GLOB_NOCHECK \<in> flags then State_Monad.return True
            else do {
              st \<leftarrow> gl_stat (functions_for W flags) dirname;
              State_Monad.return (st = Some True) });
     State_Monad.return
       (if ok then
          let g = reserve_offs flags g
          in (GLOB_OK, g\<lparr>gl_pathv := gl_pathv g @ [Some dirname], gl_flags := flags\<rparr>)
        else (GLOB_NOMATCH, g)) }"

section \<open>Several directories\<close>

text \<open>
  The loop over the directories that matched: the file name is looked for in each.  With slots
  reserved (\<open>GLOB_DOOFFS\<close>) the directory is put in front of their NULL as well.
\<close>

fun glob_in_dirs ::
  "('s, 'd) glob_env \<Rightarrow> cstring \<Rightarrow> glob_flag set \<Rightarrow> cstring option list \<Rightarrow> glob_t
    \<Rightarrow> ('s, glob_status \<times> glob_t) state" where
  "glob_in_dirs W filename flags [] g = State_Monad.return (GLOB_OK, g)"
| "glob_in_dirs W filename flags (None # dirs) g = State_Monad.return (Glob_crash, g)"
| "glob_in_dirs W filename flags (Some dir # dirs) g = do {
     interrupted \<leftarrow> ge_interrupt_state W;
     if interrupted then State_Monad.return (GLOB_ABORTED, g)
     else do {
       let old_pathc = gl_pathc g;
       (status, g) \<leftarrow> glob_in_dir W filename dir (insert GLOB_APPEND flags - {GLOB_NOCHECK, GLOB_ERR}) g;
       if status = GLOB_NOMATCH then glob_in_dirs W filename flags dirs g
       else if status \<noteq> GLOB_OK then State_Monad.return (status, g)
       else if None \<in> set (drop old_pathc (gl_pathv g)) then State_Monad.return (Glob_crash, g)
       else glob_in_dirs W filename flags dirs (prefix_from old_pathc dir g) } }"

text \<open>With \<open>GLOB_NOCHECK\<close> and no match: the directories that there are, followed by the file name.\<close>

fun unchecked_names ::
  "('s, 'd) dir_functions \<Rightarrow> cstring \<Rightarrow> cstring option list \<Rightarrow> ('s, cstring option list option) state" where
  "unchecked_names F filename [] = State_Monad.return (Some [])"
| "unchecked_names F filename (None # dirs) = State_Monad.return None"
| "unchecked_names F filename (Some dir # dirs) = do {
     st \<leftarrow> gl_stat F dir;
     rest \<leftarrow> unchecked_names F filename dirs;
     State_Monad.return
       (map_option (\<lambda>names. if st = Some True then Some (dir @ solidus # filename) # names else names) rest) }"

text \<open>
  The branch for a directory with metacharacters, when they have been expanded to \<open>dirs\<close>: the
  status, the flags from then on, and the result.
\<close>

definition glob_each ::
  "('s, 'd) glob_env \<Rightarrow> cstring \<Rightarrow> glob_flag set \<Rightarrow> cstring option list \<Rightarrow> glob_t
    \<Rightarrow> ('s, glob_status \<times> glob_flag set \<times> glob_t) state" where
  "glob_each W filename flags dirs g = do {
     let oldcount = gl_pathc g;
     (status, g) \<leftarrow> glob_in_dirs W filename flags dirs g;
     let flags' = insert GLOB_MAGCHAR flags;
     if status \<noteq> GLOB_OK then State_Monad.return (status, flags, g)
     else if gl_pathc g \<noteq> oldcount then State_Monad.return (GLOB_OK, flags', g)
     else if GLOB_NOCHECK \<in> flags then do {
       let g = reserve_offs flags g;
       names \<leftarrow> unchecked_names (functions_for W flags) filename dirs;
       State_Monad.return
         (case names of
            None \<Rightarrow> (Glob_crash, flags', g)
          | Some names \<Rightarrow> (GLOB_OK, flags', g\<lparr>gl_pathv := gl_pathv g @ names, gl_flags := flags'\<rparr>)) }
     else State_Monad.return (GLOB_NOMATCH, flags', g) }"

section \<open>Marking and sorting\<close>

fun mark_entries :: "('s, 'd) dir_functions \<Rightarrow> cstring option list \<Rightarrow> ('s, cstring option list option) state" where
  "mark_entries F [] = State_Monad.return (Some [])"
| "mark_entries F (None # es) = State_Monad.return None"
| "mark_entries F (Some e # es) = do {
     st \<leftarrow> gl_stat F e;
     rest \<leftarrow> mark_entries F es;
     State_Monad.return (map_option ((#) (Some (if st = Some True then e @ [solidus] else e))) rest) }"

definition collated_compare :: "(cstring \<Rightarrow> cstring \<Rightarrow> int) \<Rightarrow> cstring option \<Rightarrow> cstring option \<Rightarrow> int" where
  "collated_compare strcoll a b =
     (case (a, b) of
        (None, None) \<Rightarrow> 0
      | (None, Some _) \<Rightarrow> 1
      | (Some _, None) \<Rightarrow> -1
      | (Some s1, Some s2) \<Rightarrow> strcoll s1 s2)"

text \<open>\<open>qsort\<close>: an ordered arrangement of the elements.\<close>

fun insert_by :: "('a \<Rightarrow> 'a \<Rightarrow> int) \<Rightarrow> 'a \<Rightarrow> 'a list \<Rightarrow> 'a list" where
  "insert_by cmp x [] = [x]"
| "insert_by cmp x (y # ys) = (if cmp x y \<le> 0 then x # y # ys else y # insert_by cmp x ys)"

definition qsort :: "('a \<Rightarrow> 'a \<Rightarrow> int) \<Rightarrow> 'a list \<Rightarrow> 'a list" where
  "qsort cmp xs = foldr (insert_by cmp) xs []"

definition finish_glob ::
  "('s, 'd) glob_env \<Rightarrow> nat \<Rightarrow> glob_flag set \<Rightarrow> glob_t \<Rightarrow> ('s, glob_status \<times> glob_t) state" where
  "finish_glob W oldcount flags g = do {
     marked \<leftarrow> (if GLOB_MARK \<in> flags then mark_entries (functions_for W flags) (drop oldcount (gl_pathv g))
                else State_Monad.return (Some (drop oldcount (gl_pathv g))));
     State_Monad.return
       (case marked of
          None \<Rightarrow> (Glob_crash, g)
        | Some entries \<Rightarrow>
            let pathv = take oldcount (gl_pathv g) @ entries;
                non_sort = (if GLOB_DOOFFS \<in> flags \<and> gl_offs g > oldcount then gl_offs g else oldcount)
            in (GLOB_OK, g\<lparr>gl_pathv :=
                 (if GLOB_NOSORT \<in> flags then pathv
                  else take non_sort pathv @ qsort (collated_compare (ge_strcoll W)) (drop non_sort pathv))\<rparr>)) }"

section \<open>The routine\<close>

text \<open>The loop over the alternatives of a brace; only an error ends it.\<close>

fun for_alternatives ::
  "(cstring \<Rightarrow> glob_t \<Rightarrow> ('s, glob_status \<times> glob_t) state) \<Rightarrow> cstring list \<Rightarrow> glob_t
    \<Rightarrow> ('s, glob_status \<times> glob_t) state" where
  "for_alternatives f [] g = State_Monad.return (GLOB_OK, g)"
| "for_alternatives f (alt # alts) g = do {
     (result, g) \<leftarrow> f alt g;
     if result = GLOB_OK \<or> result = GLOB_NOMATCH then for_alternatives f alts g
     else State_Monad.return (result, g) }"

lemma for_alternatives_cong [fundef_cong]:
  assumes "alts = alts'" "g = g'" "\<And>alt h. alt \<in> set alts' \<Longrightarrow> f alt h = f' alt h"
  shows "for_alternatives f alts g = for_alternatives f' alts' g'"
  using assms(3) unfolding assms(1,2) by (induction alts' arbitrary: g') (simp_all cong: if_cong)

lemma brace_subs_step:
  assumes "brace_subs p = Brace (alts, rest)"
  obtains c r where "next_brace_sub p = Some (c # r)" "c = CHR ''}''" "rest = r"
      "alts = [take (length p - length (c # r)) p]"
    | c r alts' where "next_brace_sub p = Some (c # r)" "brace_subs r = Brace (alts', rest)"
      "alts = take (length p - length (c # r)) p # alts'"
  using assms by (subst (asm) brace_subs.simps)
    (auto simp: Let_def split: option.splits list.splits if_splits brace.splits)

lemma brace_subs_rest: "brace_subs p = Brace (alts, rest) \<Longrightarrow> length rest < length p"
proof (induction p arbitrary: alts rule: length_induct)
  case hyps: (1 p)
  from hyps.prems show ?case
    by (cases rule: brace_subs_step) (use hyps.IH next_brace_sub_length in force)+
qed

lemma brace_subs_length: "brace_subs p = Brace (alts, rest) \<Longrightarrow> alt \<in> set alts \<Longrightarrow> length alt + length rest < length p"
proof (induction p arbitrary: alts rule: length_induct)
  case hyps: (1 p)
  from hyps.prems(1) show ?case
  proof (cases rule: brace_subs_step)
    case one: (1 c r)
    with hyps.prems(2) next_brace_sub_length [OF one(1)] show ?thesis by simp
  next
    case two: (2 c r alts')
    have len: "Suc (length r) \<le> length p" using next_brace_sub_length [OF two(1)] by simp
    show ?thesis
    proof (cases "alt \<in> set alts'")
      case True
      with hyps.IH [rule_format, of r] two(2) len show ?thesis by force
    next
      case False
      with hyps.prems(2) two(3) len brace_subs_rest [OF two(2)] show ?thesis by simp
    qed
  qed
qed

lemma brace_patterns_length:
  assumes "brace_patterns pattern = Brace alts" "alt \<in> set alts"
  shows "length alt < length pattern"
proof -
  define prefix where "prefix = takeWhile (\<lambda>c. c \<noteq> CHR ''{'') pattern"
  from assms obtain as rest a where "brace_subs (drop (Suc (length prefix)) pattern) = Brace (as, rest)"
      "a \<in> set as" "alt = prefix @ a @ rest"
    by (auto simp: brace_patterns_def Let_def prefix_def split: brace.splits)
  with brace_subs_length [of "drop (Suc (length prefix)) pattern" as rest a] show ?thesis by simp
qed

abbreviation tilde_flags :: "glob_flag set \<Rightarrow> bool" where
  "tilde_flags flags \<equiv> flags \<inter> {GLOB_TILDE, GLOB_TILDE_CHECK} \<noteq> {}"

lemma split_pattern_shorter:
  assumes "split_pattern flags pattern = (Some filename, dirname, dirlen)" "glob_pattern_p dirname q \<or> dirlen > 1"
  shows "length dirname < length pattern"
proof -
  have "\<not> glob_pattern_p ''.'' q" "\<not> glob_pattern_p [solidus] q" by (simp_all add: glob_pattern_p_def)
  with assms obtain f where f: "strrchr pattern solidus = Some f" "f \<noteq> pattern"
      "dirname = take (length pattern - length f) pattern"
    by (auto simp: split_pattern_def Let_def split: option.splits if_splits)
  from strrchr_SomeD [OF f(1)] obtain p t where "pattern = p @ solidus # t" "f = solidus # t" by blast
  with f(3) show ?thesis by simp
qed

lemma expand_tilde_none: "\<not> tilde_flags flags \<Longrightarrow> expand_tilde W flags dirname = Some dirname"
  by (simp add: expand_tilde_def)

lemma glob_shorter:
  assumes "(Some filename, dirname, dirlen) = split_pattern flags pattern"
  shows "Suc 0 < dirlen \<Longrightarrow> Suc (Suc (3 * length dirname)) < 3 * length pattern"
    and "expand_tilde W flags dirname = Some d \<Longrightarrow> glob_pattern_p d q \<Longrightarrow> GLOB_TILDE \<notin> flags \<Longrightarrow>
      GLOB_TILDE_CHECK \<notin> flags \<Longrightarrow> Suc (3 * length d) < 3 * length pattern"
  using split_pattern_shorter [OF assms [symmetric]] expand_tilde_none [of flags W dirname] by fastforce+

text \<open>
  \<open>glob\<close>, and as \<open>glob_one\<close> the part from \<open>Find the filename\<close> on.
\<close>

function (sequential) libglob ::
    "('s, 'd) glob_env \<Rightarrow> cstring \<Rightarrow> glob_flag set \<Rightarrow> glob_t \<Rightarrow> ('s, glob_status \<times> glob_t) state"
  and glob_one ::
    "('s, 'd) glob_env \<Rightarrow> cstring \<Rightarrow> glob_flag set \<Rightarrow> glob_t \<Rightarrow> ('s, glob_status \<times> glob_t) state" where
  "libglob W pattern flags g =
     (if GLOB_MAGCHAR \<in> flags then State_Monad.return (GLOB_INVALID, g)
      else if GLOB_BRACE \<in> flags \<and> CHR ''{'' \<in> set pattern then
        (case brace_patterns pattern of
           Brace_overrun \<Rightarrow> State_Monad.return (Glob_crash, g)
         | Brace_illegal \<Rightarrow> libglob W pattern (flags - {GLOB_BRACE}) g
         | Brace alts \<Rightarrow> do {
             let g = (if GLOB_APPEND \<in> flags then g else g\<lparr>gl_pathv := []\<rparr>);
             let firstc = gl_pathc g;
             (result, g) \<leftarrow> for_alternatives (\<lambda>onealt g.
                 libglob W onealt (insert GLOB_APPEND (flags - {GLOB_NOCHECK, GLOB_NOMAGIC})) g) alts g;
             if result \<noteq> GLOB_OK then State_Monad.return (result, g)
             else if gl_pathc g \<noteq> firstc then State_Monad.return (GLOB_OK, g)
             else if flags \<inter> {GLOB_NOCHECK, GLOB_NOMAGIC} = {} then State_Monad.return (GLOB_NOMATCH, g)
             else glob_one W pattern flags g })
      else glob_one W pattern flags g)"
| "glob_one W pattern flags g =
     (case split_pattern flags pattern of
        (filename, dirname, dirlen) \<Rightarrow>
          if filename = Some [] \<and> dirlen > 1 then do {
            (val, g) \<leftarrow> libglob W dirname (insert GLOB_MARK flags) g;
            State_Monad.return
              (val, if val = GLOB_OK
                    then g\<lparr>gl_flags := gl_flags g - {GLOB_MARK} \<union> flags \<inter> {GLOB_MARK}\<rparr> else g) }
          else
            let g = (if GLOB_APPEND \<in> flags then g else g\<lparr>gl_pathv := []\<rparr>);
                oldcount = gl_pathc g
            in case expand_tilde W flags dirname of
                 None \<Rightarrow> State_Monad.return (GLOB_NOMATCH, g)
               | Some dirname \<Rightarrow>
                   (case filename of
                      None \<Rightarrow> tilde_alone W dirname flags g
                    | Some filename \<Rightarrow>
                        if glob_pattern_p dirname (GLOB_NOESCAPE \<notin> flags) then do {
                          (status, dirs) \<leftarrow> libglob W dirname
                            (flags \<inter> {GLOB_ERR, GLOB_NOCHECK, GLOB_NOESCAPE, GLOB_ALTDIRFUNC}
                              \<union> {GLOB_NOSORT, GLOB_ONLYDIR}) empty_glob;
                          if status \<noteq> GLOB_OK then State_Monad.return (status, g)
                          else do {
                            (status, flags, g) \<leftarrow> glob_each W filename flags (gl_pathv dirs) g;
                            if status \<noteq> GLOB_OK then State_Monad.return (status, g)
                            else finish_glob W oldcount flags g } }
                        else do {
                          (status, g) \<leftarrow> glob_in_dir W filename dirname flags g;
                          if status \<noteq> GLOB_OK then State_Monad.return (status, g)
                          else
                            let ignore = (if GLOB_DOOFFS \<in> flags \<and> oldcount < gl_offs g
                                          then gl_offs g else oldcount)
                            in finish_glob W oldcount flags
                                 (if dirlen > 0 then prefix_from ignore dirname g else g) }))"
  by pat_completeness auto

termination
  by (relation "inv_image (less_than <*lex*> less_than)
    (\<lambda>x. case x of Inl (W, p, f, g) \<Rightarrow> (if tilde_flags f then 1 else 0 :: nat, 3 * length p + (if GLOB_BRACE \<in> f then 2 else 1))
      | Inr (W, p, f, g) \<Rightarrow> (if tilde_flags f then 1 else 0, 3 * length p))")
    (auto dest: brace_patterns_length glob_shorter)

declare libglob.simps [simp del] glob_one.simps [simp del]

section \<open>Directory streams\<close>

text \<open>
  What \<open>glob\<close> relies on: in the states that are \<open>fit\<close> for the stream, the calls of \<open>readdir\<close> return the entries of
  the stream one after the other and then NULL, and change nothing.
\<close>

locale dir_stream =
  fixes F :: "('s, 'd) dir_functions" and entries :: "'d \<Rightarrow> dirent list" and fit :: "'s \<Rightarrow> 'd \<Rightarrow> bool"
  assumes read_end: "fit s d \<Longrightarrow> entries d = [] \<Longrightarrow> \<exists>d'. run_state (gl_readdir F d) s = ((None, d'), s)"
    and read_entry: "fit s d \<Longrightarrow> entries d = e # es \<Longrightarrow>
      \<exists>d'. run_state (gl_readdir F d) s = ((Some e, d'), s) \<and> entries d' = es \<and> fit s d'"
    and entries_left: "length (entries d) \<le> gl_left F d"
    and close_silent: "run_state (gl_closedir F d) s = ((), s)"

text \<open>The entries that are chosen, and those whose match does not read outside of a string.\<close>

definition chosen :: "cstring \<Rightarrow> glob_flag set \<Rightarrow> dirent \<Rightarrow> bool" where
  "chosen pattern flags d \<longleftrightarrow> d_ino d \<noteq> 0 \<and> (GLOB_ONLYDIR \<in> flags \<longrightarrow> d_type d \<in> {DT_UNKNOWN, DT_DIR})
     \<and> fnmatch pattern (d_name d) (fnm_flags_of flags) = FNM_MATCH"

definition safe_for :: "cstring \<Rightarrow> glob_flag set \<Rightarrow> dirent \<Rightarrow> bool" where
  "safe_for pattern flags d \<longleftrightarrow> fnmatch pattern (d_name d) (fnm_flags_of flags) \<noteq> Overread"

context dir_stream
begin

lemma read_entries_chosen:
  assumes "fit s d" "list_all (safe_for pattern flags) (entries d)" "length (entries d) < n"
  shows "\<exists>d'. run_state (read_entries n F pattern flags d names) s
    = ((Some (rev (map d_name (filter (chosen pattern flags) (entries d))) @ names), d'), s)"
  using assms
proof (induction n arbitrary: d names)
  case (Suc n)
  show ?case
  proof (cases "entries d")
    case Nil
    with read_end [OF Suc.prems(1)] obtain d' where "run_state (gl_readdir F d) s = ((None, d'), s)" by blast
    with Nil show ?thesis by (simp add: chosen_def)
  next
    case (Cons e es)
    with read_entry [OF Suc.prems(1)] obtain d' where
      d': "run_state (gl_readdir F d) s = ((Some e, d'), s)" "entries d' = es" "fit s d'" by blast
    have safe: "safe_for pattern flags e" using Suc.prems(2) Cons by simp
    have IH: "\<exists>d''. run_state (read_entries n F pattern flags d' names) s
        = ((Some (rev (map d_name (filter (chosen pattern flags) es)) @ names), d''), s)" for names
      using Suc.IH [OF d'(3)] Suc.prems Cons d'(2) by simp
    show ?thesis
    proof (cases "fnmatch pattern (d_name e) (fnm_flags_of flags)")
      case FNM_MATCH
      with d' IH [of names] IH [of "d_name e # names"] Cons show ?thesis
        by (auto simp: chosen_def [of pattern flags e])
    next
      case FNM_NOMATCH
      with d' IH [of names] Cons show ?thesis by (auto simp: chosen_def [of pattern flags e])
    qed (use safe in \<open>simp add: safe_for_def\<close>)
  qed
qed simp

text \<open>A pattern in a directory that can be opened.\<close>

lemma glob_in_dir_opened:
  assumes "functions_for W flags = F" "glob_pattern_p pattern (GLOB_NOESCAPE \<notin> flags)"
    and "run_state (gl_opendir F directory) s = (Inr stream, t)" "fit t stream"
    and "list_all (safe_for pattern (insert GLOB_MAGCHAR flags)) (entries stream)"
  shows "run_state (glob_in_dir W pattern directory flags g) s
    = (add_names pattern (insert GLOB_MAGCHAR flags)
        (rev (map d_name (filter (chosen pattern (insert GLOB_MAGCHAR flags)) (entries stream)))) g, t)"
proof -
  have ne: "pattern \<noteq> []" using assms(2) by (auto simp: glob_pattern_p_def)
  have len: "length (entries stream) < Suc (gl_left F stream)" using entries_left [of stream] by simp
  obtain d' where r: "run_state (read_entries (Suc (gl_left F stream)) F pattern (insert GLOB_MAGCHAR flags) stream []) t
      = ((Some (rev (map d_name (filter (chosen pattern (insert GLOB_MAGCHAR flags)) (entries stream)))), d'), t)"
    using read_entries_chosen [OF assms(4,5) len, of "[]"] by auto
  show ?thesis
    unfolding glob_in_dir_def Let_def
    using assms(1-3) ne r by (simp add: close_silent del: read_entries.simps)
qed

end

text \<open>A pattern without a directory part.\<close>

lemma libglob_here:
  assumes "solidus \<notin> set pattern" "flags \<inter> {GLOB_MAGCHAR, GLOB_BRACE, GLOB_TILDE, GLOB_TILDE_CHECK, GLOB_MARK,
      GLOB_APPEND, GLOB_DOOFFS} = {}" "GLOB_NOSORT \<in> flags"
    and "run_state (glob_in_dir W pattern ''.'' flags (g\<lparr>gl_pathv := []\<rparr>)) s = ((status, h), t)"
  shows "run_state (libglob W pattern flags g) s = ((status, h), t)"
proof -
  have "\<not> glob_pattern_p ''.'' q" for q by (simp add: glob_pattern_p_def)
  moreover have "split_pattern flags pattern = (Some pattern, ''.'', 0)"
    using assms(1,2) by (auto simp: split_pattern_def strrchr_None [THEN iffD2])
  moreover have "expand_tilde W flags ''.'' = Some ''.''" using assms(2) by (auto simp: expand_tilde_def)
  ultimately have "run_state (glob_one W pattern flags g) s = ((status, h), t)"
    using assms(2-4) by (subst glob_one.simps) (auto simp: finish_glob_def Let_def)
  moreover have "libglob W pattern flags g = glob_one W pattern flags g"
    using assms(2) by (subst libglob.simps) auto
  ultimately show ?thesis by simp
qed

section \<open>Appending\<close>

text \<open>What was in the vector stays, and what is found comes after it.\<close>

definition extends :: "glob_t \<Rightarrow> glob_t \<Rightarrow> bool" where
  "extends g h \<longleftrightarrow> gl_offs h = gl_offs g \<and> gl_pathc g \<le> gl_pathc h \<and> take (gl_pathc g) (gl_pathv h) = gl_pathv g"

definition appends :: "glob_t \<Rightarrow> ('s, glob_status \<times> glob_t) state \<Rightarrow> bool" where
  "appends g m \<longleftrightarrow> (\<forall>s. extends g (snd (fst (run_state m s))))"

lemma extends_refl [simp, intro]: "extends g g"
  by (simp add: extends_def gl_pathc_def)

lemma extends_trans: "extends g h \<Longrightarrow> extends h k \<Longrightarrow> extends g k"
  unfolding extends_def by (metis (no_types) le_trans min.absorb1 take_take)

lemma extends_append: "extends g h \<Longrightarrow> extends g (h\<lparr>gl_pathv := gl_pathv h @ es\<rparr>)"
  by (simp add: extends_def gl_pathc_def)

lemma extends_flags: "extends g (h\<lparr>gl_flags := fl\<rparr>) \<longleftrightarrow> extends g h"
  by (simp add: extends_def gl_pathc_def)

lemma extends_reserve: "extends g h \<Longrightarrow> extends g (reserve_offs flags h)"
  by (simp add: reserve_offs_def extends_append)

lemma extends_add_names: "extends g h \<Longrightarrow> extends g (snd (add_names p flags names h))"
  using extends_append [OF extends_reserve, of g h flags "map Some names"]
  by (auto simp: add_names_def Let_def extends_flags)
    (metis extends_append extends_flags extends_reserve)+

lemma extends_prefix: "extends g h \<Longrightarrow> gl_pathc g \<le> n \<Longrightarrow> extends g (prefix_from n d h)"
  by (auto simp: extends_def prefix_from_def prefix_array_def gl_pathc_def min_def)

lemma appends_return: "extends g (snd r) \<Longrightarrow> appends g (State_Monad.return r)"
  by (simp add: appends_def)

lemma appends_bind: "appends g m \<Longrightarrow> (\<And>st h. extends g h \<Longrightarrow> appends g (f (st, h))) \<Longrightarrow> appends g (State_Monad.bind m f)"
  by (simp add: appends_def split_def) (metis prod.collapse)

lemma appends_then: "(\<And>a. appends g (f a)) \<Longrightarrow> appends g (State_Monad.bind m f)"
  by (simp add: appends_def split_def)

lemma appends_pair: "(\<And>a b. appends g (f (a, b))) \<Longrightarrow> appends g (State_Monad.bind m f)"
  by (simp add: appends_def split_def) (metis prod.collapse)

lemma appends_glob_in_dir: "extends g h \<Longrightarrow> appends g (glob_in_dir W p d flags h)"
  unfolding glob_in_dir_def Let_def
  by (auto intro!: appends_then appends_return extends_add_names split: sum.split option.split)

lemma appends_glob_in_dirs: "extends g h \<Longrightarrow> appends g (glob_in_dirs W p flags dirs h)"
proof (induction dirs arbitrary: h)
  case (Cons dir dirs)
  show ?case
  proof (cases dir)
    case (Some d)
    have le: "gl_pathc g \<le> gl_pathc h" using Cons.prems by (simp add: extends_def)
    have "appends g (case (st, k) of (status, k) \<Rightarrow>
        if status = GLOB_NOMATCH then glob_in_dirs W p flags dirs k
        else if status \<noteq> GLOB_OK then State_Monad.return (status, k)
        else if None \<in> set (drop (gl_pathc h) (gl_pathv k)) then State_Monad.return (Glob_crash, k)
        else glob_in_dirs W p flags dirs (prefix_from (gl_pathc h) d k))" if "extends g k" for st k
      using Cons.IH that le by (auto intro!: appends_return extends_prefix)
    then have "appends g (do { (status, k) \<leftarrow> glob_in_dir W p d fl h;
        if status = GLOB_NOMATCH then glob_in_dirs W p flags dirs k
        else if status \<noteq> GLOB_OK then State_Monad.return (status, k)
        else if None \<in> set (drop (gl_pathc h) (gl_pathv k)) then State_Monad.return (Glob_crash, k)
        else glob_in_dirs W p flags dirs (prefix_from (gl_pathc h) d k) })" for fl
      by (intro appends_bind appends_glob_in_dir Cons.prems)
    with Some Cons.prems show ?thesis
      unfolding Let_def by (simp add: Let_def) (rule appends_then, simp add: appends_return Let_def)
  qed (use Cons.prems in \<open>simp add: appends_def\<close>)
qed (auto intro: appends_return)

lemma appends_glob_each:
  assumes "extends g h"
  shows "extends g (snd (snd (fst (run_state (glob_each W p flags dirs h) s))))"
proof -
  obtain st k t where r: "run_state (glob_in_dirs W p flags dirs h) s = ((st, k), t)" by (metis prod.collapse)
  with appends_glob_in_dirs [OF assms] have k: "extends g k" unfolding appends_def by (metis fst_conv snd_conv)
  have "extends g (case names of None \<Rightarrow> reserve_offs flags k
      | Some ns \<Rightarrow> reserve_offs flags k\<lparr>gl_pathv := gl_pathv (reserve_offs flags k) @ ns, gl_flags := fl\<rparr>)" for names fl
    using k by (auto simp: extends_reserve extends_flags extends_append split: option.split)
  then show ?thesis
    using k by (auto simp: glob_each_def Let_def r split_def extends_reserve extends_flags extends_append split: option.split)
qed

lemma appends_finish:
  assumes "extends g h" "gl_pathc g = n"
  shows "appends g (finish_glob W n flags h)"
proof -
  have "take n (gl_pathv h) = gl_pathv g" "gl_offs h = gl_offs g" "length (gl_pathv g) = n"
    using assms by (auto simp: extends_def gl_pathc_def)
  then have "extends g (h\<lparr>gl_pathv := take m (gl_pathv g @ es) @ r\<rparr>)" if "n \<le> m" for m es r
    using that by (auto simp: extends_def gl_pathc_def)
  from this [of n "[]"] this show ?thesis
    using assms unfolding finish_glob_def Let_def
    by (auto intro!: appends_then appends_return split: option.split simp: extends_def gl_pathc_def min_def)
qed

lemma appends_alternatives:
  assumes "\<And>alt h. alt \<in> set alts \<Longrightarrow> appends h (f alt h)" "extends g h"
  shows "appends g (for_alternatives f alts h)"
  using assms
proof (induction alts arbitrary: h)
  case (Cons alt alts)
  have step: "extends g k" if "run_state (f alt h) s = ((st, k), t)" for s st k t
    using Cons.prems that extends_trans unfolding appends_def by (metis fst_conv list.set_intros(1) snd_conv)
  show ?case
    unfolding appends_def
  proof
    fix s
    obtain st k t where r: "run_state (f alt h) s = ((st, k), t)" by (metis prod.collapse)
    with step Cons.IH [of k] Cons.prems(1) show "extends g (snd (fst (run_state (for_alternatives f (alt # alts) h) s)))"
      by (auto simp: appends_def)
  qed
qed (auto intro: appends_return)

lemma appends_trans: "extends g h \<Longrightarrow> appends h m \<Longrightarrow> appends g m"
  unfolding appends_def using extends_trans by blast

lemma libglob_appends:
  "GLOB_APPEND \<in> flags \<Longrightarrow> appends g (libglob W pattern flags g)"
  "GLOB_APPEND \<in> flags \<Longrightarrow> appends g (glob_one W pattern flags g)"
proof (induction W pattern flags g and W pattern flags g rule: libglob_glob_one.induct)
  case hyps: (1 W pattern flags g)
  show ?case
  proof (cases "GLOB_MAGCHAR \<notin> flags \<and> GLOB_BRACE \<in> flags \<and> CHR ''{'' \<in> set pattern")
    case False
    with hyps.IH(4) hyps.prems show ?thesis by (subst libglob.simps) (auto intro: appends_return)
  next
    case brace: True
    show ?thesis
    proof (cases "brace_patterns pattern")
      case Brace_illegal
      with hyps.IH(1) hyps.prems brace show ?thesis by (subst libglob.simps) auto
    next
      case (Brace alts)
      let ?f = "\<lambda>onealt g. libglob W onealt (insert GLOB_APPEND (flags - {GLOB_NOCHECK, GLOB_NOMAGIC})) g"
      have loop: "appends g (for_alternatives ?f alts g)"
        using hyps.IH(2) Brace brace hyps.prems by (intro appends_alternatives) auto
      have "appends g (case (result, h) of (result, h) \<Rightarrow>
          if result \<noteq> GLOB_OK then State_Monad.return (result, h)
          else if gl_pathc h \<noteq> gl_pathc g then State_Monad.return (GLOB_OK, h)
          else if flags \<inter> {GLOB_NOCHECK, GLOB_NOMAGIC} = {} then State_Monad.return (GLOB_NOMATCH, h)
          else glob_one W pattern flags h)" if "extends g h" for result h
        using that hyps.IH(3) [of alts g "gl_pathc g" GLOB_OK h] Brace brace hyps.prems
        by (auto intro: appends_return appends_trans)
      with brace Brace hyps.prems appends_bind [OF loop] show ?thesis
        by (subst libglob.simps) (simp add: Let_def)
    qed (subst libglob.simps, use brace in \<open>simp add: appends_return\<close>)
  qed
next
  case hyps: (2 W pattern flags g)
  obtain filename dirname dirlen where sp: "split_pattern flags pattern = (filename, dirname, dirlen)"
    by (cases "split_pattern flags pattern") auto
  show ?case
  proof (cases "filename = Some [] \<and> dirlen > 1")
    case True
    with hyps.IH(1) [OF sp [symmetric] refl] hyps.prems
    have "appends g (libglob W dirname (insert GLOB_MARK flags) g)" by simp
    with True sp show ?thesis
      by (subst glob_one.simps) (auto simp: extends_flags intro!: appends_bind appends_return)
  next
    case False
    have finish: "appends g (do { (status, h) \<leftarrow> glob_in_dir W f d flags g;
        if status \<noteq> GLOB_OK then State_Monad.return (status, h)
        else
          let ignore = (if GLOB_DOOFFS \<in> flags \<and> gl_pathc g < gl_offs h then gl_offs h else gl_pathc g)
          in finish_glob W (gl_pathc g) flags (if b then prefix_from ignore d h else h) })" for f d b
      by (auto simp: Let_def intro!: appends_bind appends_glob_in_dir appends_return appends_finish extends_prefix)
    have each: "appends g (do { (status, flags, h) \<leftarrow> glob_each W f flags dirs g;
        if status \<noteq> GLOB_OK then State_Monad.return (status, h) else finish_glob W (gl_pathc g) flags h })" for f dirs
      using appends_glob_each [of g g W f flags dirs]
      by (auto simp: appends_def split_def appends_finish [unfolded appends_def, rule_format])
    have tilde: "appends g (tilde_alone W d flags g)" for d
      unfolding tilde_alone_def Let_def
      by (auto intro!: appends_then appends_return extends_append extends_reserve simp: extends_flags)
    show ?thesis
    proof (cases "expand_tilde W flags dirname")
      case (Some d)
      show ?thesis
      proof (cases filename)
        case name: (Some f)
        show ?thesis
        proof (cases "glob_pattern_p d (GLOB_NOESCAPE \<notin> flags)")
          case True
          have "appends g (case (status, dirs) of (status, dirs) \<Rightarrow>
              if status \<noteq> GLOB_OK then State_Monad.return (status, g)
              else do { (status, flags, h) \<leftarrow> glob_each W f flags (gl_pathv dirs) g;
                if status \<noteq> GLOB_OK then State_Monad.return (status, h)
                else finish_glob W (gl_pathc g) flags h })" for status dirs
            using each by (simp add: appends_return)
          then have "appends g (do { (status, dirs) \<leftarrow> m;
              if status \<noteq> GLOB_OK then State_Monad.return (status, g)
              else do { (status, flags, h) \<leftarrow> glob_each W f flags (gl_pathv dirs) g;
                if status \<noteq> GLOB_OK then State_Monad.return (status, h)
                else finish_glob W (gl_pathc g) flags h } })" for m
            by (rule appends_pair)
          with False sp hyps.prems Some name True show ?thesis
            by (subst glob_one.simps) (auto simp: Let_def)
        next
          case plain: False
          with False sp hyps.prems finish [of f d "dirlen > 0"] Some name show ?thesis
            by (subst glob_one.simps) (auto simp: Let_def)
        qed
      qed (subst glob_one.simps, use False sp hyps.prems tilde Some in auto)
    qed (subst glob_one.simps, use False sp hyps.prems in \<open>auto intro: appends_return\<close>)
  qed
qed

section \<open>Braces\<close>

fun join_with :: "char \<Rightarrow> cstring list \<Rightarrow> cstring" where
  "join_with c [] = []"
| "join_with c [a] = a"
| "join_with c (a # as) = a @ c # join_with c as"

definition brace_free :: "cstring \<Rightarrow> bool" where
  "brace_free s \<longleftrightarrow> set s \<inter> {CHR ''{'', CHR ''}'', CHR '',''} = {}"

lemma next_brace_sub_free:
  "brace_free a \<Longrightarrow> c = CHR '','' \<or> c = CHR ''}'' \<Longrightarrow> next_brace_sub (a @ c # r) = Some (c # r)"
  by (induction a) (auto simp: brace_free_def)

lemma brace_subs_join:
  "as \<noteq> [] \<Longrightarrow> list_all brace_free as \<Longrightarrow>
    brace_subs (join_with CHR '','' as @ CHR ''}'' # rest) = Brace (as, rest)"
proof (induction as)
  case hyps: (Cons a as)
  show ?case
  proof (cases as)
    case Nil
    with hyps.prems next_brace_sub_free [of a "CHR ''}''" rest] show ?thesis
      by (subst brace_subs.simps) simp
  next
    case (Cons b bs)
    with hyps.IH hyps.prems next_brace_sub_free [of a "CHR '',''" "join_with CHR '','' (b # bs) @ CHR ''}'' # rest"]
    show ?thesis by (subst brace_subs.simps) simp
  qed
qed simp

section \<open>Properties\<close>

text \<open>With \<open>GLOB_APPEND\<close> the names found before the call are all kept, in their places, whatever
  the pattern, the flags and the directories, and also when the call fails.\<close>

theorem glob_appends:
  assumes "GLOB_APPEND \<in> flags" "run_state (libglob W pattern flags g) s = ((status, h), t)"
  shows "take (gl_pathc g) (gl_pathv h) = gl_pathv g \<and> gl_offs h = gl_offs g"
  using libglob_appends(1) [OF assms(1), of g W pattern] assms(2)
  unfolding appends_def extends_def by (metis fst_conv snd_conv)

definition no_dirs :: "(unit, unit) dir_functions" where
  "no_dirs = \<lparr>gl_opendir = (\<lambda>d. State_Monad.return (Inl ENOENT)), gl_readdir = (\<lambda>d. State_Monad.return (None, d)),
     gl_closedir = State_Monad.return, gl_stat = (\<lambda>f. State_Monad.return None), gl_left = (\<lambda>d. 0)\<rparr>"

definition no_dirs_env :: "(unit, unit) glob_env" where
  "no_dirs_env = \<lparr>ge_alt = no_dirs, ge_system = no_dirs, ge_errfunc = None,
     ge_interrupt_state = State_Monad.return False, ge_home = None, ge_login = None,
     ge_getpwnam = (\<lambda>u. None), ge_strcoll = strcasecmp\<rparr>"

theorem glob_appends_witness:
  "take 1 (gl_pathv (snd (fst (run_state (libglob no_dirs_env ''*'' {GLOB_APPEND, GLOB_NOCHECK}
     \<lparr>gl_pathv = [Some ''x''], gl_offs = 0, gl_flags = {}\<rparr>) ())))) = [Some ''x'']"
  using glob_appends [of "{GLOB_APPEND, GLOB_NOCHECK}" no_dirs_env "''*''"
    "\<lparr>gl_pathv = [Some ''x''], gl_offs = 0, gl_flags = {}\<rparr>" "()"]
  by (metis (no_types) One_nat_def gl_pathc_def glob_t.select_convs(1) insertI1 length_Cons list.size(3) prod.collapse)

text \<open>C15: A brace expression stands for its alternatives: \<open>x{a,b}y\<close> is expanded to \<open>xay\<close> and \<open>xby\<close> in
  this order, when there are no braces in the alternatives.\<close>

theorem brace_roundtrip:
  assumes "as \<noteq> []" "list_all brace_free as" "CHR ''{'' \<notin> set prefix"
  shows "brace_patterns (prefix @ CHR ''{'' # join_with CHR '','' as @ CHR ''}'' # rest)
    = Brace (map (\<lambda>a. prefix @ a @ rest) as)"
proof -
  have "takeWhile (\<lambda>c. c \<noteq> CHR ''{'') (prefix @ CHR ''{'' # r) = prefix" for r
    using assms(3) by (induction prefix) auto
  with brace_subs_join [OF assms(1,2), of rest] show ?thesis by (simp add: brace_patterns_def)
qed

theorem brace_roundtrip_witness: "brace_patterns ''a.{c,h}'' = Brace [''a.c'', ''a.h'']"
proof -
  have "list_all brace_free [''c'', ''h'']" by (simp add: brace_free_def)
  from brace_roundtrip [OF _ this, of "''a.''" "[]"] show ?thesis by simp
qed

text \<open>The braces inside an alternative are not counted, and a brace that is not closed lets the search
  go on behind the end of the pattern.\<close>

lemma nested_braces_lost: "brace_patterns ''{a{b}c,d}'' = Brace [''a{b}c,d'']"
  by code_simp

lemma unclosed_brace_overruns: "brace_patterns ''{ab'' = Brace_overrun"
  by code_simp

end
