(* ===== verification/Remote_Names.thy ===== *)
theory Remote_Names
  imports Edit Glob
begin

text \<open>
  Names of remote resources as the user's side sees them: the directory functions that
  \<open>src/cmdline.c\<close> gives to \<open>glob\<close>, and the completion of remote paths with its cache
  (\<open>src/cadaver.c\<close>).
\<close>

section \<open>Directory functions for glob\<close>

text \<open>\<open>struct dg_ctx\<close>: the length of the root path and what is left of the list.\<close>

record dg_ctx =
  rootlen :: nat
  dg_current :: "resource list"

definition davglob_opendir :: "'w env \<Rightarrow> cstring \<Rightarrow> ('w, errno + dg_ctx) handler_m" where
  "davglob_opendir E dir = do {
     uri_path \<leftarrow> uri_resolve_native_coll E dir;
     (ret, files) \<leftarrow> fetch_resource_list E uri_path NE_DEPTH_ONE False;
     State_Monad.return
       (case ret of
          NE_OK \<Rightarrow> Inr \<lparr>rootlen = length uri_path, dg_current = files\<rparr>
        | NE_AUTH \<Rightarrow> Inl EACCES
        | _ \<Rightarrow> Inl ENOENT) }"

definition dirent_of :: "cstring \<Rightarrow> resource_type \<Rightarrow> dirent" where
  "dirent_of native t =
     \<lparr>d_name = strnzcpy 255 native, d_type = (if t = resr_collection then DT_DIR else DT_REG), d_ino = 1\<rparr>"

text \<open>A segment that cannot be unescaped is NULL, and is copied from.\<close>

definition davglob_readdir :: "'w env \<Rightarrow> dg_ctx \<Rightarrow> ('w, dirent option \<times> dg_ctx) handler_m" where
  "davglob_readdir E ctx =
     (case dropWhile (\<lambda>r. length (r_uri r) \<le> rootlen ctx) (dg_current ctx) of
        [] \<Rightarrow> State_Monad.return (None, ctx\<lparr>dg_current := []\<rparr>)
      | r # rs \<Rightarrow> do {
          segment \<leftarrow> native_path_from_uri E (drop (rootlen ctx) (r_uri r));
          native \<leftarrow> (case segment of Some n \<Rightarrow> State_Monad.return n | None \<Rightarrow> undefined_behaviour []);
          State_Monad.return
            (Some (dirent_of native (r_type r)), ctx\<lparr>dg_current := rs\<rparr>) })"

text \<open>All entries, the calls of \<open>readdir\<close> until it returns NULL.\<close>

fun read_all :: "nat \<Rightarrow> 'w env \<Rightarrow> dg_ctx \<Rightarrow> ('w, dirent list) handler_m" where
  "read_all 0 E ctx = State_Monad.return []"
| "read_all (Suc n) E ctx = do {
     (entry, ctx') \<leftarrow> davglob_readdir E ctx;
     case entry of
       None \<Rightarrow> State_Monad.return []
     | Some d \<Rightarrow> do { ds \<leftarrow> read_all n E ctx'; State_Monad.return (d # ds) } }"

text \<open>\<open>davglob_stat\<close>: is the name a directory?  It never fails.\<close>

definition davglob_stat :: "'w env \<Rightarrow> cstring \<Rightarrow> ('w, bool) handler_m" where
  "davglob_stat E filename = do {
     uri_path \<leftarrow> uri_resolve_native_coll E filename;
     t \<leftarrow> getrestype E uri_path;
     State_Monad.return (t = resr_collection) }"

definition davglob_errfunc :: "cstring \<Rightarrow> cstring \<Rightarrow> ('w, int) handler_m" where
  "davglob_errfunc filename err = do {
     output_msg o_finish (''Error on '' @ filename @ '': '' @ err @ ''\<newline>'');
     State_Monad.return 0 }"

section \<open>Completion\<close>

definition COMPLETION_CACHE_EXPIRE :: int where
  "COMPLETION_CACHE_EXPIRE = 10"

record completion_cache =
  cc_list :: "resource list"
  cc_expiry :: int
  cc_path :: "cstring option"

definition empty_cache :: completion_cache where
  "empty_cache = \<lparr>cc_list = [], cc_expiry = 0, cc_path = None\<rparr>"

definition refresh_completion_cache ::
  "'w env \<Rightarrow> cstring \<Rightarrow> completion_cache \<Rightarrow> ('w, completion_cache) handler_m" where
  "refresh_completion_cache E uri_path cache = do {
     now \<leftarrow> read_world (os_time E);
     if cc_expiry cache < now \<or> cc_path cache \<noteq> Some uri_path then do {
       (ret, files) \<leftarrow> fetch_resource_list E uri_path NE_DEPTH_ONE False;
       now' \<leftarrow> read_world (os_time E);
       State_Monad.return
         (if ret = NE_OK then
            \<lparr>cc_list = files, cc_expiry = now' + COMPLETION_CACHE_EXPIRE, cc_path = Some uri_path\<rparr>
          else empty_cache) }
     else State_Monad.return cache }"

text \<open>The static variables of \<open>remote_completion\<close>.\<close>

record completion_state =
  cs_cache :: completion_cache
  cs_current :: "resource list"
  cs_text_uri_path :: cstring

definition completion_root :: "'w env \<Rightarrow> cstring \<Rightarrow> ('w, cstring) handler_m" where
  "completion_root E t =
     (case strrchr t slash of
        Some sep \<Rightarrow> uri_resolve_native_coll E (take (length t - length sep) t)
      | None \<Rightarrow> gets (\<lambda>s. path_of (s_uri s)))"

text \<open>The branch \<open>state == 0\<close>.\<close>

definition start_completion ::
  "'w env \<Rightarrow> cstring \<Rightarrow> completion_state \<Rightarrow> ('w, completion_state) handler_m" where
  "start_completion E t st = do {
     text_uri_path \<leftarrow> uri_resolve_native E t;
     uri_root_path \<leftarrow> completion_root E t;
     cache \<leftarrow> refresh_completion_cache E uri_root_path (cs_cache st);
     State_Monad.return \<lparr>cs_cache = cache, cs_current = cc_list cache, cs_text_uri_path = text_uri_path\<rparr> }"

text \<open>
  The loop: the first resource whose path starts with that of the text, as the path below the
  current collection when it is there; a path that cannot be converted is passed over.
\<close>

fun next_completion ::
  "'w env \<Rightarrow> cstring \<Rightarrow> cstring \<Rightarrow> resource list \<Rightarrow> ('w, cstring option \<times> resource list) handler_m" where
  "next_completion E here t [] = State_Monad.return (None, [])"
| "next_completion E here t (r # rs) =
     (if strneq t (r_uri r) (length t) then do {
        found \<leftarrow>
          (if length here < length (r_uri r) \<and> strneq (r_uri r) here (length here)
           then native_path_from_uri E (drop (length here) (r_uri r))
           else native_path_from_uri E (r_uri r));
        (case found of
           Some n \<Rightarrow> State_Monad.return (Some n, rs)
         | None \<Rightarrow> next_completion E here t rs) }
      else next_completion E here t rs)"

definition remote_completion ::
  "'w env \<Rightarrow> cstring \<Rightarrow> int \<Rightarrow> completion_state \<Rightarrow> ('w, cstring option \<times> completion_state) handler_m" where
  "remote_completion E t state st = do {
     st \<leftarrow> (if state = 0 then start_completion E t st else State_Monad.return st);
     here \<leftarrow> gets (\<lambda>s. path_of (s_uri s));
     (found, left) \<leftarrow> next_completion E here (cs_text_uri_path st) (cs_current st);
     State_Monad.return (found, st\<lparr>cs_current := left\<rparr>) }"

text \<open>Which generator \<open>completion\<close> hands to the readline library.\<close>

datatype generator = Command_names | Local_files | Remote_paths | No_matches

definition choose_generator :: "bool \<Rightarrow> cstring \<Rightarrow> nat \<Rightarrow> generator" where
  "choose_generator connected line start =
     (if start = 0 then Command_names
      else case strchr line CHR '' '' of
          None \<Rightarrow> No_matches
        | Some sep \<Rightarrow>
            (case (case get_command (take (length line - length sep) line) of
                     Some c \<Rightarrow> c_scope c | None \<Rightarrow> parmscope_none) of
               parmscope_none \<Rightarrow> No_matches
             | parmscope_local \<Rightarrow> Local_files
             | parmscope_option \<Rightarrow> No_matches
             | parmscope_remote \<Rightarrow> if connected then Remote_paths else No_matches))"

definition completion ::
  "bool \<Rightarrow> cstring \<Rightarrow> nat \<Rightarrow> (generator \<Rightarrow> ('w, 'm) handler_m) \<Rightarrow> ('w, 'm) handler_m" where
  "completion connected line start run = do {
     modify (\<lambda>s. s\<lparr>s_completion := True\<rparr>);
     matches \<leftarrow> run (choose_generator connected line start);
     modify (\<lambda>s. s\<lparr>s_completion := False\<rparr>);
     State_Monad.return matches }"

section \<open>Lemmas\<close>

lemma names_frames:
  "gr.keeps harmless (davglob_opendir E d)" "ss.keeps (davglob_opendir E d)"
  "gr.keeps harmless (davglob_readdir E c)" "ss.keeps (davglob_readdir E c)"
  "gr.keeps harmless (davglob_stat E f)" "ss.keeps (davglob_stat E f)"
  unfolding davglob_opendir_def davglob_readdir_def davglob_stat_def
  by (intro handler_frames; simp)+

text \<open>Resources that are below the root, the others being skipped.\<close>

lemma read_all_names:
  assumes "\<And>u. ne_path_unescape E u = Some u" "get_bool_option opt_utf8 (s_opts s) \<noteq> 0"
    and "length (dg_current ctx) < n"
  shows "fst (run_state (read_all n E ctx) s) =
    map (\<lambda>r. dirent_of (drop (rootlen ctx) (r_uri r)) (r_type r))
      (filter (\<lambda>r. rootlen ctx < length (r_uri r)) (dg_current ctx))
    \<and> snd (run_state (read_all n E ctx) s) = s"
  using assms(3)
proof (induction n arbitrary: ctx)
  case (Suc n)
  let ?P = "\<lambda>r. length (r_uri r) \<le> rootlen ctx"
  have skip: "filter (\<lambda>r. rootlen ctx < length (r_uri r)) xs
      = filter (\<lambda>r. rootlen ctx < length (r_uri r)) (dropWhile ?P xs)" for xs
    by (induction xs) auto
  show ?case
  proof (cases "dropWhile ?P (dg_current ctx)")
    case Nil
    have "run_state (davglob_readdir E ctx) s = ((None, ctx\<lparr>dg_current := []\<rparr>), s)"
      unfolding davglob_readdir_def Nil by simp
    moreover have "filter (\<lambda>r. rootlen ctx < length (r_uri r)) (dg_current ctx) = []"
      using skip [of "dg_current ctx"] unfolding Nil by simp
    ultimately show ?thesis by simp
  next
    case (Cons r rs)
    have "length (dropWhile ?P (dg_current ctx)) \<le> length (dg_current ctx)" by (rule length_dropWhile_le)
    then have len: "length rs < n" using Cons Suc.prems by simp
    have r: "rootlen ctx < length (r_uri r)" using Cons by (metis hd_dropWhile list.distinct(1) list.sel(1) not_le)
    have "run_state (native_path_from_uri E (drop (rootlen ctx) (r_uri r))) s
        = (Some (drop (rootlen ctx) (r_uri r)), s)"
      using assms(1,2) by (simp add: native_path_from_uri_def)
    then have "run_state (davglob_readdir E ctx) s
        = ((Some (dirent_of (drop (rootlen ctx) (r_uri r)) (r_type r)), ctx\<lparr>dg_current := rs\<rparr>), s)"
      unfolding davglob_readdir_def Cons by simp
    moreover have "filter (\<lambda>r. rootlen ctx < length (r_uri r)) (dg_current ctx)
        = r # filter (\<lambda>r. rootlen ctx < length (r_uri r)) rs"
      using skip [of "dg_current ctx"] r unfolding Cons by simp
    ultimately show ?thesis
      using Suc.IH [of "ctx\<lparr>dg_current := rs\<rparr>"] len by (simp add: split_def)
  qed
qed simp

text \<open>A fresh listing of the same collection is not asked for again.\<close>

lemma refresh_cached:
  "cc_path cache = Some p \<Longrightarrow> os_time E (s_world s) \<le> cc_expiry cache \<Longrightarrow>
     run_state (refresh_completion_cache E p cache) s = (cache, s)"
  by (simp add: refresh_completion_cache_def)

text \<open>What is offered comes from a resource whose path starts with the text.\<close>

lemma next_completion_sound:
  assumes "\<And>u. ne_path_unescape E u = Some u" "get_bool_option opt_utf8 (s_opts s) \<noteq> 0"
    and "fst (fst (run_state (next_completion E here t rs) s)) = Some n"
  shows "\<exists>r \<in> set rs. strneq t (r_uri r) (length t) \<and> (n = r_uri r \<or> n = drop (length here) (r_uri r))"
proof -
  have native: "run_state (native_path_from_uri E u) s = (Some u, s)" for u
    using assms(1,2) by (simp add: native_path_from_uri_def)
  show ?thesis using assms(3)
    by (induction rs) (auto simp: native split: if_splits)
qed

end
