(* ===== verification/Remote_Glob.thy ===== *)
theory Remote_Glob
  imports Remote_Names Sample_Server
begin

text \<open>
  The expansion of patterns on the command line with the routine of \<open>lib/glob\<close>: the directory
  functions of \<open>src/cmdline.c\<close> for remote names, the system's for local ones.  What it gives to
  \<open>parse_command\<close> takes part in the state of the shell.
\<close>

section \<open>The environment of \<open>glob\<close>\<close>

text \<open>What the operating system gives for local names; a directory is the list of its entries.\<close>

record 'w local_dirs =
  ld_opendir :: "cstring \<Rightarrow> 'w \<Rightarrow> (errno + dirent list) \<times> 'w"
  ld_stat :: "cstring \<Rightarrow> 'w \<Rightarrow> bool option"
  ld_strerror :: "errno \<Rightarrow> cstring"
  ld_interrupted :: "'w \<Rightarrow> bool"
  ld_login :: "cstring option"
  ld_getpwnam :: "cstring \<Rightarrow> cstring option"
  ld_strcoll :: "cstring \<Rightarrow> cstring \<Rightarrow> int"

type_synonym glob_stream = "dg_ctx + dirent list"

definition dav_functions :: "'w env \<Rightarrow> ('w shell, glob_stream) dir_functions" where
  "dav_functions E =
     \<lparr>gl_opendir = (\<lambda>d. do {
        opened \<leftarrow> davglob_opendir E d;
        State_Monad.return (case opened of Inl e \<Rightarrow> Inl e | Inr ctx \<Rightarrow> Inr (Inl ctx)) }),
      gl_readdir = (\<lambda>st. case st of
          Inl ctx \<Rightarrow> do { (entry, ctx) \<leftarrow> davglob_readdir E ctx; State_Monad.return (entry, Inl ctx) }
        | Inr es \<Rightarrow> State_Monad.return (None, st)),
      gl_closedir = (\<lambda>st. State_Monad.return ()),
      gl_stat = (\<lambda>f. do { is_dir \<leftarrow> davglob_stat E f; State_Monad.return (Some is_dir) }),
      gl_left = (\<lambda>st. case st of Inl ctx \<Rightarrow> length (dg_current ctx) | Inr es \<Rightarrow> 0)\<rparr>"

definition system_functions :: "'w local_dirs \<Rightarrow> ('w shell, glob_stream) dir_functions" where
  "system_functions L =
     \<lparr>gl_opendir = (\<lambda>d. do {
        opened \<leftarrow> world_op (ld_opendir L d);
        State_Monad.return (case opened of Inl e \<Rightarrow> Inl e | Inr es \<Rightarrow> Inr (Inr es)) }),
      gl_readdir = (\<lambda>st. State_Monad.return
        (case st of Inr (e # es) \<Rightarrow> (Some e, Inr es) | _ \<Rightarrow> (None, st))),
      gl_closedir = (\<lambda>st. State_Monad.return ()),
      gl_stat = (\<lambda>f. read_world (ld_stat L f)),
      gl_left = (\<lambda>st. case st of Inl ctx \<Rightarrow> 0 | Inr es \<Rightarrow> length es)\<rparr>"

definition glob_environment :: "'w env \<Rightarrow> 'w local_dirs \<Rightarrow> ('w shell, glob_stream) glob_env" where
  "glob_environment E L =
     \<lparr>ge_alt = dav_functions E, ge_system = system_functions L,
      ge_errfunc = Some (\<lambda>filename err. davglob_errfunc filename (ld_strerror L err)),
      ge_interrupt_state = read_world (ld_interrupted L), ge_home = os_getenv E ''HOME'',
      ge_login = ld_login L, ge_getpwnam = ld_getpwnam L, ge_strcoll = ld_strcoll L\<rparr>"

text \<open>
  The call of \<open>glob\<close> in \<open>parse_command\<close> and what its result means there; the flag that the
  interrupt handler sets is cleared by the caller and read through the world.
\<close>

definition cadaver_glob :: "'w env \<Rightarrow> 'w local_dirs \<Rightarrow> cstring \<Rightarrow> bool \<Rightarrow> ('w, glob_result) handler_m" where
  "cadaver_glob E L token remote = do {
     let flags = (if remote then {GLOB_NOSORT, GLOB_ALTDIRFUNC} else {GLOB_NOSORT});
     (ret, gl) \<leftarrow> libglob (glob_environment E L) token flags empty_glob;
     (case ret of
        GLOB_OK \<Rightarrow>
          if None \<in> set (gl_pathv gl) then undefined_behaviour Glob_other
          else State_Monad.return (Glob_ok (map the (gl_pathv gl)))
      | GLOB_NOSPACE \<Rightarrow> State_Monad.return Glob_nospace
      | GLOB_ABORTED \<Rightarrow> State_Monad.return Glob_aborted
      | GLOB_NOMATCH \<Rightarrow> State_Monad.return Glob_nomatch
      | GLOB_INVALID \<Rightarrow> State_Monad.return Glob_other
      | Glob_crash \<Rightarrow> undefined_behaviour Glob_other) }"

text \<open>As the argument of \<open>parse_command\<close>, whose world is the state of the shell.\<close>

definition shell_glob :: "'w env \<Rightarrow> 'w local_dirs \<Rightarrow> 'w shell glob_fn" where
  "shell_glob E L token remote s = run_state (cadaver_glob E L token remote) s"

section \<open>Streams\<close>

definition native_of :: "'w env \<Rightarrow> cstring \<Rightarrow> cstring" where
  "native_of E u = (case ne_path_unescape E u of Some n \<Rightarrow> n | None \<Rightarrow> [])"

definition listed :: "'w env \<Rightarrow> dg_ctx \<Rightarrow> dirent list" where
  "listed E ctx = map (\<lambda>r. dirent_of (native_of E (drop (rootlen ctx) (r_uri r))) (r_type r))
     (filter (\<lambda>r. rootlen ctx < length (r_uri r)) (dg_current ctx))"

definition dav_entries :: "'w env \<Rightarrow> glob_stream \<Rightarrow> dirent list" where
  "dav_entries E st = (case st of Inl ctx \<Rightarrow> listed E ctx | Inr es \<Rightarrow> [])"

definition system_entries :: "glob_stream \<Rightarrow> dirent list" where
  "system_entries st = (case st of Inl ctx \<Rightarrow> [] | Inr es \<Rightarrow> es)"

text \<open>Names are UTF-8 at the user's side too, and every path of the listing can be unescaped.\<close>

definition dav_fit :: "'w env \<Rightarrow> 'w shell \<Rightarrow> glob_stream \<Rightarrow> bool" where
  "dav_fit E s st \<longleftrightarrow> get_bool_option opt_utf8 (s_opts s) \<noteq> 0 \<and>
     (case st of
        Inl ctx \<Rightarrow> \<forall>r \<in> set (dg_current ctx). rootlen ctx < length (r_uri r) \<longrightarrow>
          ne_path_unescape E (drop (rootlen ctx) (r_uri r)) \<noteq> None
      | Inr es \<Rightarrow> True)"

lemma listed_skip: "listed E (ctx\<lparr>dg_current := dropWhile (\<lambda>r. length (r_uri r) \<le> rootlen ctx) rs\<rparr>)
    = listed E (ctx\<lparr>dg_current := rs\<rparr>)"
  unfolding listed_def by (induction rs) auto

lemma davglob_readdir_listed:
  assumes "dav_fit E s (Inl ctx)"
  shows "\<exists>ctx'. run_state (davglob_readdir E ctx) s
      = ((case listed E ctx of [] \<Rightarrow> None | e # es \<Rightarrow> Some e, ctx'), s) \<and>
    dav_fit E s (Inl ctx') \<and> listed E ctx' = tl (listed E ctx)"
proof (cases "dropWhile (\<lambda>r. length (r_uri r) \<le> rootlen ctx) (dg_current ctx)")
  case Nil
  then have "listed E ctx = []" by (auto simp: listed_def filter_empty_conv)
  moreover have "listed E (ctx\<lparr>dg_current := []\<rparr>) = []" by (simp add: listed_def)
  moreover have "dav_fit E s (Inl (ctx\<lparr>dg_current := []\<rparr>))" using assms by (simp add: dav_fit_def)
  moreover have "run_state (davglob_readdir E ctx) s = ((None, ctx\<lparr>dg_current := []\<rparr>), s)"
    unfolding davglob_readdir_def Nil by simp
  ultimately show ?thesis by (intro exI [of _ "ctx\<lparr>dg_current := []\<rparr>"]) simp
next
  case (Cons r rs)
  then have mem: "r \<in> set (dg_current ctx)" "set rs \<subseteq> set (dg_current ctx)"
    using set_dropWhileD [of _ "\<lambda>r. length (r_uri r) \<le> rootlen ctx" "dg_current ctx"] by auto
  have r: "rootlen ctx < length (r_uri r)"
    using Cons hd_dropWhile [of "\<lambda>r. length (r_uri r) \<le> rootlen ctx" "dg_current ctx"] by simp
  obtain n where n: "ne_path_unescape E (drop (rootlen ctx) (r_uri r)) = Some n"
    using assms mem r by (auto simp: dav_fit_def)
  have "listed E ctx = dirent_of n (r_type r) # listed E (ctx\<lparr>dg_current := rs\<rparr>)"
    using listed_skip [of E ctx "dg_current ctx"] Cons r n by (simp add: listed_def native_of_def)
  moreover have "run_state (davglob_readdir E ctx) s = ((Some (dirent_of n (r_type r)), ctx\<lparr>dg_current := rs\<rparr>), s)"
    using assms n by (simp add: davglob_readdir_def Cons native_path_from_uri_def dav_fit_def)
  moreover have "dav_fit E s (Inl (ctx\<lparr>dg_current := rs\<rparr>))"
    using assms mem by (auto simp: dav_fit_def)
  ultimately show ?thesis by (intro exI [of _ "ctx\<lparr>dg_current := rs\<rparr>"]) simp
qed

interpretation dav: dir_stream "dav_functions E" "dav_entries E" "dav_fit E" for E
proof
  fix s d
  show "dav_fit E s d \<Longrightarrow> dav_entries E d = [] \<Longrightarrow>
      \<exists>d'. run_state (gl_readdir (dav_functions E) d) s = ((None, d'), s)"
    using davglob_readdir_listed [of E s "projl d"]
    by (cases d) (auto simp: dav_functions_def dav_entries_def)
next
  fix s d e es
  show "dav_fit E s d \<Longrightarrow> dav_entries E d = e # es \<Longrightarrow>
      \<exists>d'. run_state (gl_readdir (dav_functions E) d) s = ((Some e, d'), s) \<and> dav_entries E d' = es \<and> dav_fit E s d'"
    using davglob_readdir_listed [of E s "projl d"]
    by (cases d) (auto simp: dav_functions_def dav_entries_def)
next
  fix d
  show "length (dav_entries E d) \<le> gl_left (dav_functions E) d"
    by (cases d) (auto simp: dav_functions_def dav_entries_def listed_def)
next
  fix d s
  show "run_state (gl_closedir (dav_functions E) d) s = ((), s)" by (simp add: dav_functions_def)
qed

interpretation sys: dir_stream "system_functions L" system_entries "\<lambda>s d. True" for L
  by unfold_locales (auto simp: system_functions_def system_entries_def split: sum.splits list.splits)

section \<open>Expansion of one name\<close>

lemma simple_fnm_flags: "GLOB_NOESCAPE \<notin> flags \<Longrightarrow> simple_flags (fnm_flags_of flags)"
  by (simp add: simple_flags_def fnm_flags_of_def)

text \<open>The names among \<open>es\<close> that the pattern stands for.\<close>

definition selected :: "pat \<Rightarrow> dirent list \<Rightarrow> cstring list" where
  "selected ps es = filter (\<lambda>n. matches ps n \<and> \<not> hidden glob_flags ps n) (map d_name es)"

lemma fnmatch_plain_flags:
  assumes "pat_ok ps" "GLOB_NOESCAPE \<notin> flags" "GLOB_PERIOD \<notin> flags"
  shows "fnmatch (render ps) n (fnm_flags_of flags)
    = (if matches ps n \<and> \<not> hidden glob_flags ps n then FNM_MATCH else FNM_NOMATCH)"
  using assms fnmatch_from_matches [OF simple_fnm_flags, of flags ps None n]
  by (simp add: fnmatch_def hidden_def glob_flags_def fnm_flags_of_def)

lemma chosen_selected:
  assumes "pat_ok ps" "list_all (\<lambda>d. d_ino d \<noteq> 0) es"
    "GLOB_NOESCAPE \<notin> flags" "GLOB_PERIOD \<notin> flags" "GLOB_ONLYDIR \<notin> flags"
  shows "map d_name (filter (chosen (render ps) flags) es) = selected ps es"
    "list_all (safe_for (render ps) flags) es"
  using assms(2)
  by (induction es)
    (auto simp: chosen_def selected_def safe_for_def fnmatch_plain_flags [OF assms(1,3,4)] assms(5))

text \<open>The common part of the remote and the local expansion, for the stream of the directory.\<close>

context dir_stream
begin

lemma libglob_selected:
  assumes "pat_ok ps" "solidus \<notin> set (render ps)" "glob_pattern_p (render ps) True"
    and "functions_for W flags = F" "flags \<subseteq> {GLOB_NOSORT, GLOB_ALTDIRFUNC}" "GLOB_NOSORT \<in> flags"
    and "run_state (gl_opendir F ''.'') s = (Inr stream, t)" "fit t stream"
    and "list_all (\<lambda>d. d_ino d \<noteq> 0) (entries stream)"
  shows "run_state (libglob W (render ps) flags empty_glob) s =
    (if selected ps (entries stream) = [] then (GLOB_NOMATCH, empty_glob)
     else (GLOB_OK, empty_glob\<lparr>gl_pathv := map Some (rev (selected ps (entries stream))),
       gl_flags := insert GLOB_MAGCHAR flags\<rparr>), t)"
proof -
  let ?flags = "insert GLOB_MAGCHAR flags"
  have f: "GLOB_NOESCAPE \<notin> ?flags" "GLOB_PERIOD \<notin> ?flags" "GLOB_ONLYDIR \<notin> ?flags" "GLOB_NOCHECK \<notin> ?flags"
      "GLOB_DOOFFS \<notin> ?flags" "GLOB_NOESCAPE \<notin> flags"
    using assms(5) by auto
  note sel = chosen_selected [OF assms(1,9) f(1-3)]
  have "run_state (glob_in_dir W (render ps) ''.'' flags (empty_glob\<lparr>gl_pathv := []\<rparr>)) s
      = (add_names (render ps) ?flags (rev (selected ps (entries stream))) (empty_glob\<lparr>gl_pathv := []\<rparr>), t)"
    using glob_in_dir_opened [OF assms(4) _ assms(7,8) sel(2)] assms(3) f(6) sel(1) by simp
  then have "run_state (glob_in_dir W (render ps) ''.'' flags (empty_glob\<lparr>gl_pathv := []\<rparr>)) s
      = (if selected ps (entries stream) = [] then (GLOB_NOMATCH, empty_glob)
         else (GLOB_OK, empty_glob\<lparr>gl_pathv := map Some (rev (selected ps (entries stream))),
           gl_flags := ?flags\<rparr>), t)"
    using f(4,5) by (simp add: add_names_def Let_def reserve_offs_def empty_glob_def)
  then show ?thesis
    using assms(5) by (cases "selected ps (entries stream) = []")
      (auto intro!: libglob_here [OF assms(2) _ assms(6)])
qed

end

lemma functions_for_cadaver:
  "functions_for (glob_environment E L) flags
    = (if GLOB_ALTDIRFUNC \<in> flags then dav_functions E else system_functions L)"
  by (simp add: functions_for_def glob_environment_def)

lemma listed_real: "list_all (\<lambda>d. d_ino d \<noteq> 0) (listed E ctx)"
  by (simp add: listed_def dirent_of_def list_all_iff)

text \<open>The result of the call for a vector of names.\<close>

lemma cadaver_glob_result:
  assumes "run_state (libglob (glob_environment E L) token
      (if remote then {GLOB_NOSORT, GLOB_ALTDIRFUNC} else {GLOB_NOSORT}) empty_glob) s =
    (if names = [] then (GLOB_NOMATCH, empty_glob)
     else (GLOB_OK, empty_glob\<lparr>gl_pathv := map Some names, gl_flags := fl\<rparr>), t)"
  shows "run_state (cadaver_glob E L token remote) s = (if names = [] then Glob_nomatch else Glob_ok names, t)"
  using assms by (cases "names = []") (auto simp: cadaver_glob_def Let_def comp_def)

text \<open>The expansion of a remote pattern without a slash.\<close>

lemma libglob_remote:
  assumes "pat_ok ps" "solidus \<notin> set (render ps)" "glob_pattern_p (render ps) True"
    and "run_state (davglob_opendir E ''.'') s = (Inr ctx, t)" "dav_fit E t (Inl ctx)"
  shows "run_state (libglob (glob_environment E L) (render ps)
        (if True then {GLOB_NOSORT, GLOB_ALTDIRFUNC} else {GLOB_NOSORT}) empty_glob) s =
      (if rev (selected ps (listed E ctx)) = [] then (GLOB_NOMATCH, empty_glob)
       else (GLOB_OK, empty_glob\<lparr>gl_pathv := map Some (rev (selected ps (listed E ctx))),
         gl_flags := insert GLOB_MAGCHAR {GLOB_NOSORT, GLOB_ALTDIRFUNC}\<rparr>), t)"
proof -
  have opened: "run_state (gl_opendir (dav_functions E) ''.'') s = (Inr (Inl ctx), t)"
    using assms(4) by (simp add: dav_functions_def)
  have entries: "dav_entries E (Inl ctx) = listed E ctx" by (simp add: dav_entries_def)
  have real: "list_all (\<lambda>d. d_ino d \<noteq> 0) (dav_entries E (Inl ctx))"
    unfolding entries by (rule listed_real)
  have fns: "functions_for (glob_environment E L) {GLOB_NOSORT, GLOB_ALTDIRFUNC} = dav_functions E"
    by (simp add: functions_for_cadaver)
  show ?thesis
    using dav.libglob_selected [OF assms(1-3) fns _ _ opened assms(5) real] unfolding entries by simp
qed

section \<open>Properties\<close>


text \<open>A server that lists its resources.\<close>

definition listing_env :: "sample env" where
  "listing_env = sample_env\<lparr>n_propfind := (\<lambda>p d ps w. ((NE_OK, map sample_pset (sv_tree w)), w)),
     ne_uri_resolve := (\<lambda>base rel. if u_path rel = Some ''./'' then base else sample_resolve base rel)\<rparr>"

definition no_local_dirs :: "'w local_dirs" where
  "no_local_dirs = \<lparr>ld_opendir = (\<lambda>d w. (Inl ENOENT, w)), ld_stat = (\<lambda>f w. None), ld_strerror = (\<lambda>e. []),
     ld_interrupted = (\<lambda>w. False), ld_login = None, ld_getpwnam = (\<lambda>u. None), ld_strcoll = strcasecmp\<rparr>"

definition listing_shell :: "sample shell" where
  "listing_shell = sample_shell\<lparr>s_world := (s_world sample_shell)\<lparr>sv_tree :=
     [(''/d/'', True), (''/d/b.c'', False), (''/d/a.c'', False), (''/d/a.h'', False)]\<rparr>\<rparr>"

definition listing_ctx :: "dg_ctx \<times> sample shell" where
  "listing_ctx = (case run_state (davglob_opendir listing_env ''.'') listing_shell of
     (Inr ctx, t) \<Rightarrow> (ctx, t) | (Inl e, t) \<Rightarrow> (\<lparr>rootlen = 0, dg_current = []\<rparr>, t))"


end
