(* ===== verification/Glob_Frame.thy ===== *)
theory Glob_Frame
  imports Remote_Glob Handler_Rules Cmdline
begin

text \<open>
  What the expansion of patterns leaves alone: a relation between states that the directory
  functions keep is kept by all of \<open>glob\<close>, by induction over its recursion.  For the remote
  functions of cadaver this means that nothing on the server is changed and nobody is moved.
\<close>

context state_relation
begin

definition calm :: "('s, 'd) dir_functions \<Rightarrow> bool" where
  "calm F \<longleftrightarrow> (\<forall>d. keeps (gl_opendir F d)) \<and> (\<forall>d. keeps (gl_readdir F d)) \<and>
     (\<forall>d. keeps (gl_closedir F d)) \<and> (\<forall>f. keeps (gl_stat F f))"

definition calm_env :: "('s, 'd) glob_env \<Rightarrow> glob_flag set \<Rightarrow> bool" where
  "calm_env W flags \<longleftrightarrow> calm (functions_for W flags) \<and> keeps (ge_interrupt_state W) \<and>
     (case ge_errfunc W of None \<Rightarrow> True | Some f \<Rightarrow> \<forall>a b. keeps (f a b))"

lemma calm_env_flags:
  "(GLOB_ALTDIRFUNC \<in> flags' \<longleftrightarrow> GLOB_ALTDIRFUNC \<in> flags) \<Longrightarrow> calm_env W flags' \<longleftrightarrow> calm_env W flags"
  by (simp add: calm_env_def functions_for_def)

lemma calmD: "calm F \<Longrightarrow> keeps (gl_opendir F d)" "calm F \<Longrightarrow> keeps (gl_readdir F e)"
  "calm F \<Longrightarrow> keeps (gl_closedir F e)" "calm F \<Longrightarrow> keeps (gl_stat F f)"
  by (simp_all add: calm_def)

lemma calm_functions: "calm_env W flags \<Longrightarrow> calm (functions_for W flags)"
  by (simp add: calm_env_def)

lemma keeps_fnm: "keeps a \<Longrightarrow> keeps b \<Longrightarrow> keeps c \<Longrightarrow>
    keeps (case r of FNM_MATCH \<Rightarrow> a | FNM_NOMATCH \<Rightarrow> b | Overread \<Rightarrow> c)"
  by (cases r) simp_all

lemma keeps_sum: "(\<And>a. keeps (f a)) \<Longrightarrow> (\<And>b. keeps (g b)) \<Longrightarrow> keeps (case r of Inl a \<Rightarrow> f a | Inr b \<Rightarrow> g b)"
  by (cases r) simp_all

lemma keeps_read_entries: "calm F \<Longrightarrow> keeps (read_entries n F p flags st names)"
proof (induction n arbitrary: st names)
  case (Suc n)
  then show ?case
    by (auto intro!: keeps_intros keeps_fnm calmD)
qed (simp add: keeps_return)

lemma keeps_glob_in_dir:
  assumes "calm_env W flags"
  shows "keeps (glob_in_dir W p d flags g)"
proof -
  note F = calm_functions [OF assms]
  have err: "keeps (case ge_errfunc W of None \<Rightarrow> State_Monad.return x | Some f \<Rightarrow> do { r \<leftarrow> f a b; State_Monad.return (h r) })" for x a b h
    using assms by (auto simp: calm_env_def intro!: keeps_intros split: option.splits)
  show ?thesis
    unfolding glob_in_dir_def Let_def
    by (auto intro!: keeps_intros keeps_sum calmD [OF F] keeps_read_entries [OF F] err simp del: read_entries.simps)
qed

lemma keeps_glob_in_dirs: "calm_env W flags \<Longrightarrow> keeps (glob_in_dirs W f flags dirs g)"
  by (induction W f flags dirs g rule: glob_in_dirs.induct)
    (auto intro!: keeps_intros keeps_glob_in_dir simp: Let_def calm_env_def functions_for_def)

lemma keeps_name_lists:
  "calm F \<Longrightarrow> keeps (unchecked_names F f dirs)" "calm F \<Longrightarrow> keeps (mark_entries F es)"
proof -
  show "calm F \<Longrightarrow> keeps (unchecked_names F f dirs)"
    by (induction F f dirs rule: unchecked_names.induct) (auto intro!: keeps_intros calmD)
  show "calm F \<Longrightarrow> keeps (mark_entries F es)"
    by (induction F es rule: mark_entries.induct) (auto intro!: keeps_intros calmD)
qed

lemma keeps_glob_parts:
  assumes "calm_env W flags"
  shows "keeps (glob_each W f flags dirs g)" "keeps (finish_glob W n flags g)" "keeps (tilde_alone W d flags g)"
  unfolding glob_each_def finish_glob_def tilde_alone_def Let_def
  by (auto intro!: keeps_intros keeps_glob_in_dirs keeps_name_lists calm_functions calmD assms)

lemma keeps_bind_result:
  assumes "keeps m" "\<And>s. P (fst (run_state m s))" "\<And>x. P x \<Longrightarrow> keeps (f x)"
  shows "keeps (m \<bind> f)"
proof (rule keepsI)
  fix s
  obtain a t where r: "run_state m s = (a, t)" by (cases "run_state m s")
  with assms(2) [of s] have "P a" by simp
  with assms(1,3) r show "R s (snd (run_state (m \<bind> f) s))"
    by (simp add: keeps_def) (metis R_trans snd_conv)
qed

lemma glob_each_flags:
  "fst (snd (fst (run_state (glob_each W f flags dirs g) s))) \<in> {flags, insert GLOB_MAGCHAR flags}"
  by (simp add: glob_each_def Let_def split_def option.case_distrib [of "\<lambda>r. fst (snd r)"] split: option.split)

lemma keeps_each_finish:
  assumes env: "calm_env W flags"
  shows "keeps (do { (status, flags, h) \<leftarrow> glob_each W f flags dirs g;
    if status \<noteq> GLOB_OK then State_Monad.return (status, h) else finish_glob W n flags h })"
proof (rule keeps_bind_result [where P = "\<lambda>r. fst (snd r) \<in> {flags, insert GLOB_MAGCHAR flags}",
      OF keeps_glob_parts(1) [OF env] glob_each_flags])
  have "calm_env W (insert GLOB_MAGCHAR flags)"
    using env calm_env_flags [of "insert GLOB_MAGCHAR flags" flags W] by simp
  with env have "keeps (finish_glob W n flags' h)" if "flags' \<in> {flags, insert GLOB_MAGCHAR flags}" for flags' h
    using that keeps_glob_parts(2) by blast
  then show "keeps (case r of (status, flags, h) \<Rightarrow>
      if status \<noteq> GLOB_OK then State_Monad.return (status, h) else finish_glob W n flags h)"
    if "fst (snd r) \<in> {flags, insert GLOB_MAGCHAR flags}" for r
    using that by (cases r) (simp add: keeps_return)
qed

lemma keeps_alternatives: "(\<And>alt h. alt \<in> set alts \<Longrightarrow> keeps (f alt h)) \<Longrightarrow> keeps (for_alternatives f alts g)"
  by (induction alts arbitrary: g) (auto intro!: keeps_intros)

lemma keeps_libglob:
  "calm_env W flags \<Longrightarrow> keeps (libglob W p flags g)" "calm_env W flags \<Longrightarrow> keeps (glob_one W p flags g)"
proof (induction W p flags g and W p flags g rule: libglob_glob_one.induct)
  case hyps: (1 W p flags g)
  have env: "calm_env W (flags - {GLOB_BRACE})"
      "calm_env W (insert GLOB_APPEND (flags - {GLOB_NOCHECK, GLOB_NOMAGIC}))"
    using hyps.prems calm_env_flags [of "flags - {GLOB_BRACE}" flags W]
      calm_env_flags [of "insert GLOB_APPEND (flags - {GLOB_NOCHECK, GLOB_NOMAGIC})" flags W]
    by simp_all
  show ?case
  proof (cases "GLOB_MAGCHAR \<notin> flags \<and> GLOB_BRACE \<in> flags \<and> CHR ''{'' \<in> set p")
    case False
    with hyps.IH(4) hyps.prems show ?thesis by (subst libglob.simps) (auto intro: keeps_return)
  next
    case brace: True
    show ?thesis
    proof (cases "brace_patterns p")
      case Brace_illegal
      with hyps.IH(1) env(1) brace show ?thesis by (subst libglob.simps) simp
    next
      case (Brace alts)
      have "keeps (for_alternatives (\<lambda>onealt g. libglob W onealt
          (insert GLOB_APPEND (flags - {GLOB_NOCHECK, GLOB_NOMAGIC})) g) alts h)" for h
        using hyps.IH(2) Brace brace env(2) by (intro keeps_alternatives) blast
      with Brace brace hyps.IH(3) hyps.prems show ?thesis
        by (subst libglob.simps) (auto intro!: keeps_intros simp: Let_def)
    qed (subst libglob.simps, use brace in \<open>simp add: keeps_return\<close>)
  qed
next
  case hyps: (2 W p flags g)
  obtain filename dirname dirlen where sp: "split_pattern flags p = (filename, dirname, dirlen)"
    by (cases "split_pattern flags p") auto
  have env: "calm_env W (insert GLOB_MARK flags)"
      "calm_env W (flags \<inter> {GLOB_ERR, GLOB_NOCHECK, GLOB_NOESCAPE, GLOB_ALTDIRFUNC} \<union> {GLOB_NOSORT, GLOB_ONLYDIR})"
    using hyps.prems calm_env_flags [of "insert GLOB_MARK flags" flags W]
      calm_env_flags [of "flags \<inter> {GLOB_ERR, GLOB_NOCHECK, GLOB_NOESCAPE, GLOB_ALTDIRFUNC} \<union>
        {GLOB_NOSORT, GLOB_ONLYDIR}" flags W]
    by simp_all
  note IH = hyps.IH(1) [OF sp [symmetric] refl _ env(1)] hyps.IH(2) [OF sp [symmetric] refl _ refl refl _ _ _ env(2)]
  note parts = keeps_each_finish [OF hyps.prems] keeps_intros keeps_glob_in_dir [OF hyps.prems]
    keeps_glob_parts [OF hyps.prems]
  show ?case
  proof (cases "expand_tilde W flags dirname")
    case None
    with sp IH(1) show ?thesis by (subst glob_one.simps) (auto intro!: parts simp: Let_def)
  next
    case (Some d)
    show ?thesis
    proof (cases filename)
      case None
      with sp Some show ?thesis by (subst glob_one.simps) (auto intro!: parts simp: Let_def)
    next
      case name: (Some f)
      with sp Some IH show ?thesis by (subst glob_one.simps) (auto intro!: parts simp: Let_def)
    qed
  qed
qed

end

section \<open>The functions of cadaver\<close>

text \<open>Events that only show something to the user.\<close>

fun shown :: "event \<Rightarrow> bool" where
  "shown (Out t) \<longleftrightarrow> True"
| "shown e \<longleftrightarrow> False"

lemma shown_output: "gr.keeps shown (output_msg t m)"
  unfolding output_msg_def by (auto intro!: frame_rules keeps_modify)

lemma calm_system: "gr.calm Q (system_functions L)" "ss.calm (system_functions L)"
  by (auto simp: gr.calm_def ss.calm_def system_functions_def intro!: frame_rules)

lemma calm_dav: "gr.calm harmless (dav_functions E)" "ss.calm (dav_functions E)"
  by (auto simp: gr.calm_def ss.calm_def dav_functions_def intro!: frame_rules names_frames split: sum.split)

lemma calm_environment:
  "gr.calm_env harmless (glob_environment E L) flags" "ss.calm_env (glob_environment E L) flags"
  "GLOB_ALTDIRFUNC \<notin> flags \<Longrightarrow> gr.calm_env shown (glob_environment E L) flags"
  unfolding gr.calm_env_def ss.calm_env_def functions_for_cadaver
  by (auto simp: glob_environment_def davglob_errfunc_def calm_system calm_dav
      intro!: frame_rules keeps_output shown_output)

lemma status_frames:
  "(\<And>ns. gr.keeps Q (f ns)) \<Longrightarrow> gr.keeps Q (case r of GLOB_OK \<Rightarrow> f ns | GLOB_INVALID \<Rightarrow> State_Monad.return a
     | GLOB_NOSPACE \<Rightarrow> State_Monad.return b | GLOB_ABORTED \<Rightarrow> State_Monad.return c
     | GLOB_NOMATCH \<Rightarrow> State_Monad.return d | Glob_crash \<Rightarrow> undefined_behaviour x)"
  "(\<And>ns. ss.keeps (f ns)) \<Longrightarrow> ss.keeps (case r of GLOB_OK \<Rightarrow> f ns | GLOB_INVALID \<Rightarrow> State_Monad.return a
     | GLOB_NOSPACE \<Rightarrow> State_Monad.return b | GLOB_ABORTED \<Rightarrow> State_Monad.return c
     | GLOB_NOMATCH \<Rightarrow> State_Monad.return d | Glob_crash \<Rightarrow> undefined_behaviour x)"
  by (cases r; auto intro!: frame_rules)+

lemma cadaver_glob_frames:
  "gr.keeps harmless (cadaver_glob E L token remote)" "ss.keeps (cadaver_glob E L token remote)"
  "gr.keeps shown (cadaver_glob E L token False)"
  unfolding cadaver_glob_def Let_def
  by (intro frame_rules status_frames gr.keeps_libglob ss.keeps_libglob calm_environment; simp)+

text \<open>The loop of \<open>parse_command\<close> keeps what every expansion keeps.\<close>

context state_relation
begin

lemma parse_loop_keeps:
  assumes "\<And>token remote w. (remote \<Longrightarrow> connected) \<Longrightarrow> R w (snd (glob token remote w))"
  shows "R w (snd (snd (parse_loop glob connected cmd tokens outs w line)))"
proof (induction "length line" arbitrary: cmd tokens outs w line rule: less_induct)
  case less
  obtain tok rest where g: "gettoken line = (tok, rest)" by (cases "gettoken line")
  show ?case
  proof (cases tok)
    case (Some token)
    with g have shorter: "length rest < length line" using gettoken_progress by simp
    obtain ts os w' where e: "expand_token glob connected cmd token w = (ts, os, w')"
      by (cases "expand_token glob connected cmd token w") auto
    have "R w w'"
      using e assms by (auto simp: expand_token_def wants_glob_def Let_def R_refl split: prod.splits if_splits option.splits)
        (metis snd_conv)+
    with less [OF shorter] g Some e show ?thesis
      by (subst parse_loop.simps) (auto intro: R_trans)
  next
    case None
    with g show ?thesis by (subst parse_loop.simps) (simp add: R_refl)
  qed
qed

end

section \<open>Properties\<close>

text \<open>C13: Whatever the line, the server and the local files: the expansion of its patterns changes
  nothing on the server and leaves the user where he is with his options; without a connection it
  sends nothing at all.\<close>

theorem expansion_harmless:
  "let t = snd (snd (parse_command (shell_glob E L) connected line s))
   in grows_by harmless s t \<and> same_session s t \<and> (connected \<or> grows_by shown s t)"
proof -
  have "grows_by harmless w (snd (shell_glob E L token remote w))"
       "same_session w (snd (shell_glob E L token remote w))"
       "grows_by shown w (snd (shell_glob E L token False w))" for token remote w
    using cadaver_glob_frames [of E L token] unfolding gr.keeps_def ss.keeps_def shell_glob_def by blast+
  then show ?thesis
    unfolding parse_command_def Let_def
    using gr.parse_loop_keeps [of connected harmless "shell_glob E L"] ss.parse_loop_keeps [of connected "shell_glob E L"]
      gr.parse_loop_keeps [of False shown "shell_glob E L"]
    by (cases connected) (auto, metis (full_types))
qed

end
