(* ===== verification/Shell_Frame.thy ===== *)
theory Shell_Frame
  imports Connection Remote_Names Search_Command
begin

text \<open>
  What no command does: type for the user.  The input that is left never grows, for any
  handler; and every handler but \<open>cd\<close>, \<open>open\<close>, \<open>close\<close>, \<open>set\<close> and \<open>unset\<close> leaves the
  session as it is.  One lemma per group of handlers, each from those of its parts.
\<close>

definition input_shrinks :: "'w shell \<Rightarrow> 'w shell \<Rightarrow> bool" where
  "input_shrinks s t \<longleftrightarrow> length (s_input t) \<le> length (s_input s)"

interpretation inp: state_relation input_shrinks
  by unfold_locales (auto simp: input_shrinks_def)

section \<open>Primitives\<close>

lemma inp_modify: "(\<And>s. s_input (f s) = s_input s) \<Longrightarrow> inp.keeps (modify f)"
  by (rule inp.keepsI) (simp add: input_shrinks_def)

lemma inp_primitives:
  "inp.keeps (world_op f)" "inp.keeps (note_event e)" "inp.keeps (say t)" "inp.keeps (undefined_behaviour a)"
  "inp.keeps (read_world g)" "inp.keeps (last_error E)" "inp.keeps (strerror E)" "inp.keeps (bool_option i)"
  "inp.keeps (string_option i)"
  by (rule inp.keepsI; simp add: input_shrinks_def world_op_def split: prod.split)+

lemma inp_requests: "inp.keeps (send E r)" "inp.keeps (exec E c)"
  unfolding send_def exec_def by (auto intro!: inp.keeps_intros inp_primitives)

lemma yesno_shorter: "length (snd (yesno inp)) \<le> length inp"
  by (simp add: yesno_def Let_def case_prod_unfold yesno_loop_rest) (metis diff_le_self le_trans length_dropWhile_le)

lemma fgets_shorter: "fgets n inp = Some (buf, left) \<Longrightarrow> length left \<le> length inp"
  using arg_cong [OF line_part_append [of "n - 1" inp], of length]
  by (auto simp: fgets_def split: if_splits)

lemma inp_ask: "inp.keeps (readline E p)" "inp.keeps ask_yesno"
proof -
  show "inp.keeps (readline E p)"
    by (rule inp.keepsI)
      (auto simp: readline_def input_shrinks_def dest: fgets_shorter split: option.split prod.split)
  show "inp.keeps ask_yesno"
    using yesno_shorter by (intro inp.keepsI) (simp add: ask_yesno_def input_shrinks_def Let_def split_def)
qed

lemma inp_for_each: "(\<And>x. inp.keeps (f x)) \<Longrightarrow> inp.keeps (for_each f xs)"
  by (induction xs) (auto intro!: inp.keeps_intros)

lemma inp_call_back: "(\<And>a c. inp.keeps (cb a c)) \<Longrightarrow> inp.keeps (call_back cb as c)"
  by (induction as arbitrary: c) (auto intro!: inp.keeps_intros)

lemmas inp_basic = inp.keeps_intros inp_primitives inp_requests inp_ask inp_for_each inp_call_back inp_modify

section \<open>Output and paths\<close>

lemma inp_output:
  "inp.keeps (output_msg t m)" "inp.keeps (out_start v n)" "inp.keeps out_success"
  unfolding output_msg_def out_start_def out_success_def by (auto intro!: inp_basic)

lemma inp_paths:
  "inp.keeps (run_iconv E t b)" "inp.keeps (utf8_from_native E t)" "inp.keeps (native_from_utf8 E t)"
  "inp.keeps (native_path_from_uri E t)" "inp.keeps (path_native_resolver E t b)"
  "inp.keeps (uri_resolve_native E t)" "inp.keeps (uri_resolve_native_coll E t)"
  "inp.keeps (fetch_resource_list E t d b)" "inp.keeps (getrestype E t)" "inp.keeps getowner"
  unfolding run_iconv_def utf8_from_native_def native_from_utf8_def native_path_from_uri_def
    path_native_resolver_def uri_resolve_native_def uri_resolve_native_coll_def
    fetch_resource_list_def getrestype_def getowner_def Let_def
  by (auto intro!: inp_basic)

lemma inp_true_path: "inp.keeps (uri_resolve_native_true E t)"
  unfolding uri_resolve_native_true_def Let_def by (auto intro!: inp_basic inp_paths)

lemma inp_set_path: "inp.keeps (set_path E t)"
  unfolding set_path_def is_tolerant_def by (auto intro!: inp_basic inp_paths)

lemma inp_results:
  "inp.keeps (out_start_uri E v p)" "inp.keeps (out_start_2uri E v p q)"
  "inp.keeps (out_result E r)" "inp.keeps (out_handle E r)"
proof -
  show "inp.keeps (out_start_uri E v p)" "inp.keeps (out_start_2uri E v p q)"
    unfolding out_start_uri_def out_start_2uri_def by (auto intro!: inp_basic inp_paths inp_output)
  show r: "inp.keeps (out_result E r)"
    unfolding out_result_def by (cases r) (auto intro!: inp_basic inp_output)
  show "inp.keeps (out_handle E r)" unfolding out_handle_def by (auto intro!: inp_basic r)
qed

lemmas inp_frames = inp_basic inp_output inp_paths inp_true_path inp_set_path inp_results
lemmas all_frames = inp_frames handler_frames keeps_getowner

section \<open>Handlers\<close>

lemma lock_handlers:
  "inp.keeps (execute_discover E p)" "ss.keeps (execute_discover E p)"
  "inp.keeps (execute_steal E p)" "ss.keeps (execute_steal E p)"
  "inp.keeps (execute_showlocks E)" "ss.keeps (execute_showlocks E)"
  "inp.keeps (execute_lock E p)" "ss.keeps (execute_lock E p)"
  "inp.keeps (execute_unlock E p)" "ss.keeps (execute_unlock E p)"
proof -
  have d: "inp.keeps (discover_result E a c)" "ss.keeps (discover_result E a c)"
    "inp.keeps (steal_result E a c)" "ss.keeps (steal_result E a c)" for a c
    unfolding discover_result_def steal_result_def print_lock_def print_uri_def lock_failure_def
    by (auto intro!: all_frames split: lock_answer.split)
  show "inp.keeps (execute_discover E p)" "ss.keeps (execute_discover E p)"
    "inp.keeps (execute_steal E p)" "ss.keeps (execute_steal E p)"
    unfolding execute_discover_def execute_steal_def do_discover_def
    by (auto intro!: all_frames keeps_call_back d)
  show "inp.keeps (execute_showlocks E)" "ss.keeps (execute_showlocks E)"
    unfolding execute_showlocks_def print_lock_def by (auto intro!: all_frames)
  show "inp.keeps (execute_lock E p)" "ss.keeps (execute_lock E p)"
    unfolding execute_lock_def Let_def by (auto intro!: all_frames)
  show "inp.keeps (execute_unlock E p)" "ss.keeps (execute_unlock E p)"
    unfolding execute_unlock_def by (auto intro!: all_frames)
qed

lemma remove_handlers:
  "inp.keeps (execute_delete E p)" "ss.keeps (execute_delete E p)"
  "inp.keeps (execute_rmcol E p)" "ss.keeps (execute_rmcol E p)"
proof -
  have "inp.keeps (remove_locks_loop n E u)" for n u
    by (induction n) (auto intro!: all_frames)
  then have r: "inp.keeps (remove_locks E u d)" for u d
    unfolding remove_locks_def by (auto intro!: all_frames)
  show "inp.keeps (execute_delete E p)" "ss.keeps (execute_delete E p)"
    "inp.keeps (execute_rmcol E p)" "ss.keeps (execute_rmcol E p)"
    unfolding execute_delete_def execute_rmcol_def by (auto intro!: all_frames r keeps_remove_locks)
qed

lemma copy_handlers:
  "inp.keeps (multi_copy E argv)" "ss.keeps (multi_copy E argv)"
  "inp.keeps (multi_move E argv)" "ss.keeps (multi_move E argv)"
  "inp.keeps (execute_rename E a b)" "ss.keeps (execute_rename E a b)"
proof -
  have m: "inp.keeps (simple_move E a b)" "inp.keeps (simple_copy E a b)" for a b
    unfolding simple_move_def simple_copy_def by (auto intro!: all_frames)
  have c: "inp.keeps (copy_pairs E v d c args)" for v d c args
    by (induction args) (auto intro!: all_frames split: sum.split)
  show "inp.keeps (multi_copy E argv)" "ss.keeps (multi_copy E argv)"
    "inp.keeps (multi_move E argv)" "ss.keeps (multi_move E argv)"
    unfolding multi_copy_def multi_move_def do_copymove_def
    by (auto intro!: all_frames m c copy_pairs_frames move_copy_frames)
  show "inp.keeps (execute_rename E a b)" "ss.keeps (execute_rename E a b)"
    unfolding execute_rename_def by (auto intro!: all_frames)
qed

lemma multi_handlers:
  "inp.keeps (multi_mkcol E argv)" "ss.keeps (multi_mkcol E argv)"
  "inp.keeps (multi_delete E argv)" "ss.keeps (multi_delete E argv)"
  "inp.keeps (multi_rmcol E argv)" "ss.keeps (multi_rmcol E argv)"
  unfolding multi_mkcol_def multi_delete_def multi_rmcol_def map_multi_def execute_mkcol_def dispatch_def
  by (auto intro!: all_frames remove_handlers)

lemma prop_handlers:
  "inp.keeps (execute_propset E a b c)" "ss.keeps (execute_propset E a b c)"
  "inp.keeps (execute_propdel E a b)" "ss.keeps (execute_propdel E a b)"
  "inp.keeps (execute_propnames E a)" "ss.keeps (execute_propnames E a)"
  "inp.keeps (execute_chexec E a b)" "ss.keeps (execute_chexec E a b)"
  unfolding execute_propset_def execute_propdel_def propop_def execute_propnames_def propname_results_def
    propname_iterator_def execute_chexec_def
  by (auto intro!: all_frames)

lemma bullet_frames: "inp.keeps bullet_str" "ss.keeps bullet_str"
  unfolding bullet_str_def by (auto intro!: all_frames)

lemma propget_handlers: "inp.keeps (execute_propget E a b)" "ss.keeps (execute_propget E a b)"
proof -
  have i: "inp.keeps (all_iterator E item)" "ss.keeps (all_iterator E item)" for item
    unfolding all_iterator_def native_from_pointer_def by (auto intro!: all_frames bullet_frames)
  have p: "inp.keeps (pget_results E u ps)" "ss.keeps (pget_results E u ps)" for u ps
    unfolding pget_results_def by (auto intro!: all_frames i)
  show "inp.keeps (execute_propget E a b)" "ss.keeps (execute_propget E a b)"
    unfolding execute_propget_def by (auto intro!: all_frames p)
qed

lemma keeps_child: "ss.keeps (modify (\<lambda>s. s\<lparr>s_child := b\<rparr>))"
  by (auto intro!: keeps_modify simp: same_session_def)

lemma get_handlers:
  "inp.keeps (execute_get E a b)" "ss.keeps (execute_get E a b)"
  "inp.keeps (execute_resumeget E a b)" "ss.keeps (execute_resumeget E a b)"
proof -
  have p: "inp.keeps (get_plan E r f b)" "ss.keeps (get_plan E r f b)" for r f b
    unfolding get_plan_def by (auto intro!: all_frames)
  have t: "inp.keeps (get_transfer E r u b pl)" "ss.keeps (get_transfer E r u b pl)" for r u b pl
    unfolding get_transfer_def by (auto intro!: all_frames)
  show "inp.keeps (execute_get E a b)" "ss.keeps (execute_get E a b)"
    "inp.keeps (execute_resumeget E a b)" "ss.keeps (execute_resumeget E a b)"
    unfolding execute_get_def execute_resumeget_def do_get_def by (auto intro!: all_frames p t)
qed

lemma transfer_handlers:
  "inp.keeps (multi_mget E argv)" "ss.keeps (multi_mget E argv)"
  "inp.keeps (execute_put E a b)" "ss.keeps (execute_put E a b)"
  "inp.keeps (multi_mput E argv)" "ss.keeps (multi_mput E argv)"
  "inp.keeps (execute_cat E a)" "ss.keeps (execute_cat E a)"
  "inp.keeps (execute_head E a)" "ss.keeps (execute_head E a)"
  unfolding multi_mget_def execute_put_def multi_mput_def simple_put_def execute_cat_def execute_head_def
  by (auto intro!: all_frames get_handlers bullet_frames)

lemma pager_handlers:
  "inp.keeps (multi_less E argv)" "ss.keeps (multi_less E argv)"
  "inp.keeps (multi_cat E argv)" "ss.keeps (multi_cat E argv)"
  unfolding multi_less_def multi_cat_def map_multi_def execute_less_def choose_pager_def
  by (auto intro!: all_frames keeps_child transfer_handlers)

lemma place_handlers:
  "inp.keeps (execute_pwd E)" "ss.keeps (execute_pwd E)"
  "inp.keeps (execute_lpwd E)" "ss.keeps (execute_lpwd E)"
  "inp.keeps (execute_lls E t argv)" "ss.keeps (execute_lls E t argv)"
  "inp.keeps (execute_lcd E p)" "ss.keeps (execute_lcd E p)"
  "inp.keeps (execute_echo argv)" "ss.keeps (execute_echo argv :: ('w shell, unit) state)"
  "inp.keeps (execute_about E v)" "ss.keeps (execute_about E v)"
  "inp.keeps (execute_logout E)" "ss.keeps (execute_logout E)"
  unfolding execute_pwd_def execute_lpwd_def execute_lls_def execute_lcd_def execute_echo_def
    execute_about_def execute_logout_def
  by (auto intro!: all_frames)

lemma ls_handlers: "inp.keeps (execute_ls E p)" "ss.keeps (execute_ls E p)"
  unfolding execute_ls_def display_resource_def by (auto intro!: all_frames)

lemma version_handlers:
  "inp.keeps (simple_request E p v m)" "ss.keeps (simple_request E p v m)"
  "inp.keeps (execute_label E p a l)" "ss.keeps (execute_label E p a l)"
  "inp.keeps (execute_history E mapid p)" "ss.keeps (execute_history E mapid p)"
  "inp.keeps (is_vcr E u)" "ss.keeps (is_vcr E u)"
proof -
  have c: "inp.keeps (coll_path E p)" "ss.keeps (coll_path E p)" for p
    unfolding coll_path_def by (auto intro!: all_frames)
  have r: "inp.keeps (req_result E r)" "ss.keeps (req_result E r)" for r
    unfolding req_result_def by (auto intro!: all_frames)
  have d: "inp.keeps (do_report E mapid u)" "ss.keeps (do_report E mapid u)"
    "inp.keeps (display_report_results E rx)" "ss.keeps (display_report_results E rx)" for mapid u rx
    unfolding do_report_def display_report_results_def Let_def by (auto intro!: all_frames)
  show "inp.keeps (simple_request E p v m)" "ss.keeps (simple_request E p v m)"
    unfolding simple_request_def by (auto intro!: all_frames c r)
  show "inp.keeps (execute_label E p a l)" "ss.keeps (execute_label E p a l)"
    unfolding execute_label_def by (auto intro!: all_frames c r)
  show "inp.keeps (execute_history E mapid p)" "ss.keeps (execute_history E mapid p)"
    unfolding execute_history_def by (auto intro!: all_frames c d)
  show "inp.keeps (is_vcr E u)" "ss.keeps (is_vcr E u)"
    unfolding is_vcr_def by (auto intro!: all_frames)
qed

lemma checkin_handlers:
  "inp.keeps (execute_version E p)" "ss.keeps (execute_version E p)"
  "inp.keeps (execute_checkin E p)" "ss.keeps (execute_checkin E p)"
  "inp.keeps (execute_checkout E p)" "ss.keeps (execute_checkout E p)"
  "inp.keeps (execute_uncheckout E p)" "ss.keeps (execute_uncheckout E p)"
  unfolding execute_version_def execute_checkin_def execute_checkout_def execute_uncheckout_def
  by (rule version_handlers)+

lemma edit_handlers: "inp.keeps (execute_edit E p)" "ss.keeps (execute_edit E p)"
proof -
  have u: "inp.keeps (upload_loop n E u fd)" "ss.keeps (upload_loop n E u fd)" for n u fd
    by (induction n) (auto intro!: all_frames)
  have r: "inp.keeps (run_editor E f)" "ss.keeps (run_editor E f)" for f
    unfolding run_editor_def Let_def by (auto intro!: all_frames)
  have up: "inp.keeps (edit_upload E q f t)" "ss.keeps (edit_upload E q f t)" for q f t
    unfolding edit_upload_def by (auto intro!: all_frames u)
  have s: "inp.keeps (edit_session E q f fd lk)" "ss.keeps (edit_session E q f fd lk)" for q f fd lk
    unfolding edit_session_def by (auto intro!: all_frames r up version_handlers checkin_handlers)
  have l: "inp.keeps (edit_locked E q f fd)" "ss.keeps (edit_locked E q f fd)" for q f fd
    unfolding edit_locked_def Let_def by (auto intro!: all_frames s)
  have t: "inp.keeps (edit_template q)" "ss.keeps (edit_template q)" for q
    unfolding edit_template_def Let_def by (auto intro!: all_frames)
  have k: "inp.keeps (is_lockable E q)" "ss.keeps (is_lockable E q)" for q
    unfolding is_lockable_def by (auto intro!: all_frames)
  show "inp.keeps (execute_edit E p)" "ss.keeps (execute_edit E p)"
    unfolding execute_edit_def by (auto intro!: all_frames s l t k)
qed

lemma display_loop_input: "length (snd (display_loop h f a num i rs inp)) \<le> length inp"
proof (induction rs arbitrary: i inp)
  case (Cons r rs)
  have "length (snd (display_loop h f a num (Suc i) rs (tl inp))) \<le> length inp"
    using Cons.IH [of "Suc i" "tl inp"] by (simp add: le_diff_conv)
  with Cons.IH [of "Suc i" inp] show ?case
    by (auto simp: Let_def case_prod_unfold split: list.split)
qed simp

lemma search_handlers:
  fixes E :: "'w env"
  shows "inp.keeps (execute_search E mapid argv)" "ss.keeps (execute_search E mapid argv)"
proof -
  have r: "inp.keeps (run_search E mapid u d q)" for u d q
    unfolding run_search_def searchall_on_def
    by (intro all_frames; auto intro!: all_frames split: sum.split perror.split option.split)
  have left: "length (snd (display_results h f a c inp)) \<le> length inp" for h f a c inp
    by (simp add: display_results_def display_loop_input)
  have shows_inp: "inp.keeps (show_results E c)" for c
  proof (rule inp.keepsI)
    fix s :: "'w shell"
    define out where "out = display_results (ne_httpdate_parse E) (format_time (os_strftime E) (os_time E (s_world s)))
      (get_bool_option opt_searchall (s_opts s) \<noteq> 0) c (s_input s)"
    have "run_state (show_results E c) s =
        ((), (snd (run_state (for_each say (fst out)) s))\<lparr>s_input := snd out\<rparr>)"
      by (simp add: show_results_def searchall_on_def out_def split_def Let_def)
    then show "input_shrinks s (snd (run_state (show_results E c) s))"
      using left by (simp add: input_shrinks_def out_def)
  qed
  have shows_ss: "ss.keeps (show_results E c)" for c
    unfolding show_results_def searchall_on_def Let_def split_def
    by (intro all_frames keeps_modify; simp add: same_session_def)
  show "inp.keeps (execute_search E mapid argv)" "ss.keeps (execute_search E mapid argv)"
    unfolding execute_search_def Let_def
    by (auto intro!: all_frames r search_frames(2) shows_inp shows_ss)
qed

section \<open>The handlers that change the session\<close>

lemma inp_cd: "inp.keeps (execute_cd E p)"
  unfolding execute_cd_def by (auto intro!: inp_frames split: owned.split)

lemma inp_close: "inp.keeps (close_connection E)"
  unfolding close_connection_def free_lastwp_def by (auto intro!: inp_frames split: owned.split option.split)

lemma inp_open: "inp.keeps (open_connection E ssl url)"
proof -
  have d: "inp.keeps (decrypt_loop n E cc)" for n cc
    by (induction n) (auto intro!: inp_frames)
  have c: "inp.keeps (use_clicert E n f)" for n f
    unfolding use_clicert_def by (auto intro!: inp_frames d)
  have p: "inp.keeps (prepare_scheme E ssl url scheme)" for scheme
    unfolding prepare_scheme_def setup_ssl_def by (auto intro!: inp_frames c)
  have n: "inp.keeps (netrc_creds h)" for h
    unfolding netrc_creds_def by (rule inp_modify) (auto split: option.split)
  have x: "inp.keeps (proxy_setup E h q)" for h q
    unfolding proxy_setup_def by (auto intro!: inp_frames)
  have r: "inp.keeps (open_result E u h q ret caps)" for u h q ret caps
    unfolding open_result_def is_tolerant_def by (cases ret) (auto intro!: inp_frames)
  have s: "inp.keeps (open_session E ssl url u scheme host proxy)" for u scheme host proxy
    unfolding open_session_def Let_def by (auto intro!: inp_frames p n x r)
  have o: "inp.keeps (case (if parsed then (u_path u, u_scheme u, u_host u) else (None, None, None)) of
          (Some path, Some scheme, Some host) \<Rightarrow>
            if u_userinfo u \<noteq> None then do {
              say (''User info must not be used in URL `'' @ url @ [CHR 0x27] @ ''\<newline>'');
              State_Monad.return False }
            else open_session E ssl url (session_uri E u) scheme host proxy_host
        | _ \<Rightarrow> do {
            say (''Could not parse URL `'' @ url @ [CHR 0x27] @ ''\<newline>'');
            State_Monad.return False })" for parsed u proxy_host
    by (cases "u_path u"; cases "u_scheme u"; cases "u_host u") (auto intro!: inp_frames s)
  obtain parsed u where u: "ne_uri_parse E url = (parsed, u)" by fastforce
  show ?thesis
    unfolding open_connection_def Let_def u prod.case
    by (intro inp_frames inp_close o; simp)
qed

text \<open>The invariant of the connection.\<close>

definition keeps_connection :: "('w shell, 'a) state \<Rightarrow> bool" where
  "keeps_connection m \<longleftrightarrow> (\<forall>s. connection_ok s \<longrightarrow> connection_ok (snd (run_state m s)))"

lemma ss_connection: "ss.keeps m \<Longrightarrow> keeps_connection m"
  unfolding keeps_connection_def by (blast intro: connection_ok_same same_sessionD)

lemma connection_cd:
  fixes E :: "'w env"
  shows "keeps_connection (execute_cd E p)"
proof -
  have "connection_ok (snd (run_state (set_path E q) s))" if "connection_ok s" for q and s :: "'w shell"
    using that connection_ok_same same_sessionD [OF set_path_frames(1)] by blast
  moreover have "connection_ok (snd (run_state (uri_resolve_native_coll E q) s))" if "connection_ok s"
    for q and s :: "'w shell"
    using that connection_ok_same same_sessionD [OF keeps_paths(14)] by blast
  moreover have "connection_ok s \<Longrightarrow> connection_ok (s\<lparr>s_lastwp := l, s_uri := (s_uri s)\<lparr>u_path := Some d\<rparr>\<rparr>)"
    "connection_ok s \<Longrightarrow> connection_ok (s\<lparr>s_ub := True\<rparr>)"
    "connection_ok s \<Longrightarrow> connection_ok (s\<lparr>s_trace := tr\<rparr>)" for s :: "'w shell" and l d tr
    by (simp_all add: connection_ok_def)
  ultimately show ?thesis
    by (auto simp: keeps_connection_def execute_cd_def split_def split: owned.split)
qed

lemma connection_open_close:
  "keeps_connection (open_connection E ssl url)" "keeps_connection (close_connection E)"
  by (simp_all add: keeps_connection_def open_connection_ok close_connection_closed)

end
