(* ===== verification/Shell.thy ===== *)
theory Shell
  imports Shell_Frame
begin

text \<open>
  The program as a whole (\<open>src/cadaver.c\<close>): one command line from the text to the handler, the
  prompt, the start-up file, the arguments of the process and the main loop.
\<close>

section \<open>Handlers\<close>

text \<open>What comes from outside: the environment, certificates, the XML tables, the build.\<close>

record 'w program =
  p_env :: "'w env"
  p_ssl :: ssl_env
  p_search :: search_mapid
  p_report :: report_mapid
  p_version :: string
  p_name :: string

text \<open>An argument that is NULL when the user gave none; the handler reads through it.\<close>

definition need :: "cstring option \<Rightarrow> (cstring \<Rightarrow> ('w, unit) handler_m) \<Rightarrow> ('w, unit) handler_m" where
  "need arg f = (case arg of Some a \<Rightarrow> f a | None \<Rightarrow> undefined_behaviour ())"

definition option_call :: "(option_state \<Rightarrow> option_state printed) \<Rightarrow> ('w, unit) handler_m" where
  "option_call f = do {
     st \<leftarrow> gets s_opts;
     (case f st of
        None \<Rightarrow> undefined_behaviour ()
      | Some (msg, st') \<Rightarrow> do { say msg; modify (\<lambda>s. s\<lparr>s_opts := st'\<rparr>) }) }"

definition run0 :: "'w program \<Rightarrow> fn0 \<Rightarrow> ('w, unit) handler_m" where
  "run0 P f =
     (case f of
        pwd_fn \<Rightarrow> execute_pwd (p_env P)
      | showlocks_fn \<Rightarrow> execute_showlocks (p_env P)
      | close_connection_fn \<Rightarrow> close_connection (p_env P)
      | lpwd_fn \<Rightarrow> execute_lpwd (p_env P)
      | logout_fn \<Rightarrow> execute_logout (p_env P)
      | about_fn \<Rightarrow> execute_about (p_env P) (p_version P))"

text \<open>\<open>no_fn\<close> is the NULL handler of \<open>quit\<close>.\<close>

definition run1 :: "'w program \<Rightarrow> fn1 \<Rightarrow> cstring option \<Rightarrow> ('w, unit) handler_m" where
  "run1 P f a =
     (let E = p_env P in
      case f of
        ls_fn \<Rightarrow> execute_ls E a
      | cd_fn \<Rightarrow> need a (execute_cd E)
      | edit_fn \<Rightarrow> need a (execute_edit E)
      | head_fn \<Rightarrow> need a (execute_head E)
      | lock_fn \<Rightarrow> need a (execute_lock E)
      | unlock_fn \<Rightarrow> need a (execute_unlock E)
      | discover_fn \<Rightarrow> need a (execute_discover E)
      | steal_fn \<Rightarrow> need a (execute_steal E)
      | version_fn \<Rightarrow> execute_version E a
      | checkin_fn \<Rightarrow> execute_checkin E a
      | checkout_fn \<Rightarrow> execute_checkout E a
      | uncheckout_fn \<Rightarrow> execute_uncheckout E a
      | history_fn \<Rightarrow> execute_history E (p_report P) a
      | propnames_fn \<Rightarrow> need a (execute_propnames E)
      | open_connection_fn \<Rightarrow> need a (open_connection E (p_ssl P))
      | no_fn \<Rightarrow> undefined_behaviour ()
      | lcd_fn \<Rightarrow> execute_lcd E a
      | help_fn \<Rightarrow> say (execute_help a)
      | describe_fn \<Rightarrow> need a (\<lambda>n. say (execute_describe n)))"

definition run2 :: "'w program \<Rightarrow> fn2 \<Rightarrow> cstring option \<Rightarrow> cstring option \<Rightarrow> ('w, unit) handler_m" where
  "run2 P f a b =
     (let E = p_env P in
      case f of
        put_fn \<Rightarrow> need a (\<lambda>x. execute_put E x b)
      | get_fn \<Rightarrow> need a (\<lambda>x. execute_get E x b)
      | resumeget_fn \<Rightarrow> need a (\<lambda>x. execute_resumeget E x b)
      | rename_fn \<Rightarrow> need a (\<lambda>x. need b (execute_rename E x))
      | chexec_fn \<Rightarrow> need a (\<lambda>x. need b (execute_chexec E x))
      | propget_fn \<Rightarrow> need a (\<lambda>x. execute_propget E x b)
      | propdel_fn \<Rightarrow> need a (\<lambda>x. need b (execute_propdel E x))
      | set_fn \<Rightarrow> option_call (execute_set (e_options E) a b)
      | unset_fn \<Rightarrow> need a (\<lambda>x. option_call (execute_unset (e_options E) x b)))"

definition run3 ::
  "'w program \<Rightarrow> fn3 \<Rightarrow> cstring option \<Rightarrow> cstring option \<Rightarrow> cstring option \<Rightarrow> ('w, unit) handler_m" where
  "run3 P f a b c =
     (case f of
        label_fn \<Rightarrow> need b (\<lambda>y. need c (\<lambda>z. execute_label (p_env P) a y z))
      | propset_fn \<Rightarrow> need a (\<lambda>x. need b (\<lambda>y. need c (\<lambda>z. execute_propset (p_env P) x y z))))"

definition runV :: "'w program \<Rightarrow> fnV \<Rightarrow> cstring \<Rightarrow> cstring list \<Rightarrow> ('w, unit) handler_m" where
  "runV P f command_token argv =
     (let E = p_env P in
      case f of
        mget_fn \<Rightarrow> multi_mget E argv
      | mput_fn \<Rightarrow> multi_mput E argv
      | less_fn \<Rightarrow> multi_less E argv
      | mkcol_fn \<Rightarrow> multi_mkcol E argv
      | cat_fn \<Rightarrow> multi_cat E argv
      | delete_fn \<Rightarrow> multi_delete E argv
      | rmcol_fn \<Rightarrow> multi_rmcol E argv
      | copy_fn \<Rightarrow> multi_copy E argv
      | move_fn \<Rightarrow> multi_move E argv
      | search_fn \<Rightarrow> execute_search E (p_search P) argv
      | echo_fn \<Rightarrow> execute_echo argv
      | lls_fn \<Rightarrow> execute_lls E command_token argv)"

section \<open>One command\<close>

text \<open>\<open>tokens[i + 1]\<close>, with the NULL after the last one.\<close>

definition arg :: "cstring list \<Rightarrow> nat \<Rightarrow> cstring option" where
  "arg args i = (if i < length args then Some (args ! i) else None)"

text \<open>The switch on \<open>max_args\<close>; a call through the wrong union member is undefined.\<close>

definition call_handler :: "'w program \<Rightarrow> command \<Rightarrow> cstring \<Rightarrow> cstring list \<Rightarrow> ('w, unit) handler_m" where
  "call_handler P cmd command_token args =
     (if max_args cmd = 0 then
        (case c_handler cmd of T0 f \<Rightarrow> run0 P f | _ \<Rightarrow> undefined_behaviour ())
      else if max_args cmd = 1 then
        (case c_handler cmd of T1 f \<Rightarrow> run1 P f (arg args 0) | _ \<Rightarrow> undefined_behaviour ())
      else if max_args cmd = 2 then
        (case c_handler cmd of
           T2 f \<Rightarrow> if length args \<le> 1 then run2 P f (arg args 0) None else run2 P f (arg args 0) (arg args 1)
         | _ \<Rightarrow> undefined_behaviour ())
      else if max_args cmd = 3 then
        (case c_handler cmd of
           T3 f \<Rightarrow> run3 P f (arg args 0) (arg args 1) (arg args 2) | _ \<Rightarrow> undefined_behaviour ())
      else if max_args cmd = CMD_VARY then
        (case c_handler cmd of TV f \<Rightarrow> runV P f command_token args | _ \<Rightarrow> undefined_behaviour ())
      else State_Monad.return ())"

definition usage_tail :: "command \<Rightarrow> string" where
  "usage_tail cmd =
     (case short_help cmd of
        Some h \<Rightarrow> '':\<newline>  '' @ c_call cmd @ '' : '' @ h @ ''\<newline>'' | None \<Rightarrow> ''.\<newline>'')"

definition plural :: "nat \<Rightarrow> string" where
  "plural n = (if n = 1 then [] else ''s'')"

definition too_few :: "cstring \<Rightarrow> command \<Rightarrow> string" where
  "too_few token cmd =
     ''The `'' @ token @ [CHR 0x27] @ '' command requires '' @ show_nat (min_args cmd) @ '' argument''
     @ plural (min_args cmd) @ usage_tail cmd"

definition too_many :: "cstring \<Rightarrow> command \<Rightarrow> string" where
  "too_many token cmd =
     (if max_args cmd \<noteq> 0 then
        ''The `'' @ token @ [CHR 0x27] @ '' command takes at most '' @ show_nat (max_args cmd) @ '' argument''
        @ plural (max_args cmd)
      else ''The `'' @ token @ [CHR 0x27] @ '' command takes no arguments'') @ usage_tail cmd"

text \<open>The tokens of a line; what the expansion of patterns prints goes through \<open>output\<close>.\<close>

definition read_tokens :: "'w program \<Rightarrow> cstring \<Rightarrow> ('w, cstring list) handler_m" where
  "read_tokens P line = do {
     connected \<leftarrow> gets s_connected;
     (tokens, outs) \<leftarrow> world_op (\<lambda>w.
       case parse_command (os_glob (p_env P)) connected line w of (ts, os, w') \<Rightarrow> ((ts, os), w'));
     for_each (\<lambda>call. output_msg (fst call) (snd call)) outs;
     State_Monad.return tokens }"

text \<open>\<open>execute_command\<close>: True is the return value -1, the user quits.\<close>

definition execute_tokens :: "'w program \<Rightarrow> cstring \<Rightarrow> cstring list \<Rightarrow> ('w, bool) handler_m" where
  "execute_tokens P token args = do {
     connected \<leftarrow> gets s_connected;
     (case get_command token of
        None \<Rightarrow> do {
          say (''Unrecognised command. Type '' @ [CHR 0x27] @ ''help'' @ [CHR 0x27] @ '' for a list of commands.\<newline>'');
          State_Monad.return False }
      | Some cmd \<Rightarrow>
          if length args < min_args cmd then do { say (too_few token cmd); State_Monad.return False }
          else if max_args cmd < length args then do { say (too_many token cmd); State_Monad.return False }
          else if \<not> connected \<and> needs_connection cmd then do {
            say (''The `'' @ token @ [CHR 0x27] @ '' command can only be used when connected to the server.\<newline>''
              @ ''Try running `open'' @ [CHR 0x27] @ '' first (see `help open'' @ [CHR 0x27] @ '' for more details).\<newline>'');
            State_Monad.return False }
          else if c_id cmd = cmd_quit then State_Monad.return True
          else do { call_handler P cmd token args; State_Monad.return False }) }"

definition execute_command :: "'w program \<Rightarrow> cstring \<Rightarrow> ('w, bool) handler_m" where
  "execute_command P line = do {
     tokens \<leftarrow> read_tokens P line;
     (case tokens of
        [] \<Rightarrow> State_Monad.return False
      | token # args \<Rightarrow> execute_tokens P token args) }"

section \<open>The program\<close>

definition prompt :: "'w program \<Rightarrow> ('w, string) handler_m" where
  "prompt P = do {
     u \<leftarrow> gets s_uri;
     (case u_path u of
        None \<Rightarrow> State_Monad.return ''dav:!> ''
      | Some path \<Rightarrow> do {
          p \<leftarrow> native_path_from_uri (p_env P) path;
          isdav \<leftarrow> gets s_isdav;
          State_Monad.return (take (BUFSIZ - 1)
            (''dav:'' @ str_or_null p @ [if isdav then CHR ''>'' else CHR ''?''] @ '' '')) }) }"

definition read_command :: "'w program \<Rightarrow> ('w, cstring option) handler_m" where
  "read_command P = do { p \<leftarrow> prompt P; readline (p_env P) p }"

fun run_lines :: "'w program \<Rightarrow> cstring list \<Rightarrow> ('w, bool) handler_m" where
  "run_lines P [] = State_Monad.return False"
| "run_lines P (l # ls) = do {
     quit \<leftarrow> execute_command P (ne_shave (p_env P) l [CHR 0x0D, CHR 0x0A]);
     if quit then State_Monad.return True else run_lines P ls }"

definition init_rcfile :: "'w program \<Rightarrow> cstring option \<Rightarrow> ('w, bool) handler_m" where
  "init_rcfile P rcfile = do {
     let E = p_env P;
     let file = (case rcfile of Some f \<Rightarrow> f
                 | None \<Rightarrow> str_or_null (os_getenv E ''HOME'') @ ''/.cadaverrc'');
     st \<leftarrow> read_world (os_stat E file);
     if rcfile = None \<and> st = None then State_Monad.return False
     else do {
       contents \<leftarrow> read_world (os_read_file E file);
       (case contents of
          None \<Rightarrow> do {
            err \<leftarrow> strerror E;
            say (''Could not read rcfile '' @ file @ '': '' @ err @ ''\<newline>'');
            State_Monad.return False }
        | Some t \<Rightarrow> run_lines P (fgets_lines BUFSIZ t)) } }"

definition usage :: "'w program \<Rightarrow> string" where
  "usage P =
     ''Usage: '' @ p_name P @ '' [OPTIONS] URL\<newline>'' @
     ''  URL must be an absolute URI using the http: or https: scheme.\<newline>'' @
     ''Options:\<newline>'' @
     ''  -t, --tolerant            Allow cd/open into non-WebDAV enabled collection.\<newline>'' @
     ''  -r, --rcfile=FILE         Read script from FILE instead of ~/.cadaverrc.\<newline>'' @
     ''  -p, --proxy=PROXY[:PORT]  Use proxy host PROXY and optional proxy port PORT.\<newline>'' @
     ''  -V, --version             Display version information.\<newline>'' @
     ''  -h, --help                Display this help message.\<newline>'' @
     ''Please send bug reports and feature requests via <https://github.com/notroj/cadaver>\<newline>''"

text \<open>The options in the order \<open>getopt_long\<close> returns them, and the arguments left over.\<close>

datatype cli_option =
    Opt_help | Opt_version | Opt_proxy cstring | Opt_tolerant | Opt_rcfile cstring | Opt_other

text \<open>The loop: \<open>None\<close> is a call of \<open>exit\<close>, otherwise the rcfile.\<close>

fun parse_opts :: "'w program \<Rightarrow> cli_option list \<Rightarrow> cstring option \<Rightarrow> ('w, cstring option option) handler_m" where
  "parse_opts P [] rcfile = State_Monad.return (Some rcfile)"
| "parse_opts P (opt # opts) rcfile =
     (case opt of
        Opt_help \<Rightarrow> do { say (usage P); State_Monad.return None }
      | Opt_version \<Rightarrow> do { execute_about (p_env P) (p_version P); State_Monad.return None }
      | Opt_proxy str \<Rightarrow> do { set_proxy str; parse_opts P opts rcfile }
      | Opt_tolerant \<Rightarrow> do {
          modify (\<lambda>s. s\<lparr>s_opts := (s_opts s)\<lparr>int_vars := (int_vars (s_opts s))(v_tolerant := 1)\<rparr>\<rparr>);
          parse_opts P opts rcfile }
      | Opt_rcfile f \<Rightarrow> parse_opts P opts (Some f)
      | Opt_other \<Rightarrow> do {
          say (''Try `'' @ p_name P @ '' --help'' @ [CHR 0x27] @ '' for more information.\<newline>'');
          State_Monad.return None })"

definition parse_args ::
  "'w program \<Rightarrow> cli_option list \<Rightarrow> cstring list \<Rightarrow> ('w, cstring option option) handler_m" where
  "parse_args P opts args = do {
     parsed \<leftarrow> parse_opts P opts None;
     (case parsed of
        None \<Rightarrow> State_Monad.return None
      | Some rcfile \<Rightarrow>
          (case args of
             [] \<Rightarrow> State_Monad.return (Some rcfile)
           | [url] \<Rightarrow> do {
               open_connection (p_env P) (p_ssl P) url;
               State_Monad.return (Some rcfile) }
           | _ \<Rightarrow> do { say (usage P); State_Monad.return None })) }"

text \<open>
  The loop of \<open>main\<close>: True when it ended within the rounds given.  Every round reads a line, so
  that a number greater than the length of the input is enough (\<open>main_loop_ends\<close>).
\<close>

fun main_loop :: "nat \<Rightarrow> 'w program \<Rightarrow> ('w, bool) handler_m" where
  "main_loop 0 P = State_Monad.return False"
| "main_loop (Suc n) P = do {
     cmd \<leftarrow> read_command P;
     (case cmd of
        None \<Rightarrow> do { say ''\<newline>''; State_Monad.return True }
      | Some line \<Rightarrow> do {
          quit \<leftarrow> execute_command P line;
          if quit then State_Monad.return True else main_loop n P }) }"

text \<open>\<open>memset (&session, 0, sizeof session)\<close> and the static variables.\<close>

definition initial_shell :: "option_state \<Rightarrow> capabilities \<Rightarrow> string \<Rightarrow> 'w \<Rightarrow> 'w shell" where
  "initial_shell opts no_caps inp w =
    \<lparr>s_uri = empty_uri, s_sess = False, s_connected = False, s_isdav = False, s_lastwp = No_pointer,
     s_caps = no_caps, s_opts = opts, s_out = out_none, s_completion = False, s_child = False,
     s_creds = None, s_proxy = None, s_netrc = [], s_input = inp, s_trace = [], s_ub = False, s_world = w\<rparr>"

text \<open>
  \<open>main\<close> from \<open>set_option (opt_lockstore)\<close> on, in the state \<open>initial_shell\<close>; the result is
  whether it ended, in the rounds that are enough.
\<close>

definition start_up :: "'w program \<Rightarrow> cstring \<Rightarrow> ('w, unit) handler_m" where
  "start_up P home = do {
     let E = p_env P;
     modify (\<lambda>s. s\<lparr>s_opts := set_option opt_lockstore (HeapString (home @ ''/.cadaver-locks'')) (s_opts s)\<rparr>);
     modify (\<lambda>s. s\<lparr>s_opts := init_options (os_getenv E ''USER'') (os_getenv E ''HOSTNAME'') (out_charset E) (s_opts s)\<rparr>);
     netrc \<leftarrow> read_world (os_read_file E (home @ ''/.netrc''));
     modify (\<lambda>s. s\<lparr>s_netrc := parse_netrc netrc\<rparr>);
     init_locking;
     State_Monad.return () }"

definition main_program :: "'w program \<Rightarrow> cli_option list \<Rightarrow> cstring list \<Rightarrow> ('w, bool) handler_m" where
  "main_program P opts args =
     (case os_getenv (p_env P) ''HOME'' of
        None \<Rightarrow> do {
          say ''Environment variable $HOME needs to be set!\<newline>'';
          State_Monad.return True }
      | Some home \<Rightarrow> do {
          start_up P home;
          parsed \<leftarrow> parse_args P opts args;
          (case parsed of
             None \<Rightarrow> State_Monad.return True
           | Some rcfile \<Rightarrow> do {
               quit \<leftarrow> init_rcfile P rcfile;
               fuel \<leftarrow> gets (\<lambda>s. Suc (length (s_input s)));
               ended \<leftarrow> (if quit then State_Monad.return True else main_loop fuel P);
               connected \<leftarrow> gets s_connected;
               (if connected then close_connection (p_env P) else State_Monad.return ());
               State_Monad.return ended }) })"

text \<open>\<open>quit_handler\<close>: the handler of the signals; True when it exits.\<close>

definition quit_handler :: "'w program \<Rightarrow> nat \<Rightarrow> ('w, bool) handler_m" where
  "quit_handler P sig = do {
     child \<leftarrow> gets s_child;
     if child then State_Monad.return False
     else do {
       say (''Terminated by signal '' @ show_nat sig @ ''.\<newline>'');
       connected \<leftarrow> gets s_connected;
       (if connected then close_connection (p_env P) else State_Monad.return ());
       State_Monad.return True } }"

section \<open>Lemmas\<close>

definition connection_kept :: "'w shell \<Rightarrow> 'w shell \<Rightarrow> bool" where
  "connection_kept s t \<longleftrightarrow> (connection_ok s \<longrightarrow> connection_ok t)"

interpretation co: state_relation connection_kept
  by unfold_locales (auto simp: connection_kept_def)

lemma co_ss: "ss.keeps m \<Longrightarrow> co.keeps m"
  using ss_connection by (auto simp: co.keeps_def keeps_connection_def connection_kept_def)

lemma co_changes:
  fixes E :: "'w env"
  shows "co.keeps (execute_cd E p)" "co.keeps (open_connection E ssl url)" "co.keeps (close_connection E)"
proof -
  have "co.keeps m \<longleftrightarrow> keeps_connection m" for m :: "('w shell, unit) state"
    by (simp add: co.keeps_def keeps_connection_def connection_kept_def)
  then show "co.keeps (execute_cd E p)" "co.keeps (open_connection E ssl url)" "co.keeps (close_connection E)"
    by (simp_all add: connection_cd connection_open_close)
qed

lemmas inp_handlers =
  lock_handlers(1,3,5,7,9) remove_handlers(1,3) copy_handlers(1,3,5) multi_handlers(1,3,5)
  prop_handlers(1,3,5,7) propget_handlers(1) get_handlers(1,3) transfer_handlers(1,3,5,7,9)
  pager_handlers(1,3) place_handlers(1,3,5,7,9,11,13) ls_handlers(1) version_handlers(1,3,5,7)
  checkin_handlers(1,3,5,7) edit_handlers(1) search_handlers(1) inp_cd inp_close inp_open

lemmas ss_handlers =
  lock_handlers(2,4,6,8,10) remove_handlers(2,4) copy_handlers(2,4,6) multi_handlers(2,4,6)
  prop_handlers(2,4,6,8) propget_handlers(2) get_handlers(2,4) transfer_handlers(2,4,6,8,10)
  pager_handlers(2,4) place_handlers(2,4,6,8,10,12,14) ls_handlers(2) version_handlers(2,4,6,8)
  checkin_handlers(2,4,6,8) edit_handlers(2) search_handlers(2)

lemmas co_handlers = ss_handlers [THEN co_ss] co_changes

lemma need_keeps:
  "(\<And>a. inp.keeps (f a)) \<Longrightarrow> inp.keeps (need x f)" "(\<And>a. co.keeps (g a)) \<Longrightarrow> co.keeps (need x g)"
  unfolding need_def by (auto intro!: inp_frames co_ss [OF keeps_ub(2)] split: option.split)

lemma co_modify: "(\<And>s. connection_ok s \<Longrightarrow> connection_ok (f s)) \<Longrightarrow> co.keeps (modify f)"
  by (rule co.keepsI) (simp add: connection_kept_def)

lemmas co_basic =
  co.keeps_intros keeps_world_op(2) [THEN co_ss] keeps_note(2) [THEN co_ss] keeps_say(2) [THEN co_ss]
  keeps_ub(2) [THEN co_ss] keeps_reads(2,4,6,8,10) [THEN co_ss] keeps_output(2,4,6) [THEN co_ss]
  keeps_ask(2,4) [THEN co_ss] keeps_paths(8) [THEN co_ss]

lemma option_call_keeps: "inp.keeps (option_call f)" "co.keeps (option_call f)"
  unfolding option_call_def
  by (auto intro!: inp_frames co_basic co_modify simp: connection_ok_def split: option.split)

lemma run0_keeps: "inp.keeps (run0 P f)" "co.keeps (run0 P f)"
  unfolding run0_def by (cases f; simp add: inp_handlers co_handlers)+

lemma run1_keeps: "inp.keeps (run1 P f a)" "co.keeps (run1 P f a)"
  unfolding run1_def Let_def
  by (cases f; simp add: inp_handlers co_handlers inp_primitives co_basic need_keeps)+

lemma run2_keeps: "inp.keeps (run2 P f a b)" "co.keeps (run2 P f a b)"
  unfolding run2_def Let_def by (cases f; simp add: inp_handlers co_handlers need_keeps option_call_keeps)+

lemma run3_keeps: "inp.keeps (run3 P f a b c)" "co.keeps (run3 P f a b c)"
  unfolding run3_def by (cases f; simp add: inp_handlers co_handlers need_keeps)+

lemma runV_keeps: "inp.keeps (runV P f t argv)" "co.keeps (runV P f t argv)"
  unfolding runV_def Let_def by (cases f; simp add: inp_handlers co_handlers)+

lemma call_handler_keeps: "inp.keeps (call_handler P cmd t args)" "co.keeps (call_handler P cmd t args)"
  unfolding call_handler_def
  by (auto intro!: inp_basic co_basic run0_keeps run1_keeps run2_keeps run3_keeps runV_keeps split: cmd_handler.split)

lemma co_for_each: "(\<And>x. co.keeps (f x)) \<Longrightarrow> co.keeps (for_each f xs)"
  by (induction xs) (auto intro!: co.keeps_intros)

lemma execute_command_keeps: "inp.keeps (execute_command P line)" "co.keeps (execute_command P line)"
proof -
  have t: "inp.keeps (read_tokens P line)" "co.keeps (read_tokens P line)"
    unfolding read_tokens_def by (auto intro!: inp_frames co_basic co_for_each)
  show "inp.keeps (execute_command P line)" "co.keeps (execute_command P line)"
    unfolding execute_command_def execute_tokens_def
    by (auto intro!: inp_basic co_basic call_handler_keeps t)
qed

lemma prompt_keeps: "inp.keeps (prompt P)" "co.keeps (prompt P)"
  unfolding prompt_def by (auto intro!: inp_frames co_basic)

lemma run_lines_keeps: "inp.keeps (run_lines P ls)" "co.keeps (run_lines P ls)"
  by (induction ls) (auto intro!: inp_basic co_basic execute_command_keeps)

lemma init_rcfile_keeps: "inp.keeps (init_rcfile P rc)" "co.keeps (init_rcfile P rc)"
  unfolding init_rcfile_def Let_def by (auto intro!: inp_basic co_basic run_lines_keeps)

text \<open>A line that is read takes from the input.\<close>

lemma read_command_consumes:
  "run_state (read_command P) s = (Some l, t) \<Longrightarrow> length (s_input t) < length (s_input s)"
proof -
  assume r: "run_state (read_command P) s = (Some l, t)"
  obtain p u where p: "run_state (prompt P) s = (p, u)" by fastforce
  have u: "length (s_input u) \<le> length (s_input s)"
    using inp.keepsD [OF prompt_keeps(1) p] by (simp add: input_shrinks_def)
  have "length (s_input t) < length (s_input u)"
    using r p line_part_shorter [of 255 "s_input u"]
    by (auto simp: read_command_def readline_def fgets_def split: if_splits prod.splits)
  with u show ?thesis by simp
qed

lemma main_loop_returns:
  "length (s_input s) < n \<Longrightarrow> fst (run_state (main_loop n P) s)"
proof (induction n arbitrary: s)
  case (Suc n)
  obtain cmd t where r: "run_state (read_command P) s = (cmd, t)" by fastforce
  show ?case
  proof (cases cmd)
    case None
    with r show ?thesis by simp
  next
    case (Some l)
    obtain q v where v: "run_state (execute_command P l) t = (q, v)" by fastforce
    have "length (s_input v) \<le> length (s_input t)"
      using inp.keepsD [OF execute_command_keeps(1) v] by (simp add: input_shrinks_def)
    then have "length (s_input v) < n"
      using read_command_consumes r Some Suc.prems by fastforce
    with Suc.IH [of v] r v Some show ?thesis by simp
  qed
qed simp

section \<open>Without a connection\<close>

lemma no_request_events: "no_request (Out t)" "no_request (Cmd c)" "no_request (Query m p)" "no_request (Ran prog)"
  by (simp_all add: no_request_def)

lemmas silent_basic =
  gr.keeps_intros keeps_world_op(1) keeps_note(1) keeps_say(1) keeps_ub(1) keeps_reads(1,3,5,7,9) keeps_exec(1)
  keeps_modify(1) keeps_ask(1,3) no_request_events keeps_for_each(1)
  keeps_output(1,3,5) [THEN silent_harmless] set_path_frames(2) [THEN silent_harmless]

lemma silent_close: "silent (close_connection E)"
  unfolding close_connection_def free_lastwp_def
  by (auto intro!: silent_basic split: owned.split option.split)

lemma silent_open: "silent (open_connection E ssl url)"
proof -
  have d: "silent (decrypt_loop n E cc)" for n cc
    by (induction n) (auto intro!: silent_basic)
  have c: "silent (use_clicert E n f)" for n f
    unfolding use_clicert_def by (auto intro!: silent_basic d)
  have p: "silent (prepare_scheme E ssl url scheme)" for scheme
    unfolding prepare_scheme_def setup_ssl_def by (auto intro!: silent_basic c)
  have n: "silent (netrc_creds h)" for h
    unfolding netrc_creds_def by (rule keeps_modify(1)) (auto split: option.split)
  have x: "silent (proxy_setup E h q)" for h q
    unfolding proxy_setup_def by (auto intro!: silent_basic)
  have r: "silent (open_result E u h q ret caps)" for u h q ret caps
    unfolding open_result_def is_tolerant_def by (cases ret) (auto intro!: silent_basic)
  have s: "silent (open_session E ssl url u scheme host proxy)" for u scheme host proxy
    unfolding open_session_def Let_def by (auto intro!: silent_basic p n x r)
  have o: "silent (case (if parsed then (u_path u, u_scheme u, u_host u) else (None, None, None)) of
          (Some path, Some scheme, Some host) \<Rightarrow>
            if u_userinfo u \<noteq> None then do {
              say (''User info must not be used in URL `'' @ url @ [CHR 0x27] @ ''\<newline>'');
              State_Monad.return False }
            else open_session E ssl url (session_uri E u) scheme host proxy_host
        | _ \<Rightarrow> do {
            say (''Could not parse URL `'' @ url @ [CHR 0x27] @ ''\<newline>'');
            State_Monad.return False })" for parsed u proxy_host
    by (cases "u_path u"; cases "u_scheme u"; cases "u_host u") (auto intro!: silent_basic s)
  obtain parsed u where u: "ne_uri_parse E url = (parsed, u)" by fastforce
  show ?thesis
    unfolding open_connection_def Let_def u prod.case
    by (intro silent_basic silent_close o; simp)
qed

text \<open>The handlers of the commands that work without a connection.\<close>

definition local_handlers :: "cmd_handler list" where
  "local_handlers =
    [T2 set_fn, T2 unset_fn, T1 open_connection_fn, T1 no_fn, T1 lcd_fn, T1 help_fn, T1 describe_fn,
     T0 lpwd_fn, T0 about_fn, TV echo_fn, TV lls_fn]"

lemma local_commands: "c \<in> set commands \<Longrightarrow> \<not> needs_connection c \<Longrightarrow> c_handler c \<in> set local_handlers"
proof -
  have "list_all (\<lambda>c. needs_connection c \<or> c_handler c \<in> set local_handlers) commands"
    by (simp add: commands_def cmd_row_def local_handlers_def)
  then show "c \<in> set commands \<Longrightarrow> \<not> needs_connection c \<Longrightarrow> c_handler c \<in> set local_handlers"
    by (auto simp: list_all_iff)
qed

lemma silent_need: "(\<And>a. silent (f a)) \<Longrightarrow> silent (need x f)"
  unfolding need_def by (auto intro!: silent_basic split: option.split)

lemma silent_option_call: "silent (option_call f)"
  unfolding option_call_def by (auto intro!: silent_basic split: option.split)

lemma silent_place:
  "silent (execute_lls E t argv)" "silent (execute_lcd E q)" "silent (execute_echo argv)"
  "silent (execute_lpwd E)" "silent (execute_about E v)"
  unfolding execute_lls_def execute_lcd_def execute_echo_def execute_lpwd_def execute_about_def
  by (auto intro!: silent_basic)

lemma silent_handlers:
  "h \<in> set local_handlers \<Longrightarrow>
     (case h of
        T0 f \<Rightarrow> silent (run0 P f)
      | T1 f \<Rightarrow> \<forall>a. silent (run1 P f a)
      | T2 f \<Rightarrow> \<forall>a b. silent (run2 P f a b)
      | T3 f \<Rightarrow> \<forall>a b c. silent (run3 P f a b c)
      | TV f \<Rightarrow> \<forall>t argv. silent (runV P f t argv))"
  unfolding local_handlers_def list.set insert_iff empty_iff
  by (elim disjE; simp add: run0_def run1_def run2_def runV_def silent_place silent_open
      silent_option_call keeps_say(1) keeps_ub(1) no_request_events silent_need)

lemma silent_local:
  assumes "c_handler c \<in> set local_handlers"
  shows "silent (call_handler P c t args)"
  using silent_handlers [OF assms, of P]
  by (cases "c_handler c") (simp_all add: call_handler_def gr.keeps_return keeps_ub(1))

section \<open>Properties\<close>


text \<open>What can happen to a shell: the arguments, a command line, a prompt, a signal.\<close>

inductive shell_step :: "'w program \<Rightarrow> 'w shell \<Rightarrow> 'w shell \<Rightarrow> bool" for P where
  a_start: "shell_step P s (snd (run_state (parse_args P opts args) s))"
| a_command: "shell_step P s (snd (run_state (execute_command P line) s))"
| a_prompt: "shell_step P s (snd (run_state (read_command P) s))"
| a_signal: "shell_step P s (snd (run_state (quit_handler P sig) s))"

inductive_cases shell_stepE: "shell_step P s t"

lemma step_connection: "shell_step P s t \<Longrightarrow> connection_ok s \<Longrightarrow> connection_ok t"
proof (induction rule: shell_step.induct)
  case (a_start s opts args)
  have "co.keeps (parse_opts P opts rc)" for rc
  proof (induction opts arbitrary: rc)
    case (Cons opt opts)
    then show ?case
      by (cases opt; simp add: set_proxy_def execute_about_def)
        (auto intro!: co_basic co_modify simp: connection_ok_def split: option.split)
  qed (auto intro!: co_basic)
  then have "co.keeps (parse_args P opts args)"
    unfolding parse_args_def by (auto intro!: co_basic co_changes)
  with a_start show ?case
    using co.keepsD [OF _ surjective_pairing] by (fastforce simp: connection_kept_def)
next
  case (a_command s line)
  then show ?case
    using co.keepsD [OF execute_command_keeps(2) surjective_pairing] by (fastforce simp: connection_kept_def)
next
  case (a_prompt s)
  have "co.keeps (read_command P)"
    unfolding read_command_def by (auto intro!: co_basic prompt_keeps)
  with a_prompt show ?case
    using co.keepsD [OF _ surjective_pairing] by (fastforce simp: connection_kept_def)
next
  case (a_signal s sig)
  have "co.keeps (quit_handler P sig)"
    unfolding quit_handler_def by (auto intro!: co_basic co_changes)
  with a_signal show ?case
    using co.keepsD [OF _ surjective_pairing] by (fastforce simp: connection_kept_def)
qed

lemma reachable_connection:
  "(shell_step P)\<^sup>*\<^sup>* s t \<Longrightarrow> connection_ok s \<Longrightarrow> connection_ok t"
  by (induction rule: rtranclp_induct) (auto intro: step_connection)

text \<open>C5: A shell that counts as connected has a session to send requests on, a host and a current
  collection: in every state that the arguments, command lines, prompts and signals reach from the initial one,
  whatever neon and the server answer.\<close>

theorem connected_has_session:
  assumes "(shell_step P)\<^sup>*\<^sup>* (initial_shell opts no_caps inp w) s" "s_connected s"
  shows "s_sess s \<and> u_host (s_uri s) \<noteq> None \<and> u_path (s_uri s) \<noteq> None"
proof -
  have "connection_ok (initial_shell opts no_caps inp w)"
    by (simp add: connection_ok_def initial_shell_def)
  with assms reachable_connection show ?thesis by (auto simp: connection_ok_def)
qed


definition sample_program :: "sample program" where
  "sample_program =
    \<lparr>p_env = sample_env\<lparr>ne_uri_parse := (\<lambda>u. (True, \<lparr>u_scheme = Some ''http'', u_host = Some ''h'',
       u_userinfo = None, u_port = 0, u_path = Some ''/d/''\<rparr>))\<rparr>,
     p_ssl = sample_ssl, p_search = idmap_lookup ELEM_unknown, p_report = idmap_lookup RELEM_unknown,
     p_version = ''0.26'', p_name = ''cadaver''\<rparr>"

definition sample_start :: "sample shell" where
  "sample_start = initial_shell (initial_options NE_DEPTH_ZERO)
     \<lparr>dav_class1 = False, dav_class2 = False, dav_executable = False\<rparr> [] (s_world sample_shell)"

theorem connected_has_session_witness:
  "let s = snd (run_state (parse_args sample_program [] [''h'']) sample_start)
   in s_connected s \<and> s_sess s \<and> u_host (s_uri s) \<noteq> None"
proof -
  define s where "s = snd (run_state (parse_args sample_program [] [''h'']) sample_start)"
  have "s_connected (snd (run_state (parse_args sample_program [] [''h'']) sample_start))" by code_simp
  then have c: "s_connected s" by (simp add: s_def)
  have "(shell_step sample_program)\<^sup>*\<^sup>* sample_start s"
    unfolding s_def by (rule r_into_rtranclp, rule shell_step.a_start)
  from connected_has_session [OF this [unfolded sample_start_def] c] c show ?thesis
    by (simp add: s_def Let_def)
qed


end
