(* ===== verification/Glob_Commands.thy ===== *)
theory Glob_Commands
  imports Glob_Frame Shell "HOL-Library.Sublist"
begin

text \<open>
  A command line in the state of the shell: the tokeniser, the expansion with the routine of
  \<open>lib/glob\<close>, and the handler of the command that gets the names.
\<close>

section \<open>The line\<close>

text \<open>One expansion in \<open>parse_command\<close>, its messages in their places.\<close>

definition announced_glob :: "'w env \<Rightarrow> 'w local_dirs \<Rightarrow> cstring \<Rightarrow> bool \<Rightarrow> ('w, glob_result) handler_m" where
  "announced_glob E L token remote = do {
     output_msg o_start ''[Matching...'';
     ret \<leftarrow> cadaver_glob E L token remote;
     output_msg o_finish (glob_report ret);
     State_Monad.return ret }"

text \<open>
  \<open>execute_command\<close> as \<open>Shell\<close> has it, with the expansion in place of the function of the
  environment; the list of messages repeats what \<open>announced_glob\<close> printed.
\<close>

definition execute_line :: "'w program \<Rightarrow> 'w local_dirs \<Rightarrow> cstring \<Rightarrow> ('w, bool) handler_m" where
  "execute_line P L line = do {
     connected \<leftarrow> gets s_connected;
     tokens \<leftarrow> State_Monad.State (\<lambda>s.
       case parse_command (\<lambda>token remote. run_state (announced_glob (p_env P) L token remote)) connected line s of
         (tokens, outs, s') \<Rightarrow> (tokens, s'));
     (case tokens of
        [] \<Rightarrow> State_Monad.return False
      | token # args \<Rightarrow> execute_tokens P token args) }"

section \<open>Resolved names\<close>

text \<open>The path of a name for a user whose locale is UTF-8.\<close>

definition path_at :: "'w env \<Rightarrow> 'w shell \<Rightarrow> cstring \<Rightarrow> cstring" where
  "path_at E s native = path_of (ne_uri_resolve E (s_uri s) (empty_uri\<lparr>u_path := Some (ne_path_escape E native)\<rparr>))"

lemma path_at_session: "same_session s t \<Longrightarrow> path_at E t = path_at E s"
  by (simp add: path_at_def same_session_def fun_eq_iff)

lemma uri_resolve_native_utf8:
  "get_bool_option opt_utf8 (s_opts s) \<noteq> 0 \<Longrightarrow> run_state (uri_resolve_native E n) s = (path_at E s n, s)"
  by (simp add: uri_resolve_native_def path_native_resolver_def utf8_from_native_def bool_option_def path_at_def Let_def)

text \<open>A path that is not a collection's is the name's own, or one that the server redirected to.\<close>

lemma uri_resolve_native_true_other:
  assumes "get_bool_option opt_utf8 (s_opts s) \<noteq> 0"
    and "fst (run_state (uri_resolve_native_true E n) s) = (p, False)"
  shows "p = path_at E s n \<or> ne_path_has_trailing_slash E p"
  using assms(2)
  by (auto simp: uri_resolve_native_true_def uri_resolve_native_utf8 [OF assms(1)] split_def Let_def
    split: option.splits if_splits)

text \<open>The requests of a deletion: for some of the names, in their order.\<close>

definition deleted :: "'w env \<Rightarrow> 'w shell \<Rightarrow> cstring list \<Rightarrow> cstring list \<Rightarrow> bool" where
  "deleted E s names us \<longleftrightarrow> (\<exists>ns. subseq ns names \<and>
     list_all2 (\<lambda>n u. u = path_at E s n \<or> ne_path_has_trailing_slash E u) ns us)"

lemma deleted_Nil: "deleted E s names []"
  by (auto simp: deleted_def intro: exI [of _ "[]"])

lemma deleted_append:
  assumes "deleted E s xs us" "deleted E s ys vs"
  shows "deleted E s (xs @ ys) (us @ vs)"
  using assms unfolding deleted_def
  by (elim exE conjE) (rule exI, rule conjI, erule (1) list_emb_append_mono, erule (1) list_all2_appendI)

lemma deleted_member:
  assumes "deleted E s names us" "u \<in> set us"
  shows "\<exists>n \<in> set names. u = path_at E s n \<or> ne_path_has_trailing_slash E u"
proof -
  obtain ns where ns: "subseq ns names" "list_all2 (\<lambda>n u. u = path_at E s n \<or> ne_path_has_trailing_slash E u) ns us"
    using assms(1) by (auto simp: deleted_def)
  obtain i where "i < length us" "u = us ! i" using assms(2) by (auto simp: in_set_conv_nth)
  with ns(2) have "ns ! i \<in> set ns" "u = path_at E s (ns ! i) \<or> ne_path_has_trailing_slash E u"
    by (auto simp: list_all2_conv_all_nth)
  then show ?thesis using list_emb_set [OF ns(1)] by blast
qed

lemma execute_delete_requests:
  assumes "get_bool_option opt_utf8 (s_opts s) \<noteq> 0"
  shows "\<exists>us. reqs (snd (run_state (execute_delete E n) s)) = reqs s @ map Delete us \<and> deleted E s [n] us"
proof -
  obtain p c where p: "fst (run_state (uri_resolve_native_true E n) s) = (p, c)" by fastforce
  show ?thesis
  proof (cases c)
    case True
    with p show ?thesis by (intro exI [of _ "[]"]) (simp add: execute_delete_def split_def deleted_Nil)
  next
    case False
    with p have "p = path_at E s n \<or> ne_path_has_trailing_slash E p"
      using uri_resolve_native_true_other [OF assms, of E n p] by simp
    then have "deleted E s [n] [p]" unfolding deleted_def by (intro exI [of _ "[n]"]) simp
    with p False show ?thesis by (intro exI [of _ "[p]"]) (simp add: execute_delete_def split_def)
  qed
qed

lemma multi_delete_requests:
  assumes "get_bool_option opt_utf8 (s_opts s) \<noteq> 0"
  shows "\<exists>us. reqs (snd (run_state (multi_delete E names) s)) = reqs s @ map Delete us \<and> deleted E s names us"
  using assms
proof (induction names arbitrary: s)
  case Nil
  then show ?case by (auto simp: multi_delete_def map_multi_def deleted_Nil)
next
  case (Cons n names)
  let ?t = "snd (run_state (execute_delete E n) s)"
  have same: "same_session s ?t" by (rule same_sessionD) (rule remove_handlers)
  with Cons.prems have "get_bool_option opt_utf8 (s_opts ?t) \<noteq> 0" by (simp add: same_session_def)
  from Cons.IH [OF this] obtain us where
      rest: "reqs (snd (run_state (multi_delete E names) ?t)) = reqs ?t @ map Delete us" "deleted E s names us"
    unfolding deleted_def path_at_session [OF same] by blast
  obtain vs where here: "reqs ?t = reqs s @ map Delete vs" "deleted E s [n] vs"
    using execute_delete_requests [OF Cons.prems] by blast
  have "reqs (snd (run_state (multi_delete E (n # names)) s)) = reqs s @ map Delete (vs @ us)"
    using rest(1) here(1) by (simp add: multi_delete_def map_multi_def split_def)
  with deleted_append [OF here(2) rest(2)] show ?case by (intro exI [of _ "vs @ us"]) simp
qed

section \<open>The tokens of a line with one pattern\<close>

lemma execute_line_pattern:
  assumes "arg_ok token" "arg_ok pattern" "has_glob_pattern pattern" "s_connected s"
    and "get_command token = Some c" "c_scope c = parmscope_remote"
    and "run_state (announced_glob (p_env P) L pattern True) s = (ret, t)"
  shows "run_state (execute_line P L (quote_arg token @ quote_args [pattern])) s
    = run_state (execute_tokens P token (case ret of Glob_ok ms \<Rightarrow> ms | _ \<Rightarrow> [pattern])) t"
  using quoted_pattern_expanded [OF assms(1-3,5,6), of "\<lambda>token remote. run_state (announced_glob (p_env P) L token remote)" s]
  by (simp add: execute_line_def assms(4,7))

lemma delete_command:
  "\<exists>c. get_command ''delete'' = Some c \<and> c_scope c = parmscope_remote \<and> c_handler c = TV delete_fn \<and>
     min_args c = 1 \<and> max_args c = CMD_VARY \<and> needs_connection c \<and> c_id c = cmd_delete"
proof -
  define c where "c = the (find (\<lambda>c. c_name c = ''delete'') commands)"
  have c: "c \<in> set commands" "c_name c = ''delete'' \<and> c_scope c = parmscope_remote \<and> c_handler c = TV delete_fn \<and>
     min_args c = 1 \<and> max_args c = CMD_VARY \<and> needs_connection c \<and> c_id c = cmd_delete"
    unfolding c_def commands_def cmd_row_def by simp_all
  then have "get_command ''delete'' = Some c" using get_command_own_name [of c] by simp
  with c show ?thesis by blast
qed

text \<open>More names than the marker for any number of arguments are refused, with a message only.\<close>

lemma execute_delete_tokens:
  "reqs (snd (run_state (execute_tokens P ''delete'' names) s)) = reqs s \<or>
   reqs (snd (run_state (execute_tokens P ''delete'' names) s)) = reqs (snd (run_state (multi_delete (p_env P) names) s))"
proof -
  obtain c where c: "get_command ''delete'' = Some c" "c_handler c = TV delete_fn"
      "max_args c = CMD_VARY" "c_id c = cmd_delete"
    using delete_command by blast
  have "reqs (snd (run_state (say msg) s)) = reqs s" for msg
    by (simp add: say_def)
  then show ?thesis
    by (simp add: execute_tokens_def split_def c call_handler_def runV_def CMD_VARY_def Let_def)
qed

section \<open>Properties\<close>



end
