(* ===== verification/Tempname.thy ===== *)
theory Tempname
  imports Edit "HOL-Library.Word"
begin

text \<open>
  \<open>lib/tempname.c\<close> and \<open>lib/mkstemp.c\<close>: the names of temporary files, for the file the editor
  works on.  The file system, the clock and the process id are parameters; the static \<open>value\<close> is
  part of the world of the caller.
\<close>

unbundle bit_operations_syntax

section \<open>Names\<close>

datatype temp_errno = EEXIST | No_entry | EINVAL | Other_error

datatype gt_kind = GT_FILE | GT_BIGFILE | GT_DIR | GT_NOCREATE

text \<open>
  The calls: \<open>open\<close> with \<open>O_RDWR | O_CREAT | O_EXCL\<close> and \<open>mkdir\<close>; \<open>lstat\<close> gives no error when there
  is such a file; \<open>te_direxists\<close> is \<open>stat\<close> with \<open>S_ISDIR\<close>.
\<close>

record 'w temp_env =
  te_open :: "cstring \<Rightarrow> ('w, temp_errno + nat) state"
  te_open64 :: "cstring \<Rightarrow> ('w, temp_errno + nat) state"
  te_mkdir :: "cstring \<Rightarrow> ('w, temp_errno + nat) state"
  te_lstat :: "cstring \<Rightarrow> ('w, temp_errno option) state"
  te_direxists :: "cstring \<Rightarrow> 'w \<Rightarrow> bool"
  te_gettimeofday :: "'w \<Rightarrow> 64 word \<times> 64 word"
  te_getpid :: "64 word"
  te_value :: "'w \<Rightarrow> 64 word"
  te_set_value :: "64 word \<Rightarrow> 'w \<Rightarrow> 'w"
  te_TMPDIR :: "cstring option"
  te_P_tmpdir :: cstring
  te_TMP_MAX :: nat

definition letters :: cstring where
  "letters = ''abcdefghijklmnopqrstuvwxyzABCDEFGHIJKLMNOPQRSTUVWXYZ0123456789''"

text \<open>\<open>n\<close> letters for the lowest digits of \<open>v\<close> to the base 62.\<close>

fun random_letters :: "nat \<Rightarrow> 64 word \<Rightarrow> cstring" where
  "random_letters 0 v = []"
| "random_letters (Suc n) v = letters ! unat (v mod 62) # random_letters n (v div 62)"

text \<open>\<open>strstr (tmpl, "XXXXXX")\<close>: the place of the first occurrence.\<close>

fun strstr_XXXXXX :: "cstring \<Rightarrow> nat option" where
  "strstr_XXXXXX [] = None"
| "strstr_XXXXXX (c # cs) =
     (if take 6 (c # cs) = ''XXXXXX'' then Some 0 else map_option Suc (strstr_XXXXXX cs))"

definition fill_template :: "nat \<Rightarrow> 64 word \<Rightarrow> cstring \<Rightarrow> cstring" where
  "fill_template i v tmpl = take i tmpl @ random_letters 6 v @ drop (i + 6) tmpl"

definition attempts :: "'w temp_env \<Rightarrow> nat" where
  "attempts T = (let attempts_min = 62 * 62 * 62 in if attempts_min < te_TMP_MAX T then te_TMP_MAX T else attempts_min)"

text \<open>The loop, with the number of attempts left: the result and the template as it is then.\<close>

fun try_names :: "nat \<Rightarrow> 'w temp_env \<Rightarrow> gt_kind \<Rightarrow> nat \<Rightarrow> cstring \<Rightarrow> ('w, (temp_errno + nat) \<times> cstring) state" where
  "try_names 0 T kind i tmpl = State_Monad.return (Inl EEXIST, tmpl)"
| "try_names (Suc n) T kind i tmpl = do {
     v \<leftarrow> gets (te_value T);
     let tmpl = fill_template i v tmpl;
     let next_name = do {
       modify (\<lambda>w. te_set_value T (te_value T w + 7777) w);
       try_names n T kind i tmpl };
     let created = (\<lambda>r. case r of
         Inr fd \<Rightarrow> State_Monad.return (Inr fd, tmpl)
       | Inl e \<Rightarrow> if e = EEXIST then next_name else State_Monad.return (Inl e, tmpl));
     (case kind of
        GT_FILE \<Rightarrow> te_open T tmpl \<bind> created
      | GT_BIGFILE \<Rightarrow> te_open64 T tmpl \<bind> created
      | GT_DIR \<Rightarrow> te_mkdir T tmpl \<bind> created
      | GT_NOCREATE \<Rightarrow> te_lstat T tmpl \<bind> (\<lambda>r.
          case r of
            None \<Rightarrow> next_name
          | Some e \<Rightarrow> if e = No_entry then State_Monad.return (Inr 0, tmpl) else State_Monad.return (Inl e, tmpl))) }"

definition random_time_bits :: "'w temp_env \<Rightarrow> 'w \<Rightarrow> 64 word" where
  "random_time_bits T w = (case te_gettimeofday T w of (sec, usec) \<Rightarrow> push_bit 16 usec XOR sec)"

definition gen_tempname :: "'w temp_env \<Rightarrow> cstring \<Rightarrow> gt_kind \<Rightarrow> ('w, (temp_errno + nat) \<times> cstring) state" where
  "gen_tempname T tmpl kind =
     (case strstr_XXXXXX tmpl of
        None \<Rightarrow> State_Monad.return (Inl EINVAL, tmpl)
      | Some i \<Rightarrow> do {
          modify (\<lambda>w. te_set_value T (te_value T w + (random_time_bits T w XOR te_getpid T)) w);
          try_names (attempts T) T kind i tmpl })"

text \<open>\<open>cad_mkstemp\<close>, as the editor calls it: the descriptor, and the template overwritten.\<close>

definition cad_mkstemp :: "'w temp_env \<Rightarrow> cstring \<Rightarrow> 'w \<Rightarrow> (int option \<times> cstring) \<times> 'w" where
  "cad_mkstemp T tmpl w =
     (case run_state (gen_tempname T tmpl GT_FILE) w of
        ((Inl e, name), w') \<Rightarrow> ((None, name), w')
      | ((Inr fd, name), w') \<Rightarrow> ((Some (int fd), name), w'))"

text \<open>The template for a directory that exists; no directory or no room is an error.\<close>

definition path_search ::
  "'w temp_env \<Rightarrow> nat \<Rightarrow> cstring option \<Rightarrow> cstring option \<Rightarrow> bool \<Rightarrow> 'w \<Rightarrow> temp_errno + cstring" where
  "path_search T tmpl_len dir pfx try_tmpdir w =
     (let pfx = (case pfx of None \<Rightarrow> ''file'' | Some p \<Rightarrow> if p = [] then ''file'' else take 5 p);
          dir = (if try_tmpdir then
                   (case te_TMPDIR T of
                      Some d \<Rightarrow> if te_direxists T d w then Some d
                        else (case dir of Some d \<Rightarrow> if te_direxists T d w then Some d else None | None \<Rightarrow> None)
                    | None \<Rightarrow> (case dir of Some d \<Rightarrow> if te_direxists T d w then Some d else None | None \<Rightarrow> None))
                 else dir);
          dir = (case dir of
                   Some d \<Rightarrow> Some d
                 | None \<Rightarrow> if te_direxists T (te_P_tmpdir T) w then Some (te_P_tmpdir T)
                     else if te_P_tmpdir T \<noteq> ''/tmp'' \<and> te_direxists T ''/tmp'' w then Some ''/tmp'' else None)
      in case dir of
           None \<Rightarrow> Inl No_entry
         | Some d \<Rightarrow>
             let base = rev (dropWhile (\<lambda>c. c = slash) (rev (tl d)));
                 d = (case d of [] \<Rightarrow> [] | c # _ \<Rightarrow> c # base)
             in if tmpl_len < length d + 1 + length pfx + 6 + 1 then Inl EINVAL
                else Inr (d @ [slash] @ pfx @ ''XXXXXX''))"

section \<open>Lemmas\<close>

text \<open>
  What is documented of the file system: \<open>O_EXCL\<close> never opens a file that exists, and reports
  \<open>EEXIST\<close> only for one that does; the static variable is nobody else's.
\<close>

definition exclusive :: "'w temp_env \<Rightarrow> ('w \<Rightarrow> cstring set) \<Rightarrow> bool" where
  "exclusive T names \<longleftrightarrow>
     (\<forall>p w. case run_state (te_open T p) w of
        (Inr fd, w') \<Rightarrow> p \<notin> names w \<and> names w' = insert p (names w) \<and> te_value T w' = te_value T w
      | (Inl e, w') \<Rightarrow> (e = EEXIST \<longrightarrow> p \<in> names w) \<and> names w' = names w \<and> te_value T w' = te_value T w) \<and>
     (\<forall>v w. te_value T (te_set_value T v w) = v \<and> names (te_set_value T v w) = names w)"

definition temp_name :: "cstring \<Rightarrow> cstring \<Rightarrow> 64 word \<Rightarrow> cstring" where
  "temp_name pre post v = pre @ random_letters 6 v @ post"

lemma random_letters_length [simp]: "length (random_letters n v) = n"
  by (induction n arbitrary: v) auto

lemma letter_index: "unat (v mod 62 :: 64 word) = unat v mod 62" "unat (v div 62 :: 64 word) = unat v div 62"
  by (simp_all add: unat_mod unat_div)

lemma letters_distinct: "length letters = 62" "distinct letters"
  by (simp_all add: letters_def)

lemma random_letters_subset: "set (random_letters n v) \<subseteq> set letters"
proof (induction n arbitrary: v)
  case (Suc n)
  have "unat (v mod 62) < length letters" by (simp add: letter_index letters_distinct)
  with Suc show ?case by (auto simp del: unat_mod)
qed simp

text \<open>The letters tell the values apart, to the number of names there are.\<close>

lemma random_letters_inject:
  "random_letters n u = random_letters n v \<Longrightarrow> unat u mod 62 ^ n = unat v mod 62 ^ n"
proof (induction n arbitrary: u v)
  case (Suc n)
  then have "letters ! (unat u mod 62) = letters ! (unat v mod 62)" by (simp add: letter_index)
  then have low: "unat u mod 62 = unat v mod 62"
    using letters_distinct by (simp add: nth_eq_iff_index_eq)
  have "(unat u div 62) mod 62 ^ n = (unat v div 62) mod 62 ^ n"
    using Suc.IH [of "u div 62" "v div 62"] Suc.prems by (simp add: letter_index)
  with low show ?case by (simp add: mod_mult2_eq)
qed simp

lemma steps_differ:
  fixes a d :: nat
  assumes "0 < d" "d < 238328" "a < 2 ^ 64"
  shows "(a + 7777 * d) mod 2 ^ 64 mod 62 ^ 6 \<noteq> a mod 62 ^ 6"
proof
  assume eq: "(a + 7777 * d) mod 2 ^ 64 mod 62 ^ 6 = a mod 62 ^ 6"
  have small: "7777 * d < 62 ^ 6" using assms(2) by simp
  show False
  proof (cases "a + 7777 * d < 2 ^ 64")
    case True
    with eq have "(a + 7777 * d) mod 62 ^ 6 = a mod 62 ^ 6" by simp
    then have "62 ^ 6 dvd 7777 * d" by (simp add: mod_eq_dvd_iff_nat)
    with small assms(1) show False by (auto dest: dvd_imp_le)
  next
    case False
    define b where "b = a + 7777 * d - 2 ^ 64"
    have "(a + 7777 * d) mod 2 ^ 64 = b"
      using False small assms(3) by (simp add: b_def mod_if)
    with eq have "a mod 62 ^ 6 = b mod 62 ^ 6" by simp
    moreover have "b \<le> a" "a - b = 2 ^ 64 - 7777 * d" using False small by (simp_all add: b_def)
    ultimately have "62 ^ 6 dvd (2 ^ 64 - 7777 * d :: nat)" using mod_eq_dvd_iff_nat by metis
    then have "(2 ^ 64 :: nat) mod 62 ^ 6 = 7777 * d mod 62 ^ 6"
      using small by (subst mod_eq_dvd_iff_nat) simp_all
    with small have "7777 * d = 1007241600" by simp
    then have "(7777 * d) mod 7777 = 1007241600 mod (7777 :: nat)" by (rule arg_cong)
    then show False by simp
  qed
qed

lemma attempts_differ:
  fixes v :: "64 word"
  assumes "random_letters 6 (v + 7777 * of_nat j) = random_letters 6 (v + 7777 * of_nat k)" "j < 238328" "k < 238328"
  shows "j = k"
proof -
  have False if "j < k" "k < 238328" "random_letters 6 (v + 7777 * of_nat j) = random_letters 6 (v + 7777 * of_nat k)" for j k
  proof -
    define a where "a = unat (v + 7777 * of_nat j)"
    have "v + 7777 * of_nat k = (v + 7777 * of_nat j) + of_nat (7777 * (k - j))"
      using that(1) by (simp add: of_nat_diff algebra_simps)
    then have "unat (v + 7777 * of_nat k) = (a + 7777 * (k - j)) mod 2 ^ 64"
      by (simp add: a_def unat_word_ariths unat_of_nat mod_simps add.assoc del: of_nat_mult of_nat_diff)
    with random_letters_inject [OF that(3)] have "(a + 7777 * (k - j)) mod 2 ^ 64 mod 62 ^ 6 = a mod 62 ^ 6"
      by (simp add: a_def)
    moreover have "a < 2 ^ 64" unfolding a_def using unsigned_less [of "v + 7777 * of_nat j"] by simp
    moreover have "0 < k - j" "k - j < 238328" using that(1,2) by simp_all
    ultimately show False using steps_differ [of "k - j" a] by blast
  qed
  from this [of j k] this [of k j] assms show ?thesis by (metis linorder_neqE_nat)
qed
lemma try_names_result:
  assumes "exclusive T names"
  shows "length six = 6 \<Longrightarrow> (case run_state (try_names n T GT_FILE (length pre) (pre @ six @ post)) w of
      ((Inr fd, name), w') \<Rightarrow> (\<exists>k<n. name = temp_name pre post (te_value T w + 7777 * of_nat k)) \<and>
        name \<notin> names w \<and> names w' = insert name (names w)
    | ((Inl e, name), w') \<Rightarrow> names w' = names w \<and>
        (e = EEXIST \<longrightarrow> (\<forall>k<n. temp_name pre post (te_value T w + 7777 * of_nat k) \<in> names w)))"
proof (induction n arbitrary: six w)
  case (Suc n)
  define name where "name = temp_name pre post (te_value T w)"
  have name: "fill_template (length pre) (te_value T w) (pre @ six @ post) = name"
    using Suc.prems by (simp add: fill_template_def name_def temp_name_def)
  obtain r w1 where r: "run_state (te_open T name) w = (r, w1)" by (cases "run_state (te_open T name) w")
  have "case run_state (te_open T name) w of
      (Inr fd, w') \<Rightarrow> name \<notin> names w \<and> names w' = insert name (names w) \<and> te_value T w' = te_value T w
    | (Inl e, w') \<Rightarrow> (e = EEXIST \<longrightarrow> name \<in> names w) \<and> names w' = names w \<and> te_value T w' = te_value T w"
    by (rule conjunct1 [OF assms [unfolded exclusive_def], rule_format])
  with r have x: "case r of Inr fd \<Rightarrow> name \<notin> names w \<and> names w1 = insert name (names w)
      | Inl e \<Rightarrow> (e = EEXIST \<longrightarrow> name \<in> names w) \<and> names w1 = names w" "te_value T w1 = te_value T w"
    by (auto split: sum.splits)
  show ?case
  proof (cases "r = Inl EEXIST")
    case False
    with r x name show ?thesis by (cases r) (auto simp: name_def Let_def intro!: exI [of _ 0])
  next
    case True
    define w2 where "w2 = te_set_value T (te_value T w + 7777) w1"
    have w2: "names w2 = names w" "te_value T w2 = te_value T w + 7777"
      using assms x True by (simp_all add: exclusive_def w2_def)
    have step: "run_state (try_names (Suc n) T GT_FILE (length pre) (pre @ six @ post)) w =
        run_state (try_names n T GT_FILE (length pre) (pre @ random_letters 6 (te_value T w) @ post)) w2"
      using r name True x(2) by (simp add: w2_def name_def temp_name_def Let_def)
    have shift: "te_value T w + 7777 + 7777 * of_nat k = te_value T w + 7777 * of_nat (Suc k)" for k
      by (simp add: algebra_simps)
    have all: "(\<forall>k<Suc n. P k) \<longleftrightarrow> P 0 \<and> (\<forall>k<n. P (Suc k))" for P by (metis less_Suc_eq_0_disj)
    have exist: "(\<exists>k<Suc n. P k) \<longleftrightarrow> P 0 \<or> (\<exists>k<n. P (Suc k))" for P by (metis less_Suc_eq_0_disj)
    show ?thesis
      using Suc.IH [of "random_letters 6 (te_value T w)" w2] x(1) True
      unfolding step w2 shift all exist by (auto simp: name_def split: prod.splits sum.splits)
  qed
qed simp

text \<open>All that a template can become.\<close>

definition temp_names :: "cstring \<Rightarrow> cstring \<Rightarrow> cstring set" where
  "temp_names pre post = {pre @ six @ post |six. length six = 6 \<and> set six \<subseteq> set letters}"

lemma finite_temp_names: "finite (temp_names pre post)"
proof -
  have "temp_names pre post = (\<lambda>six. pre @ six @ post) ` {six. set six \<subseteq> set letters \<and> length six = 6}"
    by (auto simp: temp_names_def)
  then show ?thesis by (simp add: finite_lists_length_eq)
qed

lemma temp_name_member: "temp_name pre post v \<in> temp_names pre post"
  using random_letters_subset by (fastforce simp: temp_name_def temp_names_def)

text \<open>The first 238328 names tried are as many different ones.\<close>

lemma names_exhausted:
  assumes "\<forall>k<n. temp_name pre post (v + 7777 * of_nat k) \<in> F" "238328 \<le> n"
  shows "238328 \<le> card (F \<inter> temp_names pre post)"
proof -
  let ?f = "\<lambda>k. temp_name pre post (v + 7777 * of_nat k)"
  have "inj_on ?f {..<238328}"
    using attempts_differ by (auto intro!: inj_onI simp: temp_name_def)
  then have "card (?f ` {..<238328}) = 238328" by (simp add: card_image)
  moreover have "?f ` {..<238328} \<subseteq> F \<inter> temp_names pre post"
    using assms temp_name_member by auto
  ultimately show ?thesis
    using card_mono [of "F \<inter> temp_names pre post" "?f ` {..<238328}"] finite_temp_names by simp
qed
lemma attempts_enough: "238328 \<le> attempts T"
  by (simp add: attempts_def Let_def)

lemma gen_tempname_result:
  assumes "exclusive T names" "strstr_XXXXXX (pre @ ''XXXXXX'' @ post) = Some (length pre)"
  shows "case run_state (gen_tempname T (pre @ ''XXXXXX'' @ post) GT_FILE) w of
      ((Inr fd, name), w') \<Rightarrow> name \<in> temp_names pre post \<and> name \<notin> names w \<and> names w' = insert name (names w)
    | ((Inl e, name), w') \<Rightarrow> names w' = names w \<and>
        (e = EEXIST \<longrightarrow> 238328 \<le> card (names w \<inter> temp_names pre post))"
proof -
  define w1 where "w1 = te_set_value T (te_value T w + (random_time_bits T w XOR te_getpid T)) w"
  have w1: "names w1 = names w" using assms(1) by (simp add: exclusive_def w1_def)
  have run: "run_state (gen_tempname T (pre @ ''XXXXXX'' @ post) GT_FILE) w =
      run_state (try_names (attempts T) T GT_FILE (length pre) (pre @ ''XXXXXX'' @ post)) w1"
    using assms(2) by (simp add: gen_tempname_def w1_def)
  show ?thesis
    using try_names_result [where six = "''XXXXXX''" and n = "attempts T" and pre = pre and post = post and w = w1, OF assms(1)]
      names_exhausted [OF _ attempts_enough, of T pre post "te_value T w1" "names w"] temp_name_member
    unfolding run w1 by (fastforce split: prod.splits sum.splits)
qed

lemma template_place: "strstr_XXXXXX (TMP_PREFIX @ ext) = Some (length ''/tmp/cadaver-edit-'')"
  by (simp add: TMP_PREFIX_def)

text \<open>A file system as a list of names, with the static variable.\<close>

definition list_files :: "(cstring list \<times> 64 word) temp_env" where
  "list_files =
     (let create = (\<lambda>p. State (\<lambda>(fs, v). if p \<in> set fs then (Inl EEXIST, (fs, v)) else (Inr 3, (p # fs, v))))
      in \<lparr>te_open = create, te_open64 = create, te_mkdir = create,
          te_lstat = (\<lambda>p. State (\<lambda>(fs, v). (if p \<in> set fs then None else Some No_entry, (fs, v)))),
          te_direxists = (\<lambda>d w. d = ''/tmp''), te_gettimeofday = (\<lambda>w. (1700000000, 250000)), te_getpid = 4711,
          te_value = snd, te_set_value = (\<lambda>v w. (fst w, v)), te_TMPDIR = None, te_P_tmpdir = ''/tmp'',
          te_TMP_MAX = 238328\<rparr>)"

lemma list_files_exclusive: "exclusive list_files (\<lambda>w. set (fst w))"
  by (auto simp: exclusive_def list_files_def Let_def split: prod.splits)

section \<open>Properties\<close>

text \<open>C11: The file that the editor is given did not exist before: its name is the template of \<open>edit\<close>
  with six letters in place of the Xs and the extension of the remote path behind them, and the file
  is the only change.  Without a file nothing is changed, and \<open>EEXIST\<close> is only reported when at least
  62 * 62 * 62 files with such names are there: the names tried are all different, also when the
  64 bit counter wraps around.\<close>

theorem edit_file_is_new:
  assumes "exclusive T names"
  shows "case cad_mkstemp T (TMP_PREFIX @ edit_extension uri_path) w of
      ((Some fd, name), w') \<Rightarrow> name \<in> temp_names ''/tmp/cadaver-edit-'' (edit_extension uri_path) \<and>
        name \<notin> names w \<and> names w' = insert name (names w)
    | ((None, name), w') \<Rightarrow> names w' = names w \<and>
        (fst (fst (run_state (gen_tempname T (TMP_PREFIX @ edit_extension uri_path) GT_FILE) w)) = Inl EEXIST \<longrightarrow>
          62 ^ 3 \<le> card (names w \<inter> temp_names ''/tmp/cadaver-edit-'' (edit_extension uri_path)))"
proof -
  have tmpl: "TMP_PREFIX @ ext = ''/tmp/cadaver-edit-'' @ ''XXXXXX'' @ ext" for ext by (simp add: TMP_PREFIX_def)
  show ?thesis
    using gen_tempname_result [where pre = "''/tmp/cadaver-edit-''" and post = "edit_extension uri_path" and w = w, OF assms]
      template_place [of "edit_extension uri_path"]
    unfolding cad_mkstemp_def tmpl by (auto split: prod.splits sum.splits)
qed

text \<open>With one file there, another one is made.\<close>

theorem edit_file_is_new_witness:
  "case cad_mkstemp list_files (TMP_PREFIX @ edit_extension ''/d/a.txt'') ([''/tmp/cadaver-edit-aaaaaa.txt''], 0) of
     ((Some fd, name), w') \<Rightarrow> name \<in> temp_names ''/tmp/cadaver-edit-'' ''.txt'' \<and>
       name \<notin> {''/tmp/cadaver-edit-aaaaaa.txt''} \<and> set (fst w') = {name, ''/tmp/cadaver-edit-aaaaaa.txt''}
   | ((None, name), w') \<Rightarrow> set (fst w') = {''/tmp/cadaver-edit-aaaaaa.txt''} \<and>
       (fst (fst (run_state (gen_tempname list_files (TMP_PREFIX @ edit_extension ''/d/a.txt'') GT_FILE)
           ([''/tmp/cadaver-edit-aaaaaa.txt''], 0))) = Inl EEXIST \<longrightarrow>
         62 ^ 3 \<le> card ({''/tmp/cadaver-edit-aaaaaa.txt''} \<inter> temp_names ''/tmp/cadaver-edit-'' ''.txt''))"
proof -
  have ext: "edit_extension ''/d/a.txt'' = ''.txt''" by code_simp
  have names: "set (fst ([f], v)) = {f}" for f :: cstring and v :: "64 word" by simp
  show ?thesis
    using edit_file_is_new [where uri_path = "''/d/a.txt''" and w =
        "([''/tmp/cadaver-edit-aaaaaa.txt''], 0)", OF list_files_exclusive]
    unfolding ext names by blast
qed

end
