(* ===== verification/Getpass.thy ===== *)
theory Getpass
  imports Cprelude "HOL-Library.Word"
begin

text \<open>
  \<open>lib/getpass.c\<close>: a password is read from the terminal with the echo turned off (the variant with
  \<open>tcsetattr\<close>).  The terminal keeps its local flags, \<open>ECHO\<close> is a mask in them; what is typed is a
  list of keys and interrupts.  Without a terminal an interrupt is left to the handler that was
  there, which ends the program.
\<close>

unbundle bit_operations_syntax

section \<open>The terminal\<close>

datatype key = Key char | Interrupt

datatype disposition = Previous nat | Getpass_handler

text \<open>The last fields are the static variables \<open>termb\<close> (its flags) and \<open>flags\<close>.\<close>

record terminal =
  tty_lflag :: "32 word"
  tty_keys :: "key list"
  stdin_keys :: "key list"
  sigint :: disposition
  tty_stderr :: string
  termb_lflag :: "32 word"
  saved_flags :: "32 word"

definition PASSWORDLEN :: nat where
  "PASSWORDLEN = 256"

definition save_tty_state :: "terminal \<Rightarrow> terminal" where
  "save_tty_state t = t\<lparr>termb_lflag := tty_lflag t, saved_flags := tty_lflag t\<rparr>"

definition disable_tty_echo :: "32 word \<Rightarrow> terminal \<Rightarrow> terminal" where
  "disable_tty_echo ECHO t =
     (let lflag = termb_lflag t AND NOT ECHO in t\<lparr>termb_lflag := lflag, tty_lflag := lflag\<rparr>)"

definition restore_tty_state :: "terminal \<Rightarrow> terminal" where
  "restore_tty_state t = t\<lparr>termb_lflag := saved_flags t, tty_lflag := saved_flags t\<rparr>"

definition sigint_handler :: "terminal \<Rightarrow> terminal" where
  "sigint_handler t =
     (let t = restore_tty_state t
      in t\<lparr>tty_stderr := tty_stderr t @ ''\<newline>Caught SIGINT... bailing out.\<newline>''\<rparr>)"

section \<open>Reading\<close>

datatype typed = Line cstring | End_of_file | Interrupted

text \<open>The loop: what fits into the buffer is kept, the rest of the line is dropped.\<close>

fun read_password :: "cstring \<Rightarrow> key list \<Rightarrow> typed \<times> key list" where
  "read_password pbuf [] = (End_of_file, [])"
| "read_password pbuf (Interrupt # keys) = (Interrupted, keys)"
| "read_password pbuf (Key c # keys) =
     (if c = CHR 0x0A then (Line pbuf, keys)
      else read_password (if length pbuf < PASSWORDLEN - 1 then pbuf @ [c] else pbuf) keys)"

text \<open>The terminal while the keys are read.\<close>

definition begin_reading :: "32 word \<Rightarrow> bool \<Rightarrow> string \<Rightarrow> terminal \<Rightarrow> terminal" where
  "begin_reading ECHO istty prompt t =
     (if istty then
        let t = save_tty_state t;
            t = t\<lparr>sigint := Getpass_handler\<rparr>;
            t = disable_tty_echo ECHO t
        in t\<lparr>tty_stderr := tty_stderr t @ prompt\<rparr>
      else t)"

definition take_keys :: "bool \<Rightarrow> terminal \<Rightarrow> typed \<times> terminal" where
  "take_keys from_tty t =
     (case read_password [] (if from_tty then tty_keys t else stdin_keys t) of
        (r, keys) \<Rightarrow> (r, if from_tty then t\<lparr>tty_keys := keys\<rparr> else t\<lparr>stdin_keys := keys\<rparr>))"

text \<open>
  No result when the program ends.  \<open>opens\<close> is whether \<open>/dev/tty\<close> can be opened; the password is a
  C string, which ends at a NUL that was typed.
\<close>

definition fm_getpassword ::
  "32 word \<Rightarrow> bool \<Rightarrow> bool \<Rightarrow> string \<Rightarrow> terminal \<Rightarrow> cstring option option \<times> terminal" where
  "fm_getpassword ECHO istty opens prompt t =
     (let from_tty = (istty \<and> opens); sig = sigint t
      in case take_keys from_tty (begin_reading ECHO istty prompt t) of
           (Interrupted, t) \<Rightarrow> (None, if istty then sigint_handler t else t)
         | (r, t) \<Rightarrow>
             let ret = (case r of Line pbuf \<Rightarrow> Some (takeWhile (\<lambda>c. c \<noteq> CHR 0x00) pbuf) | _ \<Rightarrow> None);
                 t = (if from_tty then t\<lparr>tty_stderr := tty_stderr t @ ''\<newline>''\<rparr> else t);
                 t = (if istty then (restore_tty_state t)\<lparr>sigint := sig\<rparr> else t)
             in (Some ret, t))"

section \<open>Lemmas\<close>

lemma read_password_line:
  "CHR 0x0A \<notin> set line \<Longrightarrow> length pbuf < PASSWORDLEN \<Longrightarrow>
     read_password pbuf (map Key line @ Key (CHR 0x0A) # keys) = (Line (pbuf @ take (PASSWORDLEN - 1 - length pbuf) line), keys)"
proof (induction line arbitrary: pbuf)
  case (Cons c line)
  show ?case
  proof (cases "length pbuf < PASSWORDLEN - 1")
    case True
    then have "Suc (length pbuf) < PASSWORDLEN" by simp
    with Cons.IH [of "pbuf @ [c]"] Cons.prems True show ?thesis
      by (auto simp add: take_Cons' Suc_diff_Suc)
  next
    case False
    with Cons.prems Cons.IH [of pbuf] show ?thesis by auto
  qed
qed simp

lemma read_password_bound:
  "read_password pbuf keys = (Line p, keys') \<Longrightarrow> length pbuf < PASSWORDLEN \<Longrightarrow> length p < PASSWORDLEN"
  by (induction pbuf keys rule: read_password.induct) (auto simp: PASSWORDLEN_def split: if_splits)

lemma take_keys_fields:
  assumes "take_keys from_tty t = (r, t')"
  shows "tty_lflag t' = tty_lflag t" "saved_flags t' = saved_flags t" "sigint t' = sigint t"
  using assms by (auto simp: take_keys_def split: prod.splits if_splits)

lemma take_keys_bound: "take_keys from_tty t = (Line p, t') \<Longrightarrow> length p < PASSWORDLEN"
  by (auto simp: take_keys_def PASSWORDLEN_def split: prod.splits dest!: read_password_bound)

lemma begin_reading_fields:
  "saved_flags (begin_reading ECHO True prompt t) = tty_lflag t"
  "tty_lflag (begin_reading ECHO True prompt t) AND ECHO = 0"
  "begin_reading ECHO False prompt t = t"
  by (simp_all add: begin_reading_def save_tty_state_def disable_tty_echo_def Let_def and.assoc)

lemmas terminal_defs = fm_getpassword_def sigint_handler_def restore_tty_state_def Let_def

text \<open>
  A line comes back without what is beyond 255 bytes, of which nobody is told: the check for a
  longer password in \<open>supply_creds\<close> never fires.
\<close>

lemma password_truncated:
  assumes "CHR 0x0A \<notin> set line" "CHR 0x00 \<notin> set line" "tty_keys t = map Key line @ Key (CHR 0x0A) # keys"
  shows "fst (fm_getpassword ECHO True True prompt t) = Some (Some (take 255 line))"
proof -
  have "read_password [] (tty_keys t) = (Line (take 255 line), keys)"
    using read_password_line [of line "[]" keys] assms by (simp add: PASSWORDLEN_def)
  moreover have "tty_keys (begin_reading ECHO True prompt t) = tty_keys t"
    by (simp add: begin_reading_def save_tty_state_def disable_tty_echo_def Let_def)
  moreover have "takeWhile (\<lambda>c. c \<noteq> CHR 0x00) (take 255 line) = take 255 line"
    using assms(2) by (auto simp: takeWhile_eq_all_conv dest: in_set_takeD)
  ultimately show ?thesis by (simp add: terminal_defs take_keys_def)
qed

section \<open>Properties\<close>

text \<open>C39: Whatever is typed, an interrupt among it: while the password is read from a terminal it is
  not echoed, and afterwards, whether the call returns or the program ends, the terminal has the
  flags it had before.  When the call returns, so has the interrupt its handler, and the password
  fits into 256 bytes.\<close>

theorem password_restores_terminal:
  "(istty \<longrightarrow> tty_lflag (begin_reading ECHO istty prompt t) AND ECHO = 0) \<and>
   (case fm_getpassword ECHO istty opens prompt t of
      (None, t') \<Rightarrow> tty_lflag t' = tty_lflag t
    | (Some ret, t') \<Rightarrow> tty_lflag t' = tty_lflag t \<and> sigint t' = sigint t \<and>
        (case ret of None \<Rightarrow> True | Some p \<Rightarrow> length p < PASSWORDLEN))"
proof -
  obtain r u where u: "take_keys (istty \<and> opens) (begin_reading ECHO istty prompt t) = (r, u)"
    by (cases "take_keys (istty \<and> opens) (begin_reading ECHO istty prompt t)")
  note fields = take_keys_fields [OF u]
  have "length (takeWhile P p) < PASSWORDLEN" if "r = Line p" for P p
    using take_keys_bound u that length_takeWhile_le [of P p] by (metis le_less_trans)
  with u fields begin_reading_fields [of ECHO prompt t] show ?thesis
    by (cases istty; cases r) (simp_all add: terminal_defs)
qed

text \<open>A password and an interrupt in the middle of one; 8 is \<open>ECHO\<close>.\<close>

definition sample_terminal :: "key list \<Rightarrow> terminal" where
  "sample_terminal keys =
     \<lparr>tty_lflag = 0x8A3B, tty_keys = keys, stdin_keys = [], sigint = Previous 0, tty_stderr = [],
      termb_lflag = 0, saved_flags = 0\<rparr>"

theorem password_restores_terminal_witness:
  "tty_lflag (begin_reading 8 True ''Password: '' (sample_terminal [])) = 0x8A33 \<and>
   (let (r, t) = fm_getpassword 8 True True ''Password: '' (sample_terminal (map Key ''secret\<newline>'' @ [Interrupt]))
    in r = Some (Some ''secret'') \<and> tty_lflag t = 0x8A3B \<and> sigint t = Previous 0 \<and> tty_keys t = [Interrupt]) \<and>
   (let (r, t) = fm_getpassword 8 True True ''Password: '' (sample_terminal (map Key ''sec'' @ [Interrupt]))
    in r = None \<and> tty_lflag t = 0x8A3B)"
proof -
  let ?t1 = "sample_terminal (map Key ''secret\<newline>'' @ [Interrupt])" and ?t2 = "sample_terminal (map Key ''sec'' @ [Interrupt])"
  have r1: "fst (fm_getpassword 8 True True ''Password: '' ?t1) = Some (Some ''secret'')"
    and k1: "tty_keys (snd (fm_getpassword 8 True True ''Password: '' ?t1)) = [Interrupt]"
    and r2: "fst (fm_getpassword 8 True True ''Password: '' ?t2) = None"
    and off: "tty_lflag (begin_reading 8 True ''Password: '' (sample_terminal [])) = 0x8A33"
    by code_simp+
  have "tty_lflag ?t1 = 0x8A3B" "tty_lflag ?t2 = 0x8A3B" "sigint ?t1 = Previous 0"
    by (simp_all add: sample_terminal_def)
  with password_restores_terminal [of True 8 "''Password: ''" ?t1 True] r1 k1 r2 off
    password_restores_terminal [of True 8 "''Password: ''" ?t2 True]
  show ?thesis by (auto simp del: map_append split: prod.splits)
qed

end
