(* ===== verification/Getopt.thy ===== *)
theory Getopt
  imports Cprelude "HOL-Library.Multiset"
begin

text \<open>
  \<open>lib/getopt.c\<close> and \<open>lib/getopt1.c\<close>: the option parser of the GNU C library that cadaver brings
  with it.  The global and static variables are the fields of a record, \<open>argv\<close> among them, since
  the parser permutes it; \<open>argv[argc]\<close> is NULL.  A call returns \<open>None\<close> when it reads through NULL
  or behind \<open>argv\<close>.
  The text of an element does not change, so that \<open>nextchar\<close> is the rest of the element.  What
  is for the GNU C library alone (\<open>_LIBC\<close>) is left out.
\<close>

section \<open>Data\<close>

datatype go_ordering = REQUIRE_ORDER | PERMUTE | RETURN_IN_ORDER

text \<open>\<open>struct option\<close>; a flag is the name of an \<open>int\<close> variable of the caller.\<close>

record long_option =
  lo_name :: cstring
  lo_has_arg :: nat
  lo_flag :: "string option"
  lo_val :: int

record getopt_state =
  go_argv :: "cstring list"
  optarg :: "cstring option"
  optind :: nat
  getopt_initialized :: bool
  nextchar :: "cstring option"
  opterr :: bool
  optopt :: int
  ordering_of :: go_ordering
  posixly_correct :: "cstring option"
  first_nonopt :: nat
  last_nonopt :: nat
  longind :: "nat option"
  go_flags :: "(string \<times> int) list"
  go_stderr :: string

definition getopt_statics :: "cstring list \<Rightarrow> getopt_state" where
  "getopt_statics argv =
     \<lparr>go_argv = argv, optarg = None, optind = 1, getopt_initialized = False, nextchar = None,
      opterr = True, optopt = 63, ordering_of = REQUIRE_ORDER, posixly_correct = None,
      first_nonopt = 0, last_nonopt = 0, longind = None, go_flags = [], go_stderr = []\<rparr>"

abbreviation argc :: "getopt_state \<Rightarrow> nat" where
  "argc st \<equiv> length (go_argv st)"

definition elem_at :: "getopt_state \<Rightarrow> nat \<Rightarrow> cstring option" where
  "elem_at st i = (if i < argc st then Some (go_argv st ! i) else None)"

text \<open>A character of a string, the terminator for the place after the last.\<close>

definition char_at :: "cstring \<Rightarrow> nat \<Rightarrow> char" where
  "char_at s i = (if i < length s then s ! i else CHR 0x00)"

definition char_int :: "char \<Rightarrow> int" where
  "char_int c = signed_take_bit 7 (int (code c))"

definition QUESTION :: int where
  "QUESTION = 63"

definition COLON :: int where
  "COLON = 58"

definition complain :: "string \<Rightarrow> getopt_state \<Rightarrow> getopt_state" where
  "complain msg st =
     (if opterr st then st\<lparr>go_stderr := go_stderr st @ str_or_null (elem_at st 0) @ '': '' @ msg @ ''\<newline>''\<rparr> else st)"

section \<open>Permutation\<close>

text \<open>One pass of an inner loop of \<open>exchange\<close>: \<open>n\<close> elements from \<open>a\<close> on against those from \<open>b\<close> on.\<close>

fun swap_range :: "nat \<Rightarrow> nat \<Rightarrow> nat \<Rightarrow> 'a list \<Rightarrow> 'a list" where
  "swap_range a b 0 argv = argv"
| "swap_range a b (Suc n) argv =
     (let tem = argv ! a; argv1 = argv[a := argv ! b]; argv2 = argv1[b := tem]
      in swap_range (Suc a) (Suc b) n argv2)"

function exchange_loop :: "nat \<Rightarrow> nat \<Rightarrow> nat \<Rightarrow> 'a list \<Rightarrow> 'a list" where
  "exchange_loop bottom middle upper argv =
     (if upper > middle \<and> middle > bottom then
        if upper - middle > middle - bottom then
          let len = middle - bottom
          in exchange_loop bottom middle (upper - len) (swap_range bottom (upper - len) len argv)
        else
          let len = upper - middle
          in exchange_loop (bottom + len) middle upper (swap_range bottom middle len argv)
      else argv)"
  by pat_completeness auto
termination by (relation "measure (\<lambda>(b, m, t, xs). t - b)") auto

declare exchange_loop.simps [simp del]

definition exchange :: "getopt_state \<Rightarrow> getopt_state" where
  "exchange st =
     st\<lparr>go_argv := exchange_loop (first_nonopt st) (last_nonopt st) (optind st) (go_argv st),
        first_nonopt := first_nonopt st + (optind st - last_nonopt st),
        last_nonopt := optind st\<rparr>"

section \<open>A call of \<open>getopt\<close>\<close>

definition getopt_initialize :: "cstring option \<Rightarrow> cstring \<Rightarrow> getopt_state \<Rightarrow> cstring \<times> getopt_state" where
  "getopt_initialize env_posixly optstring st =
     (let st = st\<lparr>first_nonopt := optind st, last_nonopt := optind st, nextchar := None,
                  posixly_correct := env_posixly\<rparr>
      in if char_at optstring 0 = CHR ''-'' then (tl optstring, st\<lparr>ordering_of := RETURN_IN_ORDER\<rparr>)
         else if char_at optstring 0 = CHR ''+'' then (tl optstring, st\<lparr>ordering_of := REQUIRE_ORDER\<rparr>)
         else if env_posixly \<noteq> None then (optstring, st\<lparr>ordering_of := REQUIRE_ORDER\<rparr>)
         else (optstring, st\<lparr>ordering_of := PERMUTE\<rparr>))"

definition nonoption :: "cstring \<Rightarrow> bool" where
  "nonoption s \<longleftrightarrow> char_at s 0 \<noteq> CHR ''-'' \<or> char_at s 1 = CHR 0x00"

text \<open>The index of the first element from \<open>i\<close> on that has option syntax.\<close>

definition skip_nonoptions :: "cstring list \<Rightarrow> nat \<Rightarrow> nat" where
  "skip_nonoptions argv i = i + length (takeWhile nonoption (drop i argv))"

text \<open>
  To the next element: the result of the call when there is none, or the state in which
  \<open>nextchar\<close> is the option element without its punctuation.
\<close>

definition permute_step :: "getopt_state \<Rightarrow> getopt_state" where
  "permute_step st =
     (if ordering_of st = PERMUTE then
        let st = (if first_nonopt st \<noteq> last_nonopt st \<and> last_nonopt st \<noteq> optind st then exchange st
                  else if last_nonopt st \<noteq> optind st then st\<lparr>first_nonopt := optind st\<rparr>
                  else st);
            i = skip_nonoptions (go_argv st) (optind st)
        in st\<lparr>optind := i, last_nonopt := i\<rparr>
      else st)"

definition dash_dash :: "getopt_state \<Rightarrow> getopt_state" where
  "dash_dash st =
     (if elem_at st (optind st) = Some ''--'' then
        let st = st\<lparr>optind := Suc (optind st)\<rparr>;
            st = (if first_nonopt st \<noteq> last_nonopt st \<and> last_nonopt st \<noteq> optind st then exchange st
                  else if first_nonopt st = last_nonopt st then st\<lparr>first_nonopt := optind st\<rparr>
                  else st)
        in st\<lparr>last_nonopt := argc st, optind := argc st\<rparr>
      else st)"

definition next_element :: "bool \<Rightarrow> getopt_state \<Rightarrow> ((int \<times> getopt_state) + getopt_state) option" where
  "next_element has_longopts st =
     (let st = (if last_nonopt st > optind st then st\<lparr>last_nonopt := optind st\<rparr> else st);
          st = (if first_nonopt st > optind st then st\<lparr>first_nonopt := optind st\<rparr> else st);
          st = dash_dash (permute_step st)
      in if optind st > argc st then None
         else if optind st = argc st then
           Some (Inl (-1, if first_nonopt st \<noteq> last_nonopt st then st\<lparr>optind := first_nonopt st\<rparr> else st))
         else
           case elem_at st (optind st) of
             None \<Rightarrow> None
           | Some s \<Rightarrow>
               if nonoption s then
                 if ordering_of st = REQUIRE_ORDER then Some (Inl (-1, st))
                 else Some (Inl (1, st\<lparr>optarg := Some s, optind := Suc (optind st)\<rparr>))
               else
                 Some (Inr (st\<lparr>nextchar :=
                   Some (drop (1 + (if has_longopts \<and> char_at s 1 = CHR ''-'' then 1 else 0)) s)\<rparr>)))"

text \<open>
  The search for a long option by its name or an abbreviation of it: what was found, with its
  index, whether the match is exact, and whether there were several.
\<close>

definition long_name :: "cstring \<Rightarrow> cstring" where
  "long_name s = takeWhile (\<lambda>c. c \<noteq> CHR ''='') s"

definition name_end :: "cstring \<Rightarrow> cstring" where
  "name_end s = dropWhile (\<lambda>c. c \<noteq> CHR ''='') s"

fun find_long :: "cstring \<Rightarrow> nat \<Rightarrow> (long_option \<times> nat) option \<Rightarrow> bool \<Rightarrow> long_option list
    \<Rightarrow> (long_option \<times> nat) option \<times> bool \<times> bool" where
  "find_long name index pfound ambig [] = (pfound, False, ambig)"
| "find_long name index pfound ambig (p # ps) =
     (if take (length name) (lo_name p) = name then
        if length name = length (lo_name p) then (Some (p, index), True, ambig)
        else if pfound = None then find_long name (Suc index) (Some (p, index)) ambig ps
        else find_long name (Suc index) pfound True ps
      else find_long name (Suc index) pfound ambig ps)"

definition quoted_name :: "string \<Rightarrow> string" where
  "quoted_name s = ''`'' @ s @ [CHR 0x27]"

definition missing_argument :: "cstring \<Rightarrow> int" where
  "missing_argument optstring = (if char_at optstring 0 = CHR '':'' then COLON else QUESTION)"

text \<open>What follows when a long option was found: the index, the flag, and its value or 0.\<close>

definition long_found :: "long_option \<times> nat \<Rightarrow> getopt_state \<Rightarrow> int \<times> getopt_state" where
  "long_found found st = (case found of (p, index) \<Rightarrow>
     let st = st\<lparr>nextchar := Some [], longind := map_option (\<lambda>_. index) (longind st)\<rparr>
     in case lo_flag p of
          Some f \<Rightarrow> (0, st\<lparr>go_flags := (f, lo_val p) # go_flags st\<rparr>)
        | None \<Rightarrow> (lo_val p, st))"

definition no_argument_allowed :: "cstring \<Rightarrow> long_option \<Rightarrow> string" where
  "no_argument_allowed e p = ''option '' @
     quoted_name ((if char_at e 1 = CHR ''-'' then ''--'' else [char_at e 0]) @ lo_name p) @
     '' doesn'' @ [CHR 0x27] @ ''t allow an argument''"

text \<open>
  The long options: \<open>e\<close> is \<open>argv[optind]\<close>, \<open>rest\<close> is \<open>nextchar\<close>.  No result means that the
  element is to be taken as short options.
\<close>

definition long_branch :: "cstring \<Rightarrow> long_option list \<Rightarrow> bool \<Rightarrow> cstring \<Rightarrow> cstring \<Rightarrow> getopt_state
    \<Rightarrow> (int \<times> getopt_state) option" where
  "long_branch optstring longopts long_only e rest st =
     (let nameend = name_end rest
      in case find_long (long_name rest) 0 None False longopts of
           (pfound, exact, ambig) \<Rightarrow>
             if ambig \<and> \<not> exact then
               Some (QUESTION, (complain (''option '' @ quoted_name e @ '' is ambiguous'') st)
                 \<lparr>nextchar := Some [], optind := Suc (optind st), optopt := 0\<rparr>)
             else
               (case pfound of
                  Some (p, index) \<Rightarrow>
                    let st = st\<lparr>optind := Suc (optind st)\<rparr>
                    in Some
                      (if nameend \<noteq> [] then
                         if lo_has_arg p \<noteq> 0 then long_found (p, index) (st\<lparr>optarg := Some (tl nameend)\<rparr>)
                         else (QUESTION, (complain (no_argument_allowed e p) st)
                           \<lparr>nextchar := Some [], optopt := lo_val p\<rparr>)
                       else if lo_has_arg p = 1 then
                         if optind st < argc st then
                           long_found (p, index) (st\<lparr>optarg := elem_at st (optind st), optind := Suc (optind st)\<rparr>)
                         else (missing_argument optstring,
                           (complain (''option '' @ quoted_name e @ '' requires an argument'') st)
                             \<lparr>nextchar := Some [], optopt := lo_val p\<rparr>)
                       else long_found (p, index) st)
                | None \<Rightarrow>
                    if \<not> long_only \<or> char_at e 1 = CHR ''-'' \<or> hd rest \<notin> set optstring then
                      Some (QUESTION,
                        (complain (''unrecognized option '' @
                           quoted_name ((if char_at e 1 = CHR ''-'' then ''--'' else [char_at e 0]) @ rest)) st)
                          \<lparr>nextchar := Some [], optind := Suc (optind st), optopt := 0\<rparr>)
                    else None))"

text \<open>
  The argument of a short option: the rest of the element, else the next element; without one
  the message and \<open>Inl\<close> of what is returned.
\<close>

definition short_argument :: "cstring \<Rightarrow> char \<Rightarrow> cstring \<Rightarrow> getopt_state \<Rightarrow> (int \<times> getopt_state) + getopt_state" where
  "short_argument optstring c rest st =
     (if rest \<noteq> [] then Inr (st\<lparr>optarg := Some rest, optind := Suc (optind st)\<rparr>)
      else if optind st = argc st then
        Inl (missing_argument optstring,
          (complain (''option requires an argument -- '' @ [c]) st)\<lparr>optopt := char_int c\<rparr>)
      else Inr (st\<lparr>optarg := elem_at st (optind st), optind := Suc (optind st)\<rparr>))"


text \<open>
  \<open>-W foo\<close> as \<open>--foo\<close>: the long option in \<open>optarg\<close>.  The message about an ambiguous one names
  \<open>argv[optind]\<close>, the element after it, which is skipped as well.
\<close>

definition dash_W :: "cstring \<Rightarrow> long_option list \<Rightarrow> getopt_state \<Rightarrow> int \<times> getopt_state" where
  "dash_W optstring longopts st =
     (let rest = the (optarg st); nameend = name_end rest;
          st = st\<lparr>nextchar := Some rest\<rparr>
      in case find_long (long_name rest) 0 None False longopts of
           (pfound, exact, ambig) \<Rightarrow>
             if ambig \<and> \<not> exact then
               (QUESTION,
                (complain (''option '' @ quoted_name (''-W '' @ str_or_null (elem_at st (optind st))) @ '' is ambiguous'') st)
                  \<lparr>nextchar := Some [], optind := Suc (optind st)\<rparr>)
             else
               (case pfound of
                  Some (p, index) \<Rightarrow>
                    if nameend \<noteq> [] then
                      if lo_has_arg p \<noteq> 0 then long_found (p, index) (st\<lparr>optarg := Some (tl nameend)\<rparr>)
                      else (QUESTION,
                        (complain (''option '' @ quoted_name (''-W '' @ lo_name p) @ '' doesn'' @ [CHR 0x27] @
                           ''t allow an argument'') st)\<lparr>nextchar := Some []\<rparr>)
                    else if lo_has_arg p = 1 then
                      if optind st < argc st then
                        long_found (p, index) (st\<lparr>optarg := elem_at st (optind st), optind := Suc (optind st)\<rparr>)
                      else (missing_argument optstring,
                        (complain (''option '' @ quoted_name (str_or_null (elem_at st (optind st - 1))) @
                           '' requires an argument'') st)\<lparr>nextchar := Some []\<rparr>)
                    else long_found (p, index) st
                | None \<Rightarrow> (char_int CHR ''W'', st\<lparr>nextchar := None\<rparr>)))"

text \<open>The next short option character.\<close>

definition short_branch :: "cstring \<Rightarrow> long_option list option \<Rightarrow> getopt_state \<Rightarrow> (int \<times> getopt_state) option" where
  "short_branch optstring longopts st =
     (case nextchar st of
        Some (c # rest) \<Rightarrow>
          let temp = dropWhile (\<lambda>x. x \<noteq> c) optstring;
              st = st\<lparr>nextchar := Some rest, optind := (if rest = [] then Suc (optind st) else optind st)\<rparr>
          in if temp = [] \<or> c = CHR '':'' then
               Some (QUESTION,
                 (complain ((if posixly_correct st \<noteq> None then ''illegal option -- '' else ''invalid option -- '') @ [c]) st)
                   \<lparr>optopt := char_int c\<rparr>)
             else if char_at temp 0 = CHR ''W'' \<and> char_at temp 1 = CHR '';'' then
               (case short_argument optstring c rest st of
                  Inl r \<Rightarrow> Some r
                | Inr st \<Rightarrow> (case longopts of None \<Rightarrow> None | Some ls \<Rightarrow> Some (dash_W optstring ls st)))
             else if char_at temp 1 = CHR '':'' then
               if char_at temp 2 = CHR '':'' then
                 Some (char_int c,
                   if rest \<noteq> [] then st\<lparr>optarg := Some rest, optind := Suc (optind st), nextchar := None\<rparr>
                   else st\<lparr>optarg := None, nextchar := None\<rparr>)
               else
                 (case short_argument optstring c rest st of
                    Inl (r, st) \<Rightarrow> Some (r, st\<lparr>nextchar := None\<rparr>)
                  | Inr st \<Rightarrow> Some (char_int c, st\<lparr>nextchar := None\<rparr>))
             else Some (char_int c, st)
      | _ \<Rightarrow> None)"

definition decode_element ::
  "cstring \<Rightarrow> long_option list option \<Rightarrow> bool \<Rightarrow> getopt_state \<Rightarrow> (int \<times> getopt_state) option" where
  "decode_element optstring longopts long_only st =
     (case longopts of
        None \<Rightarrow> short_branch optstring longopts st
      | Some ls \<Rightarrow>
          (case (elem_at st (optind st), nextchar st) of
             (Some e, Some rest) \<Rightarrow>
               if char_at e 1 = CHR ''-'' \<or>
                  long_only \<and> (char_at e 2 \<noteq> CHR 0x00 \<or> char_at e 1 \<notin> set optstring) then
                 (case long_branch optstring ls long_only e rest st of
                    Some r \<Rightarrow> Some r
                  | None \<Rightarrow> short_branch optstring longopts st)
               else short_branch optstring longopts st
           | _ \<Rightarrow> None))"

definition getopt_internal ::
  "cstring option \<Rightarrow> cstring \<Rightarrow> long_option list option \<Rightarrow> bool \<Rightarrow> getopt_state \<Rightarrow> (int \<times> getopt_state) option" where
  "getopt_internal env_posixly optstring longopts long_only st =
     (let st = st\<lparr>optarg := None\<rparr>;
          (optstring, st) =
            (if optind st = 0 \<or> \<not> getopt_initialized st then
               let st = (if optind st = 0 then st\<lparr>optind := 1\<rparr> else st);
                   (optstring, st) = getopt_initialize env_posixly optstring st
               in (optstring, st\<lparr>getopt_initialized := True\<rparr>)
             else (optstring, st))
      in case (if nextchar st = None \<or> nextchar st = Some [] then next_element (longopts \<noteq> None) st
               else Some (Inr st)) of
           None \<Rightarrow> None
         | Some (Inl r) \<Rightarrow> Some r
         | Some (Inr st) \<Rightarrow> decode_element optstring longopts long_only st)"

definition getopt :: "cstring option \<Rightarrow> cstring \<Rightarrow> getopt_state \<Rightarrow> (int \<times> getopt_state) option" where
  "getopt env_posixly optstring st = getopt_internal env_posixly optstring None False st"

definition getopt_long :: "cstring option \<Rightarrow> cstring \<Rightarrow> long_option list \<Rightarrow> getopt_state \<Rightarrow> (int \<times> getopt_state) option" where
  "getopt_long env_posixly optstring longopts st = getopt_internal env_posixly optstring (Some longopts) False st"

definition getopt_long_only :: "cstring option \<Rightarrow> cstring \<Rightarrow> long_option list \<Rightarrow> getopt_state \<Rightarrow> (int \<times> getopt_state) option" where
  "getopt_long_only env_posixly optstring longopts st = getopt_internal env_posixly optstring (Some longopts) True st"

text \<open>
  A caller that calls until the result is -1: the results with \<open>optarg\<close>, and the final state.
  No result means that the calls allowed were not enough or that one read through NULL.
\<close>

fun getopt_calls :: "nat \<Rightarrow> cstring option \<Rightarrow> cstring \<Rightarrow> long_option list option \<Rightarrow> getopt_state
    \<Rightarrow> ((int \<times> cstring option) list \<times> getopt_state) option" where
  "getopt_calls 0 env_posixly optstring longopts st = None"
| "getopt_calls (Suc n) env_posixly optstring longopts st =
     (case getopt_internal env_posixly optstring longopts False st of
        None \<Rightarrow> None
      | Some (c, st') \<Rightarrow>
          if c = -1 then Some ([], st')
          else (case getopt_calls n env_posixly optstring longopts st' of
                  None \<Rightarrow> None
                | Some (results, final) \<Rightarrow> Some ((c, optarg st') # results, final)))"

section \<open>Reference parser\<close>

text \<open>
  What the options mean, on the list of the arguments alone: an option and its argument are read
  from the front; what does not have option syntax is an operand; \<open>--\<close> ends the options.
\<close>

type_synonym opt_result = "int \<times> cstring option"

definition ref_resolve :: "cstring \<Rightarrow> long_option list \<Rightarrow> long_option option + unit" where
  "ref_resolve name longopts =
     (case find (\<lambda>p. lo_name p = name) longopts of
        Some p \<Rightarrow> Inl (Some p)
      | None \<Rightarrow>
          (case filter (\<lambda>p. take (length name) (lo_name p) = name) longopts of
             [] \<Rightarrow> Inl None
           | [p] \<Rightarrow> Inl (Some p)
           | _ \<Rightarrow> Inr ()))"

definition ref_value :: "long_option \<Rightarrow> int" where
  "ref_value p = (if lo_flag p = None then lo_val p else 0)"

definition ref_long :: "cstring \<Rightarrow> long_option list \<Rightarrow> cstring \<Rightarrow> cstring list \<Rightarrow> opt_result \<times> cstring list" where
  "ref_long optstring longopts text args =
     (case ref_resolve (long_name text) longopts of
        Inl (Some p) \<Rightarrow>
          if name_end text \<noteq> [] then
            ((if lo_has_arg p \<noteq> 0 then (ref_value p, Some (tl (name_end text))) else (QUESTION, None)), args)
          else if lo_has_arg p = 1 then
            (case args of
               [] \<Rightarrow> ((missing_argument optstring, None), [])
             | a # args' \<Rightarrow> ((ref_value p, Some a), args'))
          else ((ref_value p, None), args)
      | _ \<Rightarrow> ((QUESTION, None), args))"

datatype arg_kind = Unknown | Plain | Required | Optional

definition ref_kind :: "cstring \<Rightarrow> char \<Rightarrow> arg_kind" where
  "ref_kind optstring c =
     (case dropWhile (\<lambda>x. x \<noteq> c) optstring of
        [] \<Rightarrow> Unknown
      | _ # after \<Rightarrow>
          if c = CHR '':'' then Unknown
          else if char_at after 0 \<noteq> CHR '':'' then Plain
          else if char_at after 1 = CHR '':'' then Optional else Required)"

fun ref_short :: "cstring \<Rightarrow> cstring \<Rightarrow> cstring list \<Rightarrow> opt_result list \<times> cstring list" where
  "ref_short optstring [] args = ([], args)"
| "ref_short optstring (c # cs) args =
     (case ref_kind optstring c of
        Unknown \<Rightarrow> (case ref_short optstring cs args of (rs, args') \<Rightarrow> ((QUESTION, None) # rs, args'))
      | Plain \<Rightarrow> (case ref_short optstring cs args of (rs, args') \<Rightarrow> ((char_int c, None) # rs, args'))
      | Optional \<Rightarrow> ([(char_int c, if cs = [] then None else Some cs)], args)
      | Required \<Rightarrow>
          if cs \<noteq> [] then ([(char_int c, Some cs)], args)
          else (case args of
                  [] \<Rightarrow> ([(missing_argument optstring, None)], [])
                | a # args' \<Rightarrow> ([(char_int c, Some a)], args')))"

lemma ref_long_args: "ref_long optstring ls text args = (r, args') \<Longrightarrow> length args' \<le> length args"
  by (auto simp: ref_long_def split: sum.splits option.splits list.splits if_splits)

lemma ref_short_args: "ref_short optstring cs args = (rs, args') \<Longrightarrow> length args' \<le> length args"
  by (induction optstring cs args arbitrary: rs rule: ref_short.induct)
    (fastforce split: arg_kind.splits prod.splits if_splits list.splits)+

function ref_args :: "cstring \<Rightarrow> long_option list option \<Rightarrow> cstring list \<Rightarrow> opt_result list \<times> cstring list" where
  "ref_args optstring longopts [] = ([], [])"
| "ref_args optstring longopts (e # args) =
     (if e = ''--'' then ([], args)
      else if nonoption e then (case ref_args optstring longopts args of (rs, ops) \<Rightarrow> (rs, e # ops))
      else if longopts \<noteq> None \<and> char_at e 1 = CHR ''-'' then
        (case ref_long optstring (the longopts) (drop 2 e) args of
           (r, args') \<Rightarrow> (case ref_args optstring longopts args' of (rs, ops) \<Rightarrow> (r # rs, ops)))
      else
        (case ref_short optstring (tl e) args of
           (rs1, args') \<Rightarrow> (case ref_args optstring longopts args' of (rs, ops) \<Rightarrow> (rs1 @ rs, ops))))"
  by pat_completeness auto
termination
  by (relation "measure (\<lambda>(opts, ls, args). length args)")
    (auto dest!: sym [of "(_, _)"] ref_long_args ref_short_args)

section \<open>Lemmas\<close>

lemma swap_range_appended:
  "length X = length Z \<Longrightarrow>
     swap_range (length A) (length A + length X + length Y) (length X) (A @ X @ Y @ Z @ B) = A @ Z @ Y @ X @ B"
proof (induction X arbitrary: A Y Z)
  case (Cons x X)
  then obtain z Z' where Z: "Z = z # Z'" "length X = length Z'" by (cases Z) auto
  have "(A @ x # X @ Y @ z # Z' @ B)[length A := z, length A + Suc (length X) + length Y := x] =
      (A @ [z]) @ X @ (Y @ [x]) @ Z' @ B"
    by (simp add: list_update_append)
  moreover have "(A @ x # X @ Y @ z # Z' @ B) ! (length A + Suc (length X) + length Y) = z"
    by (simp add: nth_append)
  ultimately show ?case
    using Cons.IH [of Z' "A @ [z]" "Y @ [x]"] Z by (simp add: Let_def nth_append)
qed simp

lemma exchange_loop_rotates:
  "exchange_loop (length A) (length A + length B) (length A + length B + length C) (A @ B @ C @ D) = A @ C @ B @ D"
proof (induction "length B + length C" arbitrary: A B C D rule: less_induct)
  case less
  consider (none) "B = [] \<or> C = []" | (bottom) "B \<noteq> []" "length C > length B" | (top) "B \<noteq> []" "C \<noteq> []" "length C \<le> length B"
    by fastforce
  then show ?case
  proof cases
    case none
    then show ?thesis by (subst exchange_loop.simps) auto
  next
    case bottom
    define C1 C2 where "C1 = take (length C - length B) C" and "C2 = drop (length C - length B) C"
    then have C: "C = C1 @ C2" "length C2 = length B" using bottom by simp_all
    from swap_range_appended [of B C2 A C1 D] less [of C2 C1 A "B @ D"] C bottom show ?thesis
      by (subst exchange_loop.simps) (simp add: Let_def ac_simps)
  next
    case top
    define B1 B2 where "B1 = take (length C) B" and "B2 = drop (length C) B"
    then have B: "B = B1 @ B2" "length B1 = length C" using top by simp_all
    from swap_range_appended [of B1 C A B2 D] less [of B2 B1 "A @ C" D] B top show ?thesis
      by (subst exchange_loop.simps) (simp add: Let_def ac_simps)
  qed
qed

lemma find_long_exact:
  "find (\<lambda>p. lo_name p = name) ls = Some p \<Longrightarrow>
     \<exists>j amb. find_long name i pfound ambig ls = (Some (p, j), True, amb)"
  by (induction name i pfound ambig ls rule: find_long.induct) (auto split: if_splits)

lemma find_long_abbreviated:
  assumes "find (\<lambda>p. lo_name p = name) ls = None"
  defines "cands \<equiv> filter (\<lambda>p. take (length name) (lo_name p) = name) ls"
  shows "\<exists>found. find_long name i pfound ambig ls =
      (found, False, ambig \<or> length cands + (if pfound = None then 0 else 1) > 1) \<and>
    (if pfound = None then map_option fst found = (if cands = [] then None else Some (hd cands)) else found = pfound)"
  using assms(1) unfolding cands_def
proof (induction name i pfound ambig ls rule: find_long.induct)
  case (2 name index pfound ambig p ps)
  then have differs: "lo_name p \<noteq> name" "find (\<lambda>p. lo_name p = name) ps = None" by (auto split: if_splits)
  show ?case
  proof (cases "take (length name) (lo_name p) = name")
    case True
    with differs(1) have "length name \<noteq> length (lo_name p)" by force
    with True 2 differs(2) show ?thesis by (cases pfound) force+
  next
    case False
    with 2 differs(2) show ?thesis by (cases pfound) force+
  qed
qed simp

lemma find_long_resolves:
  "case ref_resolve name ls of
     Inl None \<Rightarrow> find_long name 0 None False ls = (None, False, False)
   | Inl (Some p) \<Rightarrow> \<exists>j exact amb. find_long name 0 None False ls = (Some (p, j), exact, amb) \<and> (amb \<longrightarrow> exact)
   | Inr u \<Rightarrow> \<exists>found. find_long name 0 None False ls = (found, False, True)"
proof (cases "find (\<lambda>p. lo_name p = name) ls")
  case (Some p)
  with find_long_exact [of name ls p 0 None False] show ?thesis by (auto simp: ref_resolve_def)
next
  case None
  with find_long_abbreviated [of name ls 0 None False] show ?thesis
    by (fastforce simp: ref_resolve_def split: list.split)
qed
text \<open>
  The elements between calls: \<open>A\<close> scanned and in place, \<open>N\<close> the non-options skipped, \<open>B\<close> what was
  scanned after them, \<open>R\<close> the elements to come.
\<close>

definition lays :: "'a list \<Rightarrow> nat \<Rightarrow> nat \<Rightarrow> nat \<Rightarrow> 'a list \<Rightarrow> 'a list \<Rightarrow> bool" where
  "lays argv f l i N R \<longleftrightarrow>
     (\<exists>A B. argv = A @ N @ B @ R \<and> A \<noteq> [] \<and> f = length A \<and> l = f + length N \<and> i = l + length B)"

lemma lays_next: "lays argv f l i N (e # R) \<Longrightarrow> lays argv f l (Suc i) N R"
  unfolding lays_def by (elim exE conjE, rule_tac x = A in exI, rule_tac x = "B @ [e]" in exI) simp

lemma lays_elem: "lays argv f l i N (e # R) \<Longrightarrow> i < length argv \<and> argv ! i = e"
  by (auto simp: lays_def nth_append)

lemma lays_end: "lays argv f l i N [] \<Longrightarrow> i = length argv"
  by (auto simp: lays_def)

lemma lays_bounds: "lays argv f l i N R \<Longrightarrow> 0 < f \<and> f \<le> l \<and> l \<le> i \<and> i \<le> length argv"
  by (auto simp: lays_def)

abbreviation layout :: "getopt_state \<Rightarrow> cstring list \<Rightarrow> cstring list \<Rightarrow> bool" where
  "layout st N R \<equiv> lays (go_argv st) (first_nonopt st) (last_nonopt st) (optind st) N R"

lemma complain_fields [simp]:
  "go_argv (complain m st) = go_argv st" "optind (complain m st) = optind st" "optarg (complain m st) = optarg st"
  "getopt_initialized (complain m st) = getopt_initialized st" "ordering_of (complain m st) = ordering_of st"
  "first_nonopt (complain m st) = first_nonopt st" "last_nonopt (complain m st) = last_nonopt st"
  "nextchar (complain m st) = nextchar st"
  by (simp_all add: complain_def)

lemma permute_step_lays:
  assumes "layout st N R" "ordering_of st = PERMUTE"
  defines "N' \<equiv> N @ takeWhile nonoption R"
  shows "\<exists>A. A \<noteq> [] \<and> permute_step st = st\<lparr>go_argv := A @ N' @ dropWhile nonoption R, first_nonopt := length A,
      last_nonopt := length A + length N', optind := length A + length N'\<rparr> \<and>
    mset (A @ N' @ dropWhile nonoption R) = mset (go_argv st)"
proof -
  from assms(1) obtain A B where AB: "go_argv st = A @ N @ B @ R" "A \<noteq> []" "first_nonopt st = length A"
      "last_nonopt st = length A + length N" "optind st = length A + length N + length B"
    unfolding lays_def by auto
  have ex: "exchange_loop (length A) (length A + length N) (length A + length N + length B) (A @ N @ B @ R) = A @ B @ N @ R"
    by (rule exchange_loop_rotates)
  define st1 where "st1 = (if first_nonopt st \<noteq> last_nonopt st \<and> last_nonopt st \<noteq> optind st then exchange st
      else if last_nonopt st \<noteq> optind st then st\<lparr>first_nonopt := optind st\<rparr> else st)"
  have "\<exists>l1. st1 = st\<lparr>go_argv := (A @ B) @ N @ R, first_nonopt := length (A @ B), last_nonopt := l1\<rparr>"
    unfolding st1_def exchange_def using AB ex
    by (intro exI [of _ "if N \<noteq> [] \<and> B \<noteq> [] then optind st else last_nonopt st"]) (auto intro!: getopt_state.equality)
  then obtain l1 where st1: "st1 = st\<lparr>go_argv := (A @ B) @ N @ R, first_nonopt := length (A @ B), last_nonopt := l1\<rparr>" ..
  have skip: "skip_nonoptions ((A @ B) @ N @ R) (optind st) = length (A @ B) + length N'"
    using AB(5) by (simp add: skip_nonoptions_def N'_def)
  have "permute_step st = st1\<lparr>optind := length (A @ B) + length N', last_nonopt := length (A @ B) + length N'\<rparr>"
    using assms(2) skip by (simp add: permute_step_def Let_def st1 flip: st1_def)
  then have "permute_step st = st\<lparr>go_argv := (A @ B) @ N' @ dropWhile nonoption R, first_nonopt := length (A @ B),
      last_nonopt := length (A @ B) + length N', optind := length (A @ B) + length N'\<rparr>"
    by (simp add: st1 N'_def)
  then show ?thesis
    using AB(1,2) by (intro exI [of _ "A @ B"]) (auto simp: N'_def ac_simps)
qed
definition next_ready :: "getopt_state \<Rightarrow> cstring list \<Rightarrow> getopt_state \<Rightarrow> bool" where
  "next_ready st argv st' \<longleftrightarrow> getopt_initialized st' = getopt_initialized st \<and> ordering_of st' = ordering_of st \<and>
     optarg st' = optarg st \<and> mset (go_argv st') = mset argv"

text \<open>How a call gets to the next element: to the operands, or to an option element.\<close>

lemma next_element_lays:
  assumes "layout st N R" "ordering_of st = PERMUTE"
  defines "N' \<equiv> N @ takeWhile nonoption R"
  shows "case dropWhile nonoption R of
      [] \<Rightarrow> \<exists>st'. next_element lng st = Some (Inl (-1, st')) \<and> drop (optind st') (go_argv st') = N' \<and>
        mset (go_argv st') = mset (go_argv st)
    | e # R' \<Rightarrow>
        if e = ''--'' then \<exists>st'. next_element lng st = Some (Inl (-1, st')) \<and>
          drop (optind st') (go_argv st') = N' @ R' \<and> mset (go_argv st') = mset (go_argv st)
        else \<exists>st'. next_element lng st = Some (Inr st') \<and> layout st' N' (e # R') \<and>
          nextchar st' = Some (drop (1 + (if lng \<and> char_at e 1 = CHR ''-'' then 1 else 0)) e) \<and>
          next_ready st (go_argv st) st'"
proof -
  from permute_step_lays [OF assms(1,2)] obtain A where A: "A \<noteq> []"
      "permute_step st = st\<lparr>go_argv := A @ N' @ dropWhile nonoption R, first_nonopt := length A,
         last_nonopt := length A + length N', optind := length A + length N'\<rparr>"
      "mset (A @ N' @ dropWhile nonoption R) = mset (go_argv st)"
    unfolding N'_def by blast
  have start: "next_element lng st = (let st = dash_dash (permute_step st) in
      if optind st > argc st then None
      else if optind st = argc st then
        Some (Inl (-1, if first_nonopt st \<noteq> last_nonopt st then st\<lparr>optind := first_nonopt st\<rparr> else st))
      else case elem_at st (optind st) of None \<Rightarrow> None
        | Some s \<Rightarrow> if nonoption s then
            if ordering_of st = REQUIRE_ORDER then Some (Inl (-1, st))
            else Some (Inl (1, st\<lparr>optarg := Some s, optind := Suc (optind st)\<rparr>))
          else Some (Inr (st\<lparr>nextchar := Some (drop (1 + (if lng \<and> char_at s 1 = CHR ''-'' then 1 else 0)) s)\<rparr>)))"
    using lays_bounds [OF assms(1)] by (simp add: next_element_def Let_def)
  show ?thesis
  proof (cases "dropWhile nonoption R")
    case Nil
    show ?thesis
      unfolding Nil list.case using A start [unfolded A(2) Nil]
      by (cases "N' = []") (simp_all add: dash_dash_def elem_at_def Let_def Nil)
  next
    case (Cons e R')
    show ?thesis
    proof (cases "e = ''--''")
      case True
      have ex: "exchange_loop (length A) (length A + length N') (Suc (length A + length N')) (A @ N' @ ''--'' # X) =
          A @ ''--'' # N' @ X" for X
        using exchange_loop_rotates [of A N' "[''--'']" X] by simp
      show ?thesis
        using A(3) Cons True by (cases "N' = []"; cases "R' = []")
          (simp_all add: start A(2) dash_dash_def elem_at_def exchange_def Let_def nth_append ex del: append_assoc)
    next
      case False
      from Cons have "\<not> nonoption e" by (metis hd_dropWhile list.sel(1) list.simps(3))
      with A Cons False show ?thesis
        by (auto simp: start dash_dash_def elem_at_def Let_def nth_append next_ready_def lays_def)
    qed
  qed
qed
text \<open>
  The options the reference parser is stated for: no change of the ordering in the first
  character, no \<open>W;\<close>, no option whose result is the -1 that ends the scan.
\<close>

definition plain_options :: "cstring \<Rightarrow> long_option list option \<Rightarrow> bool" where
  "plain_options optstring longopts \<longleftrightarrow>
     char_at optstring 0 \<noteq> CHR ''-'' \<and> char_at optstring 0 \<noteq> CHR ''+'' \<and>
     char_at (dropWhile (\<lambda>x. x \<noteq> CHR ''W'') optstring) 1 \<noteq> CHR '';'' \<and>
     (\<forall>c \<in> set optstring. char_int c \<noteq> -1) \<and>
     (case longopts of None \<Rightarrow> True | Some ls \<Rightarrow> (\<forall>p \<in> set ls. ref_value p \<noteq> -1))"

text \<open>Between two calls: the non-options skipped, what is left of an element, what follows it.\<close>

definition ready :: "bool \<Rightarrow> getopt_state \<Rightarrow> cstring list \<Rightarrow> cstring \<Rightarrow> cstring list \<Rightarrow> bool" where
  "ready lng st N cs rest \<longleftrightarrow> getopt_initialized st \<and> ordering_of st = PERMUTE \<and>
     (if cs = [] then (nextchar st = None \<or> nextchar st = Some []) \<and> layout st N rest
      else nextchar st = Some cs \<and> (\<exists>e. layout st N (e # rest) \<and> (lng \<longrightarrow> char_at e 1 \<noteq> CHR ''-'')))"

text \<open>One call on an option element gives the first result and leaves the others.\<close>

definition yields ::
  "bool \<Rightarrow> getopt_state \<Rightarrow> cstring list \<Rightarrow> cstring \<Rightarrow> (int \<times> getopt_state) option \<Rightarrow> opt_result
    \<Rightarrow> opt_result list \<times> cstring list \<Rightarrow> bool" where
  "yields lng st N optstring result r next \<longleftrightarrow>
     (\<exists>st' cs rest. result = Some (fst r, st') \<and> optarg st' = snd r \<and> fst r \<noteq> -1 \<and> go_argv st' = go_argv st \<and>
        ready lng st' N cs rest \<and> ref_short optstring cs rest = next)"

lemma yieldsI:
  "case result of None \<Rightarrow> False
   | Some (x, st') \<Rightarrow> x = fst r \<and> optarg st' = snd r \<and> x \<noteq> -1 \<and> go_argv st' = go_argv st \<and> ready lng st' N cs rest \<Longrightarrow>
     ref_short optstring cs rest = next \<Longrightarrow> yields lng st N optstring result r next"
  unfolding yields_def by (cases result) auto

lemma error_results: "QUESTION \<noteq> -1" "missing_argument optstring \<noteq> -1"
  by (simp_all add: QUESTION_def COLON_def missing_argument_def)

lemma char_at_simps [simp]: "char_at (c # cs) 0 = c" "char_at (c # cs) (Suc i) = char_at cs i" "char_at [] i = CHR 0x00"
  "char_at (c # cs) 2 = char_at cs 1"
  by (simp_all add: char_at_def)

lemma short_branch_yields:
  assumes st: "layout st N (e # rest)" "lng \<longrightarrow> char_at e 1 \<noteq> CHR ''-''" "nextchar st = Some (c # cs)"
      "optarg st = None" "getopt_initialized st" "ordering_of st = PERMUTE"
    and plain: "plain_options optstring longopts"
    and r: "ref_short optstring (c # cs) rest = (r # rs, rest')"
  shows "yields lng st N optstring (short_branch optstring longopts st) r (rs, rest')"
proof -
  note lays = lays_next [OF st(1)] st(1,2)
  note go = ready_def st(3-6) short_branch_def short_argument_def Let_def error_results
  show ?thesis
  proof (cases "dropWhile (\<lambda>x. x \<noteq> c) optstring = [] \<or> c = CHR '':''")
    case True
    then have k: "ref_kind optstring c = Unknown"
      by (auto simp: ref_kind_def simp del: dropWhile_eq_Nil_conv split: list.split)
    with r have "r = (QUESTION, None)" "ref_short optstring cs rest = (rs, rest')" by (auto split: prod.splits)
    with True lays show ?thesis
      by (intro yieldsI [where cs = cs and rest = rest]) (auto simp: go split: if_splits)
  next
    case False
    then obtain d after where drop: "dropWhile (\<lambda>x. x \<noteq> c) optstring = d # after" by (cases "dropWhile (\<lambda>x. x \<noteq> c) optstring") auto
    then have d: "d = c" using hd_dropWhile [of "\<lambda>x. x \<noteq> c" optstring] by simp
    with drop have "c \<in> set optstring" by (metis list.set_intros(1) set_dropWhileD)
    with plain have c: "char_int c \<noteq> -1" by (simp add: plain_options_def)
    have W: "\<not> (c = CHR ''W'' \<and> char_at after 0 = CHR '';'')"
      using plain drop d by (auto simp: plain_options_def)
    show ?thesis
    proof (cases "ref_kind optstring c")
      case Unknown
      with drop d False show ?thesis by (auto simp: ref_kind_def split: if_splits)
    next
      case Plain
      with drop d False have a: "char_at after 0 \<noteq> CHR '':''" by (auto simp: ref_kind_def split: if_splits)
      from r Plain have "r = (char_int c, None)" "ref_short optstring cs rest = (rs, rest')" by (auto split: prod.splits)
      with a W False drop d c lays show ?thesis
        by (intro yieldsI [where cs = cs and rest = rest]) (auto simp: go split: if_splits)
    next
      case Required
      with drop d False have a: "char_at after 0 = CHR '':''" "char_at after 1 \<noteq> CHR '':''"
        by (auto simp: ref_kind_def split: if_splits)
      show ?thesis
      proof (cases "cs = []")
        case True
        show ?thesis
        proof (cases rest)
          case Nil
          with r Required True have "r = (missing_argument optstring, None)" "rs = []" "rest' = []" by auto
          with a W False drop d Nil True lays lays_end [OF lays(1) [unfolded Nil]] show ?thesis
            by (intro yieldsI [where cs = "[]" and rest = "[]"]) (auto simp: go split: if_splits)
        next
          case (Cons v more)
          with r Required True have "r = (char_int c, Some v)" "rs = []" "rest' = more" by auto
          with a W False drop d c Cons True lays_next [OF lays(1) [unfolded Cons]] lays_elem [OF lays(1) [unfolded Cons]]
          show ?thesis
            by (intro yieldsI [where cs = "[]" and rest = more]) (auto simp: go elem_at_def)
        qed
      next
        case cs: False
        with r Required have "r = (char_int c, Some cs)" "rs = []" "rest' = rest" by auto
        with a W False drop d c cs lays show ?thesis
          by (intro yieldsI [where cs = "[]" and rest = rest]) (auto simp: go split: if_splits)
      qed
    next
      case Optional
      with drop d False have a: "char_at after 0 = CHR '':''" "char_at after 1 = CHR '':''"
        by (auto simp: ref_kind_def split: if_splits)
      from r Optional have "r = (char_int c, if cs = [] then None else Some cs)" "rs = []" "rest' = rest" by auto
      with a W False drop d c lays show ?thesis
        by (intro yieldsI [where cs = "[]" and rest = rest]) (auto simp: go split: if_splits)
    qed
  qed
qed
lemma ref_resolve_member: "ref_resolve name ls = Inl (Some p) \<Longrightarrow> p \<in> set ls"
  by (auto simp: ref_resolve_def find_Some_iff split: option.splits list.splits)
    (metis filter_is_subset list.set_intros(1) subset_iff)

lemma long_found_fields:
  "fst (long_found (p, j) st) = ref_value p" "go_argv (snd (long_found (p, j) st)) = go_argv st"
  "optarg (snd (long_found (p, j) st)) = optarg st" "optind (snd (long_found (p, j) st)) = optind st"
  "getopt_initialized (snd (long_found (p, j) st)) = getopt_initialized st"
  "ordering_of (snd (long_found (p, j) st)) = ordering_of st" "nextchar (snd (long_found (p, j) st)) = Some []"
  "first_nonopt (snd (long_found (p, j) st)) = first_nonopt st" "last_nonopt (snd (long_found (p, j) st)) = last_nonopt st"
  by (simp_all add: long_found_def ref_value_def Let_def split: option.split)

lemma long_branch_yields:
  assumes st: "layout st N (e # rest)" "optarg st = None" "getopt_initialized st" "ordering_of st = PERMUTE"
    and plain: "plain_options optstring (Some ls)"
    and r: "ref_long optstring ls text rest = (r, rest')"
  shows "yields True st N optstring (long_branch optstring ls False e text st) r ([], rest')"
proof -
  note lays = lays_next [OF st(1)] 
  note go = ready_def st(2-4) long_branch_def Let_def error_results long_found_fields split_def
  note resolves = find_long_resolves [of "long_name text" ls]
  show ?thesis
  proof (cases "ref_resolve (long_name text) ls")
    case (Inr u)
    with r resolves lays show ?thesis
      by (intro yieldsI [where cs = "[]" and rest = rest]) (auto simp: go ref_long_def)
  next
    case (Inl found)
    show ?thesis
    proof (cases found)
      case None
      with Inl r resolves lays show ?thesis
        by (intro yieldsI [where cs = "[]" and rest = rest]) (auto simp: go ref_long_def)
    next
      case (Some p)
      with Inl resolves obtain j exact amb where f:
          "find_long (long_name text) 0 None False ls = (Some (p, j), exact, amb)" "amb \<longrightarrow> exact"
        by auto
      from Inl Some have "p \<in> set ls" by (auto dest: ref_resolve_member)
      with plain have v: "ref_value p \<noteq> -1" by (auto simp: plain_options_def)
      show ?thesis
      proof (cases "name_end text \<noteq> [] \<or> lo_has_arg p \<noteq> 1")
        case True
        with Inl Some r f v lays show ?thesis
          by (intro yieldsI [where cs = "[]" and rest = rest]) (auto simp: go ref_long_def split: if_splits)
      next
        case arg: False
        show ?thesis
        proof (cases rest)
          case Nil
          with arg Inl Some r f v lays lays_end [OF lays(1) [unfolded Nil]] show ?thesis
            by (intro yieldsI [where cs = "[]" and rest = "[]"]) (auto simp: go ref_long_def split: if_splits)
        next
          case (Cons a rest2)
          with arg Inl Some r f v lays_next [OF lays(1) [unfolded Cons]] lays_elem [OF lays(1) [unfolded Cons]]
          show ?thesis
            by (intro yieldsI [where cs = "[]" and rest = rest2]) (auto simp: go ref_long_def elem_at_def split: if_splits)
        qed
      qed
    qed
  qed
qed
text \<open>What the reference parser makes of the arguments to come.\<close>

definition remaining :: "cstring \<Rightarrow> long_option list option \<Rightarrow> cstring list \<Rightarrow> cstring \<Rightarrow> cstring list
    \<Rightarrow> opt_result list \<times> cstring list" where
  "remaining optstring longopts N cs rest =
     (case ref_short optstring cs rest of
        (rs1, rest') \<Rightarrow> (case ref_args optstring longopts rest' of (rs, ops) \<Rightarrow> (rs1 @ rs, N @ ops)))"

lemma ref_args_operands:
  "ref_args optstring longopts R =
     (case ref_args optstring longopts (dropWhile nonoption R) of (rs, ops) \<Rightarrow> (rs, takeWhile nonoption R @ ops))"
proof (induction R)
  case (Cons e R)
  have "nonoption e \<Longrightarrow> e \<noteq> ''--''" by (auto simp: nonoption_def)
  with Cons show ?case by (cases "nonoption e") (auto split: prod.splits)
qed simp

lemma ref_short_some: "ref_short optstring (c # cs) args = (rs, args') \<Longrightarrow> rs \<noteq> []"
  by (auto split: arg_kind.splits prod.splits if_splits list.splits)

definition call_gives :: "cstring \<Rightarrow> long_option list option \<Rightarrow> getopt_state \<Rightarrow> (int \<times> getopt_state) option
    \<Rightarrow> opt_result list \<times> cstring list \<Rightarrow> bool" where
  "call_gives optstring longopts st result expected \<longleftrightarrow>
     (case expected of
        ([], ops) \<Rightarrow> \<exists>st'. result = Some (-1, st') \<and> drop (optind st') (go_argv st') = ops \<and>
          mset (go_argv st') = mset (go_argv st)
      | (r # rs, ops) \<Rightarrow> \<exists>st' N cs rest. result = Some (fst r, st') \<and> optarg st' = snd r \<and> fst r \<noteq> -1 \<and>
          mset (go_argv st') = mset (go_argv st) \<and> ready (longopts \<noteq> None) st' N cs rest \<and>
          remaining optstring longopts N cs rest = (rs, ops))"

lemma yields_call:
  assumes "yields (longopts \<noteq> None) st N optstring result r (rs1, rest1)" "mset (go_argv st) = mset (go_argv st0)"
    "ref_args optstring longopts rest1 = (rs, ops)"
  shows "call_gives optstring longopts st0 result (r # rs1 @ rs, N @ ops)"
  using assms unfolding call_gives_def yields_def remaining_def by fastforce

lemma decode_short:
  assumes "layout st N (e # rest)" "longopts \<noteq> None \<longrightarrow> char_at e 1 \<noteq> CHR ''-''" "nextchar st = Some cs"
  shows "decode_element optstring longopts False st = short_branch optstring longopts st"
  using assms lays_elem [OF assms(1)] by (auto simp: decode_element_def elem_at_def split: option.split)

lemma short_call:
  assumes st: "layout st N (e # rest)" "longopts \<noteq> None \<longrightarrow> char_at e 1 \<noteq> CHR ''-''" "nextchar st = Some cs" "cs \<noteq> []"
      "optarg st = None" "getopt_initialized st" "ordering_of st = PERMUTE"
    and plain: "plain_options optstring longopts" and m: "mset (go_argv st) = mset (go_argv st0)"
  shows "call_gives optstring longopts st0 (decode_element optstring longopts False st)
     (remaining optstring longopts N cs rest)"
proof -
  from st(4) obtain c cs' where cs: "cs = c # cs'" by (cases cs) auto
  obtain rs1 rest1 where r: "ref_short optstring cs rest = (rs1, rest1)" by (cases "ref_short optstring cs rest")
  with cs ref_short_some obtain r0 rs0 where "rs1 = r0 # rs0" by (metis list.exhaust)
  with r cs short_branch_yields [OF st(1,2) _ st(5-7) plain, of c cs' r0 rs0 rest1] st(3) decode_short [OF st(1-3)] m
  show ?thesis
    by (auto simp: remaining_def intro!: yields_call split: prod.split)
qed

lemma getopt_call:
  assumes ready: "ready (longopts \<noteq> None) st N cs rest" and plain: "plain_options optstring longopts"
  shows "call_gives optstring longopts st (getopt_internal env optstring longopts False st)
     (remaining optstring longopts N cs rest)"
proof -
  define st0 where "st0 = st\<lparr>optarg := None\<rparr>"
  have st0: "optarg st0 = None" "getopt_initialized st0" "ordering_of st0 = PERMUTE" "go_argv st0 = go_argv st"
      "optind st0 = optind st" "nextchar st0 = nextchar st"
    using ready by (simp_all add: st0_def ready_def)
  have "optind st \<noteq> 0" using ready by (auto simp: ready_def dest!: lays_bounds split: if_splits)
  then have call: "getopt_internal env optstring longopts False st =
      (case (if nextchar st0 = None \<or> nextchar st0 = Some [] then next_element (longopts \<noteq> None) st0
             else Some (Inr st0)) of
         None \<Rightarrow> None | Some (Inl r) \<Rightarrow> Some r | Some (Inr st) \<Rightarrow> decode_element optstring longopts False st)"
    using st0(2,5) by (simp add: getopt_internal_def Let_def flip: st0_def)
  show ?thesis
  proof (cases "cs = []")
    case False
    with ready obtain e where e: "layout st0 N (e # rest)" "longopts \<noteq> None \<longrightarrow> char_at e 1 \<noteq> CHR ''-''" "nextchar st0 = Some cs"
      by (auto simp: ready_def st0_def)
    with short_call [OF e False st0(1-3) plain] False show ?thesis by (simp add: call st0(4))
  next
    case cs: True
    with ready have lay: "layout st0 N rest" and nc: "nextchar st0 = None \<or> nextchar st0 = Some []"
      by (auto simp: ready_def st0_def)
    define N' where "N' = N @ takeWhile nonoption rest"
    note next_ = next_element_lays [OF lay st0(3), of "longopts \<noteq> None", folded N'_def]
    have rem: "remaining optstring longopts N cs rest =
        (case ref_args optstring longopts (dropWhile nonoption rest) of (rs, ops) \<Rightarrow> (rs, N' @ ops))"
      using ref_args_operands [of optstring longopts rest] by (simp add: remaining_def cs N'_def split: prod.split)
    show ?thesis
    proof (cases "dropWhile nonoption rest")
      case Nil
      from next_ [unfolded Nil list.case] obtain st' where "next_element (longopts \<noteq> None) st0 = Some (Inl (-1, st'))"
          "drop (optind st') (go_argv st') = N'" "mset (go_argv st') = mset (go_argv st)"
        by (auto simp only: st0(4))
      with nc have "call_gives optstring longopts st (getopt_internal env optstring longopts False st) ([], N')"
        by (auto simp: call_gives_def call)
      then show ?thesis by (simp add: rem Nil del: dropWhile_eq_Nil_conv)
    next
      case (Cons e R)
      then have opt: "\<not> nonoption e" by (metis hd_dropWhile list.sel(1) list.simps(3))
      show ?thesis
      proof (cases "e = ''--''")
        case True
        from next_ [unfolded Cons list.case if_P [OF True]] obtain st' where
            "next_element (longopts \<noteq> None) st0 = Some (Inl (-1, st'))"
            "drop (optind st') (go_argv st') = N' @ R" "mset (go_argv st') = mset (go_argv st)"
          by (auto simp only: st0(4))
        with nc have "call_gives optstring longopts st (getopt_internal env optstring longopts False st) ([], N' @ R)"
          by (auto simp: call_gives_def call)
        then show ?thesis by (simp add: rem Cons True)
      next
        case False
        with Cons next_ obtain st' where st': "next_element (longopts \<noteq> None) st0 = Some (Inr st')" "layout st' N' (e # R)"
            "nextchar st' = Some (drop (1 + (if longopts \<noteq> None \<and> char_at e 1 = CHR ''-'' then 1 else 0)) e)"
            "next_ready st0 (go_argv st0) st'"
          by auto
        then have s: "optarg st' = None" "getopt_initialized st'" "ordering_of st' = PERMUTE" "mset (go_argv st') = mset (go_argv st)"
          using st0 by (auto simp: next_ready_def)
        have res: "getopt_internal env optstring longopts False st = decode_element optstring longopts False st'"
          using call nc st'(1) by simp
        show ?thesis
        proof (cases "longopts \<noteq> None \<and> char_at e 1 = CHR ''-''")
          case True
          then obtain ls where ls: "longopts = Some ls" by auto
          obtain r rest1 where r: "ref_long optstring ls (drop 2 e) R = (r, rest1)" by (cases "ref_long optstring ls (drop 2 e) R")
          have y: "yields True st' N' optstring (long_branch optstring ls False e (drop 2 e) st') r ([], rest1)"
            by (rule long_branch_yields [OF st'(2) s(1-3) plain [unfolded ls] r])
          then have "decode_element optstring longopts False st' = long_branch optstring ls False e (drop 2 e) st'"
            using True ls lays_elem [OF st'(2)] st'(3)
            by (auto simp: decode_element_def elem_at_def yields_def numeral_2_eq_2)
          with y ls have y: "yields (longopts \<noteq> None) st' N' optstring (getopt_internal env optstring longopts False st) r ([], rest1)"
            by (simp add: res [unfolded ls])
          obtain rs ops where o: "ref_args optstring longopts rest1 = (rs, ops)" by (cases "ref_args optstring longopts rest1")
          have "remaining optstring longopts N cs rest = (r # [] @ rs, N' @ ops)"
            unfolding rem Cons using r o False opt True ls by simp
          with yields_call [OF y s(4) o] show ?thesis by simp
        next
          case short: False
          have "tl e \<noteq> []" using opt by (cases e; cases "tl e") (auto simp: nonoption_def)
          moreover have "nextchar st' = Some (tl e)" using st'(3) short by (auto simp: drop_Suc)
          ultimately have "call_gives optstring longopts st (decode_element optstring longopts False st')
              (remaining optstring longopts N' (tl e) R)"
            using short by (intro short_call [OF st'(2) _ _ _ s(1-3) plain s(4)]) auto
          moreover have "remaining optstring longopts N' (tl e) R = remaining optstring longopts N cs rest"
            unfolding rem using Cons False opt short by (auto simp: remaining_def split: prod.split)
          ultimately show ?thesis by (simp add: res)
        qed
      qed
    qed
  qed
qed
lemma getopt_calls_remaining:
  "ready (longopts \<noteq> None) st N cs rest \<Longrightarrow> plain_options optstring longopts \<Longrightarrow>
   remaining optstring longopts N cs rest = (rs, ops) \<Longrightarrow> length rs < n \<Longrightarrow>
     \<exists>final. getopt_calls n env optstring longopts st = Some (rs, final) \<and> drop (optind final) (go_argv final) = ops \<and>
       mset (go_argv final) = mset (go_argv st)"
proof (induction n arbitrary: st N cs rest rs)
  case (Suc n)
  note call = getopt_call [OF Suc.prems(1,2), unfolded Suc.prems(3) call_gives_def, of env]
  show ?case
  proof (cases rs)
    case Nil
    with call show ?thesis by auto
  next
    case (Cons r rs')
    with call obtain st' N' cs' rest' where r: "getopt_internal env optstring longopts False st = Some (fst r, st')"
        "optarg st' = snd r" "fst r \<noteq> -1" "mset (go_argv st') = mset (go_argv st)" "ready (longopts \<noteq> None) st' N' cs' rest'"
        "remaining optstring longopts N' cs' rest' = (rs', ops)"
      by auto
    from Suc.IH [OF r(5) Suc.prems(2) r(6)] Suc.prems(4) Cons obtain final where
        "getopt_calls n env optstring longopts st' = Some (rs', final)" "drop (optind final) (go_argv final) = ops"
        "mset (go_argv final) = mset (go_argv st')"
      by auto
    with r(1-4) Cons show ?thesis by (auto simp: prod_eq_iff)
  qed
qed simp

lemma ref_short_length: "ref_short optstring cs args = (rs, args') \<Longrightarrow>
    length rs \<le> length cs \<and> sum_list (map length args') \<le> sum_list (map length args)"
  by (induction optstring cs args arbitrary: rs rule: ref_short.induct)
    (fastforce split: arg_kind.splits prod.splits if_splits list.splits)+

lemma ref_long_length: "ref_long optstring ls text args = (r, args') \<Longrightarrow>
    sum_list (map length args') \<le> sum_list (map length args)"
  by (auto simp: ref_long_def split: sum.splits option.splits list.splits if_splits)

lemma ref_args_length: "length (fst (ref_args optstring longopts args)) \<le> sum_list (map length args)"
proof (induction optstring longopts args rule: ref_args.induct)
  case (2 optstring longopts e args)
  consider "e = ''--''" | "nonoption e" | (long) "e \<noteq> ''--''" "\<not> nonoption e" "longopts \<noteq> None \<and> char_at e 1 = CHR ''-''"
    | (short) "e \<noteq> ''--''" "\<not> nonoption e" "\<not> (longopts \<noteq> None \<and> char_at e 1 = CHR ''-'')"
    by blast
  then show ?case
  proof cases
    case long
    obtain r args' where r: "ref_long optstring (the longopts) (drop 2 e) args = (r, args')"
      by (cases "ref_long optstring (the longopts) (drop 2 e) args")
    have "length e \<ge> 1" using long(2) by (cases e) (auto simp: nonoption_def)
    moreover have "length (fst (ref_args optstring longopts args')) \<le> sum_list (map length args')"
      using 2(2) [OF long r [symmetric]] .
    ultimately show ?thesis
      using long r ref_long_length [OF r] by (simp add: split_def)
  next
    case short
    obtain rs args' where r: "ref_short optstring (tl e) args = (rs, args')" by (cases "ref_short optstring (tl e) args")
    have "length (fst (ref_args optstring longopts args')) \<le> sum_list (map length args')"
      using 2(3) [OF short r [symmetric]] .
    moreover have "fst (ref_args optstring longopts (e # args)) = rs @ fst (ref_args optstring longopts args')"
      using short r by (auto simp: split_def)
    ultimately show ?thesis
      using ref_short_length [OF r] by (simp del: ref_args.simps) linarith
  qed (use 2 in \<open>auto split: prod.splits\<close>)
qed simp

lemma getopt_first_call:
  fixes prog :: cstring and args :: "cstring list"
  assumes "plain_options optstring longopts"
  defines "st \<equiv> (getopt_statics (prog # args))
    \<lparr>first_nonopt := 1, last_nonopt := 1, ordering_of := PERMUTE, getopt_initialized := True\<rparr>"
  shows "getopt_calls n None optstring longopts (getopt_statics (prog # args)) = getopt_calls n None optstring longopts st"
    and "ready lng st [] [] args"
proof -
  have "getopt_internal None optstring longopts False (getopt_statics (prog # args)) =
      getopt_internal None optstring longopts False st"
    using assms(1) by (simp add: getopt_internal_def st_def getopt_statics_def getopt_initialize_def Let_def plain_options_def)
  then show "getopt_calls n None optstring longopts (getopt_statics (prog # args)) = getopt_calls n None optstring longopts st"
    by (cases n) simp_all
  show "ready lng st [] [] args"
    by (auto simp: ready_def st_def getopt_statics_def lays_def intro: exI [of _ "[prog]"])
qed

lemma getopt_reads:
  fixes prog :: cstring and args :: "cstring list"
  assumes "plain_options optstring longopts" "ref_args optstring longopts args = (rs, ops)" "length rs < n"
  shows "\<exists>final. getopt_calls n None optstring longopts (getopt_statics (prog # args)) = Some (rs, final) \<and>
    drop (optind final) (go_argv final) = ops \<and> mset (go_argv final) = mset (prog # args)"
proof -
  have "remaining optstring longopts [] [] args = (rs, ops)"
    using assms(2) by (simp add: remaining_def)
  from getopt_calls_remaining [OF getopt_first_call(2) [where prog = prog and args = args, OF assms(1)] assms(1) this assms(3),
      of None]
  show ?thesis
    unfolding getopt_first_call(1) [OF assms(1)] by (simp add: getopt_statics_def)
qed

section \<open>The options of cadaver\<close>

definition cadaver_optstring :: cstring where
  "cadaver_optstring = ''ehtp:r:V''"

definition cadaver_longopts :: "long_option list" where
  "cadaver_longopts =
    [\<lparr>lo_name = ''version'', lo_has_arg = 0, lo_flag = None, lo_val = char_int CHR ''V''\<rparr>,
     \<lparr>lo_name = ''help'', lo_has_arg = 0, lo_flag = None, lo_val = char_int CHR ''h''\<rparr>,
     \<lparr>lo_name = ''proxy'', lo_has_arg = 1, lo_flag = None, lo_val = char_int CHR ''p''\<rparr>,
     \<lparr>lo_name = ''tolerant'', lo_has_arg = 0, lo_flag = None, lo_val = char_int CHR ''t''\<rparr>,
     \<lparr>lo_name = ''rcfile'', lo_has_arg = 1, lo_flag = None, lo_val = char_int CHR ''r''\<rparr>]"

lemma cadaver_plain: "plain_options cadaver_optstring (Some cadaver_longopts)"
  by code_simp

lemma char_int_inject: "char_int c = char_int d \<longleftrightarrow> c = d"
proof
  assume "char_int c = char_int d"
  then have "take_bit 8 (int (code c)) = take_bit 8 (int (code d))"
    by (simp add: char_int_def signed_take_bit_eq_iff_take_bit_eq)
  then have "code c = code d" by (simp add: take_bit_int_eq_self)
  then show "c = d" by (simp add: code_eq_iff)
qed simp

text \<open>Where an argument is required, there is one.\<close>

definition takes_argument :: "int \<Rightarrow> bool" where
  "takes_argument c \<longleftrightarrow> c = char_int CHR ''p'' \<or> c = char_int CHR ''r''"

lemma short_argument_present:
  "ref_short cadaver_optstring cs args = (rs, args') \<Longrightarrow> (c, a) \<in> set rs \<Longrightarrow> takes_argument c \<Longrightarrow> a \<noteq> None"
proof (induction cadaver_optstring cs args arbitrary: rs rule: ref_short.induct)
  case (2 d cs args)
  have q: "\<not> takes_argument QUESTION" "\<not> takes_argument (missing_argument cadaver_optstring)"
    by code_simp+
  have k: "ref_kind cadaver_optstring d = Required" if "takes_argument (char_int d)"
    using that unfolding takes_argument_def char_int_inject by (elim disjE; simp; code_simp)
  show ?case
    using 2 q k by (cases "ref_kind cadaver_optstring d") (auto split: prod.splits if_splits list.splits)
qed simp

lemma long_argument_present:
  "ref_long cadaver_optstring cadaver_longopts text args = ((c, a), args') \<Longrightarrow> takes_argument c \<Longrightarrow> a \<noteq> None"
proof -
  assume r: "ref_long cadaver_optstring cadaver_longopts text args = ((c, a), args')" "takes_argument c"
  have q: "\<not> takes_argument QUESTION" "\<not> takes_argument (missing_argument cadaver_optstring)"
    "\<forall>p \<in> set cadaver_longopts. lo_has_arg p = 1 \<or> \<not> takes_argument (ref_value p)"
    by code_simp+
  show "a \<noteq> None"
  proof (cases "ref_resolve (long_name text) cadaver_longopts")
    case (Inl found)
    with r q ref_resolve_member show ?thesis
      by (cases found) (fastforce simp: ref_long_def split: if_splits list.splits)+
  qed (use r q in \<open>simp add: ref_long_def\<close>)
qed

lemma cadaver_option_argument:
  "(c, a) \<in> set (fst (ref_args cadaver_optstring (Some cadaver_longopts) args)) \<Longrightarrow> takes_argument c \<Longrightarrow> a \<noteq> None"
proof (induction cadaver_optstring "Some cadaver_longopts" args rule: ref_args.induct)
  case (2 e args)
  then show ?case
    by (auto split: if_splits prod.splits dest: short_argument_present long_argument_present)
qed simp

section \<open>Properties\<close>

text \<open>C10: The permuting parser is the reference parser: calls until the end, at most one for every
  byte of the arguments and one more, return the options and their arguments as they are read from
  the list, wherever they stand, leave the operands in their order behind \<open>optind\<close>, and only permute
  the elements of \<open>argv\<close>.\<close>

theorem getopt_reference:
  assumes "plain_options optstring longopts"
  shows "\<exists>final. getopt_calls (Suc (sum_list (map length args))) None optstring longopts (getopt_statics (prog # args)) =
        Some (fst (ref_args optstring longopts args), final) \<and>
      drop (optind final) (go_argv final) = snd (ref_args optstring longopts args) \<and>
      mset (go_argv final) = mset (prog # args)"
  using getopt_reads [OF assms, of args "fst (ref_args optstring longopts args)" "snd (ref_args optstring longopts args)"
      "Suc (sum_list (map length args))" prog] ref_args_length [of optstring longopts args]
  by (simp add: less_Suc_eq_le)

text \<open>The options after the URL, an abbreviated long option, and an operand after \<open>--\<close>.\<close>

theorem getopt_reference_witness:
  "(\<exists>final. getopt_calls 30 None cadaver_optstring (Some cadaver_longopts)
        (getopt_statics [''cadaver'', ''http://h/'', ''-tp'', ''proxy:1'', ''--rc=f'', ''--'', ''-h'']) =
      Some ([(116, None), (112, Some ''proxy:1''), (114, Some ''f'')], final) \<and>
      drop (optind final) (go_argv final) = [''http://h/'', ''-h''])"
proof -
  have n: "Suc (sum_list (map length [''http://h/'', ''-tp'', ''proxy:1'', ''--rc=f'', ''--'', ''-h''])) = 30"
    by simp
  have r: "ref_args cadaver_optstring (Some cadaver_longopts) [''http://h/'', ''-tp'', ''proxy:1'', ''--rc=f'', ''--'', ''-h''] =
      ([(116, None), (112, Some ''proxy:1''), (114, Some ''f'')], [''http://h/'', ''-h''])"
    by code_simp
  from getopt_reference [OF cadaver_plain, of "[''http://h/'', ''-tp'', ''proxy:1'', ''--rc=f'', ''--'', ''-h'']" "''cadaver''",
      unfolded n r fst_conv snd_conv]
  show ?thesis by blast
qed

end
