(* ===== verification/Arguments.thy ===== *)
theory Arguments
  imports Getopt Shell Glob_Frame
begin

text \<open>
  The arguments of the program: \<open>parse_args\<close> of \<open>src/cadaver.c\<close> with the calls of \<open>getopt_long\<close>,
  that is \<open>Getopt\<close> put in front of \<open>Shell\<close>.  The calls that come after an option that ends the
  program have no effect that lasts.
\<close>

definition cli_of :: "opt_result \<Rightarrow> cli_option" where
  "cli_of r = (case r of (optc, a) \<Rightarrow>
     if optc = char_int CHR ''h'' then Opt_help
     else if optc = char_int CHR ''V'' then Opt_version
     else if optc = char_int CHR ''p'' then Opt_proxy (the a)
     else if optc = char_int CHR ''t'' then Opt_tolerant
     else if optc = char_int CHR ''r'' then Opt_rcfile (the a)
     else Opt_other)"

definition read_arguments :: "cstring option \<Rightarrow> cstring list \<Rightarrow> (cli_option list \<times> cstring list) option" where
  "read_arguments env_posixly argv =
     map_option (\<lambda>(results, final). (map cli_of results, drop (optind final) (go_argv final)))
       (getopt_calls (Suc (sum_list (map length argv))) env_posixly cadaver_optstring (Some cadaver_longopts)
         (getopt_statics argv))"

definition command_line :: "'w program \<Rightarrow> cstring option \<Rightarrow> cstring list \<Rightarrow> ('w, cstring option option) handler_m" where
  "command_line P env_posixly argv =
     (case read_arguments env_posixly argv of
        None \<Rightarrow> undefined_behaviour None
      | Some (opts, args) \<Rightarrow> parse_args P opts args)"

section \<open>Lemmas\<close>

lemma read_arguments_reference:
  "read_arguments None (prog # args) =
     (case ref_args cadaver_optstring (Some cadaver_longopts) args of (rs, ops) \<Rightarrow> Some (map cli_of rs, ops))"
proof -
  obtain rs ops where r: "ref_args cadaver_optstring (Some cadaver_longopts) args = (rs, ops)"
    by (cases "ref_args cadaver_optstring (Some cadaver_longopts) args")
  have "length rs < Suc (sum_list (map length (prog # args)))"
    using ref_args_length [of cadaver_optstring "Some cadaver_longopts" args] by (simp add: r)
  from getopt_reads [OF cadaver_plain r this, of prog] show ?thesis
    by (auto simp: read_arguments_def r)
qed

text \<open>An option that ends the program, \<open>-e\<close> among them: it is in the string of the options, but
  the switch has no case for it.\<close>

definition ends_program :: "opt_result \<Rightarrow> bool" where
  "ends_program r \<longleftrightarrow> cli_of r \<in> {Opt_help, Opt_version, Opt_other}"

lemma option_e_ends: "ends_program (char_int CHR ''e'', None)"
  by code_simp

lemma parse_opts_ends:
  "opt \<in> set opts \<Longrightarrow> opt \<in> {Opt_help, Opt_version, Opt_other} \<Longrightarrow> fst (run_state (parse_opts P opts rc) s) = None"
proof (induction opts arbitrary: rc s)
  case (Cons p opts)
  then show ?case by (cases p) (auto simp: split_def)
qed simp

text \<open>Events and what is left of the connection.\<close>

definition offline :: "'w shell \<Rightarrow> 'w shell \<Rightarrow> bool" where
  "offline s t \<longleftrightarrow> grows_by shown s t \<and> s_connected t = s_connected s \<and> s_sess t = s_sess s \<and> s_world t = s_world s"

interpretation ol: state_relation offline
  by unfold_locales (auto simp: offline_def gr.R_refl intro: gr.R_trans)

lemma offline_basic:
  "ol.keeps (say t)" "ol.keeps (set_proxy p)" "ol.keeps (execute_about E v)"
  "(\<And>s. s_trace (f s) = s_trace s \<and> s_connected (f s) = s_connected s \<and> s_sess (f s) = s_sess s \<and> s_world (f s) = s_world s)
     \<Longrightarrow> ol.keeps (modify f)"
proof -
  show says: "ol.keeps (say t)" for t
    by (auto simp: ol.keeps_def offline_def grows_by_def say_def note_event_def)
  show mods: "ol.keeps (modify f)" if
      "\<And>s. s_trace (f s) = s_trace s \<and> s_connected (f s) = s_connected s \<and> s_sess (f s) = s_sess s \<and> s_world (f s) = s_world s" for f
    using that by (simp add: ol.keeps_def offline_def grows_by_def)
  show "ol.keeps (set_proxy p)" "ol.keeps (execute_about E v)"
    unfolding set_proxy_def execute_about_def
    by (auto intro!: ol.keeps_intros says mods split: option.split)
qed

lemma parse_opts_offline: "ol.keeps (parse_opts P opts rc)"
proof (induction opts arbitrary: rc)
  case (Cons p opts)
  then show ?case
    by (cases p) (auto intro!: ol.keeps_intros offline_basic)
qed (simp add: ol.keeps_return)

section \<open>Properties\<close>

text \<open>C14: Wherever it stands among the arguments, an option that is not known, an ambiguous or
  incomplete one, \<open>--help\<close>, \<open>--version\<close> or \<open>-e\<close> ends the program before anything is sent: the URL
  given with it is not opened, and only text for the user is written.\<close>

theorem bad_option_sends_nothing:
  assumes "r \<in> set (fst (ref_args cadaver_optstring (Some cadaver_longopts) args))" "ends_program r"
  shows "fst (run_state (command_line P None (prog # args)) s) = None \<and>
    offline s (snd (run_state (command_line P None (prog # args)) s))"
proof -
  obtain rs ops where ref: "ref_args cadaver_optstring (Some cadaver_longopts) args = (rs, ops)"
    by (cases "ref_args cadaver_optstring (Some cadaver_longopts) args")
  then have line: "command_line P None (prog # args) = parse_args P (map cli_of rs) ops"
    by (simp add: command_line_def read_arguments_reference)
  have "fst (run_state (parse_opts P (map cli_of rs) None) s) = None"
    using assms ref by (intro parse_opts_ends [of "cli_of r"]) (auto simp: ends_program_def)
  moreover have "offline s (snd (run_state (parse_opts P (map cli_of rs) None) s))"
    using ol.keepsD [OF parse_opts_offline surjective_pairing] .
  ultimately show ?thesis
    unfolding line parse_args_def by (simp add: split_def)
qed

text \<open>A URL, a proxy, and an option that is a typing error.\<close>

theorem bad_option_sends_nothing_witness:
  "fst (run_state (command_line sample_program None [''cadaver'', ''h'', ''-p'', ''proxy:1'', ''--tolerent'']) sample_start) = None \<and>
   offline sample_start
     (snd (run_state (command_line sample_program None [''cadaver'', ''h'', ''-p'', ''proxy:1'', ''--tolerent'']) sample_start))"
proof (rule bad_option_sends_nothing [of "(QUESTION, None)"])
  show "(QUESTION, None) \<in> set (fst (ref_args cadaver_optstring (Some cadaver_longopts) [''h'', ''-p'', ''proxy:1'', ''--tolerent'']))"
    by code_simp
  show "ends_program (QUESTION, None)" by code_simp
qed

end
