(* ===== verification/Session_Spec.thy ===== *)
theory Session_Spec
  imports Shell
begin

text \<open>
  What the user may rely on, abstractly: where a shell is, which commands can change that, and
  that \<open>quit\<close> is obeyed.  The detailed handlers refine this machine.
\<close>

section \<open>The abstract machine\<close>

datatype place = Offline | At cstring cstring

inductive place_step :: "command_id \<Rightarrow> place \<Rightarrow> place \<Rightarrow> bool" where
  stay: "place_step c p p"
| change_collection: "place_step cmd_cd (At h p) (At h q)"
| disconnect: "place_step cmd_close p Offline"
| connect: "place_step cmd_open p q"

inductive_simps place_step_simps:
  "place_step cmd_cd p q" "place_step cmd_close p q" "place_step cmd_ls p q"

text \<open>The abstraction of a state.\<close>

definition abs_place :: "'w shell \<Rightarrow> place" where
  "abs_place s =
     (if s_connected s then At (str_or_null (u_host (s_uri s))) (path_of (s_uri s)) else Offline)"

section \<open>The handlers refine it\<close>

definition same_place :: "'w shell \<Rightarrow> 'w shell \<Rightarrow> bool" where
  "same_place s t \<longleftrightarrow> s_connected t = s_connected s \<and> s_uri t = s_uri s"

interpretation pl: state_relation same_place
  by unfold_locales (auto simp: same_place_def)

lemma pl_ss: "ss.keeps m \<Longrightarrow> pl.keeps m"
  by (rule pl.keepsI) (simp add: same_place_def run_ss)

lemmas pl_handlers = ss_handlers [THEN pl_ss]

lemmas pl_basic =
  pl.keeps_intros keeps_say(2) [THEN pl_ss] keeps_ub(2) [THEN pl_ss] keeps_world_op(2) [THEN pl_ss]

lemma pl_need: "(\<And>a. pl.keeps (f a)) \<Longrightarrow> pl.keeps (need x f)"
  unfolding need_def by (auto intro!: pl_basic split: option.split)

lemma pl_option_call: "pl.keeps (option_call f)"
proof -
  have "pl.keeps (modify (\<lambda>s. s\<lparr>s_opts := st\<rparr>) :: ('w shell, unit) state)" for st
    by (rule pl.keepsI) (simp add: same_place_def)
  then show ?thesis unfolding option_call_def by (auto intro!: pl_basic split: option.split)
qed

lemma pl_run:
  "f \<noteq> close_connection_fn \<Longrightarrow> pl.keeps (run0 P f)"
  "g \<noteq> cd_fn \<Longrightarrow> g \<noteq> open_connection_fn \<Longrightarrow> pl.keeps (run1 P g a)"
  "pl.keeps (run2 P h a b)" "pl.keeps (run3 P k a b c)" "pl.keeps (runV P v t argv)"
proof -
  show "f \<noteq> close_connection_fn \<Longrightarrow> pl.keeps (run0 P f)"
    unfolding run0_def by (cases f; simp add: pl_handlers)
  show "g \<noteq> cd_fn \<Longrightarrow> g \<noteq> open_connection_fn \<Longrightarrow> pl.keeps (run1 P g a)"
    unfolding run1_def Let_def by (cases g; simp add: pl_handlers pl_basic pl_need)
  show "pl.keeps (run2 P h a b)"
    unfolding run2_def Let_def by (cases h; simp add: pl_handlers pl_need pl_option_call)
  show "pl.keeps (run3 P k a b c)"
    unfolding run3_def by (cases k; simp add: pl_handlers pl_need)
  show "pl.keeps (runV P v t argv)"
    unfolding runV_def Let_def by (cases v; simp add: pl_handlers)
qed

lemma pl_call_handler:
  "c_handler cmd \<notin> {T0 close_connection_fn, T1 cd_fn, T1 open_connection_fn} \<Longrightarrow>
     pl.keeps (call_handler P cmd t args)"
  unfolding call_handler_def
  by (auto intro!: pl_basic pl_run split: cmd_handler.split)

lemma same_place_step: "same_place s t \<Longrightarrow> place_step c (abs_place s) (abs_place t)"
  by (simp add: same_place_def abs_place_def place_step.stay)

text \<open>The handlers that move the user belong to the commands of the machine.\<close>

lemma moving_commands:
  "c \<in> set commands \<Longrightarrow>
     (c_handler c = T0 close_connection_fn \<longrightarrow> c_id c = cmd_close \<and> max_args c = 0) \<and>
     (c_handler c = T1 cd_fn \<longrightarrow> c_id c = cmd_cd \<and> max_args c = 1) \<and>
     (c_handler c = T1 open_connection_fn \<longrightarrow> c_id c = cmd_open \<and> max_args c = 1)"
proof -
  have "list_all (\<lambda>c.
     (c_handler c = T0 close_connection_fn \<longrightarrow> c_id c = cmd_close \<and> max_args c = 0) \<and>
     (c_handler c = T1 cd_fn \<longrightarrow> c_id c = cmd_cd \<and> max_args c = 1) \<and>
     (c_handler c = T1 open_connection_fn \<longrightarrow> c_id c = cmd_open \<and> max_args c = 1)) commands"
    by (simp add: commands_def)
  then show "c \<in> set commands \<Longrightarrow>
     (c_handler c = T0 close_connection_fn \<longrightarrow> c_id c = cmd_close \<and> max_args c = 0) \<and>
     (c_handler c = T1 cd_fn \<longrightarrow> c_id c = cmd_cd \<and> max_args c = 1) \<and>
     (c_handler c = T1 open_connection_fn \<longrightarrow> c_id c = cmd_open \<and> max_args c = 1)"
    unfolding list_all_iff by blast
qed

text \<open>\<open>cd\<close> keeps the connection and the host.\<close>

definition same_host :: "'w shell \<Rightarrow> 'w shell \<Rightarrow> bool" where
  "same_host s t \<longleftrightarrow> s_connected t = s_connected s \<and> u_host (s_uri t) = u_host (s_uri s)"

interpretation ho: state_relation same_host
  by unfold_locales (auto simp: same_host_def)

lemma ho_ss: "ss.keeps m \<Longrightarrow> ho.keeps m"
  by (rule ho.keepsI) (simp add: same_host_def run_ss)

lemma ho_modify: "(\<And>s. same_host s (f s)) \<Longrightarrow> ho.keeps (modify f)"
  by (rule ho.keepsI) simp

lemma ho_cd: "ho.keeps (execute_cd E p)"
  unfolding execute_cd_def
  by (auto intro!: ho.keeps_intros keeps_say(2) [THEN ho_ss] keeps_ub(2) [THEN ho_ss]
      set_path_frames(1) [THEN ho_ss] keeps_paths(14) [THEN ho_ss] ho_modify simp: same_host_def
      split: owned.split)

lemma cd_step:
  assumes "s_connected s"
  shows "place_step cmd_cd (abs_place s) (abs_place (snd (run_state (need a (execute_cd E)) s)))"
proof -
  have "ho.keeps (need a (execute_cd E))"
    unfolding need_def by (auto intro!: ho_cd keeps_ub(2) [THEN ho_ss] split: option.split)
  from ho.keepsD [OF this surjective_pairing, of s] assms show ?thesis
    by (simp add: same_host_def abs_place_def place_step.change_collection)
qed

lemma close_step: "place_step cmd_close (abs_place s) (abs_place (snd (run_state (close_connection E) s)))"
  by (simp add: abs_place_def close_connection_closed place_step.disconnect)

lemma call_handler_step:
  assumes "c \<in> set commands" "s_connected s \<or> \<not> needs_connection c"
  shows "place_step (c_id c) (abs_place s) (abs_place (snd (run_state (call_handler P c t args) s)))"
proof (cases "c_handler c \<in> {T0 close_connection_fn, T1 cd_fn, T1 open_connection_fn}")
  case False
  then show ?thesis
    using pl.keepsD [OF pl_call_handler surjective_pairing] same_place_step by blast
next
  case True
  then consider "c_handler c = T0 close_connection_fn" | "c_handler c = T1 cd_fn"
    | "c_handler c = T1 open_connection_fn" by blast
  then show ?thesis
  proof cases
    case 1
    with moving_commands [OF assms(1)] show ?thesis
      by (simp add: call_handler_def run0_def close_step)
  next
    case 2
    then have "c_handler c \<notin> set local_handlers" by (simp add: local_handlers_def)
    then have "s_connected s" using assms local_commands by blast
    with 2 moving_commands [OF assms(1)] show ?thesis
      by (simp add: call_handler_def run1_def Let_def cd_step)
  next
    case 3
    with moving_commands [OF assms(1)] show ?thesis by (simp add: place_step.connect)
  qed
qed

section \<open>Properties\<close>

text \<open>C22: Every command refines the machine: from the user's place before to the place after is a
  step of the command that was named.  So the host changes by \<open>open\<close> only, the collection by
  \<open>open\<close> and \<open>cd\<close>, the connection ends by \<open>close\<close> or \<open>open\<close>, and any other command, whatever the
  server answers to it, leaves the user where he was.\<close>

theorem commands_refine_place:
  assumes "get_command token = Some c"
  shows "place_step (c_id c) (abs_place s) (abs_place (snd (run_state (execute_tokens P token args) s)))"
proof -
  have "c \<in> set commands" using assms get_command_iff by blast
  then show ?thesis
    using assms call_handler_step [of c s P token args]
    by (auto simp: execute_tokens_def split_def abs_place_def place_step.stay)
qed

theorem commands_refine_place_witness:
  "abs_place (snd (run_state (execute_tokens sample_program ''ls'' []) sample_shell)) = At ''h'' ''/d/''"
proof -
  define c where "c = cmd_row cmd_ls ''ls'' True 0 1 parmscope_remote (T1 ls_fn)
       ''ls [path]'' (Some ''List contents of current [or other] collection'')"
  have "c \<in> set commands" by (simp add: c_def commands_def)
  from get_command_own_name [OF this] have "get_command ''ls'' = Some c" by (simp add: c_def)
  from commands_refine_place [OF this, of sample_shell sample_program "[]"]
  show ?thesis
    by (simp add: c_def place_step_simps abs_place_def sample_shell_def path_of_def str_or_null_def)
qed

text \<open>The line \<open>quit\<close> as a command.\<close>

lemma quit_tokens: "parse_command glob connected ''quit'' w = ([''quit''], [], w)"
proof -
  have a: "gettoken ''quit'' = (Some ''quit'', [])" by code_simp
  obtain r where b: "gettoken [] = (None, r)"
  proof -
    have "fst (gettoken []) = None" by code_simp
    then show ?thesis using that by (metis prod.collapse)
  qed
  show ?thesis
    unfolding parse_command_def
    by (subst parse_loop.simps, simp add: a, subst parse_loop.simps) (simp add: b)
qed

lemma quit_command: "\<exists>c. get_command ''quit'' = Some c \<and> c_id c = cmd_quit \<and> min_args c = 0 \<and> \<not> needs_connection c"
proof -
  define c where "c = cmd_row cmd_quit ''quit'' False 0 1 parmscope_none (T1 no_fn)
       ''quit'' (Some ''Exit program'')"
  have "c \<in> set commands" by (simp add: c_def commands_def)
  from get_command_own_name [OF this] show ?thesis by (auto simp: c_def)
qed

lemma execute_quit: "run_state (execute_command P ''quit'') s = (True, s)"
  using quit_command
  by (auto simp: execute_command_def read_tokens_def quit_tokens execute_tokens_def world_op_def)

text \<open>C23: The user can always leave: when the line read at the prompt is \<open>quit\<close>, the loop of \<open>main\<close>
  ends with it, connected or not, and what follows in the input is left unread.\<close>

theorem quit_is_obeyed:
  assumes "run_state (read_command P) s = (Some ''quit'', t)"
  shows "run_state (main_loop (Suc n) P) s = (True, t)"
  using assms by (simp add: execute_quit)

definition quitting :: "sample shell" where
  "quitting = sample_start\<lparr>s_input := ''quit\<newline>ls\<newline>''\<rparr>"

theorem quit_is_obeyed_witness:
  "let r = run_state (main_loop 5 sample_program) quitting in fst r \<and> s_input (snd r) = ''ls\<newline>''"
proof -
  have "fst (run_state (read_command sample_program) quitting) = Some ''quit''
      \<and> s_input (snd (run_state (read_command sample_program) quitting)) = ''ls\<newline>''"
    by code_simp
  then obtain t where t: "run_state (read_command sample_program) quitting = (Some ''quit'', t)"
    and left: "s_input t = ''ls\<newline>''" by (metis prod.collapse)
  from quit_is_obeyed [OF t, of 4] left show ?thesis by simp
qed

end
