(* ===== verification/Xml_Role.thy ===== *)
theory Xml_Role
  imports Cprelude "HOL-Library.Word"
begin

text \<open>
  The prolog of an XML document in the bundled expat (\<open>lib/expat/xmltok/xmlrole.c\<close>): the state
  machine that gives each token of the document type declaration its role.  A state of the machine
  is a pointer to the function that takes the next token; it may count the groups of a content
  model that are open.
\<close>

section \<open>Tokens, roles and states\<close>

text \<open>
  The enumerations have about fifty constructors each: no plugin of the datatype package is run on
  them, since the equations of its instances would outnumber the rest of the theory.
\<close>

datatype (plugins only:) xml_tok =
    XML_TOK_TRAILING_RSQB | XML_TOK_NONE | XML_TOK_TRAILING_CR | XML_TOK_PARTIAL_CHAR
  | XML_TOK_PARTIAL | XML_TOK_INVALID | XML_TOK_START_TAG_WITH_ATTS | XML_TOK_START_TAG_NO_ATTS
  | XML_TOK_EMPTY_ELEMENT_WITH_ATTS | XML_TOK_EMPTY_ELEMENT_NO_ATTS | XML_TOK_END_TAG
  | XML_TOK_DATA_CHARS | XML_TOK_DATA_NEWLINE | XML_TOK_CDATA_SECT_OPEN | XML_TOK_ENTITY_REF
  | XML_TOK_CHAR_REF | XML_TOK_PI | XML_TOK_XML_DECL | XML_TOK_COMMENT | XML_TOK_BOM
  | XML_TOK_PROLOG_S | XML_TOK_DECL_OPEN | XML_TOK_DECL_CLOSE | XML_TOK_NAME | XML_TOK_NMTOKEN
  | XML_TOK_POUND_NAME | XML_TOK_OR | XML_TOK_PERCENT | XML_TOK_OPEN_PAREN | XML_TOK_CLOSE_PAREN
  | XML_TOK_OPEN_BRACKET | XML_TOK_CLOSE_BRACKET | XML_TOK_LITERAL | XML_TOK_PARAM_ENTITY_REF
  | XML_TOK_INSTANCE_START | XML_TOK_NAME_QUESTION | XML_TOK_NAME_ASTERISK | XML_TOK_NAME_PLUS
  | XML_TOK_COND_SECT_OPEN | XML_TOK_COND_SECT_CLOSE | XML_TOK_CLOSE_PAREN_QUESTION
  | XML_TOK_CLOSE_PAREN_ASTERISK | XML_TOK_CLOSE_PAREN_PLUS | XML_TOK_COMMA
  | XML_TOK_ATTRIBUTE_VALUE_S | XML_TOK_CDATA_SECT_CLOSE | XML_TOK_PREFIXED_NAME
  | XML_TOK_IGNORE_SECT

datatype (plugins only:) xml_role =
    XML_ROLE_ERROR | XML_ROLE_NONE | XML_ROLE_XML_DECL | XML_ROLE_INSTANCE_START
  | XML_ROLE_DOCTYPE_NAME | XML_ROLE_DOCTYPE_SYSTEM_ID | XML_ROLE_DOCTYPE_PUBLIC_ID
  | XML_ROLE_DOCTYPE_CLOSE | XML_ROLE_GENERAL_ENTITY_NAME | XML_ROLE_PARAM_ENTITY_NAME
  | XML_ROLE_ENTITY_VALUE | XML_ROLE_ENTITY_SYSTEM_ID | XML_ROLE_ENTITY_PUBLIC_ID
  | XML_ROLE_ENTITY_NOTATION_NAME | XML_ROLE_NOTATION_NAME | XML_ROLE_NOTATION_SYSTEM_ID
  | XML_ROLE_NOTATION_NO_SYSTEM_ID | XML_ROLE_NOTATION_PUBLIC_ID | XML_ROLE_ATTRIBUTE_NAME
  | XML_ROLE_ATTRIBUTE_TYPE_CDATA | XML_ROLE_ATTRIBUTE_TYPE_ID | XML_ROLE_ATTRIBUTE_TYPE_IDREF
  | XML_ROLE_ATTRIBUTE_TYPE_IDREFS | XML_ROLE_ATTRIBUTE_TYPE_ENTITY
  | XML_ROLE_ATTRIBUTE_TYPE_ENTITIES | XML_ROLE_ATTRIBUTE_TYPE_NMTOKEN
  | XML_ROLE_ATTRIBUTE_TYPE_NMTOKENS | XML_ROLE_ATTRIBUTE_ENUM_VALUE
  | XML_ROLE_ATTRIBUTE_NOTATION_VALUE | XML_ROLE_ATTLIST_ELEMENT_NAME
  | XML_ROLE_IMPLIED_ATTRIBUTE_VALUE | XML_ROLE_REQUIRED_ATTRIBUTE_VALUE
  | XML_ROLE_DEFAULT_ATTRIBUTE_VALUE | XML_ROLE_FIXED_ATTRIBUTE_VALUE | XML_ROLE_ELEMENT_NAME
  | XML_ROLE_CONTENT_ANY | XML_ROLE_CONTENT_EMPTY | XML_ROLE_CONTENT_PCDATA | XML_ROLE_GROUP_OPEN
  | XML_ROLE_GROUP_CLOSE | XML_ROLE_GROUP_CLOSE_REP | XML_ROLE_GROUP_CLOSE_OPT
  | XML_ROLE_GROUP_CLOSE_PLUS | XML_ROLE_GROUP_CHOICE | XML_ROLE_GROUP_SEQUENCE
  | XML_ROLE_CONTENT_ELEMENT | XML_ROLE_CONTENT_ELEMENT_REP | XML_ROLE_CONTENT_ELEMENT_OPT
  | XML_ROLE_CONTENT_ELEMENT_PLUS | XML_ROLE_TEXT_DECL | XML_ROLE_IGNORE_SECT
  | XML_ROLE_INNER_PARAM_ENTITY_REF | XML_ROLE_PARAM_ENTITY_REF

text \<open>The functions that \<open>handler\<close> may point to.\<close>

datatype (plugins only:) prolog_handler =
    H_prolog0 | H_prolog1 | H_prolog2 | H_doctype0 | H_doctype1 | H_doctype2 | H_doctype3
  | H_doctype4 | H_doctype5 | H_internalSubset | H_entity0 | H_entity1 | H_entity2 | H_entity3
  | H_entity4 | H_entity5 | H_entity6 | H_entity7 | H_entity8 | H_entity9 | H_notation0
  | H_notation1 | H_notation2 | H_notation3 | H_notation4 | H_attlist0 | H_attlist1 | H_attlist2
  | H_attlist3 | H_attlist4 | H_attlist5 | H_attlist6 | H_attlist7 | H_attlist8 | H_attlist9
  | H_element0 | H_element1 | H_element2 | H_element3 | H_element4 | H_element5 | H_element6
  | H_element7 | H_externalSubset0 | H_externalSubset1 | H_condSect0 | H_condSect1 | H_condSect2
  | H_declClose | H_error

text \<open>
  \<open>PROLOG_STATE\<close> with the fields of \<open>XML_DTD\<close>; without that macro the code is the one for a
  document entity.
\<close>

record prolog_state =
  handler :: prolog_handler
  level :: "32 word"
  includeLevel :: "32 word"
  documentEntity :: bool

section \<open>Names\<close>

text \<open>What \<open>xmlrole.c\<close> uses of an encoding; the bytes of a token are those from \<open>ptr\<close> to \<open>end\<close>.\<close>

record xml_encoding =
  minBytesPerChar :: nat
  char_matches :: "cstring \<Rightarrow> char \<Rightarrow> bool"

definition ascii_encoding :: xml_encoding where
  "ascii_encoding = \<lparr>minBytesPerChar = 1, char_matches = (\<lambda>p c. case p of a # r \<Rightarrow> a = c | [] \<Rightarrow> False)\<rparr>"

definition little2_encoding :: xml_encoding where
  "little2_encoding = \<lparr>minBytesPerChar = 2,
     char_matches = (\<lambda>p c. case p of a # b # r \<Rightarrow> b = CHR 0x00 \<and> a = c | _ \<Rightarrow> False)\<rparr>"

definition big2_encoding :: xml_encoding where
  "big2_encoding = \<lparr>minBytesPerChar = 2,
     char_matches = (\<lambda>p c. case p of a # b # r \<Rightarrow> a = CHR 0x00 \<and> b = c | _ \<Rightarrow> False)\<rparr>"

fun nameMatchesAscii :: "xml_encoding \<Rightarrow> cstring \<Rightarrow> cstring \<Rightarrow> bool" where
  "nameMatchesAscii enc ptr1 [] \<longleftrightarrow> ptr1 = []"
| "nameMatchesAscii enc ptr1 (c # ptr2) \<longleftrightarrow>
     ptr1 \<noteq> [] \<and> char_matches enc ptr1 c \<and> nameMatchesAscii enc (drop (minBytesPerChar enc) ptr1) ptr2"

text \<open>\<open>XmlNameMatchesAscii\<close> after the given number of characters of the token.\<close>

definition name_at :: "xml_encoding \<Rightarrow> nat \<Rightarrow> cstring \<Rightarrow> cstring \<Rightarrow> bool" where
  "name_at enc k txt name \<longleftrightarrow> nameMatchesAscii enc (drop (k * minBytesPerChar enc) txt) name"

section \<open>The handlers\<close>

type_synonym role_fn =
  "xml_encoding \<Rightarrow> prolog_state \<Rightarrow> xml_tok \<Rightarrow> cstring \<Rightarrow> xml_role \<times> prolog_state"

definition setTopLevel :: "prolog_state \<Rightarrow> prolog_state" where
  "setTopLevel st = st\<lparr>handler := (if documentEntity st then H_internalSubset else H_externalSubset1)\<rparr>"

definition common :: "prolog_state \<Rightarrow> xml_tok \<Rightarrow> xml_role \<times> prolog_state" where
  "common st tok =
     (if \<not> documentEntity st \<and> tok = XML_TOK_PARAM_ENTITY_REF then (XML_ROLE_INNER_PARAM_ENTITY_REF, st)
      else (XML_ROLE_ERROR, st\<lparr>handler := H_error\<rparr>))"

definition prolog0 :: role_fn where
  "prolog0 enc st tok txt =
     (case tok of
        XML_TOK_PROLOG_S \<Rightarrow> (XML_ROLE_NONE, st\<lparr>handler := H_prolog1\<rparr>)
      | XML_TOK_XML_DECL \<Rightarrow> (XML_ROLE_XML_DECL, st\<lparr>handler := H_prolog1\<rparr>)
      | XML_TOK_PI \<Rightarrow> (XML_ROLE_NONE, st\<lparr>handler := H_prolog1\<rparr>)
      | XML_TOK_COMMENT \<Rightarrow> (XML_ROLE_NONE, st\<lparr>handler := H_prolog1\<rparr>)
      | XML_TOK_BOM \<Rightarrow> (XML_ROLE_NONE, st)
      | XML_TOK_DECL_OPEN \<Rightarrow> if \<not> name_at enc 2 txt ''DOCTYPE'' then common st tok
        else (XML_ROLE_NONE, st\<lparr>handler := H_doctype0\<rparr>)
      | XML_TOK_INSTANCE_START \<Rightarrow> (XML_ROLE_INSTANCE_START, st\<lparr>handler := H_error\<rparr>)
      | _ \<Rightarrow> common st tok)"

definition prolog1 :: role_fn where
  "prolog1 enc st tok txt =
     (case tok of
        XML_TOK_PROLOG_S \<Rightarrow> (XML_ROLE_NONE, st)
      | XML_TOK_PI \<Rightarrow> (XML_ROLE_NONE, st)
      | XML_TOK_COMMENT \<Rightarrow> (XML_ROLE_NONE, st)
      | XML_TOK_BOM \<Rightarrow> (XML_ROLE_NONE, st)
      | XML_TOK_DECL_OPEN \<Rightarrow> if \<not> name_at enc 2 txt ''DOCTYPE'' then common st tok
        else (XML_ROLE_NONE, st\<lparr>handler := H_doctype0\<rparr>)
      | XML_TOK_INSTANCE_START \<Rightarrow> (XML_ROLE_INSTANCE_START, st\<lparr>handler := H_error\<rparr>)
      | _ \<Rightarrow> common st tok)"

definition prolog2 :: role_fn where
  "prolog2 enc st tok txt =
     (case tok of
        XML_TOK_PROLOG_S \<Rightarrow> (XML_ROLE_NONE, st)
      | XML_TOK_PI \<Rightarrow> (XML_ROLE_NONE, st)
      | XML_TOK_COMMENT \<Rightarrow> (XML_ROLE_NONE, st)
      | XML_TOK_INSTANCE_START \<Rightarrow> (XML_ROLE_INSTANCE_START, st\<lparr>handler := H_error\<rparr>)
      | _ \<Rightarrow> common st tok)"

definition doctype0 :: role_fn where
  "doctype0 enc st tok txt =
     (case tok of
        XML_TOK_PROLOG_S \<Rightarrow> (XML_ROLE_NONE, st)
      | XML_TOK_NAME \<Rightarrow> (XML_ROLE_DOCTYPE_NAME, st\<lparr>handler := H_doctype1\<rparr>)
      | XML_TOK_PREFIXED_NAME \<Rightarrow> (XML_ROLE_DOCTYPE_NAME, st\<lparr>handler := H_doctype1\<rparr>)
      | _ \<Rightarrow> common st tok)"

definition doctype1 :: role_fn where
  "doctype1 enc st tok txt =
     (case tok of
        XML_TOK_PROLOG_S \<Rightarrow> (XML_ROLE_NONE, st)
      | XML_TOK_OPEN_BRACKET \<Rightarrow> (XML_ROLE_NONE, st\<lparr>handler := H_internalSubset\<rparr>)
      | XML_TOK_DECL_CLOSE \<Rightarrow> (XML_ROLE_DOCTYPE_CLOSE, st\<lparr>handler := H_prolog2\<rparr>)
      | XML_TOK_NAME \<Rightarrow> if name_at enc 0 txt ''SYSTEM'' then (XML_ROLE_NONE, st\<lparr>handler := H_doctype3\<rparr>)
        else if name_at enc 0 txt ''PUBLIC'' then (XML_ROLE_NONE, st\<lparr>handler := H_doctype2\<rparr>)
        else common st tok
      | _ \<Rightarrow> common st tok)"

definition doctype2 :: role_fn where
  "doctype2 enc st tok txt =
     (case tok of
        XML_TOK_PROLOG_S \<Rightarrow> (XML_ROLE_NONE, st)
      | XML_TOK_LITERAL \<Rightarrow> (XML_ROLE_DOCTYPE_PUBLIC_ID, st\<lparr>handler := H_doctype3\<rparr>)
      | _ \<Rightarrow> common st tok)"

definition doctype3 :: role_fn where
  "doctype3 enc st tok txt =
     (case tok of
        XML_TOK_PROLOG_S \<Rightarrow> (XML_ROLE_NONE, st)
      | XML_TOK_LITERAL \<Rightarrow> (XML_ROLE_DOCTYPE_SYSTEM_ID, st\<lparr>handler := H_doctype4\<rparr>)
      | _ \<Rightarrow> common st tok)"

definition doctype4 :: role_fn where
  "doctype4 enc st tok txt =
     (case tok of
        XML_TOK_PROLOG_S \<Rightarrow> (XML_ROLE_NONE, st)
      | XML_TOK_OPEN_BRACKET \<Rightarrow> (XML_ROLE_NONE, st\<lparr>handler := H_internalSubset\<rparr>)
      | XML_TOK_DECL_CLOSE \<Rightarrow> (XML_ROLE_DOCTYPE_CLOSE, st\<lparr>handler := H_prolog2\<rparr>)
      | _ \<Rightarrow> common st tok)"

definition doctype5 :: role_fn where
  "doctype5 enc st tok txt =
     (case tok of
        XML_TOK_PROLOG_S \<Rightarrow> (XML_ROLE_NONE, st)
      | XML_TOK_DECL_CLOSE \<Rightarrow> (XML_ROLE_DOCTYPE_CLOSE, st\<lparr>handler := H_prolog2\<rparr>)
      | _ \<Rightarrow> common st tok)"

definition internalSubset :: role_fn where
  "internalSubset enc st tok txt =
     (case tok of
        XML_TOK_PROLOG_S \<Rightarrow> (XML_ROLE_NONE, st)
      | XML_TOK_DECL_OPEN \<Rightarrow> if name_at enc 2 txt ''ENTITY'' then (XML_ROLE_NONE, st\<lparr>handler := H_entity0\<rparr>)
        else if name_at enc 2 txt ''ATTLIST'' then (XML_ROLE_NONE, st\<lparr>handler := H_attlist0\<rparr>)
        else if name_at enc 2 txt ''ELEMENT'' then (XML_ROLE_NONE, st\<lparr>handler := H_element0\<rparr>)
        else if name_at enc 2 txt ''NOTATION'' then (XML_ROLE_NONE, st\<lparr>handler := H_notation0\<rparr>)
        else common st tok
      | XML_TOK_PI \<Rightarrow> (XML_ROLE_NONE, st)
      | XML_TOK_COMMENT \<Rightarrow> (XML_ROLE_NONE, st)
      | XML_TOK_PARAM_ENTITY_REF \<Rightarrow> (XML_ROLE_PARAM_ENTITY_REF, st)
      | XML_TOK_CLOSE_BRACKET \<Rightarrow> (XML_ROLE_NONE, st\<lparr>handler := H_doctype5\<rparr>)
      | _ \<Rightarrow> common st tok)"

definition externalSubset1 :: role_fn where
  "externalSubset1 enc st tok txt =
     (case tok of
        XML_TOK_COND_SECT_OPEN \<Rightarrow> (XML_ROLE_NONE, st\<lparr>handler := H_condSect0\<rparr>)
      | XML_TOK_COND_SECT_CLOSE \<Rightarrow>
          if includeLevel st = 0 then common st tok
          else (XML_ROLE_NONE, st\<lparr>includeLevel := includeLevel st - 1\<rparr>)
      | XML_TOK_PROLOG_S \<Rightarrow> (XML_ROLE_NONE, st)
      | XML_TOK_CLOSE_BRACKET \<Rightarrow> common st tok
      | XML_TOK_NONE \<Rightarrow> if includeLevel st \<noteq> 0 then common st tok else (XML_ROLE_NONE, st)
      | _ \<Rightarrow> internalSubset enc st tok txt)"

definition externalSubset0 :: role_fn where
  "externalSubset0 enc st tok txt =
     (let st = st\<lparr>handler := H_externalSubset1\<rparr>
      in if tok = XML_TOK_XML_DECL then (XML_ROLE_TEXT_DECL, st) else externalSubset1 enc st tok txt)"

definition entity0 :: role_fn where
  "entity0 enc st tok txt =
     (case tok of
        XML_TOK_PROLOG_S \<Rightarrow> (XML_ROLE_NONE, st)
      | XML_TOK_PERCENT \<Rightarrow> (XML_ROLE_NONE, st\<lparr>handler := H_entity1\<rparr>)
      | XML_TOK_NAME \<Rightarrow> (XML_ROLE_GENERAL_ENTITY_NAME, st\<lparr>handler := H_entity2\<rparr>)
      | _ \<Rightarrow> common st tok)"

definition entity1 :: role_fn where
  "entity1 enc st tok txt =
     (case tok of
        XML_TOK_PROLOG_S \<Rightarrow> (XML_ROLE_NONE, st)
      | XML_TOK_NAME \<Rightarrow> (XML_ROLE_PARAM_ENTITY_NAME, st\<lparr>handler := H_entity7\<rparr>)
      | _ \<Rightarrow> common st tok)"

definition entity2 :: role_fn where
  "entity2 enc st tok txt =
     (case tok of
        XML_TOK_PROLOG_S \<Rightarrow> (XML_ROLE_NONE, st)
      | XML_TOK_NAME \<Rightarrow> if name_at enc 0 txt ''SYSTEM'' then (XML_ROLE_NONE, st\<lparr>handler := H_entity4\<rparr>)
        else if name_at enc 0 txt ''PUBLIC'' then (XML_ROLE_NONE, st\<lparr>handler := H_entity3\<rparr>)
        else common st tok
      | XML_TOK_LITERAL \<Rightarrow> (XML_ROLE_ENTITY_VALUE, st\<lparr>handler := H_declClose\<rparr>)
      | _ \<Rightarrow> common st tok)"

definition entity3 :: role_fn where
  "entity3 enc st tok txt =
     (case tok of
        XML_TOK_PROLOG_S \<Rightarrow> (XML_ROLE_NONE, st)
      | XML_TOK_LITERAL \<Rightarrow> (XML_ROLE_ENTITY_PUBLIC_ID, st\<lparr>handler := H_entity4\<rparr>)
      | _ \<Rightarrow> common st tok)"

definition entity4 :: role_fn where
  "entity4 enc st tok txt =
     (case tok of
        XML_TOK_PROLOG_S \<Rightarrow> (XML_ROLE_NONE, st)
      | XML_TOK_LITERAL \<Rightarrow> (XML_ROLE_ENTITY_SYSTEM_ID, st\<lparr>handler := H_entity5\<rparr>)
      | _ \<Rightarrow> common st tok)"

definition entity5 :: role_fn where
  "entity5 enc st tok txt =
     (case tok of
        XML_TOK_PROLOG_S \<Rightarrow> (XML_ROLE_NONE, st)
      | XML_TOK_DECL_CLOSE \<Rightarrow> (XML_ROLE_NONE, setTopLevel st)
      | XML_TOK_NAME \<Rightarrow> if name_at enc 0 txt ''NDATA'' then (XML_ROLE_NONE, st\<lparr>handler := H_entity6\<rparr>)
        else common st tok
      | _ \<Rightarrow> common st tok)"

definition entity6 :: role_fn where
  "entity6 enc st tok txt =
     (case tok of
        XML_TOK_PROLOG_S \<Rightarrow> (XML_ROLE_NONE, st)
      | XML_TOK_NAME \<Rightarrow> (XML_ROLE_ENTITY_NOTATION_NAME, st\<lparr>handler := H_declClose\<rparr>)
      | _ \<Rightarrow> common st tok)"

definition entity7 :: role_fn where
  "entity7 enc st tok txt =
     (case tok of
        XML_TOK_PROLOG_S \<Rightarrow> (XML_ROLE_NONE, st)
      | XML_TOK_NAME \<Rightarrow> if name_at enc 0 txt ''SYSTEM'' then (XML_ROLE_NONE, st\<lparr>handler := H_entity9\<rparr>)
        else if name_at enc 0 txt ''PUBLIC'' then (XML_ROLE_NONE, st\<lparr>handler := H_entity8\<rparr>)
        else common st tok
      | XML_TOK_LITERAL \<Rightarrow> (XML_ROLE_ENTITY_VALUE, st\<lparr>handler := H_declClose\<rparr>)
      | _ \<Rightarrow> common st tok)"

definition entity8 :: role_fn where
  "entity8 enc st tok txt =
     (case tok of
        XML_TOK_PROLOG_S \<Rightarrow> (XML_ROLE_NONE, st)
      | XML_TOK_LITERAL \<Rightarrow> (XML_ROLE_ENTITY_PUBLIC_ID, st\<lparr>handler := H_entity9\<rparr>)
      | _ \<Rightarrow> common st tok)"

definition entity9 :: role_fn where
  "entity9 enc st tok txt =
     (case tok of
        XML_TOK_PROLOG_S \<Rightarrow> (XML_ROLE_NONE, st)
      | XML_TOK_LITERAL \<Rightarrow> (XML_ROLE_ENTITY_SYSTEM_ID, st\<lparr>handler := H_declClose\<rparr>)
      | _ \<Rightarrow> common st tok)"

definition notation0 :: role_fn where
  "notation0 enc st tok txt =
     (case tok of
        XML_TOK_PROLOG_S \<Rightarrow> (XML_ROLE_NONE, st)
      | XML_TOK_NAME \<Rightarrow> (XML_ROLE_NOTATION_NAME, st\<lparr>handler := H_notation1\<rparr>)
      | _ \<Rightarrow> common st tok)"

definition notation1 :: role_fn where
  "notation1 enc st tok txt =
     (case tok of
        XML_TOK_PROLOG_S \<Rightarrow> (XML_ROLE_NONE, st)
      | XML_TOK_NAME \<Rightarrow> if name_at enc 0 txt ''SYSTEM'' then (XML_ROLE_NONE, st\<lparr>handler := H_notation3\<rparr>)
        else if name_at enc 0 txt ''PUBLIC'' then (XML_ROLE_NONE, st\<lparr>handler := H_notation2\<rparr>)
        else common st tok
      | _ \<Rightarrow> common st tok)"

definition notation2 :: role_fn where
  "notation2 enc st tok txt =
     (case tok of
        XML_TOK_PROLOG_S \<Rightarrow> (XML_ROLE_NONE, st)
      | XML_TOK_LITERAL \<Rightarrow> (XML_ROLE_NOTATION_PUBLIC_ID, st\<lparr>handler := H_notation4\<rparr>)
      | _ \<Rightarrow> common st tok)"

definition notation3 :: role_fn where
  "notation3 enc st tok txt =
     (case tok of
        XML_TOK_PROLOG_S \<Rightarrow> (XML_ROLE_NONE, st)
      | XML_TOK_LITERAL \<Rightarrow> (XML_ROLE_NOTATION_SYSTEM_ID, st\<lparr>handler := H_declClose\<rparr>)
      | _ \<Rightarrow> common st tok)"

definition notation4 :: role_fn where
  "notation4 enc st tok txt =
     (case tok of
        XML_TOK_PROLOG_S \<Rightarrow> (XML_ROLE_NONE, st)
      | XML_TOK_LITERAL \<Rightarrow> (XML_ROLE_NOTATION_SYSTEM_ID, st\<lparr>handler := H_declClose\<rparr>)
      | XML_TOK_DECL_CLOSE \<Rightarrow> (XML_ROLE_NOTATION_NO_SYSTEM_ID, setTopLevel st)
      | _ \<Rightarrow> common st tok)"

definition attlist0 :: role_fn where
  "attlist0 enc st tok txt =
     (case tok of
        XML_TOK_PROLOG_S \<Rightarrow> (XML_ROLE_NONE, st)
      | XML_TOK_NAME \<Rightarrow> (XML_ROLE_ATTLIST_ELEMENT_NAME, st\<lparr>handler := H_attlist1\<rparr>)
      | XML_TOK_PREFIXED_NAME \<Rightarrow> (XML_ROLE_ATTLIST_ELEMENT_NAME, st\<lparr>handler := H_attlist1\<rparr>)
      | _ \<Rightarrow> common st tok)"

definition attlist1 :: role_fn where
  "attlist1 enc st tok txt =
     (case tok of
        XML_TOK_PROLOG_S \<Rightarrow> (XML_ROLE_NONE, st)
      | XML_TOK_DECL_CLOSE \<Rightarrow> (XML_ROLE_NONE, setTopLevel st)
      | XML_TOK_NAME \<Rightarrow> (XML_ROLE_ATTRIBUTE_NAME, st\<lparr>handler := H_attlist2\<rparr>)
      | XML_TOK_PREFIXED_NAME \<Rightarrow> (XML_ROLE_ATTRIBUTE_NAME, st\<lparr>handler := H_attlist2\<rparr>)
      | _ \<Rightarrow> common st tok)"

definition attribute_types :: "(cstring \<times> xml_role) list" where
  "attribute_types =
     [(''CDATA'', XML_ROLE_ATTRIBUTE_TYPE_CDATA), (''ID'', XML_ROLE_ATTRIBUTE_TYPE_ID),
      (''IDREF'', XML_ROLE_ATTRIBUTE_TYPE_IDREF), (''IDREFS'', XML_ROLE_ATTRIBUTE_TYPE_IDREFS),
      (''ENTITY'', XML_ROLE_ATTRIBUTE_TYPE_ENTITY), (''ENTITIES'', XML_ROLE_ATTRIBUTE_TYPE_ENTITIES),
      (''NMTOKEN'', XML_ROLE_ATTRIBUTE_TYPE_NMTOKEN), (''NMTOKENS'', XML_ROLE_ATTRIBUTE_TYPE_NMTOKENS)]"

definition attlist2 :: role_fn where
  "attlist2 enc st tok txt =
     (case tok of
        XML_TOK_PROLOG_S \<Rightarrow> (XML_ROLE_NONE, st)
      | XML_TOK_NAME \<Rightarrow>
          (case find (\<lambda>(name, role). name_at enc 0 txt name) attribute_types of
             Some (name, role) \<Rightarrow> (role, st\<lparr>handler := H_attlist8\<rparr>)
           | None \<Rightarrow>
               if name_at enc 0 txt ''NOTATION'' then (XML_ROLE_NONE, st\<lparr>handler := H_attlist5\<rparr>)
               else common st tok)
      | XML_TOK_OPEN_PAREN \<Rightarrow> (XML_ROLE_NONE, st\<lparr>handler := H_attlist3\<rparr>)
      | _ \<Rightarrow> common st tok)"

definition attlist3 :: role_fn where
  "attlist3 enc st tok txt =
     (case tok of
        XML_TOK_PROLOG_S \<Rightarrow> (XML_ROLE_NONE, st)
      | XML_TOK_NMTOKEN \<Rightarrow> (XML_ROLE_ATTRIBUTE_ENUM_VALUE, st\<lparr>handler := H_attlist4\<rparr>)
      | XML_TOK_NAME \<Rightarrow> (XML_ROLE_ATTRIBUTE_ENUM_VALUE, st\<lparr>handler := H_attlist4\<rparr>)
      | XML_TOK_PREFIXED_NAME \<Rightarrow> (XML_ROLE_ATTRIBUTE_ENUM_VALUE, st\<lparr>handler := H_attlist4\<rparr>)
      | _ \<Rightarrow> common st tok)"

definition attlist4 :: role_fn where
  "attlist4 enc st tok txt =
     (case tok of
        XML_TOK_PROLOG_S \<Rightarrow> (XML_ROLE_NONE, st)
      | XML_TOK_CLOSE_PAREN \<Rightarrow> (XML_ROLE_NONE, st\<lparr>handler := H_attlist8\<rparr>)
      | XML_TOK_OR \<Rightarrow> (XML_ROLE_NONE, st\<lparr>handler := H_attlist3\<rparr>)
      | _ \<Rightarrow> common st tok)"

definition attlist5 :: role_fn where
  "attlist5 enc st tok txt =
     (case tok of
        XML_TOK_PROLOG_S \<Rightarrow> (XML_ROLE_NONE, st)
      | XML_TOK_OPEN_PAREN \<Rightarrow> (XML_ROLE_NONE, st\<lparr>handler := H_attlist6\<rparr>)
      | _ \<Rightarrow> common st tok)"

definition attlist6 :: role_fn where
  "attlist6 enc st tok txt =
     (case tok of
        XML_TOK_PROLOG_S \<Rightarrow> (XML_ROLE_NONE, st)
      | XML_TOK_NAME \<Rightarrow> (XML_ROLE_ATTRIBUTE_NOTATION_VALUE, st\<lparr>handler := H_attlist7\<rparr>)
      | _ \<Rightarrow> common st tok)"

definition attlist7 :: role_fn where
  "attlist7 enc st tok txt =
     (case tok of
        XML_TOK_PROLOG_S \<Rightarrow> (XML_ROLE_NONE, st)
      | XML_TOK_CLOSE_PAREN \<Rightarrow> (XML_ROLE_NONE, st\<lparr>handler := H_attlist8\<rparr>)
      | XML_TOK_OR \<Rightarrow> (XML_ROLE_NONE, st\<lparr>handler := H_attlist6\<rparr>)
      | _ \<Rightarrow> common st tok)"

definition attlist8 :: role_fn where
  "attlist8 enc st tok txt =
     (case tok of
        XML_TOK_PROLOG_S \<Rightarrow> (XML_ROLE_NONE, st)
      | XML_TOK_POUND_NAME \<Rightarrow> if name_at enc 1 txt ''IMPLIED'' then (XML_ROLE_IMPLIED_ATTRIBUTE_VALUE, st\<lparr>handler := H_attlist1\<rparr>)
        else if name_at enc 1 txt ''REQUIRED'' then (XML_ROLE_REQUIRED_ATTRIBUTE_VALUE, st\<lparr>handler := H_attlist1\<rparr>)
        else if name_at enc 1 txt ''FIXED'' then (XML_ROLE_NONE, st\<lparr>handler := H_attlist9\<rparr>)
        else common st tok
      | XML_TOK_LITERAL \<Rightarrow> (XML_ROLE_DEFAULT_ATTRIBUTE_VALUE, st\<lparr>handler := H_attlist1\<rparr>)
      | _ \<Rightarrow> common st tok)"

definition attlist9 :: role_fn where
  "attlist9 enc st tok txt =
     (case tok of
        XML_TOK_PROLOG_S \<Rightarrow> (XML_ROLE_NONE, st)
      | XML_TOK_LITERAL \<Rightarrow> (XML_ROLE_FIXED_ATTRIBUTE_VALUE, st\<lparr>handler := H_attlist1\<rparr>)
      | _ \<Rightarrow> common st tok)"

definition element0 :: role_fn where
  "element0 enc st tok txt =
     (case tok of
        XML_TOK_PROLOG_S \<Rightarrow> (XML_ROLE_NONE, st)
      | XML_TOK_NAME \<Rightarrow> (XML_ROLE_ELEMENT_NAME, st\<lparr>handler := H_element1\<rparr>)
      | XML_TOK_PREFIXED_NAME \<Rightarrow> (XML_ROLE_ELEMENT_NAME, st\<lparr>handler := H_element1\<rparr>)
      | _ \<Rightarrow> common st tok)"

definition element1 :: role_fn where
  "element1 enc st tok txt =
     (case tok of
        XML_TOK_PROLOG_S \<Rightarrow> (XML_ROLE_NONE, st)
      | XML_TOK_NAME \<Rightarrow> if name_at enc 0 txt ''EMPTY'' then (XML_ROLE_CONTENT_EMPTY, st\<lparr>handler := H_declClose\<rparr>)
        else if name_at enc 0 txt ''ANY'' then (XML_ROLE_CONTENT_ANY, st\<lparr>handler := H_declClose\<rparr>)
        else common st tok
      | XML_TOK_OPEN_PAREN \<Rightarrow> (XML_ROLE_GROUP_OPEN, st\<lparr>handler := H_element2, level := 1\<rparr>)
      | _ \<Rightarrow> common st tok)"

definition element2 :: role_fn where
  "element2 enc st tok txt =
     (case tok of
        XML_TOK_PROLOG_S \<Rightarrow> (XML_ROLE_NONE, st)
      | XML_TOK_POUND_NAME \<Rightarrow> if name_at enc 1 txt ''PCDATA'' then (XML_ROLE_CONTENT_PCDATA, st\<lparr>handler := H_element3\<rparr>)
        else common st tok
      | XML_TOK_OPEN_PAREN \<Rightarrow> (XML_ROLE_GROUP_OPEN, st\<lparr>level := 2, handler := H_element6\<rparr>)
      | XML_TOK_NAME \<Rightarrow> (XML_ROLE_CONTENT_ELEMENT, st\<lparr>handler := H_element7\<rparr>)
      | XML_TOK_PREFIXED_NAME \<Rightarrow> (XML_ROLE_CONTENT_ELEMENT, st\<lparr>handler := H_element7\<rparr>)
      | XML_TOK_NAME_QUESTION \<Rightarrow> (XML_ROLE_CONTENT_ELEMENT_OPT, st\<lparr>handler := H_element7\<rparr>)
      | XML_TOK_NAME_ASTERISK \<Rightarrow> (XML_ROLE_CONTENT_ELEMENT_REP, st\<lparr>handler := H_element7\<rparr>)
      | XML_TOK_NAME_PLUS \<Rightarrow> (XML_ROLE_CONTENT_ELEMENT_PLUS, st\<lparr>handler := H_element7\<rparr>)
      | _ \<Rightarrow> common st tok)"

definition element3 :: role_fn where
  "element3 enc st tok txt =
     (case tok of
        XML_TOK_PROLOG_S \<Rightarrow> (XML_ROLE_NONE, st)
      | XML_TOK_CLOSE_PAREN \<Rightarrow> (XML_ROLE_GROUP_CLOSE_REP, st\<lparr>handler := H_declClose\<rparr>)
      | XML_TOK_CLOSE_PAREN_ASTERISK \<Rightarrow> (XML_ROLE_GROUP_CLOSE_REP, st\<lparr>handler := H_declClose\<rparr>)
      | XML_TOK_OR \<Rightarrow> (XML_ROLE_NONE, st\<lparr>handler := H_element4\<rparr>)
      | _ \<Rightarrow> common st tok)"

definition element4 :: role_fn where
  "element4 enc st tok txt =
     (case tok of
        XML_TOK_PROLOG_S \<Rightarrow> (XML_ROLE_NONE, st)
      | XML_TOK_NAME \<Rightarrow> (XML_ROLE_CONTENT_ELEMENT, st\<lparr>handler := H_element5\<rparr>)
      | XML_TOK_PREFIXED_NAME \<Rightarrow> (XML_ROLE_CONTENT_ELEMENT, st\<lparr>handler := H_element5\<rparr>)
      | _ \<Rightarrow> common st tok)"

definition element5 :: role_fn where
  "element5 enc st tok txt =
     (case tok of
        XML_TOK_PROLOG_S \<Rightarrow> (XML_ROLE_NONE, st)
      | XML_TOK_CLOSE_PAREN_ASTERISK \<Rightarrow> (XML_ROLE_GROUP_CLOSE_REP, st\<lparr>handler := H_declClose\<rparr>)
      | XML_TOK_OR \<Rightarrow> (XML_ROLE_NONE, st\<lparr>handler := H_element4\<rparr>)
      | _ \<Rightarrow> common st tok)"

definition element6 :: role_fn where
  "element6 enc st tok txt =
     (case tok of
        XML_TOK_PROLOG_S \<Rightarrow> (XML_ROLE_NONE, st)
      | XML_TOK_OPEN_PAREN \<Rightarrow> (XML_ROLE_GROUP_OPEN, st\<lparr>level := level st + 1\<rparr>)
      | XML_TOK_NAME \<Rightarrow> (XML_ROLE_CONTENT_ELEMENT, st\<lparr>handler := H_element7\<rparr>)
      | XML_TOK_PREFIXED_NAME \<Rightarrow> (XML_ROLE_CONTENT_ELEMENT, st\<lparr>handler := H_element7\<rparr>)
      | XML_TOK_NAME_QUESTION \<Rightarrow> (XML_ROLE_CONTENT_ELEMENT_OPT, st\<lparr>handler := H_element7\<rparr>)
      | XML_TOK_NAME_ASTERISK \<Rightarrow> (XML_ROLE_CONTENT_ELEMENT_REP, st\<lparr>handler := H_element7\<rparr>)
      | XML_TOK_NAME_PLUS \<Rightarrow> (XML_ROLE_CONTENT_ELEMENT_PLUS, st\<lparr>handler := H_element7\<rparr>)
      | _ \<Rightarrow> common st tok)"

definition close_group :: "prolog_state \<Rightarrow> prolog_state" where
  "close_group st =
     (let st = st\<lparr>level := level st - 1\<rparr>
      in if level st = 0 then st\<lparr>handler := H_declClose\<rparr> else st)"

definition element7 :: role_fn where
  "element7 enc st tok txt =
     (case tok of
        XML_TOK_PROLOG_S \<Rightarrow> (XML_ROLE_NONE, st)
      | XML_TOK_CLOSE_PAREN \<Rightarrow> (XML_ROLE_GROUP_CLOSE, close_group st)
      | XML_TOK_CLOSE_PAREN_ASTERISK \<Rightarrow> (XML_ROLE_GROUP_CLOSE_REP, close_group st)
      | XML_TOK_CLOSE_PAREN_QUESTION \<Rightarrow> (XML_ROLE_GROUP_CLOSE_OPT, close_group st)
      | XML_TOK_CLOSE_PAREN_PLUS \<Rightarrow> (XML_ROLE_GROUP_CLOSE_PLUS, close_group st)
      | XML_TOK_COMMA \<Rightarrow> (XML_ROLE_GROUP_SEQUENCE, st\<lparr>handler := H_element6\<rparr>)
      | XML_TOK_OR \<Rightarrow> (XML_ROLE_GROUP_CHOICE, st\<lparr>handler := H_element6\<rparr>)
      | _ \<Rightarrow> common st tok)"

definition condSect0 :: role_fn where
  "condSect0 enc st tok txt =
     (case tok of
        XML_TOK_PROLOG_S \<Rightarrow> (XML_ROLE_NONE, st)
      | XML_TOK_NAME \<Rightarrow> if name_at enc 0 txt ''INCLUDE'' then (XML_ROLE_NONE, st\<lparr>handler := H_condSect1\<rparr>)
        else if name_at enc 0 txt ''IGNORE'' then (XML_ROLE_NONE, st\<lparr>handler := H_condSect2\<rparr>)
        else common st tok
      | _ \<Rightarrow> common st tok)"

definition condSect1 :: role_fn where
  "condSect1 enc st tok txt =
     (case tok of
        XML_TOK_PROLOG_S \<Rightarrow> (XML_ROLE_NONE, st)
      | XML_TOK_OPEN_BRACKET \<Rightarrow> (XML_ROLE_NONE, st\<lparr>handler := H_externalSubset1, includeLevel := includeLevel st + 1\<rparr>)
      | _ \<Rightarrow> common st tok)"

definition condSect2 :: role_fn where
  "condSect2 enc st tok txt =
     (case tok of
        XML_TOK_PROLOG_S \<Rightarrow> (XML_ROLE_NONE, st)
      | XML_TOK_OPEN_BRACKET \<Rightarrow> (XML_ROLE_IGNORE_SECT, st\<lparr>handler := H_externalSubset1\<rparr>)
      | _ \<Rightarrow> common st tok)"

definition declClose :: role_fn where
  "declClose enc st tok txt =
     (case tok of
        XML_TOK_PROLOG_S \<Rightarrow> (XML_ROLE_NONE, st)
      | XML_TOK_DECL_CLOSE \<Rightarrow> (XML_ROLE_NONE, setTopLevel st)
      | _ \<Rightarrow> common st tok)"

definition role_error :: role_fn where
  "role_error enc st tok txt = (XML_ROLE_NONE, st)"

section \<open>The machine\<close>

text \<open>\<open>XmlTokenRole\<close>: the call through the pointer.\<close>

fun handler_of :: "prolog_handler \<Rightarrow> role_fn" where
  "handler_of H_prolog0 = prolog0"
| "handler_of H_prolog1 = prolog1"
| "handler_of H_prolog2 = prolog2"
| "handler_of H_doctype0 = doctype0"
| "handler_of H_doctype1 = doctype1"
| "handler_of H_doctype2 = doctype2"
| "handler_of H_doctype3 = doctype3"
| "handler_of H_doctype4 = doctype4"
| "handler_of H_doctype5 = doctype5"
| "handler_of H_internalSubset = internalSubset"
| "handler_of H_entity0 = entity0"
| "handler_of H_entity1 = entity1"
| "handler_of H_entity2 = entity2"
| "handler_of H_entity3 = entity3"
| "handler_of H_entity4 = entity4"
| "handler_of H_entity5 = entity5"
| "handler_of H_entity6 = entity6"
| "handler_of H_entity7 = entity7"
| "handler_of H_entity8 = entity8"
| "handler_of H_entity9 = entity9"
| "handler_of H_notation0 = notation0"
| "handler_of H_notation1 = notation1"
| "handler_of H_notation2 = notation2"
| "handler_of H_notation3 = notation3"
| "handler_of H_notation4 = notation4"
| "handler_of H_attlist0 = attlist0"
| "handler_of H_attlist1 = attlist1"
| "handler_of H_attlist2 = attlist2"
| "handler_of H_attlist3 = attlist3"
| "handler_of H_attlist4 = attlist4"
| "handler_of H_attlist5 = attlist5"
| "handler_of H_attlist6 = attlist6"
| "handler_of H_attlist7 = attlist7"
| "handler_of H_attlist8 = attlist8"
| "handler_of H_attlist9 = attlist9"
| "handler_of H_element0 = element0"
| "handler_of H_element1 = element1"
| "handler_of H_element2 = element2"
| "handler_of H_element3 = element3"
| "handler_of H_element4 = element4"
| "handler_of H_element5 = element5"
| "handler_of H_element6 = element6"
| "handler_of H_element7 = element7"
| "handler_of H_externalSubset0 = externalSubset0"
| "handler_of H_externalSubset1 = externalSubset1"
| "handler_of H_condSect0 = condSect0"
| "handler_of H_condSect1 = condSect1"
| "handler_of H_condSect2 = condSect2"
| "handler_of H_declClose = declClose"
| "handler_of H_error = role_error"

definition XmlTokenRole :: role_fn where
  "XmlTokenRole enc st tok txt = handler_of (handler st) enc st tok txt"

text \<open>\<open>level\<close> is what it was; the first group of a content model sets it.\<close>

definition XmlPrologStateInit :: "prolog_state \<Rightarrow> prolog_state" where
  "XmlPrologStateInit st = st\<lparr>handler := H_prolog0, documentEntity := True, includeLevel := 0\<rparr>"

definition XmlPrologStateInitExternalEntity :: "prolog_state \<Rightarrow> prolog_state" where
  "XmlPrologStateInitExternalEntity st =
     st\<lparr>handler := H_externalSubset0, documentEntity := False, includeLevel := 0\<rparr>"

text \<open>The roles of a list of tokens, as the loop of the parser asks for them one by one.\<close>

fun roles :: "xml_encoding \<Rightarrow> prolog_state \<Rightarrow> (xml_tok \<times> cstring) list \<Rightarrow> xml_role list \<times> prolog_state" where
  "roles enc st [] = ([], st)"
| "roles enc st ((tok, txt) # toks) =
     (let (r, st') = XmlTokenRole enc st tok txt; (rs, st'') = roles enc st' toks in (r # rs, st''))"

end
