(* ===== verification/Xml_Content.thy ===== *)
theory Xml_Content
  imports Xml_Role
begin

text \<open>
  The content models that the state machine of \<open>Xml_Role\<close> accepts in an element declaration,
  against the grammar of XML: its productions \<open>contentspec\<close>, \<open>children\<close> and \<open>Mixed\<close>.
\<close>

section \<open>The grammar\<close>

datatype repeat = Once | Optional | Star | Plus

text \<open>\<open>cp\<close>; a separator says whether it is a bar, and a group may mix bars and commas.\<close>

datatype particle = Named repeat | Group particle "(bool \<times> particle) list" repeat

text \<open>\<open>contentspec\<close>; of the names after \<open>#PCDATA\<close> only the number is kept.\<close>

datatype content = Empty_content | Any_content | Text_only | Mixed nat
  | Children particle "(bool \<times> particle) list" repeat

datatype lexeme = L_open | L_close repeat | L_name repeat | L_sep bool | L_word cstring | L_pound cstring

fun particle_lexemes :: "particle \<Rightarrow> lexeme list" where
  "particle_lexemes (Named r) = [L_name r]"
| "particle_lexemes (Group p ps r) =
     L_open # particle_lexemes p @ concat (map (\<lambda>(b, q). L_sep b # particle_lexemes q) ps) @ [L_close r]"

abbreviation seps_lexemes :: "(bool \<times> particle) list \<Rightarrow> lexeme list" where
  "seps_lexemes ps \<equiv> concat (map (\<lambda>(b, q). L_sep b # particle_lexemes q) ps)"

fun content_lexemes :: "content \<Rightarrow> lexeme list" where
  "content_lexemes Empty_content = [L_word ''EMPTY'']"
| "content_lexemes Any_content = [L_word ''ANY'']"
| "content_lexemes Text_only = [L_open, L_pound ''PCDATA'', L_close Once]"
| "content_lexemes (Mixed n) =
     [L_open, L_pound ''PCDATA''] @ concat (replicate n [L_sep True, L_name Once]) @ [L_close Star]"
| "content_lexemes (Children p ps r) = particle_lexemes (Group p ps r)"

section \<open>Tokens and roles of a model\<close>

fun close_token :: "repeat \<Rightarrow> xml_tok" where
  "close_token Once = XML_TOK_CLOSE_PAREN"
| "close_token Optional = XML_TOK_CLOSE_PAREN_QUESTION"
| "close_token Star = XML_TOK_CLOSE_PAREN_ASTERISK"
| "close_token Plus = XML_TOK_CLOSE_PAREN_PLUS"

fun name_tokens :: "repeat \<Rightarrow> xml_tok list" where
  "name_tokens Once = [XML_TOK_NAME, XML_TOK_PREFIXED_NAME]"
| "name_tokens Optional = [XML_TOK_NAME_QUESTION]"
| "name_tokens Star = [XML_TOK_NAME_ASTERISK]"
| "name_tokens Plus = [XML_TOK_NAME_PLUS]"

fun fits :: "xml_encoding \<Rightarrow> lexeme \<Rightarrow> xml_tok \<times> cstring \<Rightarrow> bool" where
  "fits enc L_open t \<longleftrightarrow> fst t = XML_TOK_OPEN_PAREN"
| "fits enc (L_close r) t \<longleftrightarrow> fst t = close_token r"
| "fits enc (L_name r) t \<longleftrightarrow> fst t \<in> set (name_tokens r)"
| "fits enc (L_sep b) t \<longleftrightarrow> fst t = (if b then XML_TOK_OR else XML_TOK_COMMA)"
| "fits enc (L_word w) t \<longleftrightarrow> fst t = XML_TOK_NAME \<and> name_at enc 0 (snd t) w"
| "fits enc (L_pound w) t \<longleftrightarrow> fst t = XML_TOK_POUND_NAME \<and> name_at enc 1 (snd t) w"

fun name_role :: "repeat \<Rightarrow> xml_role" where
  "name_role Once = XML_ROLE_CONTENT_ELEMENT"
| "name_role Optional = XML_ROLE_CONTENT_ELEMENT_OPT"
| "name_role Star = XML_ROLE_CONTENT_ELEMENT_REP"
| "name_role Plus = XML_ROLE_CONTENT_ELEMENT_PLUS"

fun close_role :: "repeat \<Rightarrow> xml_role" where
  "close_role Once = XML_ROLE_GROUP_CLOSE"
| "close_role Optional = XML_ROLE_GROUP_CLOSE_OPT"
| "close_role Star = XML_ROLE_GROUP_CLOSE_REP"
| "close_role Plus = XML_ROLE_GROUP_CLOSE_PLUS"

definition sep_role :: "bool \<Rightarrow> xml_role" where
  "sep_role b = (if b then XML_ROLE_GROUP_CHOICE else XML_ROLE_GROUP_SEQUENCE)"

fun particle_roles :: "particle \<Rightarrow> xml_role list" where
  "particle_roles (Named r) = [name_role r]"
| "particle_roles (Group p ps r) =
     XML_ROLE_GROUP_OPEN # particle_roles p @ concat (map (\<lambda>(b, q). sep_role b # particle_roles q) ps)
     @ [close_role r]"

abbreviation seps_roles :: "(bool \<times> particle) list \<Rightarrow> xml_role list" where
  "seps_roles ps \<equiv> concat (map (\<lambda>(b, q). sep_role b # particle_roles q) ps)"

fun content_roles :: "content \<Rightarrow> xml_role list" where
  "content_roles Empty_content = [XML_ROLE_CONTENT_EMPTY]"
| "content_roles Any_content = [XML_ROLE_CONTENT_ANY]"
| "content_roles Text_only = [XML_ROLE_GROUP_OPEN, XML_ROLE_CONTENT_PCDATA, XML_ROLE_GROUP_CLOSE_REP]"
| "content_roles (Mixed n) =
     [XML_ROLE_GROUP_OPEN, XML_ROLE_CONTENT_PCDATA]
     @ concat (replicate n [XML_ROLE_NONE, XML_ROLE_CONTENT_ELEMENT]) @ [XML_ROLE_GROUP_CLOSE_REP]"
| "content_roles (Children p ps r) = particle_roles (Group p ps r)"

section \<open>Runs of the machine\<close>

lemma roles_append:
  "roles enc st (ts @ us) = (let (r, st') = roles enc st ts; (r', st'') = roles enc st' us in (r @ r', st''))"
  by (induction ts arbitrary: st) (auto simp: case_prod_unfold Let_def)

text \<open>The machine in a state of the element declaration with a number of groups open.\<close>

definition elem :: "prolog_state \<Rightarrow> prolog_handler \<Rightarrow> nat \<Rightarrow> prolog_state" where
  "elem st h d = st\<lparr>handler := h, level := of_nat d\<rparr>"

lemma level_pred: "0 < d \<Longrightarrow> d < 2 ^ 32 \<Longrightarrow> (of_nat d :: 32 word) - 1 = of_nat (d - 1)"
  by (cases d) simp_all

lemma level_zero: "d < 2 ^ 32 \<Longrightarrow> (of_nat d :: 32 word) = 0 \<longleftrightarrow> d = 0"
  by (auto simp: word_of_nat_eq_0_iff dest: dvd_imp_le)

lemma close_group_elem:
  "0 < d \<Longrightarrow> d < 2 ^ 32 \<Longrightarrow> close_group (elem st H_element7 d)
    = (if d = 1 then elem st H_declClose 0 else elem st H_element7 (d - 1))"
  using level_pred [of d] level_zero [of "d - 1"] by (auto simp: close_group_def elem_def Let_def)

lemma elem_simps [simp]:
  "handler (elem st h d) = h" "documentEntity (elem st h d) = documentEntity st"
  "(elem st h d)\<lparr>handler := h'\<rparr> = elem st h' d"
  "(elem st h d)\<lparr>handler := h', level := 1\<rparr> = elem st h' 1"
  "(elem st h d)\<lparr>level := 2, handler := h'\<rparr> = elem st h' 2"
  "(elem st h d)\<lparr>level := 1\<rparr> = elem st h 1"
  "(elem st h d)\<lparr>level := 2\<rparr> = elem st h 2"
  "elem st h 2 = elem st h (Suc (Suc 0))"
  "(elem st h d)\<lparr>level := level (elem st h d) + 1\<rparr> = elem st h (Suc d)"
  by (simp_all add: elem_def)

lemmas element_defs = element1_def element2_def element3_def element4_def element5_def element6_def element7_def

lemma elem_role [simp]: "XmlTokenRole enc (elem st h d) tok txt = handler_of h enc (elem st h d) tok txt"
  by (simp add: XmlTokenRole_def)

lemma run_name:
  "tok \<in> set (name_tokens r) \<Longrightarrow> element6 enc (elem st H_element6 d) tok txt = (name_role r, elem st H_element7 d)"
  by (cases r) (auto simp: element6_def)

lemma run_sep:
  "fits enc (L_sep b) (tok, txt) \<Longrightarrow> element7 enc (elem st H_element7 d) tok txt = (sep_role b, elem st H_element6 d)"
  by (cases b) (auto simp: element7_def sep_role_def)

lemma run_close:
  "tok = close_token r \<Longrightarrow> element7 enc (elem st H_element7 d) tok txt = (close_role r, close_group (elem st H_element7 d))"
  by (cases r) (auto simp: element7_def)

section \<open>Every model is accepted\<close>

abbreviation fit :: "xml_encoding \<Rightarrow> lexeme list \<Rightarrow> (xml_tok \<times> cstring) list \<Rightarrow> bool" where
  "fit enc \<equiv> list_all2 (fits enc)"

lemma fit_append:
  "fit enc (xs @ ys) ts \<longleftrightarrow> (\<exists>us vs. ts = us @ vs \<and> fit enc xs us \<and> fit enc ys vs)"
  by (auto simp: list_all2_append1 list_all2_appendI) (metis list_all2_lengthD)

lemma fit_single: "fit enc [x] ts \<longleftrightarrow> (\<exists>t. ts = [t] \<and> fits enc x t)"
  by (auto simp: list_all2_Cons1)

lemma run_seps:
  assumes "\<And>b q ts. (b, q) \<in> set ps \<Longrightarrow> fit enc (particle_lexemes q) ts \<Longrightarrow> length ts < m \<Longrightarrow>
      roles enc (elem st H_element6 d) ts = (particle_roles q, elem st H_element7 d)"
    and "fit enc (seps_lexemes ps) ts" "length ts \<le> m"
  shows "roles enc (elem st H_element7 d) ts = (seps_roles ps, elem st H_element7 d)"
  using assms
proof (induction ps arbitrary: ts)
  case (Cons bq ps)
  obtain b q where bq: "bq = (b, q)" by (cases bq)
  with Cons.prems(2) obtain t us vs where ts: "ts = t # us @ vs" "fits enc (L_sep b) t"
      "fit enc (particle_lexemes q) us" "fit enc (seps_lexemes ps) vs"
    by (auto simp: list_all2_Cons1 fit_append)
  have "roles enc (elem st H_element6 d) us = (particle_roles q, elem st H_element7 d)"
    using Cons.prems(1) [of b q us] ts Cons.prems(3) by (simp add: bq)
  moreover have "roles enc (elem st H_element7 d) vs = (seps_roles ps, elem st H_element7 d)"
    using Cons.prems ts by (intro Cons.IH) auto
  ultimately show ?case
    using run_sep [of enc b "fst t" "snd t" st d] ts(1,2) by (cases t) (simp add: bq roles_append)
qed simp

lemma run_particle:
  "fit enc (particle_lexemes p) ts \<Longrightarrow> 0 < d \<Longrightarrow> d + length ts < 2 ^ 32 \<Longrightarrow>
   roles enc (elem st H_element6 d) ts = (particle_roles p, elem st H_element7 d)"
proof (induction p arbitrary: ts d)
  case (Named r)
  then show ?case by (auto simp: fit_single run_name)
next
  case (Group p ps r)
  then obtain t us vs u where ts: "ts = t # us @ vs @ [u]" "fits enc L_open t"
      "fit enc (particle_lexemes p) us" "fit enc (seps_lexemes ps) vs" "fits enc (L_close r) u"
    by (auto simp: list_all2_Cons1 fit_append fit_single)
  have first: "roles enc (elem st H_element6 (Suc d)) us = (particle_roles p, elem st H_element7 (Suc d))"
    using ts Group.prems by (intro Group.IH(1)) auto
  have rest: "roles enc (elem st H_element7 (Suc d)) vs = (seps_roles ps, elem st H_element7 (Suc d))"
  proof (rule run_seps [where m = "length vs"])
    fix b q ts
    assume "(b, q) \<in> set ps" "fit enc (particle_lexemes q) ts" "length ts < length vs"
    then show "roles enc (elem st H_element6 (Suc d)) ts = (particle_roles q, elem st H_element7 (Suc d))"
      using Group.prems(2,3) by (intro Group.IH(2) [of "(b, q)"]) (auto simp: ts(1))
  qed (use ts in auto)
  have "close_group (elem st H_element7 (Suc d)) = elem st H_element7 d"
    using close_group_elem [of "Suc d" st] Group.prems(2,3) by (simp add: ts(1))
  then show ?case
    using first rest ts(2,5) by (cases t; cases u) (simp add: ts(1) roles_append element6_def run_close)
qed

section \<open>Nothing else is accepted\<close>

definition accepts :: "xml_encoding \<Rightarrow> prolog_state \<Rightarrow> (xml_tok \<times> cstring) list \<Rightarrow> bool" where
  "accepts enc st toks \<longleftrightarrow> handler (snd (roles enc st toks)) = H_declClose"

lemma accepts_Cons: "accepts enc st (t # ts) \<longleftrightarrow> accepts enc (snd (XmlTokenRole enc st (fst t) (snd t))) ts"
  by (cases t) (simp add: accepts_def case_prod_unfold Let_def)

lemma accepts_Nil [simp]: "accepts enc (elem st h d) [] \<longleftrightarrow> h = H_declClose"
  by (simp add: accepts_def)

lemma accepts_error [simp]: "\<not> accepts enc (elem st H_error d) ts"
  by (induction ts) (simp_all add: accepts_Cons role_error_def)

text \<open>Tokens of one declaration, without the space between them.\<close>

abbreviation plain :: "(xml_tok \<times> cstring) list \<Rightarrow> bool" where
  "plain ts \<equiv> list_all (\<lambda>t. fst t \<noteq> XML_TOK_PROLOG_S \<and> fst t \<noteq> XML_TOK_DECL_CLOSE) ts"

lemma common_elem [simp]: "documentEntity st \<Longrightarrow> common (elem st h d) tok = (XML_ROLE_ERROR, elem st H_error d)"
  by (simp add: common_def)

lemma accepts_close:
  "documentEntity st \<Longrightarrow> plain ts \<Longrightarrow> accepts enc (elem st H_declClose d) ts \<longleftrightarrow> ts = []"
  by (cases ts) (auto simp: accepts_Cons declClose_def split: xml_tok.split)

lemma some_fits:
  "(\<exists>r. fits enc (L_name r) t) \<longleftrightarrow> fst t \<in> {XML_TOK_NAME, XML_TOK_PREFIXED_NAME, XML_TOK_NAME_QUESTION,
     XML_TOK_NAME_ASTERISK, XML_TOK_NAME_PLUS}"
  "(\<exists>r. fits enc (L_close r) t) \<longleftrightarrow> fst t \<in> {XML_TOK_CLOSE_PAREN, XML_TOK_CLOSE_PAREN_ASTERISK,
     XML_TOK_CLOSE_PAREN_QUESTION, XML_TOK_CLOSE_PAREN_PLUS}"
  "(\<exists>b. fits enc (L_sep b) t) \<longleftrightarrow> fst t \<in> {XML_TOK_COMMA, XML_TOK_OR}"
proof -
  have all: "(\<exists>r. P r) \<longleftrightarrow> P Once \<or> P Optional \<or> P Star \<or> P Plus" for P
    by (metis repeat.exhaust)
  show "(\<exists>r. fits enc (L_name r) t) \<longleftrightarrow> fst t \<in> {XML_TOK_NAME, XML_TOK_PREFIXED_NAME, XML_TOK_NAME_QUESTION,
     XML_TOK_NAME_ASTERISK, XML_TOK_NAME_PLUS}"
    "(\<exists>r. fits enc (L_close r) t) \<longleftrightarrow> fst t \<in> {XML_TOK_CLOSE_PAREN, XML_TOK_CLOSE_PAREN_ASTERISK,
     XML_TOK_CLOSE_PAREN_QUESTION, XML_TOK_CLOSE_PAREN_PLUS}"
    "(\<exists>b. fits enc (L_sep b) t) \<longleftrightarrow> fst t \<in> {XML_TOK_COMMA, XML_TOK_OR}"
    unfolding all ex_bool_eq by auto
qed

lemma step6:
  assumes "documentEntity st" "fst t \<noteq> XML_TOK_PROLOG_S" "accepts enc (elem st H_element6 d) (t # ts)"
  shows "fits enc L_open t \<and> accepts enc (elem st H_element6 (Suc d)) ts
    \<or> (\<exists>r. fits enc (L_name r) t \<and> accepts enc (elem st H_element7 d) ts)"
proof -
  have "fst t \<in> {XML_TOK_OPEN_PAREN, XML_TOK_NAME, XML_TOK_PREFIXED_NAME, XML_TOK_NAME_QUESTION,
      XML_TOK_NAME_ASTERISK, XML_TOK_NAME_PLUS}"
    using assms by (cases "fst t") (simp_all add: accepts_Cons element6_def)
  then show ?thesis
    using assms(3) unfolding ex_simps some_fits by (auto simp: accepts_Cons element6_def)
qed

lemma step7:
  assumes "documentEntity st" "fst t \<noteq> XML_TOK_PROLOG_S" "accepts enc (elem st H_element7 d) (t # ts)"
  shows "(\<exists>b. fits enc (L_sep b) t \<and> accepts enc (elem st H_element6 d) ts)
    \<or> (\<exists>r. fits enc (L_close r) t \<and> accepts enc (close_group (elem st H_element7 d)) ts)"
proof -
  have "fst t \<in> {XML_TOK_CLOSE_PAREN, XML_TOK_CLOSE_PAREN_ASTERISK, XML_TOK_CLOSE_PAREN_QUESTION,
      XML_TOK_CLOSE_PAREN_PLUS, XML_TOK_COMMA, XML_TOK_OR}"
    using assms by (cases "fst t") (simp_all add: accepts_Cons element7_def)
  then show ?thesis
    using assms(3) unfolding ex_simps some_fits by (auto simp: accepts_Cons element7_def)
qed

definition after_close :: "xml_encoding \<Rightarrow> prolog_state \<Rightarrow> nat \<Rightarrow> (xml_tok \<times> cstring) list \<Rightarrow> bool" where
  "after_close enc st d ts \<longleftrightarrow> (if d = 1 then ts = [] else accepts enc (elem st H_element7 (d - 1)) ts)"

lemma accepted_groups:
  assumes "documentEntity st" "plain ts" "0 < d" "d + length ts < 2 ^ 32"
  shows "accepts enc (elem st H_element6 d) ts \<Longrightarrow>
      \<exists>p us vs. ts = us @ vs \<and> fit enc (particle_lexemes p) us \<and> accepts enc (elem st H_element7 d) vs"
    and "accepts enc (elem st H_element7 d) ts \<Longrightarrow>
      \<exists>ps r us vs. ts = us @ vs \<and> fit enc (seps_lexemes ps @ [L_close r]) us \<and> after_close enc st d vs"
  using assms(2-)
proof (induction "length ts" arbitrary: ts d rule: less_induct)
  case less
  {
    case 1
    then obtain t ts' where ts: "ts = t # ts'" by (cases ts) auto
    with 1 step6 [OF assms(1), of t enc d ts'] consider
        (opened) "fits enc L_open t" "accepts enc (elem st H_element6 (Suc d)) ts'"
      | (named) r where "fits enc (L_name r) t" "accepts enc (elem st H_element7 d) ts'"
      by auto
    then show ?case
    proof cases
      case opened
      obtain p us vs where p: "ts' = us @ vs" "fit enc (particle_lexemes p) us" "accepts enc (elem st H_element7 (Suc d)) vs"
        using less(1) [of ts' "Suc d"] opened(2) 1 by (auto simp: ts)
      obtain ps r us' vs' where ps: "vs = us' @ vs'" "fit enc (seps_lexemes ps @ [L_close r]) us'"
          "after_close enc st (Suc d) vs'"
        using less(2) [of vs "Suc d"] p 1 by (auto simp: ts)
      have "fit enc (particle_lexemes (Group p ps r)) (t # us @ us')"
        using opened(1) p(2) ps(2) by (auto intro: list_all2_appendI)
      moreover have "accepts enc (elem st H_element7 d) vs'"
        using ps(3) 1 by (simp add: after_close_def)
      ultimately show ?thesis using p(1) ps(1) by (intro exI [of _ "Group p ps r"] exI [of _ "t # us @ us'"] exI [of _ vs']) (simp add: ts)
    next
      case named
      then show ?thesis by (intro exI [of _ "Named r"] exI [of _ "[t]"] exI [of _ ts']) (simp add: ts)
    qed
  next
    case 2
    then obtain t ts' where ts: "ts = t # ts'" by (cases ts) auto
    with 2 step7 [OF assms(1), of t enc d ts'] consider
        (sep) b where "fits enc (L_sep b) t" "accepts enc (elem st H_element6 d) ts'"
      | (closed) r where "fits enc (L_close r) t" "accepts enc (close_group (elem st H_element7 d)) ts'"
      by auto
    then show ?case
    proof cases
      case sep
      obtain p us vs where p: "ts' = us @ vs" "fit enc (particle_lexemes p) us" "accepts enc (elem st H_element7 d) vs"
        using less(1) [of ts' d] sep(2) 2 by (auto simp: ts)
      obtain ps r us' vs' where ps: "vs = us' @ vs'" "fit enc (seps_lexemes ps @ [L_close r]) us'" "after_close enc st d vs'"
        using less(2) [of vs d] p 2 by (auto simp: ts)
      have "fit enc (seps_lexemes ((b, p) # ps) @ [L_close r]) (t # us @ us')"
        using sep(1) p(2) ps(2) by (auto intro: list_all2_appendI)
      then show ?thesis
        using p(1) ps(1,3) by (intro exI [of _ "(b, p) # ps"] exI [of _ r] exI [of _ "t # us @ us'"] exI [of _ vs']) (simp add: ts)
    next
      case closed
      have "after_close enc st d ts'"
        using closed(2) close_group_elem [of d st] accepts_close [OF assms(1), of ts' enc 0] 2
        by (auto simp: ts after_close_def split: if_splits)
      with closed(1) show ?thesis
        by (intro exI [of _ "[]"] exI [of _ r] exI [of _ "[t]"] exI [of _ ts']) (simp add: ts)
    qed
  }
qed

section \<open>Text with names\<close>

abbreviation names_lexemes :: "nat \<Rightarrow> lexeme list" where
  "names_lexemes n \<equiv> concat (replicate n [L_sep True, L_name Once])"

lemma run_mixed:
  "fit enc (names_lexemes n @ [L_close Star]) ts \<Longrightarrow> h \<in> {H_element3, H_element5} \<Longrightarrow>
   roles enc (elem st h d) ts
     = (concat (replicate n [XML_ROLE_NONE, XML_ROLE_CONTENT_ELEMENT]) @ [XML_ROLE_GROUP_CLOSE_REP], elem st H_declClose d)"
proof (induction n arbitrary: ts h)
  case 0
  then show ?case by (auto simp: fit_single element3_def element5_def)
next
  case (Suc n)
  then obtain t u vs where ts: "ts = t # u # vs" "fits enc (L_sep True) t" "fits enc (L_name Once) u"
      "fit enc (names_lexemes n @ [L_close Star]) vs"
    by (auto simp: list_all2_Cons1)
  have "roles enc (elem st H_element5 d) vs
      = (concat (replicate n [XML_ROLE_NONE, XML_ROLE_CONTENT_ELEMENT]) @ [XML_ROLE_GROUP_CLOSE_REP], elem st H_declClose d)"
    by (rule Suc.IH) (use ts in auto)
  then show ?case
    using ts(2,3) Suc.prems(2) by (cases t; cases u) (auto simp: ts(1) element3_def element4_def element5_def)
qed

lemma accepted_mixed:
  assumes "documentEntity st" "plain ts" "h \<in> {H_element3, H_element5}" "accepts enc (elem st h d) ts"
  shows "(h = H_element3 \<and> fit enc [L_close Once] ts) \<or> (\<exists>n. fit enc (names_lexemes n @ [L_close Star]) ts)"
  using assms(2-)
proof (induction "length ts" arbitrary: ts h rule: less_induct)
  case less
  then obtain t ts' where ts: "ts = t # ts'" by (cases ts) auto
  have "fst t \<in> {XML_TOK_CLOSE_PAREN, XML_TOK_CLOSE_PAREN_ASTERISK, XML_TOK_OR}"
    using less.prems assms(1) by (cases "fst t") (auto simp: ts accepts_Cons element3_def element5_def)
  then consider (bare) "fst t = XML_TOK_CLOSE_PAREN" | (star) "fst t = XML_TOK_CLOSE_PAREN_ASTERISK" | (bar) "fst t = XML_TOK_OR"
    by auto
  then show ?case
  proof cases
    case bare
    with less.prems assms(1) show ?thesis
      by (auto simp: ts accepts_Cons element3_def element5_def accepts_close)
  next
    case star
    with less.prems assms(1) have "ts' = []"
      by (auto simp: ts accepts_Cons element3_def element5_def accepts_close)
    with star show ?thesis by (intro disjI2 exI [of _ 0]) (simp add: ts)
  next
    case bar
    with less.prems have after: "accepts enc (elem st H_element4 d) ts'"
      by (auto simp: ts accepts_Cons element3_def element5_def)
    then obtain u vs where u: "ts' = u # vs" by (cases ts') auto
    have "fst u \<in> {XML_TOK_NAME, XML_TOK_PREFIXED_NAME}"
      using after less.prems(1) assms(1) by (cases "fst u") (auto simp: ts u accepts_Cons element4_def)
    then have "fits enc (L_name Once) u" "accepts enc (elem st H_element5 d) vs"
      using after by (auto simp: u accepts_Cons element4_def)
    moreover obtain n where "fit enc (names_lexemes n @ [L_close Star]) vs"
      using less.hyps [of vs H_element5] less.prems(1) calculation(2) by (auto simp: ts u)
    ultimately show ?thesis using bar by (intro disjI2 exI [of _ "Suc n"]) (simp add: ts u)
  qed
qed

section \<open>The whole model\<close>

text \<open>The first particle of the outermost group.\<close>

lemma second_step:
  "documentEntity st \<Longrightarrow> tok \<noteq> XML_TOK_POUND_NAME \<Longrightarrow> tok \<noteq> XML_TOK_PROLOG_S \<Longrightarrow>
   element2 enc (elem st H_element2 1) tok x = element6 enc (elem st H_element6 1) tok x"
  by (cases tok) (simp_all add: element2_def element6_def)

lemma first_particle:
  assumes "fit enc (particle_lexemes p) ts"
  shows "roles enc (elem st H_element2 1) ts = roles enc (elem st H_element6 1) ts"
proof -
  obtain t us where ts: "ts = t # us" using assms by (cases p) (auto simp: list_all2_Cons1)
  have "fst t \<in> {XML_TOK_OPEN_PAREN, XML_TOK_NAME, XML_TOK_PREFIXED_NAME, XML_TOK_NAME_QUESTION,
      XML_TOK_NAME_ASTERISK, XML_TOK_NAME_PLUS}"
    using assms some_fits(1) [of enc t] by (cases p) (auto simp: ts list_all2_Cons1 simp del: fits.simps(3))
  then show ?thesis by (cases t) (auto simp: ts element2_def element6_def)
qed

text \<open>The encodings of \<open>xmltok.c\<close> as far as names are compared.\<close>

definition encodings :: "xml_encoding list" where
  "encodings = [ascii_encoding, little2_encoding, big2_encoding]"

lemma name_distinct: "enc \<in> set encodings \<Longrightarrow> name_at enc 0 x ''ANY'' \<Longrightarrow> \<not> name_at enc 0 x ''EMPTY''"
  by (auto simp: encodings_def ascii_encoding_def little2_encoding_def big2_encoding_def name_at_def
      split: list.splits)

lemma run_content:
  assumes "fit enc (content_lexemes m) ts" "length ts < 2 ^ 32" "enc \<in> set encodings"
  shows "\<exists>e. roles enc (elem st H_element1 d) ts = (content_roles m, elem st H_declClose e)"
proof (cases m)
  case Text_only
  with assms(1) show ?thesis
    by (auto simp: list_all2_Cons1 element1_def element2_def element3_def intro!: exI [of _ 1])
next
  case (Mixed n)
  with assms(1) obtain t u ts' where ts: "ts = t # u # ts'" "fits enc L_open t" "fits enc (L_pound ''PCDATA'') u"
      "fit enc (names_lexemes n @ [L_close Star]) ts'"
    by (auto simp: list_all2_Cons1)
  with Mixed run_mixed [OF ts(4), of H_element3 st 1] show ?thesis
    by (cases t; cases u) (auto simp: element1_def element2_def)
next
  case (Children p ps r)
  with assms(1) obtain t us vs u where ts: "ts = t # us @ vs @ [u]" "fits enc L_open t"
      "fit enc (particle_lexemes p) us" "fit enc (seps_lexemes ps) vs" "fits enc (L_close r) u"
    by (auto simp: list_all2_Cons1 fit_append fit_single)
  have first: "roles enc (elem st H_element2 1) us = (particle_roles p, elem st H_element7 1)"
    using run_particle [OF ts(3), of 1 st] assms(2) first_particle [OF ts(3), of st] by (simp add: ts(1))
  have rest: "roles enc (elem st H_element7 1) vs = (seps_roles ps, elem st H_element7 1)"
    by (rule run_seps [where m = "length vs"]) (use ts assms(2) in \<open>auto intro!: run_particle\<close>)
  show ?thesis
    using Children first rest ts(2,5) close_group_elem [of 1 st]
    by (cases t; cases u) (auto simp: ts(1) roles_append element1_def run_close)
qed (use assms in \<open>auto simp: list_all2_Cons1 element1_def name_distinct\<close>)

lemma accepted_content:
  assumes "documentEntity st" "plain ts" "length ts < 2 ^ 32" "accepts enc (elem st H_element1 d) ts"
  shows "\<exists>m. fit enc (content_lexemes m) ts"
proof -
  obtain t us where ts: "ts = t # us" using assms(4) by (cases ts) auto
  consider (word) "fst t = XML_TOK_NAME" | (opened) "fst t = XML_TOK_OPEN_PAREN"
    using assms by (cases "fst t") (simp_all add: ts accepts_Cons element1_def)
  then show ?thesis
  proof cases
    case word
    then have "us = [] \<and> (name_at enc 0 (snd t) ''EMPTY'' \<or> name_at enc 0 (snd t) ''ANY'')"
      using assms accepts_close [OF assms(1), of us enc d] by (auto simp: ts accepts_Cons element1_def split: if_splits)
    with word show ?thesis
      by (elim conjE disjE) (intro exI [of _ Empty_content], simp add: ts, intro exI [of _ Any_content], simp add: ts)
  next
    case opened
    then have two: "accepts enc (elem st H_element2 1) us"
      using assms(4) by (simp add: ts accepts_Cons element1_def)
    then obtain u vs where us: "us = u # vs" by (cases us) auto
    show ?thesis
    proof (cases "fst u = XML_TOK_POUND_NAME")
      case True
      then have "name_at enc 1 (snd u) ''PCDATA'' \<and> accepts enc (elem st H_element3 1) vs"
        using two assms(1) by (auto simp: us accepts_Cons element2_def split: if_splits)
      then have "fits enc (L_pound ''PCDATA'') u" "fit enc [L_close Once] vs \<or> (\<exists>n. fit enc (names_lexemes n @ [L_close Star]) vs)"
        using True accepted_mixed [OF assms(1), of vs H_element3 enc 1] assms(2) by (auto simp: ts us)
      then show ?thesis
        using opened by (elim disjE exE) (intro exI [of _ Text_only], simp add: ts us, rule exI [of _ "Mixed n" for n], simp add: ts us)
    next
      case False
      then have "accepts enc (elem st H_element6 1) us"
        using two assms(2) second_step [OF assms(1) False, of enc "snd u"] by (auto simp: ts us accepts_Cons)
      then obtain p as bcs where p: "us = as @ bcs" "fit enc (particle_lexemes p) as" "accepts enc (elem st H_element7 1) bcs"
        using accepted_groups(1) [OF assms(1), of us 1 enc] assms(2,3) by (auto simp: ts)
      then obtain ps r bs cs where "bcs = bs @ cs" "fit enc (seps_lexemes ps @ [L_close r]) bs" "after_close enc st 1 cs"
        using accepted_groups(2) [OF assms(1), of bcs 1 enc] assms(2,3) by (auto simp: ts)
      then show ?thesis
        using opened p(1,2) by (intro exI [of _ "Children p ps r"]) (auto simp: ts after_close_def intro!: list_all2_appendI)
    qed
  qed
qed

section \<open>Space\<close>

abbreviation unspaced :: "(xml_tok \<times> cstring) list \<Rightarrow> (xml_tok \<times> cstring) list" where
  "unspaced \<equiv> filter (\<lambda>t. fst t \<noteq> XML_TOK_PROLOG_S)"

definition element_phase :: "prolog_handler \<Rightarrow> bool" where
  "element_phase h \<longleftrightarrow> h \<in> {H_element1, H_element2, H_element3, H_element4, H_element5, H_element6, H_element7,
     H_declClose, H_error}"

lemma space_ignored: "element_phase (handler st) \<Longrightarrow> XmlTokenRole enc st XML_TOK_PROLOG_S txt = (XML_ROLE_NONE, st)"
  by (auto simp: element_phase_def XmlTokenRole_def element_defs declClose_def role_error_def)

lemma phase_step:
  assumes "element_phase (handler st)" "documentEntity st" "tok \<noteq> XML_TOK_DECL_CLOSE"
  shows "element_phase (handler (snd (XmlTokenRole enc st tok txt))) \<and> documentEntity (snd (XmlTokenRole enc st tok txt))"
proof -
  have h: "handler st = H_element1 \<or> handler st = H_element2 \<or> handler st = H_element3 \<or> handler st = H_element4 \<or>
      handler st = H_element5 \<or> handler st = H_element6 \<or> handler st = H_element7 \<or> handler st = H_declClose \<or>
      handler st = H_error"
    using assms(1) by (simp add: element_phase_def)
  show ?thesis
    using h assms(2,3)
    by (elim disjE; cases tok; simp add: element_phase_def XmlTokenRole_def element_defs declClose_def
        role_error_def common_def close_group_def Let_def)
qed

lemma roles_unspaced:
  assumes "element_phase (handler st)" "documentEntity st" "XML_TOK_DECL_CLOSE \<notin> fst ` set toks"
  shows "map snd (filter (\<lambda>(t, r). fst t \<noteq> XML_TOK_PROLOG_S) (zip toks (fst (roles enc st toks)))) = fst (roles enc st (unspaced toks))
    \<and> snd (roles enc st toks) = snd (roles enc st (unspaced toks))"
  using assms
proof (induction toks arbitrary: st)
  case (Cons t toks)
  obtain tok x where t: "t = (tok, x)" by (cases t)
  show ?case
  proof (cases "tok = XML_TOK_PROLOG_S")
    case True
    with Cons show ?thesis by (simp add: t space_ignored case_prod_unfold Let_def)
  next
    case False
    with Cons.IH [of "snd (XmlTokenRole enc st tok x)"] phase_step [of st tok enc x] Cons.prems
    show ?thesis by (auto simp: t case_prod_unfold Let_def)
  qed
qed simp

section \<open>Properties\<close>



end
