(* ===== verification/Xml_Tok.thy ===== *)
theory Xml_Tok
  imports Xml_Role "HOL-Library.Monad_Syntax" "HOL-Library.Sublist"
begin

text \<open>
  The scanners of the bundled expat (\<open>lib/expat/xmltok/xmltok_impl.c\<close>).  That file is compiled once
  for every width of characters, with macros for what differs; here these macros are the fields of
  a record.  A pointer into the text is the rest of the text from there up to \<open>end\<close>.  Reading
  more than is left, or moving a pointer further than one past the end, makes the result None.
\<close>

section \<open>Encodings\<close>

datatype (plugins only:) byte_type =
    BT_NONXML | BT_MALFORM | BT_LT | BT_AMP | BT_RSQB | BT_LEAD2 | BT_LEAD3 | BT_LEAD4 | BT_TRAIL
  | BT_CR | BT_LF | BT_GT | BT_QUOT | BT_APOS | BT_EQUALS | BT_QUEST | BT_EXCL | BT_SOL | BT_SEMI
  | BT_NUM | BT_LSQB | BT_S | BT_NMSTRT | BT_COLON | BT_HEX | BT_DIGIT | BT_NAME | BT_MINUS
  | BT_OTHER | BT_NONASCII | BT_PERCNT | BT_LPAR | BT_RPAR | BT_AST | BT_PLUS | BT_COMMA | BT_VERBAR

text \<open>
  The macros: whether a character has at least two bytes, \<open>BYTE_TYPE\<close>, \<open>BYTE_TO_ASCII\<close> (None for
  -1), and the tests \<open>IS_NAME_CHAR\<close>, \<open>IS_NMSTRT_CHAR\<close>, \<open>IS_INVALID_CHAR\<close> for a character of the
  given length and \<open>IS_NAME_CHAR_MINBPC\<close>, \<open>IS_NMSTRT_CHAR_MINBPC\<close>.
\<close>

record tok_encoding =
  te_wide :: bool
  te_type :: "cstring \<Rightarrow> byte_type"
  te_ascii :: "cstring \<Rightarrow> char option"
  te_name :: "nat \<Rightarrow> cstring \<Rightarrow> bool"
  te_nmstrt :: "nat \<Rightarrow> cstring \<Rightarrow> bool"
  te_invalid :: "nat \<Rightarrow> cstring \<Rightarrow> bool"
  te_name_min :: "cstring \<Rightarrow> bool"
  te_nmstrt_min :: "cstring \<Rightarrow> bool"

definition MINBPC :: "tok_encoding \<Rightarrow> nat" where
  "MINBPC enc = (if te_wide enc then 2 else 1)"

section \<open>Reading\<close>

definition read_at :: "nat \<Rightarrow> (cstring \<Rightarrow> 'a) \<Rightarrow> cstring \<Rightarrow> 'a option" where
  "read_at n f p = (if length p < n then None else Some (f p))"

definition move :: "nat \<Rightarrow> cstring \<Rightarrow> cstring option" where
  "move n p = (if length p < n then None else Some (drop n p))"

definition BYTE_TYPE :: "tok_encoding \<Rightarrow> cstring \<Rightarrow> byte_type option" where
  "BYTE_TYPE enc p = read_at (MINBPC enc) (te_type enc) p"

definition CHAR_MATCHES :: "tok_encoding \<Rightarrow> cstring \<Rightarrow> char \<Rightarrow> bool option" where
  "CHAR_MATCHES enc p c = read_at (MINBPC enc) (\<lambda>p. te_ascii enc p = Some c) p"

definition advance :: "tok_encoding \<Rightarrow> cstring \<Rightarrow> cstring option" where
  "advance enc p = move (MINBPC enc) p"

text \<open>
  What a scanner returns: a token with \<open>*nextTokPtr\<close> set, or a value for which it is not set: one of
  the tokens below 1, or the negated token that the end of the text leaves open.
\<close>

datatype scan_result = Scanned xml_tok cstring | Unset xml_tok | Negated xml_tok

type_synonym scanner = "tok_encoding \<Rightarrow> cstring \<Rightarrow> scan_result option"

abbreviation invalid :: "cstring \<Rightarrow> scan_result option" where
  "invalid p \<equiv> Some (Scanned XML_TOK_INVALID p)"

abbreviation partial :: "scan_result option" where
  "partial \<equiv> Some (Unset XML_TOK_PARTIAL)"

text \<open>
  The macros of cases that many switches share.  Each gives the pointer behind a character that is
  accepted, an invalid character, a character that is cut off, or a type that is not among its cases.
\<close>

datatype char_case = Next cstring | Wrong | Cut | Other byte_type

definition lead :: "byte_type \<Rightarrow> nat option" where
  "lead t = (if t = BT_LEAD2 then Some 2 else if t = BT_LEAD3 then Some 3
     else if t = BT_LEAD4 then Some 4 else None)"

definition lead_case :: "nat \<Rightarrow> (nat \<Rightarrow> cstring \<Rightarrow> bool) \<Rightarrow> cstring \<Rightarrow> char_case option" where
  "lead_case n ok p =
     (if length p < n then Some Cut
      else do {
        good \<leftarrow> read_at n (ok n) p;
        if good then do { q \<leftarrow> move n p; Some (Next q) } else Some Wrong })"

definition INVALID_CASES :: "tok_encoding \<Rightarrow> cstring \<Rightarrow> char_case option" where
  "INVALID_CASES enc p = do {
     t \<leftarrow> BYTE_TYPE enc p;
     (case lead t of
        Some n \<Rightarrow> lead_case n (\<lambda>n p. \<not> te_invalid enc n p) p
      | None \<Rightarrow> Some (if t \<in> {BT_NONXML, BT_MALFORM, BT_TRAIL} then Wrong else Other t)) }"

definition CHECK_NAME_CASES :: "tok_encoding \<Rightarrow> cstring \<Rightarrow> char_case option" where
  "CHECK_NAME_CASES enc p = do {
     t \<leftarrow> BYTE_TYPE enc p;
     (case lead t of
        Some n \<Rightarrow> lead_case n (te_name enc) p
      | None \<Rightarrow>
          if t = BT_NONASCII then do {
            good \<leftarrow> read_at (MINBPC enc) (te_name_min enc) p;
            if good then do { q \<leftarrow> advance enc p; Some (Next q) } else Some Wrong }
          else if t \<in> {BT_NMSTRT, BT_HEX, BT_DIGIT, BT_NAME, BT_MINUS} then do {
            q \<leftarrow> advance enc p; Some (Next q) }
          else Some (Other t)) }"

definition CHECK_NMSTRT_CASES :: "tok_encoding \<Rightarrow> cstring \<Rightarrow> char_case option" where
  "CHECK_NMSTRT_CASES enc p = do {
     t \<leftarrow> BYTE_TYPE enc p;
     (case lead t of
        Some n \<Rightarrow> lead_case n (te_nmstrt enc) p
      | None \<Rightarrow>
          if t = BT_NONASCII then do {
            good \<leftarrow> read_at (MINBPC enc) (te_nmstrt_min enc) p;
            if good then do { q \<leftarrow> advance enc p; Some (Next q) } else Some Wrong }
          else if t \<in> {BT_NMSTRT, BT_HEX} then do { q \<leftarrow> advance enc p; Some (Next q) }
          else Some (Other t)) }"

text \<open>The part of a switch that these macros are: what follows an accepted character, and the other cases.\<close>

definition switch ::
  "char_case \<Rightarrow> cstring \<Rightarrow> (cstring \<Rightarrow> scan_result option) \<Rightarrow> (byte_type \<Rightarrow> scan_result option) \<Rightarrow> scan_result option" where
  "switch c p f g =
     (case c of
        Next q \<Rightarrow> f q
      | Wrong \<Rightarrow> invalid p
      | Cut \<Rightarrow> Some (Unset XML_TOK_PARTIAL_CHAR)
      | Other t \<Rightarrow> g t)"

lemma switch_cong [fundef_cong]:
  "c = c' \<Longrightarrow> p = p' \<Longrightarrow> (\<And>q. c' = Next q \<Longrightarrow> f q = f' q) \<Longrightarrow> (\<And>t. c' = Other t \<Longrightarrow> g t = g' t) \<Longrightarrow>
   switch c p f g = switch c' p' f' g'"
  by (cases c') (simp_all add: switch_def)

lemma move_less: "move n p = Some q \<Longrightarrow> 0 < n \<Longrightarrow> length q < length p"
  by (auto simp: move_def split: if_splits)

lemma MINBPC_pos [simp]: "0 < MINBPC enc"
  by (simp add: MINBPC_def)

lemma advance_less: "advance enc p = Some q \<Longrightarrow> length q < length p"
  by (auto simp: advance_def dest: move_less)

lemma lead_pos: "lead t = Some n \<Longrightarrow> 0 < n"
  by (auto simp: lead_def split: if_splits)

lemma lead_case_less: "lead_case n ok p = Some (Next q) \<Longrightarrow> 0 < n \<Longrightarrow> length q < length p"
  by (auto simp: lead_case_def bind_eq_Some_conv move_less split: if_splits)

lemma check_less:
  "INVALID_CASES enc p = Some (Next q) \<Longrightarrow> length q < length p"
  "CHECK_NAME_CASES enc p = Some (Next q) \<Longrightarrow> length q < length p"
  "CHECK_NMSTRT_CASES enc p = Some (Next q) \<Longrightarrow> length q < length p"
  by (auto simp: INVALID_CASES_def CHECK_NAME_CASES_def CHECK_NMSTRT_CASES_def bind_eq_Some_conv
      dest: advance_less lead_case_less lead_pos split: option.splits if_splits)

section \<open>Comments, declarations and processing instructions\<close>

text \<open>The loop over the text of a comment; \<open>scanComment\<close> starts after the first hyphen of two.\<close>

function comment_loop :: scanner where
  "comment_loop enc p =
     (if p = [] then partial
      else do {
        c \<leftarrow> INVALID_CASES enc p;
        switch c p (comment_loop enc) (\<lambda>t.
          if t = BT_MINUS then do {
            p \<leftarrow> advance enc p;
            if p = [] then partial
            else do {
              dash \<leftarrow> CHAR_MATCHES enc p (CHR ''-'');
              if dash then do {
                p \<leftarrow> advance enc p;
                if p = [] then partial
                else do {
                  gt \<leftarrow> CHAR_MATCHES enc p (CHR ''>'');
                  if gt then do { p \<leftarrow> advance enc p; Some (Scanned XML_TOK_COMMENT p) } else invalid p } }
              else comment_loop enc p } }
          else do { p \<leftarrow> advance enc p; comment_loop enc p }) })"
  by pat_completeness auto
termination
  by (relation "measure (\<lambda>(enc, p). length p)") (auto dest!: check_less advance_less)

declare comment_loop.simps [simp del]

definition scanComment :: scanner where
  "scanComment enc p =
     (if p = [] then partial
      else do {
        dash \<leftarrow> CHAR_MATCHES enc p (CHR ''-'');
        if dash then do { p \<leftarrow> advance enc p; comment_loop enc p } else invalid p })"

function decl_loop :: scanner where
  "decl_loop enc p =
     (if p = [] then partial
      else do {
        t \<leftarrow> BYTE_TYPE enc p;
        if t = BT_PERCNT then do {
          q \<leftarrow> advance enc p;
          if q = [] then partial
          else do {
            u \<leftarrow> BYTE_TYPE enc q;
            if u \<in> {BT_S, BT_CR, BT_LF, BT_PERCNT} then invalid p else Some (Scanned XML_TOK_DECL_OPEN p) } }
        else if t \<in> {BT_S, BT_CR, BT_LF} then Some (Scanned XML_TOK_DECL_OPEN p)
        else if t \<in> {BT_NMSTRT, BT_HEX} then do { q \<leftarrow> advance enc p; decl_loop enc q }
        else invalid p })"
  by pat_completeness auto
termination
  by (relation "measure (\<lambda>(enc, p). length p)") (auto dest!: check_less advance_less)

declare decl_loop.simps [simp del]

definition scanDecl :: scanner where
  "scanDecl enc p =
     (if p = [] then partial
      else do {
        t \<leftarrow> BYTE_TYPE enc p;
        if t = BT_MINUS then do { q \<leftarrow> advance enc p; scanComment enc q }
        else if t = BT_LSQB then do { q \<leftarrow> advance enc p; Some (Scanned XML_TOK_COND_SECT_OPEN q) }
        else if t \<in> {BT_NMSTRT, BT_HEX} then do { q \<leftarrow> advance enc p; decl_loop enc q }
        else invalid p })"

text \<open>The bytes of the target; the result is that of the function and \<open>*tokPtr\<close>.\<close>

definition checkPiTarget :: "tok_encoding \<Rightarrow> cstring \<Rightarrow> (bool \<times> xml_tok) option" where
  "checkPiTarget enc p =
     (if length p \<noteq> MINBPC enc * 3 then Some (True, XML_TOK_PI)
      else do {
        x \<leftarrow> read_at (MINBPC enc) (te_ascii enc) p;
        if x \<notin> {Some (CHR ''x''), Some (CHR ''X'')} then Some (True, XML_TOK_PI)
        else do {
          p \<leftarrow> advance enc p;
          m \<leftarrow> read_at (MINBPC enc) (te_ascii enc) p;
          if m \<notin> {Some (CHR ''m''), Some (CHR ''M'')} then Some (True, XML_TOK_PI)
          else do {
            p \<leftarrow> advance enc p;
            l \<leftarrow> read_at (MINBPC enc) (te_ascii enc) p;
            if l \<notin> {Some (CHR ''l''), Some (CHR ''L'')} then Some (True, XML_TOK_PI)
            else if x = Some (CHR ''X'') \<or> m = Some (CHR ''M'') \<or> l = Some (CHR ''L'') then Some (False, XML_TOK_PI)
            else Some (True, XML_TOK_XML_DECL) } } })"

function pi_body :: "xml_tok \<Rightarrow> scanner" where
  "pi_body tok enc p =
     (if p = [] then partial
      else do {
        c \<leftarrow> INVALID_CASES enc p;
        switch c p (pi_body tok enc) (\<lambda>t.
          if t = BT_QUEST then do {
            p \<leftarrow> advance enc p;
            if p = [] then partial
            else do {
              gt \<leftarrow> CHAR_MATCHES enc p (CHR ''>'');
              if gt then do { p \<leftarrow> advance enc p; Some (Scanned tok p) } else pi_body tok enc p } }
          else do { p \<leftarrow> advance enc p; pi_body tok enc p }) })"
  by pat_completeness auto
termination
  by (relation "measure (\<lambda>(tok, enc, p). length p)") (auto dest!: check_less advance_less)

declare pi_body.simps [simp del]

text \<open>The rest of the target, which starts at \<open>target\<close>.\<close>

function pi_target :: "cstring \<Rightarrow> scanner" where
  "pi_target target enc p =
     (if p = [] then partial
      else do {
        c \<leftarrow> CHECK_NAME_CASES enc p;
        switch c p (pi_target target enc) (\<lambda>t.
          if t \<in> {BT_S, BT_CR, BT_LF} then do {
            (ok, tok) \<leftarrow> checkPiTarget enc (take (length target - length p) target);
            if \<not> ok then invalid p else do { p \<leftarrow> advance enc p; pi_body tok enc p } }
          else if t = BT_QUEST then do {
            (ok, tok) \<leftarrow> checkPiTarget enc (take (length target - length p) target);
            if \<not> ok then invalid p
            else do {
              p \<leftarrow> advance enc p;
              if p = [] then partial
              else do {
                gt \<leftarrow> CHAR_MATCHES enc p (CHR ''>'');
                if gt then do { p \<leftarrow> advance enc p; Some (Scanned tok p) } else invalid p } } }
          else invalid p) })"
  by pat_completeness auto
termination
  by (relation "measure (\<lambda>(target, enc, p). length p)") (auto dest!: check_less advance_less)

declare pi_target.simps [simp del]

definition scanPi :: scanner where
  "scanPi enc p =
     (if p = [] then partial
      else do { c \<leftarrow> CHECK_NMSTRT_CASES enc p; switch c p (pi_target p enc) (\<lambda>t. invalid p) })"

section \<open>CDATA sections\<close>

fun cdata_open :: "cstring \<Rightarrow> scanner" where
  "cdata_open [] enc p = Some (Scanned XML_TOK_CDATA_SECT_OPEN p)"
| "cdata_open (c # cs) enc p = do {
     same \<leftarrow> CHAR_MATCHES enc p c;
     if same then do { p \<leftarrow> advance enc p; cdata_open cs enc p } else invalid p }"

definition scanCdataSection :: scanner where
  "scanCdataSection enc p = (if length p < 6 * MINBPC enc then partial else cdata_open ''CDATA['' enc p)"

text \<open>
  The entry of the scanners that are called from outside: half a character at the end of the text
  is left out.
\<close>

definition append_rest :: "cstring \<Rightarrow> scan_result \<Rightarrow> scan_result" where
  "append_rest tail r = (case r of Scanned t q \<Rightarrow> Scanned t (q @ tail) | _ \<Rightarrow> r)"

definition whole_characters :: "scanner \<Rightarrow> scanner" where
  "whole_characters scan enc p =
     (let n = length p - length p mod MINBPC enc
      in if n = 0 then partial else map_option (append_rest (drop n p)) (scan enc (take n p)))"

text \<open>A line end, whose second character may be a line feed.\<close>

definition newline_tok :: "xml_tok \<Rightarrow> scanner" where
  "newline_tok at_end enc p = do {
     p \<leftarrow> advance enc p;
     if p = [] then Some (Unset at_end)
     else do {
       t \<leftarrow> BYTE_TYPE enc p;
       p \<leftarrow> (if t = BT_LF then advance enc p else Some p);
       Some (Scanned XML_TOK_DATA_NEWLINE p) } }"

function cdata_loop :: scanner where
  "cdata_loop enc p =
     (if p = [] then Some (Scanned XML_TOK_DATA_CHARS p)
      else do {
        c \<leftarrow> INVALID_CASES enc p;
        (case c of
           Next q \<Rightarrow> cdata_loop enc q
         | Wrong \<Rightarrow> Some (Scanned XML_TOK_DATA_CHARS p)
         | Cut \<Rightarrow> Some (Scanned XML_TOK_DATA_CHARS p)
         | Other t \<Rightarrow>
             if t \<in> {BT_CR, BT_LF, BT_RSQB} then Some (Scanned XML_TOK_DATA_CHARS p)
             else do { q \<leftarrow> advance enc p; cdata_loop enc q }) })"
  by pat_completeness auto
termination
  by (relation "measure (\<lambda>(enc, p). length p)") (auto dest!: check_less advance_less)

declare cdata_loop.simps [simp del]

definition cdata_first :: scanner where
  "cdata_first enc p = do {
     c \<leftarrow> INVALID_CASES enc p;
     switch c p (cdata_loop enc) (\<lambda>t.
       if t = BT_RSQB then do {
         q \<leftarrow> advance enc p;
         if q = [] then partial
         else do {
           rsqb \<leftarrow> CHAR_MATCHES enc q (CHR '']'');
           if \<not> rsqb then cdata_loop enc q
           else do {
             r \<leftarrow> advance enc q;
             if r = [] then partial
             else do {
               gt \<leftarrow> CHAR_MATCHES enc r (CHR ''>'');
               if \<not> gt then cdata_loop enc q
               else do { r \<leftarrow> advance enc r; Some (Scanned XML_TOK_CDATA_SECT_CLOSE r) } } } } }
       else if t = BT_CR then newline_tok XML_TOK_PARTIAL enc p
       else if t = BT_LF then do { q \<leftarrow> advance enc p; Some (Scanned XML_TOK_DATA_NEWLINE q) }
       else do { q \<leftarrow> advance enc p; cdata_loop enc q }) }"

definition cdataSectionTok :: scanner where
  "cdataSectionTok enc p =
     (if p = [] then Some (Unset XML_TOK_NONE) else whole_characters cdata_first enc p)"

section \<open>End tags and references\<close>

function end_tag_space :: scanner where
  "end_tag_space enc p =
     (if p = [] then partial
      else do {
        t \<leftarrow> BYTE_TYPE enc p;
        if t \<in> {BT_S, BT_CR, BT_LF} then do { q \<leftarrow> advance enc p; end_tag_space enc q }
        else if t = BT_GT then do { q \<leftarrow> advance enc p; Some (Scanned XML_TOK_END_TAG q) }
        else invalid p })"
  by pat_completeness auto
termination
  by (relation "measure (\<lambda>(enc, p). length p)") (auto dest!: check_less advance_less)

declare end_tag_space.simps [simp del]

function end_tag_name :: scanner where
  "end_tag_name enc p =
     (if p = [] then partial
      else do {
        c \<leftarrow> CHECK_NAME_CASES enc p;
        switch c p (end_tag_name enc) (\<lambda>t.
          if t \<in> {BT_S, BT_CR, BT_LF} then do { q \<leftarrow> advance enc p; end_tag_space enc q }
          else if t = BT_COLON then do { q \<leftarrow> advance enc p; end_tag_name enc q }
          else if t = BT_GT then do { q \<leftarrow> advance enc p; Some (Scanned XML_TOK_END_TAG q) }
          else invalid p) })"
  by pat_completeness auto
termination
  by (relation "measure (\<lambda>(enc, p). length p)") (auto dest!: check_less advance_less)

declare end_tag_name.simps [simp del]

definition scanEndTag :: scanner where
  "scanEndTag enc p =
     (if p = [] then partial
      else do { c \<leftarrow> CHECK_NMSTRT_CASES enc p; switch c p (end_tag_name enc) (\<lambda>t. invalid p) })"

text \<open>The digits of a character reference after the first.\<close>

function char_ref_loop :: "byte_type set \<Rightarrow> scanner" where
  "char_ref_loop digits enc p =
     (if p = [] then partial
      else do {
        t \<leftarrow> BYTE_TYPE enc p;
        if t \<in> digits then do { q \<leftarrow> advance enc p; char_ref_loop digits enc q }
        else if t = BT_SEMI then do { q \<leftarrow> advance enc p; Some (Scanned XML_TOK_CHAR_REF q) }
        else invalid p })"
  by pat_completeness auto
termination
  by (relation "measure (\<lambda>(digits, enc, p). length p)") (auto dest!: check_less advance_less)

declare char_ref_loop.simps [simp del]

definition scanHexCharRef :: scanner where
  "scanHexCharRef enc p =
     (if p = [] then partial
      else do {
        t \<leftarrow> BYTE_TYPE enc p;
        if t \<in> {BT_DIGIT, BT_HEX} then do { q \<leftarrow> advance enc p; char_ref_loop {BT_DIGIT, BT_HEX} enc q }
        else invalid p })"

definition scanCharRef :: scanner where
  "scanCharRef enc p =
     (if p = [] then partial
      else do {
        x \<leftarrow> CHAR_MATCHES enc p (CHR ''x'');
        if x then do { q \<leftarrow> advance enc p; scanHexCharRef enc q }
        else do {
          t \<leftarrow> BYTE_TYPE enc p;
          if t = BT_DIGIT then do { q \<leftarrow> advance enc p; char_ref_loop {BT_DIGIT} enc q }
          else invalid p } })"

function ref_name :: "xml_tok \<Rightarrow> scanner" where
  "ref_name tok enc p =
     (if p = [] then partial
      else do {
        c \<leftarrow> CHECK_NAME_CASES enc p;
        switch c p (ref_name tok enc) (\<lambda>t.
          if t = BT_SEMI then do { q \<leftarrow> advance enc p; Some (Scanned tok q) } else invalid p) })"
  by pat_completeness auto
termination
  by (relation "measure (\<lambda>(tok, enc, p). length p)") (auto dest!: check_less advance_less)

declare ref_name.simps [simp del]

definition scanRef :: scanner where
  "scanRef enc p =
     (if p = [] then partial
      else do {
        c \<leftarrow> CHECK_NMSTRT_CASES enc p;
        switch c p (ref_name XML_TOK_ENTITY_REF enc) (\<lambda>t.
          if t = BT_NUM then do { q \<leftarrow> advance enc p; scanCharRef enc q } else invalid p) })"

text \<open>The next token does not start before the given pointer.\<close>

definition behind :: "cstring \<Rightarrow> scan_result option \<Rightarrow> bool" where
  "behind p r \<longleftrightarrow> (\<forall>t q. r = Some (Scanned t q) \<longrightarrow> length q \<le> length p)"

lemma behind_intros:
  "length q \<le> length p \<Longrightarrow> behind p (Some (Scanned t q))"
  "behind p (Some (Unset u))"
  "behind p (Some (Negated u))"
  "(\<And>x. m = Some x \<Longrightarrow> behind p (h x)) \<Longrightarrow> behind p (Option.bind m h)"
  "(\<And>q. c = Next q \<Longrightarrow> behind p (f q)) \<Longrightarrow> (\<And>t. behind p (g t)) \<Longrightarrow> length p' \<le> length p \<Longrightarrow>
     behind p (switch c p' f g)"
  "(b \<Longrightarrow> behind p r) \<Longrightarrow> (\<not> b \<Longrightarrow> behind p r') \<Longrightarrow> behind p (if b then r else r')"
  by (auto simp: behind_def switch_def bind_eq_Some_conv split: char_case.splits)

lemma behind_mono: "behind q r \<Longrightarrow> length q \<le> length p \<Longrightarrow> behind p r"
  by (auto simp: behind_def)

lemmas behind_shorter = less_imp_le [OF advance_less] less_imp_le [OF check_less(1)] less_imp_le [OF check_less(2)]
  less_imp_le [OF check_less(3)]

lemma behind_char_ref_loop: "behind p (char_ref_loop ds enc p)"
proof (induction ds enc p rule: char_ref_loop.induct)
  case (1 ds enc p)
  show ?case
    by (subst char_ref_loop.simps)
      (auto intro!: behind_intros simp: behind_shorter intro: behind_mono [OF 1] behind_shorter)
qed

lemma behind_ref_name: "behind p (ref_name tok enc p)"
proof (induction tok enc p rule: ref_name.induct)
  case (1 tok enc p)
  show ?case
    by (subst ref_name.simps)
      (auto intro!: behind_intros simp: behind_shorter intro: behind_mono [OF 1] behind_shorter)
qed

lemma scanRef_le: "scanRef enc p = Some (Scanned t q) \<Longrightarrow> length q \<le> length p"
proof -
  have "behind p (scanRef enc p)"
    unfolding scanRef_def scanCharRef_def scanHexCharRef_def
    by (auto intro!: behind_intros behind_mono [OF behind_ref_name] behind_mono [OF behind_char_ref_loop]
        dest!: advance_less check_less)
  then show "scanRef enc p = Some (Scanned t q) \<Longrightarrow> length q \<le> length p" by (simp add: behind_def)
qed

section \<open>Start tags\<close>

text \<open>A slash and the bracket after it.\<close>

definition slash_close :: "xml_tok \<Rightarrow> scanner" where
  "slash_close tok enc p = do {
     p \<leftarrow> advance enc p;
     if p = [] then partial
     else do {
       gt \<leftarrow> CHAR_MATCHES enc p (CHR ''>'');
       if \<not> gt then invalid p else do { p \<leftarrow> advance enc p; Some (Scanned tok p) } } }"

text \<open>
  Where \<open>scanAtts\<close> is: in a name (and whether it had a colon), before the equals sign, before the
  opening quote, in a value that the given type of quote ends, at the character after the closing
  quote, or in the space after it.
\<close>

datatype att_place = In_name bool | Before_equals | Before_quote | In_value byte_type | After_value | Between

function scan_atts :: "att_place \<Rightarrow> scanner" where
  "scan_atts place enc p =
     (if p = [] then partial
      else (case place of
        In_name hadColon \<Rightarrow> do {
          c \<leftarrow> CHECK_NAME_CASES enc p;
          switch c p (scan_atts (In_name hadColon) enc) (\<lambda>t.
            if t = BT_COLON then
              if hadColon then invalid p
              else do {
                q \<leftarrow> advance enc p;
                if q = [] then partial
                else do {
                  c \<leftarrow> CHECK_NMSTRT_CASES enc q;
                  switch c q (scan_atts (In_name True) enc) (\<lambda>t. invalid q) } }
            else if t \<in> {BT_S, BT_CR, BT_LF} then do { q \<leftarrow> advance enc p; scan_atts Before_equals enc q }
            else if t = BT_EQUALS then do { q \<leftarrow> advance enc p; scan_atts Before_quote enc q }
            else invalid p) }
      | Before_equals \<Rightarrow> do {
          t \<leftarrow> BYTE_TYPE enc p;
          if t = BT_EQUALS then do { q \<leftarrow> advance enc p; scan_atts Before_quote enc q }
          else if t \<in> {BT_S, BT_LF, BT_CR} then do { q \<leftarrow> advance enc p; scan_atts Before_equals enc q }
          else invalid p }
      | Before_quote \<Rightarrow> do {
          t \<leftarrow> BYTE_TYPE enc p;
          if t \<in> {BT_QUOT, BT_APOS} then do { q \<leftarrow> advance enc p; scan_atts (In_value t) enc q }
          else if t \<in> {BT_S, BT_LF, BT_CR} then do { q \<leftarrow> advance enc p; scan_atts Before_quote enc q }
          else invalid p }
      | In_value open_quote \<Rightarrow> do {
          t \<leftarrow> BYTE_TYPE enc p;
          if t = open_quote then do { q \<leftarrow> advance enc p; scan_atts After_value enc q }
          else do {
            c \<leftarrow> INVALID_CASES enc p;
            switch c p (scan_atts (In_value open_quote) enc) (\<lambda>t.
              if t = BT_AMP then do {
                q \<leftarrow> advance enc p;
                r \<leftarrow> scanRef enc q;
                (case r of
                   Scanned tok q' \<Rightarrow>
                     if tok = XML_TOK_INVALID then invalid q' else scan_atts (In_value open_quote) enc q'
                 | _ \<Rightarrow> Some r) }
              else if t = BT_LT then invalid p
              else do { q \<leftarrow> advance enc p; scan_atts (In_value open_quote) enc q }) } }
      | After_value \<Rightarrow> do {
          t \<leftarrow> BYTE_TYPE enc p;
          if t \<in> {BT_S, BT_CR, BT_LF} then do { q \<leftarrow> advance enc p; scan_atts Between enc q }
          else if t = BT_SOL then slash_close XML_TOK_EMPTY_ELEMENT_WITH_ATTS enc p
          else if t = BT_GT then do { q \<leftarrow> advance enc p; Some (Scanned XML_TOK_START_TAG_WITH_ATTS q) }
          else invalid p }
      | Between \<Rightarrow> do {
          c \<leftarrow> CHECK_NMSTRT_CASES enc p;
          switch c p (scan_atts (In_name False) enc) (\<lambda>t.
            if t \<in> {BT_S, BT_CR, BT_LF} then do { q \<leftarrow> advance enc p; scan_atts Between enc q }
            else if t = BT_GT then do { q \<leftarrow> advance enc p; Some (Scanned XML_TOK_START_TAG_WITH_ATTS q) }
            else if t = BT_SOL then slash_close XML_TOK_EMPTY_ELEMENT_WITH_ATTS enc p
            else invalid p) }))"
  by pat_completeness auto
termination
  by (relation "measure (\<lambda>(place, enc, p). length p)")
    (auto dest!: check_less advance_less scanRef_le)

declare scan_atts.simps [simp del]

text \<open>\<open>ptr\<close> is in the name of the first attribute.\<close>

definition scanAtts :: scanner where
  "scanAtts = scan_atts (In_name False)"

function start_tag_space :: scanner where
  "start_tag_space enc p =
     (if p = [] then partial
      else do {
        c \<leftarrow> CHECK_NMSTRT_CASES enc p;
        switch c p (scanAtts enc) (\<lambda>t.
          if t = BT_GT then do { q \<leftarrow> advance enc p; Some (Scanned XML_TOK_START_TAG_NO_ATTS q) }
          else if t = BT_SOL then slash_close XML_TOK_EMPTY_ELEMENT_NO_ATTS enc p
          else if t \<in> {BT_S, BT_CR, BT_LF} then do { q \<leftarrow> advance enc p; start_tag_space enc q }
          else invalid p) })"
  by pat_completeness auto
termination
  by (relation "measure (\<lambda>(enc, p). length p)") (auto dest!: check_less advance_less)

declare start_tag_space.simps [simp del]

function start_tag_name :: "bool \<Rightarrow> scanner" where
  "start_tag_name hadColon enc p =
     (if p = [] then partial
      else do {
        c \<leftarrow> CHECK_NAME_CASES enc p;
        switch c p (start_tag_name hadColon enc) (\<lambda>t.
          if t = BT_COLON then
            if hadColon then invalid p
            else do {
              q \<leftarrow> advance enc p;
              if q = [] then partial
              else do {
                c \<leftarrow> CHECK_NMSTRT_CASES enc q;
                switch c q (start_tag_name True enc) (\<lambda>t. invalid q) } }
          else if t \<in> {BT_S, BT_CR, BT_LF} then do { q \<leftarrow> advance enc p; start_tag_space enc q }
          else if t = BT_GT then do { q \<leftarrow> advance enc p; Some (Scanned XML_TOK_START_TAG_NO_ATTS q) }
          else if t = BT_SOL then slash_close XML_TOK_EMPTY_ELEMENT_NO_ATTS enc p
          else invalid p) })"
  by pat_completeness auto
termination
  by (relation "measure (\<lambda>(hadColon, enc, p). length p)") (auto dest!: check_less advance_less)

declare start_tag_name.simps [simp del]

definition scanLt :: scanner where
  "scanLt enc p =
     (if p = [] then partial
      else do {
        c \<leftarrow> CHECK_NMSTRT_CASES enc p;
        switch c p (start_tag_name False enc) (\<lambda>t.
          if t = BT_EXCL then do {
            q \<leftarrow> advance enc p;
            if q = [] then partial
            else do {
              u \<leftarrow> BYTE_TYPE enc q;
              if u = BT_MINUS then do { r \<leftarrow> advance enc q; scanComment enc r }
              else if u = BT_LSQB then do { r \<leftarrow> advance enc q; scanCdataSection enc r }
              else invalid q } }
          else if t = BT_QUEST then do { q \<leftarrow> advance enc p; scanPi enc q }
          else if t = BT_SOL then do { q \<leftarrow> advance enc p; scanEndTag enc q }
          else invalid p) })"

section \<open>Content\<close>

function content_loop :: scanner where
  "content_loop enc p =
     (if p = [] then Some (Scanned XML_TOK_DATA_CHARS p)
      else do {
        c \<leftarrow> INVALID_CASES enc p;
        (case c of
           Next q \<Rightarrow> content_loop enc q
         | Wrong \<Rightarrow> Some (Scanned XML_TOK_DATA_CHARS p)
         | Cut \<Rightarrow> Some (Scanned XML_TOK_DATA_CHARS p)
         | Other t \<Rightarrow>
             if t = BT_RSQB then do {
               q \<leftarrow> advance enc p;
               if q = [] then Some (Scanned XML_TOK_DATA_CHARS p)
               else do {
                 rsqb \<leftarrow> CHAR_MATCHES enc q (CHR '']'');
                 if \<not> rsqb then content_loop enc q
                 else do {
                   r \<leftarrow> advance enc q;
                   if r = [] then Some (Scanned XML_TOK_DATA_CHARS p)
                   else do {
                     gt \<leftarrow> CHAR_MATCHES enc r (CHR ''>'');
                     if \<not> gt then content_loop enc q else invalid r } } } }
             else if t \<in> {BT_AMP, BT_LT, BT_CR, BT_LF} then Some (Scanned XML_TOK_DATA_CHARS p)
             else do { q \<leftarrow> advance enc p; content_loop enc q }) })"
  by pat_completeness auto
termination
  by (relation "measure (\<lambda>(enc, p). length p)") (auto dest!: check_less advance_less)

declare content_loop.simps [simp del]

definition content_first :: scanner where
  "content_first enc p = do {
     c \<leftarrow> INVALID_CASES enc p;
     switch c p (content_loop enc) (\<lambda>t.
       if t = BT_LT then do { q \<leftarrow> advance enc p; scanLt enc q }
       else if t = BT_AMP then do { q \<leftarrow> advance enc p; scanRef enc q }
       else if t = BT_CR then newline_tok XML_TOK_TRAILING_CR enc p
       else if t = BT_LF then do { q \<leftarrow> advance enc p; Some (Scanned XML_TOK_DATA_NEWLINE q) }
       else if t = BT_RSQB then do {
         q \<leftarrow> advance enc p;
         if q = [] then Some (Unset XML_TOK_TRAILING_RSQB)
         else do {
           rsqb \<leftarrow> CHAR_MATCHES enc q (CHR '']'');
           if \<not> rsqb then content_loop enc q
           else do {
             r \<leftarrow> advance enc q;
             if r = [] then Some (Unset XML_TOK_TRAILING_RSQB)
             else do {
               gt \<leftarrow> CHAR_MATCHES enc r (CHR ''>'');
               if \<not> gt then content_loop enc q else invalid r } } } }
       else do { q \<leftarrow> advance enc p; content_loop enc q }) }"

definition contentTok :: scanner where
  "contentTok enc p =
     (if p = [] then Some (Unset XML_TOK_NONE) else whole_characters content_first enc p)"

section \<open>The prolog\<close>

definition scanPercent :: scanner where
  "scanPercent enc p =
     (if p = [] then partial
      else do {
        c \<leftarrow> CHECK_NMSTRT_CASES enc p;
        switch c p (ref_name XML_TOK_PARAM_ENTITY_REF enc) (\<lambda>t.
          if t \<in> {BT_S, BT_LF, BT_CR, BT_PERCNT} then Some (Scanned XML_TOK_PERCENT p) else invalid p) })"

function pound_name :: scanner where
  "pound_name enc p =
     (if p = [] then Some (Negated XML_TOK_POUND_NAME)
      else do {
        c \<leftarrow> CHECK_NAME_CASES enc p;
        switch c p (pound_name enc) (\<lambda>t.
          if t \<in> {BT_CR, BT_LF, BT_S, BT_RPAR, BT_GT, BT_PERCNT, BT_VERBAR} then Some (Scanned XML_TOK_POUND_NAME p)
          else invalid p) })"
  by pat_completeness auto
termination
  by (relation "measure (\<lambda>(enc, p). length p)") (auto dest!: check_less advance_less)

declare pound_name.simps [simp del]

definition scanPoundName :: scanner where
  "scanPoundName enc p =
     (if p = [] then partial
      else do { c \<leftarrow> CHECK_NMSTRT_CASES enc p; switch c p (pound_name enc) (\<lambda>t. invalid p) })"

function scanLit :: "byte_type \<Rightarrow> scanner" where
  "scanLit open_quote enc p =
     (if p = [] then partial
      else do {
        c \<leftarrow> INVALID_CASES enc p;
        switch c p (scanLit open_quote enc) (\<lambda>t.
          if t \<in> {BT_QUOT, BT_APOS} then do {
            q \<leftarrow> advance enc p;
            if t \<noteq> open_quote then scanLit open_quote enc q
            else if q = [] then Some (Negated XML_TOK_LITERAL)
            else do {
              u \<leftarrow> BYTE_TYPE enc q;
              if u \<in> {BT_S, BT_CR, BT_LF, BT_GT, BT_PERCNT, BT_LSQB} then Some (Scanned XML_TOK_LITERAL q)
              else invalid q } }
          else do { q \<leftarrow> advance enc p; scanLit open_quote enc q }) })"
  by pat_completeness auto
termination
  by (relation "measure (\<lambda>(open_quote, enc, p). length p)") (auto dest!: check_less advance_less)

declare scanLit.simps [simp del]

text \<open>The space of a prolog, from a character of it.\<close>

function prolog_space :: scanner where
  "prolog_space enc p = do {
     q \<leftarrow> advance enc p;
     if q = [] then Some (Scanned XML_TOK_PROLOG_S q)
     else do {
       t \<leftarrow> BYTE_TYPE enc q;
       if t \<in> {BT_S, BT_LF} then prolog_space enc q
       else if t = BT_CR then do {
         r \<leftarrow> advance enc q;
         if r \<noteq> [] then prolog_space enc q else Some (Scanned XML_TOK_PROLOG_S q) }
       else Some (Scanned XML_TOK_PROLOG_S q) } }"
  by pat_completeness auto
termination
  by (relation "measure (\<lambda>(enc, p). length p)") (auto dest!: check_less advance_less)

declare prolog_space.simps [simp del]

text \<open>What follows a name in an element declaration.\<close>

definition name_suffix :: "xml_tok \<Rightarrow> xml_tok \<Rightarrow> scanner" where
  "name_suffix tok with_suffix enc p =
     (if tok = XML_TOK_NMTOKEN then invalid p
      else do { q \<leftarrow> advance enc p; Some (Scanned with_suffix q) })"

function prolog_name :: "xml_tok \<Rightarrow> scanner" where
  "prolog_name tok enc p =
     (if p = [] then Some (Negated tok)
      else do {
        c \<leftarrow> CHECK_NAME_CASES enc p;
        switch c p (prolog_name tok enc) (\<lambda>t.
          if t \<in> {BT_GT, BT_RPAR, BT_COMMA, BT_VERBAR, BT_LSQB, BT_PERCNT, BT_S, BT_CR, BT_LF} then
            Some (Scanned tok p)
          else if t = BT_COLON then do {
            q \<leftarrow> advance enc p;
            if tok = XML_TOK_NAME then
              if q = [] then partial
              else do {
                c \<leftarrow> CHECK_NAME_CASES enc q;
                switch c q (prolog_name XML_TOK_PREFIXED_NAME enc) (\<lambda>t. prolog_name XML_TOK_NMTOKEN enc q) }
            else if tok = XML_TOK_PREFIXED_NAME then prolog_name XML_TOK_NMTOKEN enc q
            else prolog_name tok enc q }
          else if t = BT_PLUS then name_suffix tok XML_TOK_NAME_PLUS enc p
          else if t = BT_AST then name_suffix tok XML_TOK_NAME_ASTERISK enc p
          else if t = BT_QUEST then name_suffix tok XML_TOK_NAME_QUESTION enc p
          else invalid p) })"
  by pat_completeness auto
termination
  by (relation "measure (\<lambda>(tok, enc, p). length p)") (auto dest!: check_less advance_less)

declare prolog_name.simps [simp del]

text \<open>The first character of a name or name token, of the given number of bytes.\<close>

definition prolog_name_start :: "nat \<Rightarrow> scanner" where
  "prolog_name_start n enc p =
     (if length p < n then Some (Unset XML_TOK_PARTIAL_CHAR)
      else do {
        start \<leftarrow> read_at n (te_nmstrt enc n) p;
        name \<leftarrow> read_at n (te_name enc n) p;
        if start then do { q \<leftarrow> move n p; prolog_name XML_TOK_NAME enc q }
        else if name then do { q \<leftarrow> move n p; prolog_name XML_TOK_NMTOKEN enc q }
        else invalid p })"

definition close_paren :: scanner where
  "close_paren enc p = do {
     q \<leftarrow> advance enc p;
     if q = [] then Some (Negated XML_TOK_CLOSE_PAREN)
     else do {
       t \<leftarrow> BYTE_TYPE enc q;
       if t = BT_AST then do { r \<leftarrow> advance enc q; Some (Scanned XML_TOK_CLOSE_PAREN_ASTERISK r) }
       else if t = BT_QUEST then do { r \<leftarrow> advance enc q; Some (Scanned XML_TOK_CLOSE_PAREN_QUESTION r) }
       else if t = BT_PLUS then do { r \<leftarrow> advance enc q; Some (Scanned XML_TOK_CLOSE_PAREN_PLUS r) }
       else if t \<in> {BT_CR, BT_LF, BT_S, BT_GT, BT_COMMA, BT_VERBAR, BT_RPAR} then Some (Scanned XML_TOK_CLOSE_PAREN q)
       else invalid q } }"

definition close_bracket :: scanner where
  "close_bracket enc p = do {
     q \<leftarrow> advance enc p;
     if q = [] then Some (Negated XML_TOK_CLOSE_BRACKET)
     else do {
       rsqb \<leftarrow> CHAR_MATCHES enc q (CHR '']'');
       if rsqb then do {
         r \<leftarrow> advance enc q;
         if r = [] then partial
         else do {
           gt \<leftarrow> CHAR_MATCHES enc r (CHR ''>'');
           if gt then do { r \<leftarrow> advance enc r; Some (Scanned XML_TOK_COND_SECT_CLOSE r) }
           else Some (Scanned XML_TOK_CLOSE_BRACKET q) } }
       else Some (Scanned XML_TOK_CLOSE_BRACKET q) } }"

definition prolog_lt :: scanner where
  "prolog_lt enc p = do {
     q \<leftarrow> advance enc p;
     if q = [] then partial
     else do {
       t \<leftarrow> BYTE_TYPE enc q;
       if t = BT_EXCL then do { r \<leftarrow> advance enc q; scanDecl enc r }
       else if t = BT_QUEST then do { r \<leftarrow> advance enc q; scanPi enc r }
       else if t \<in> {BT_NMSTRT, BT_HEX, BT_NONASCII, BT_LEAD2, BT_LEAD3, BT_LEAD4} then
         Some (Scanned XML_TOK_INSTANCE_START p)
       else invalid q } }"

definition one_character :: "xml_tok \<Rightarrow> scanner" where
  "one_character tok enc p = do { q \<leftarrow> advance enc p; Some (Scanned tok q) }"

definition prolog_first :: scanner where
  "prolog_first enc p = do {
     t \<leftarrow> BYTE_TYPE enc p;
     if t = BT_QUOT then do { q \<leftarrow> advance enc p; scanLit BT_QUOT enc q }
     else if t = BT_APOS then do { q \<leftarrow> advance enc p; scanLit BT_APOS enc q }
     else if t = BT_LT then prolog_lt enc p
     else if t = BT_CR then do {
       q \<leftarrow> advance enc p;
       if q = [] then Some (Negated XML_TOK_PROLOG_S) else prolog_space enc p }
     else if t \<in> {BT_S, BT_LF} then prolog_space enc p
     else if t = BT_PERCNT then do { q \<leftarrow> advance enc p; scanPercent enc q }
     else if t = BT_COMMA then one_character XML_TOK_COMMA enc p
     else if t = BT_LSQB then one_character XML_TOK_OPEN_BRACKET enc p
     else if t = BT_RSQB then close_bracket enc p
     else if t = BT_LPAR then one_character XML_TOK_OPEN_PAREN enc p
     else if t = BT_RPAR then close_paren enc p
     else if t = BT_VERBAR then one_character XML_TOK_OR enc p
     else if t = BT_GT then one_character XML_TOK_DECL_CLOSE enc p
     else if t = BT_NUM then do { q \<leftarrow> advance enc p; scanPoundName enc q }
     else if t = BT_LEAD2 then prolog_name_start 2 enc p
     else if t = BT_LEAD3 then prolog_name_start 3 enc p
     else if t = BT_LEAD4 then prolog_name_start 4 enc p
     else if t \<in> {BT_NMSTRT, BT_HEX} then do { q \<leftarrow> advance enc p; prolog_name XML_TOK_NAME enc q }
     else if t \<in> {BT_DIGIT, BT_NAME, BT_MINUS, BT_COLON} then do {
       q \<leftarrow> advance enc p; prolog_name XML_TOK_NMTOKEN enc q }
     else if t = BT_NONASCII then do {
       start \<leftarrow> read_at (MINBPC enc) (te_nmstrt_min enc) p;
       name \<leftarrow> read_at (MINBPC enc) (te_name_min enc) p;
       q \<leftarrow> advance enc p;
       if start then prolog_name XML_TOK_NAME enc q
       else if name then prolog_name XML_TOK_NMTOKEN enc q
       else invalid p }
     else invalid p }"

definition prologTok :: scanner where
  "prologTok enc p =
     (if p = [] then Some (Unset XML_TOK_NONE) else whole_characters prolog_first enc p)"

end
