(* ===== verification/Xml_Encoding.thy ===== *)
theory Xml_Encoding
  imports Xml_Tok
begin

unbundle bit_operations_syntax

text \<open>
  The encodings of the bundled expat (\<open>lib/expat/xmltok/xmltok.c\<close>): the tables of byte types, the
  tests for name characters, the conversions to UTF-8 and UTF-16, and the choice of an encoding
  from the first bytes of a document.  \<open>nametab.h\<close> and the tables are generated data, copied here.
\<close>

section \<open>Tables\<close>

definition asciitab :: "byte_type list" where
  "asciitab =
     [BT_NONXML, BT_NONXML, BT_NONXML, BT_NONXML, BT_NONXML, BT_NONXML, BT_NONXML, BT_NONXML,
      BT_NONXML, BT_S, BT_LF, BT_NONXML, BT_NONXML, BT_CR, BT_NONXML, BT_NONXML, BT_NONXML,
      BT_NONXML, BT_NONXML, BT_NONXML, BT_NONXML, BT_NONXML, BT_NONXML, BT_NONXML, BT_NONXML,
      BT_NONXML, BT_NONXML, BT_NONXML, BT_NONXML, BT_NONXML, BT_NONXML, BT_NONXML, BT_S, BT_EXCL,
      BT_QUOT, BT_NUM, BT_OTHER, BT_PERCNT, BT_AMP, BT_APOS, BT_LPAR, BT_RPAR, BT_AST, BT_PLUS,
      BT_COMMA, BT_MINUS, BT_NAME, BT_SOL, BT_DIGIT, BT_DIGIT, BT_DIGIT, BT_DIGIT, BT_DIGIT,
      BT_DIGIT, BT_DIGIT, BT_DIGIT, BT_DIGIT, BT_DIGIT, BT_COLON, BT_SEMI, BT_LT, BT_EQUALS, BT_GT,
      BT_QUEST, BT_OTHER, BT_HEX, BT_HEX, BT_HEX, BT_HEX, BT_HEX, BT_HEX, BT_NMSTRT, BT_NMSTRT,
      BT_NMSTRT, BT_NMSTRT, BT_NMSTRT, BT_NMSTRT, BT_NMSTRT, BT_NMSTRT, BT_NMSTRT, BT_NMSTRT,
      BT_NMSTRT, BT_NMSTRT, BT_NMSTRT, BT_NMSTRT, BT_NMSTRT, BT_NMSTRT, BT_NMSTRT, BT_NMSTRT,
      BT_NMSTRT, BT_NMSTRT, BT_LSQB, BT_OTHER, BT_RSQB, BT_OTHER, BT_NMSTRT, BT_OTHER, BT_HEX,
      BT_HEX, BT_HEX, BT_HEX, BT_HEX, BT_HEX, BT_NMSTRT, BT_NMSTRT, BT_NMSTRT, BT_NMSTRT,
      BT_NMSTRT, BT_NMSTRT, BT_NMSTRT, BT_NMSTRT, BT_NMSTRT, BT_NMSTRT, BT_NMSTRT, BT_NMSTRT,
      BT_NMSTRT, BT_NMSTRT, BT_NMSTRT, BT_NMSTRT, BT_NMSTRT, BT_NMSTRT, BT_NMSTRT, BT_NMSTRT,
      BT_OTHER, BT_VERBAR, BT_OTHER, BT_OTHER, BT_OTHER]"

definition utf8tab :: "byte_type list" where
  "utf8tab =
     [BT_TRAIL, BT_TRAIL, BT_TRAIL, BT_TRAIL, BT_TRAIL, BT_TRAIL, BT_TRAIL, BT_TRAIL, BT_TRAIL,
      BT_TRAIL, BT_TRAIL, BT_TRAIL, BT_TRAIL, BT_TRAIL, BT_TRAIL, BT_TRAIL, BT_TRAIL, BT_TRAIL,
      BT_TRAIL, BT_TRAIL, BT_TRAIL, BT_TRAIL, BT_TRAIL, BT_TRAIL, BT_TRAIL, BT_TRAIL, BT_TRAIL,
      BT_TRAIL, BT_TRAIL, BT_TRAIL, BT_TRAIL, BT_TRAIL, BT_TRAIL, BT_TRAIL, BT_TRAIL, BT_TRAIL,
      BT_TRAIL, BT_TRAIL, BT_TRAIL, BT_TRAIL, BT_TRAIL, BT_TRAIL, BT_TRAIL, BT_TRAIL, BT_TRAIL,
      BT_TRAIL, BT_TRAIL, BT_TRAIL, BT_TRAIL, BT_TRAIL, BT_TRAIL, BT_TRAIL, BT_TRAIL, BT_TRAIL,
      BT_TRAIL, BT_TRAIL, BT_TRAIL, BT_TRAIL, BT_TRAIL, BT_TRAIL, BT_TRAIL, BT_TRAIL, BT_TRAIL,
      BT_TRAIL, BT_LEAD2, BT_LEAD2, BT_LEAD2, BT_LEAD2, BT_LEAD2, BT_LEAD2, BT_LEAD2, BT_LEAD2,
      BT_LEAD2, BT_LEAD2, BT_LEAD2, BT_LEAD2, BT_LEAD2, BT_LEAD2, BT_LEAD2, BT_LEAD2, BT_LEAD2,
      BT_LEAD2, BT_LEAD2, BT_LEAD2, BT_LEAD2, BT_LEAD2, BT_LEAD2, BT_LEAD2, BT_LEAD2, BT_LEAD2,
      BT_LEAD2, BT_LEAD2, BT_LEAD2, BT_LEAD2, BT_LEAD2, BT_LEAD2, BT_LEAD3, BT_LEAD3, BT_LEAD3,
      BT_LEAD3, BT_LEAD3, BT_LEAD3, BT_LEAD3, BT_LEAD3, BT_LEAD3, BT_LEAD3, BT_LEAD3, BT_LEAD3,
      BT_LEAD3, BT_LEAD3, BT_LEAD3, BT_LEAD3, BT_LEAD4, BT_LEAD4, BT_LEAD4, BT_LEAD4, BT_LEAD4,
      BT_NONXML, BT_NONXML, BT_NONXML, BT_NONXML, BT_NONXML, BT_NONXML, BT_NONXML, BT_NONXML,
      BT_NONXML, BT_MALFORM, BT_MALFORM]"

definition latin1tab :: "byte_type list" where
  "latin1tab =
     [BT_OTHER, BT_OTHER, BT_OTHER, BT_OTHER, BT_OTHER, BT_OTHER, BT_OTHER, BT_OTHER, BT_OTHER,
      BT_OTHER, BT_OTHER, BT_OTHER, BT_OTHER, BT_OTHER, BT_OTHER, BT_OTHER, BT_OTHER, BT_OTHER,
      BT_OTHER, BT_OTHER, BT_OTHER, BT_OTHER, BT_OTHER, BT_OTHER, BT_OTHER, BT_OTHER, BT_OTHER,
      BT_OTHER, BT_OTHER, BT_OTHER, BT_OTHER, BT_OTHER, BT_OTHER, BT_OTHER, BT_OTHER, BT_OTHER,
      BT_OTHER, BT_OTHER, BT_OTHER, BT_OTHER, BT_OTHER, BT_OTHER, BT_NMSTRT, BT_OTHER, BT_OTHER,
      BT_OTHER, BT_OTHER, BT_OTHER, BT_OTHER, BT_OTHER, BT_OTHER, BT_OTHER, BT_OTHER, BT_NMSTRT,
      BT_OTHER, BT_NAME, BT_OTHER, BT_OTHER, BT_NMSTRT, BT_OTHER, BT_OTHER, BT_OTHER, BT_OTHER,
      BT_OTHER, BT_NMSTRT, BT_NMSTRT, BT_NMSTRT, BT_NMSTRT, BT_NMSTRT, BT_NMSTRT, BT_NMSTRT,
      BT_NMSTRT, BT_NMSTRT, BT_NMSTRT, BT_NMSTRT, BT_NMSTRT, BT_NMSTRT, BT_NMSTRT, BT_NMSTRT,
      BT_NMSTRT, BT_NMSTRT, BT_NMSTRT, BT_NMSTRT, BT_NMSTRT, BT_NMSTRT, BT_NMSTRT, BT_NMSTRT,
      BT_OTHER, BT_NMSTRT, BT_NMSTRT, BT_NMSTRT, BT_NMSTRT, BT_NMSTRT, BT_NMSTRT, BT_NMSTRT,
      BT_NMSTRT, BT_NMSTRT, BT_NMSTRT, BT_NMSTRT, BT_NMSTRT, BT_NMSTRT, BT_NMSTRT, BT_NMSTRT,
      BT_NMSTRT, BT_NMSTRT, BT_NMSTRT, BT_NMSTRT, BT_NMSTRT, BT_NMSTRT, BT_NMSTRT, BT_NMSTRT,
      BT_NMSTRT, BT_NMSTRT, BT_NMSTRT, BT_NMSTRT, BT_NMSTRT, BT_NMSTRT, BT_NMSTRT, BT_NMSTRT,
      BT_OTHER, BT_NMSTRT, BT_NMSTRT, BT_NMSTRT, BT_NMSTRT, BT_NMSTRT, BT_NMSTRT, BT_NMSTRT,
      BT_NMSTRT]"

definition namingBitmap :: "nat list" where
  "namingBitmap =
     [0x0, 0x0, 0x0, 0x0, 0x0, 0x0, 0x0, 0x0, 0xFFFFFFFF, 0xFFFFFFFF, 0xFFFFFFFF, 0xFFFFFFFF,
      0xFFFFFFFF, 0xFFFFFFFF, 0xFFFFFFFF, 0xFFFFFFFF, 0x0, 0x4000000, 0x87FFFFFE, 0x7FFFFFE, 0x0,
      0x0, 0xFF7FFFFF, 0xFF7FFFFF, 0xFFFFFFFF, 0x7FF3FFFF, 0xFFFFFDFE, 0x7FFFFFFF, 0xFFFFFFFF,
      0xFFFFFFFF, 0xFFFFE00F, 0xFC31FFFF, 0xFFFFFF, 0x0, 0xFFFF0000, 0xFFFFFFFF, 0xFFFFFFFF,
      0xF80001FF, 0x3, 0x0, 0x0, 0x0, 0x0, 0x0, 0xFFFFD740, 0xFFFFFFFB, 0x547F7FFF, 0xFFFFD,
      0xFFFFDFFE, 0xFFFFFFFF, 0xDFFEFFFF, 0xFFFFFFFF, 0xFFFF0003, 0xFFFFFFFF, 0xFFFF199F,
      0x33FCFFF, 0x0, 0xFFFE0000, 0x27FFFFF, 0xFFFFFFFE, 0x7F, 0x0, 0xFFFF0000, 0x707FF, 0x0,
      0x7FFFFFE, 0x7FE, 0xFFFE0000, 0xFFFFFFFF, 0x7CFFFFFF, 0x2F7FFF, 0x60, 0xFFFFFFE0, 0x23FFFFFF,
      0xFF000000, 0x3, 0xFFF99FE0, 0x3C5FDFF, 0xB0000000, 0x30003, 0xFFF987E0, 0x36DFDFF,
      0x5E000000, 0x1C0000, 0xFFFBAFE0, 0x23EDFDFF, 0x0, 0x1, 0xFFF99FE0, 0x23CDFDFF, 0xB0000000,
      0x3, 0xD63DC7E0, 0x3BFC718, 0x0, 0x0, 0xFFFDDFE0, 0x3EFFDFF, 0x0, 0x3, 0xFFFDDFE0, 0x3EFFDFF,
      0x40000000, 0x3, 0xFFFDDFE0, 0x3FFFDFF, 0x0, 0x3, 0x0, 0x0, 0x0, 0x0, 0xFFFFFFFE, 0xD7FFF,
      0x3F, 0x0, 0xFEF02596, 0x200D6CAE, 0x1F, 0x0, 0x0, 0x0, 0xFFFFFEFF, 0x3FF, 0x0, 0x0, 0x0,
      0x0, 0x0, 0x0, 0x0, 0x0, 0x0, 0xFFFFFFFF, 0xFFFF003F, 0x7FFFFF, 0x7DAED, 0x50000000,
      0x82315001, 0x2C62AB, 0x40000000, 0xF580C900, 0x7, 0x2010800, 0xFFFFFFFF, 0xFFFFFFFF,
      0xFFFFFFFF, 0xFFFFFFFF, 0xFFFFFFF, 0xFFFFFFFF, 0xFFFFFFFF, 0x3FFFFFF, 0x3F3FFFFF, 0xFFFFFFFF,
      0xAAFF3F3F, 0x3FFFFFFF, 0xFFFFFFFF, 0x5FDFFFFF, 0xFCF1FDC, 0x1FDC1FFF, 0x0, 0x4C40, 0x0, 0x0,
      0x7, 0x0, 0x0, 0x0, 0x80, 0x3FE, 0xFFFFFFFE, 0xFFFFFFFF, 0x1FFFFF, 0xFFFFFFFE, 0xFFFFFFFF,
      0x7FFFFFF, 0xFFFFFFE0, 0x1FFF, 0x0, 0x0, 0x0, 0x0, 0x0, 0x0, 0xFFFFFFFF, 0xFFFFFFFF,
      0xFFFFFFFF, 0xFFFFFFFF, 0xFFFFFFFF, 0x3F, 0x0, 0x0, 0xFFFFFFFF, 0xFFFFFFFF, 0xFFFFFFFF,
      0xFFFFFFFF, 0xFFFFFFFF, 0xF, 0x0, 0x0, 0x0, 0x7FF6000, 0x87FFFFFE, 0x7FFFFFE, 0x0, 0x800000,
      0xFF7FFFFF, 0xFF7FFFFF, 0xFFFFFF, 0x0, 0xFFFF0000, 0xFFFFFFFF, 0xFFFFFFFF, 0xF80001FF,
      0x30003, 0x0, 0xFFFFFFFF, 0xFFFFFFFF, 0x3F, 0x3, 0xFFFFD7C0, 0xFFFFFFFB, 0x547F7FFF, 0xFFFFD,
      0xFFFFDFFE, 0xFFFFFFFF, 0xDFFEFFFF, 0xFFFFFFFF, 0xFFFF007B, 0xFFFFFFFF, 0xFFFF199F,
      0x33FCFFF, 0x0, 0xFFFE0000, 0x27FFFFF, 0xFFFFFFFE, 0xFFFE007F, 0xBBFFFFFB, 0xFFFF0016,
      0x707FF, 0x0, 0x7FFFFFE, 0x7FFFF, 0xFFFF03FF, 0xFFFFFFFF, 0x7CFFFFFF, 0xFFEF7FFF, 0x3FF3DFF,
      0xFFFFFFEE, 0xF3FFFFFF, 0xFF1E3FFF, 0xFFCF, 0xFFF99FEE, 0xD3C5FDFF, 0xB080399F, 0x3FFCF,
      0xFFF987E4, 0xD36DFDFF, 0x5E003987, 0x1FFFC0, 0xFFFBAFEE, 0xF3EDFDFF, 0x3BBF, 0xFFC1,
      0xFFF99FEE, 0xF3CDFDFF, 0xB0C0398F, 0xFFC3, 0xD63DC7EC, 0xC3BFC718, 0x803DC7, 0xFF80,
      0xFFFDDFEE, 0xC3EFFDFF, 0x603DDF, 0xFFC3, 0xFFFDDFEC, 0xC3EFFDFF, 0x40603DDF, 0xFFC3,
      0xFFFDDFEC, 0xC3FFFDFF, 0x803DCF, 0xFFC3, 0x0, 0x0, 0x0, 0x0, 0xFFFFFFFE, 0x7FF7FFF,
      0x3FF7FFF, 0x0, 0xFEF02596, 0x3BFF6CAE, 0x3FF3F5F, 0x0, 0x3000000, 0xC2A003FF, 0xFFFFFEFF,
      0xFFFE03FF, 0xFEBF0FDF, 0x2FE3FFF, 0x0, 0x0, 0x0, 0x0, 0x0, 0x0, 0x0, 0x0, 0x1FFF0000, 0x2,
      0xA0, 0x3EFFFE, 0xFFFFFFFE, 0xFFFFFFFF, 0x661FFFFF, 0xFFFFFFFE, 0xFFFFFFFF, 0x77FFFFFF]"

definition nmstrtPages :: "nat list" where
  "nmstrtPages =
     [0x2, 0x3, 0x4, 0x5, 0x6, 0x7, 0x8, 0x0, 0x0, 0x9, 0xA, 0xB, 0xC, 0xD, 0xE, 0xF, 0x10, 0x11,
      0x0, 0x0, 0x0, 0x0, 0x0, 0x0, 0x0, 0x0, 0x0, 0x0, 0x0, 0x0, 0x12, 0x13, 0x0, 0x14, 0x0, 0x0,
      0x0, 0x0, 0x0, 0x0, 0x0, 0x0, 0x0, 0x0, 0x0, 0x0, 0x0, 0x0, 0x15, 0x16, 0x0, 0x0, 0x0, 0x0,
      0x0, 0x0, 0x0, 0x0, 0x0, 0x0, 0x0, 0x0, 0x0, 0x0, 0x0, 0x0, 0x0, 0x0, 0x0, 0x0, 0x0, 0x0,
      0x0, 0x0, 0x0, 0x0, 0x0, 0x0, 0x1, 0x1, 0x1, 0x1, 0x1, 0x1, 0x1, 0x1, 0x1, 0x1, 0x1, 0x1,
      0x1, 0x1, 0x1, 0x1, 0x1, 0x1, 0x1, 0x1, 0x1, 0x1, 0x1, 0x1, 0x1, 0x1, 0x1, 0x1, 0x1, 0x1,
      0x1, 0x1, 0x1, 0x1, 0x1, 0x1, 0x1, 0x1, 0x1, 0x1, 0x1, 0x1, 0x1, 0x1, 0x1, 0x1, 0x1, 0x1,
      0x1, 0x1, 0x1, 0x1, 0x1, 0x1, 0x1, 0x1, 0x1, 0x1, 0x1, 0x1, 0x1, 0x1, 0x1, 0x1, 0x1, 0x1,
      0x1, 0x1, 0x1, 0x1, 0x1, 0x1, 0x1, 0x1, 0x1, 0x1, 0x1, 0x1, 0x1, 0x1, 0x1, 0x17, 0x0, 0x0,
      0x0, 0x0, 0x0, 0x0, 0x0, 0x0, 0x0, 0x0, 0x0, 0x0, 0x1, 0x1, 0x1, 0x1, 0x1, 0x1, 0x1, 0x1,
      0x1, 0x1, 0x1, 0x1, 0x1, 0x1, 0x1, 0x1, 0x1, 0x1, 0x1, 0x1, 0x1, 0x1, 0x1, 0x1, 0x1, 0x1,
      0x1, 0x1, 0x1, 0x1, 0x1, 0x1, 0x1, 0x1, 0x1, 0x1, 0x1, 0x1, 0x1, 0x1, 0x1, 0x1, 0x1, 0x18,
      0x0, 0x0, 0x0, 0x0, 0x0, 0x0, 0x0, 0x0, 0x0, 0x0, 0x0, 0x0, 0x0, 0x0, 0x0, 0x0, 0x0, 0x0,
      0x0, 0x0, 0x0, 0x0, 0x0, 0x0, 0x0, 0x0, 0x0, 0x0, 0x0, 0x0, 0x0, 0x0, 0x0, 0x0, 0x0, 0x0,
      0x0, 0x0, 0x0, 0x0]"

definition namePages :: "nat list" where
  "namePages =
     [0x19, 0x3, 0x1A, 0x1B, 0x1C, 0x1D, 0x1E, 0x0, 0x0, 0x1F, 0x20, 0x21, 0x22, 0x23, 0x24, 0x25,
      0x10, 0x11, 0x0, 0x0, 0x0, 0x0, 0x0, 0x0, 0x0, 0x0, 0x0, 0x0, 0x0, 0x0, 0x12, 0x13, 0x26,
      0x14, 0x0, 0x0, 0x0, 0x0, 0x0, 0x0, 0x0, 0x0, 0x0, 0x0, 0x0, 0x0, 0x0, 0x0, 0x27, 0x16, 0x0,
      0x0, 0x0, 0x0, 0x0, 0x0, 0x0, 0x0, 0x0, 0x0, 0x0, 0x0, 0x0, 0x0, 0x0, 0x0, 0x0, 0x0, 0x0,
      0x0, 0x0, 0x0, 0x0, 0x0, 0x0, 0x0, 0x0, 0x0, 0x1, 0x1, 0x1, 0x1, 0x1, 0x1, 0x1, 0x1, 0x1,
      0x1, 0x1, 0x1, 0x1, 0x1, 0x1, 0x1, 0x1, 0x1, 0x1, 0x1, 0x1, 0x1, 0x1, 0x1, 0x1, 0x1, 0x1,
      0x1, 0x1, 0x1, 0x1, 0x1, 0x1, 0x1, 0x1, 0x1, 0x1, 0x1, 0x1, 0x1, 0x1, 0x1, 0x1, 0x1, 0x1,
      0x1, 0x1, 0x1, 0x1, 0x1, 0x1, 0x1, 0x1, 0x1, 0x1, 0x1, 0x1, 0x1, 0x1, 0x1, 0x1, 0x1, 0x1,
      0x1, 0x1, 0x1, 0x1, 0x1, 0x1, 0x1, 0x1, 0x1, 0x1, 0x1, 0x1, 0x1, 0x1, 0x1, 0x1, 0x1, 0x1,
      0x17, 0x0, 0x0, 0x0, 0x0, 0x0, 0x0, 0x0, 0x0, 0x0, 0x0, 0x0, 0x0, 0x1, 0x1, 0x1, 0x1, 0x1,
      0x1, 0x1, 0x1, 0x1, 0x1, 0x1, 0x1, 0x1, 0x1, 0x1, 0x1, 0x1, 0x1, 0x1, 0x1, 0x1, 0x1, 0x1,
      0x1, 0x1, 0x1, 0x1, 0x1, 0x1, 0x1, 0x1, 0x1, 0x1, 0x1, 0x1, 0x1, 0x1, 0x1, 0x1, 0x1, 0x1,
      0x1, 0x1, 0x18, 0x0, 0x0, 0x0, 0x0, 0x0, 0x0, 0x0, 0x0, 0x0, 0x0, 0x0, 0x0, 0x0, 0x0, 0x0,
      0x0, 0x0, 0x0, 0x0, 0x0, 0x0, 0x0, 0x0, 0x0, 0x0, 0x0, 0x0, 0x0, 0x0, 0x0, 0x0, 0x0, 0x0,
      0x0, 0x0, 0x0, 0x0, 0x0, 0x0, 0x0]"

text \<open>Bytes as numbers, and back with what is above eight bits cut off.\<close>

definition byte_val :: "char \<Rightarrow> int" where
  "byte_val c = int (of_char c)"

definition to_byte :: "int \<Rightarrow> char" where
  "to_byte n = char_of (nat (n mod 256))"

text \<open>A table of the first or second half of the bytes; without XML namespaces a colon is a letter.\<close>

definition type_table :: "bool \<Rightarrow> byte_type list \<Rightarrow> byte_type list" where
  "type_table ns upper = map (\<lambda>t. if t = BT_COLON \<and> \<not> ns then BT_NMSTRT else t) asciitab @ upper"

definition SB_BYTE_TYPE :: "byte_type list \<Rightarrow> char \<Rightarrow> byte_type" where
  "SB_BYTE_TYPE types c = types ! of_char c"

section \<open>Name characters\<close>

definition naming_bit :: "nat \<Rightarrow> nat \<Rightarrow> bool" where
  "naming_bit i k = bit (namingBitmap ! i) k"

definition UCS2_GET_NAMING :: "nat list \<Rightarrow> char \<Rightarrow> char \<Rightarrow> bool" where
  "UCS2_GET_NAMING pages hi lo =
     naming_bit (8 * pages ! of_char hi + of_char lo div 32) (of_char lo mod 32)"

definition UTF8_GET_NAMING2 :: "nat list \<Rightarrow> char \<Rightarrow> char \<Rightarrow> bool" where
  "UTF8_GET_NAMING2 pages a b =
     naming_bit (8 * pages ! (of_char a div 4 mod 8) + 2 * (of_char a mod 4) + of_char b div 32 mod 2)
       (of_char b mod 32)"

definition UTF8_GET_NAMING3 :: "nat list \<Rightarrow> char \<Rightarrow> char \<Rightarrow> char \<Rightarrow> bool" where
  "UTF8_GET_NAMING3 pages a b c =
     naming_bit (8 * pages ! (16 * (of_char a mod 16) + of_char b div 4 mod 16) + 2 * (of_char b mod 4)
       + of_char c div 32 mod 2) (of_char c mod 32)"

definition utf8_naming :: "nat list \<Rightarrow> nat \<Rightarrow> cstring \<Rightarrow> bool" where
  "utf8_naming pages n p =
     (if n = 2 then UTF8_GET_NAMING2 pages (p ! 0) (p ! 1)
      else if n = 3 then UTF8_GET_NAMING3 pages (p ! 0) (p ! 1) (p ! 2) else False)"

text \<open>\<open>utf8_isInvalid2\<close> is never true: the bytes after the first are not looked at.\<close>

definition utf8_isInvalid :: "nat \<Rightarrow> cstring \<Rightarrow> bool" where
  "utf8_isInvalid n p =
     (if n = 3 then
        (if p ! 0 = CHR 0xED then bit (of_char (p ! 1) :: nat) 5
         else p ! 0 = CHR 0xEF \<and> p ! 1 = CHR 0xBF \<and> p ! 2 \<in> {CHR 0xBF, CHR 0xBE})
      else n = 4 \<and> p ! 0 = CHR 0xF4 \<and> (bit (of_char (p ! 1) :: nat) 4 \<or> bit (of_char (p ! 1) :: nat) 5))"

definition unicode_byte_type :: "char \<Rightarrow> char \<Rightarrow> byte_type" where
  "unicode_byte_type hi lo =
     (if hi \<in> {CHR 0xD8, CHR 0xD9, CHR 0xDA, CHR 0xDB} then BT_LEAD4
      else if hi \<in> {CHR 0xDC, CHR 0xDD, CHR 0xDE, CHR 0xDF} then BT_TRAIL
      else if hi = CHR 0xFF \<and> lo \<in> {CHR 0xFF, CHR 0xFE} then BT_NONXML
      else BT_NONASCII)"

section \<open>The encodings\<close>

definition utf8_encoding :: "bool \<Rightarrow> tok_encoding" where
  "utf8_encoding ns =
     \<lparr>te_wide = False, te_type = (\<lambda>p. SB_BYTE_TYPE (type_table ns utf8tab) (p ! 0)),
      te_ascii = (\<lambda>p. Some (p ! 0)), te_name = utf8_naming namePages, te_nmstrt = utf8_naming nmstrtPages,
      te_invalid = utf8_isInvalid, te_name_min = (\<lambda>p. False), te_nmstrt_min = (\<lambda>p. False)\<rparr>"

text \<open>The encoding of text that was converted before, in which a carriage return is white space.\<close>

definition iasciitab :: "byte_type list" where
  "iasciitab = asciitab[13 := BT_S]"

definition internal_type_table :: "bool \<Rightarrow> byte_type list \<Rightarrow> byte_type list" where
  "internal_type_table ns upper = map (\<lambda>t. if t = BT_COLON \<and> \<not> ns then BT_NMSTRT else t) iasciitab @ upper"

definition internal_utf8_encoding :: "bool \<Rightarrow> tok_encoding" where
  "internal_utf8_encoding ns = utf8_encoding ns
     \<lparr>te_type := \<lambda>p. SB_BYTE_TYPE (internal_type_table ns utf8tab) (p ! 0)\<rparr>"

text \<open>Encodings with one byte for every character; the functions for longer ones are NULL.\<close>

definition one_byte_encoding :: "byte_type list \<Rightarrow> bool \<Rightarrow> tok_encoding" where
  "one_byte_encoding upper ns =
     \<lparr>te_wide = False, te_type = (\<lambda>p. SB_BYTE_TYPE (type_table ns upper) (p ! 0)),
      te_ascii = (\<lambda>p. Some (p ! 0)), te_name = (\<lambda>n p. False), te_nmstrt = (\<lambda>n p. False),
      te_invalid = (\<lambda>n p. False), te_name_min = (\<lambda>p. False), te_nmstrt_min = (\<lambda>p. False)\<rparr>"

definition latin1_encoding :: "bool \<Rightarrow> tok_encoding" where
  "latin1_encoding = one_byte_encoding latin1tab"

definition us_ascii_encoding :: "bool \<Rightarrow> tok_encoding" where
  "us_ascii_encoding = one_byte_encoding (replicate 128 BT_NONXML)"

text \<open>UTF-16, with the number of the byte that is the high one.\<close>

definition utf16_encoding :: "nat \<Rightarrow> bool \<Rightarrow> tok_encoding" where
  "utf16_encoding high ns =
     \<lparr>te_wide = True,
      te_type = (\<lambda>p. if p ! high = CHR 0x00 then SB_BYTE_TYPE (type_table ns latin1tab) (p ! (1 - high))
        else unicode_byte_type (p ! high) (p ! (1 - high))),
      te_ascii = (\<lambda>p. if p ! high = CHR 0x00 then Some (p ! (1 - high)) else None),
      te_name = (\<lambda>n p. False), te_nmstrt = (\<lambda>n p. False), te_invalid = (\<lambda>n p. False),
      te_name_min = (\<lambda>p. UCS2_GET_NAMING namePages (p ! high) (p ! (1 - high))),
      te_nmstrt_min = (\<lambda>p. UCS2_GET_NAMING nmstrtPages (p ! high) (p ! (1 - high)))\<rparr>"

definition little2_tok_encoding :: "bool \<Rightarrow> tok_encoding" where
  "little2_tok_encoding = utf16_encoding 1"

definition big2_tok_encoding :: "bool \<Rightarrow> tok_encoding" where
  "big2_tok_encoding = utf16_encoding 0"

definition internal_little2_encoding :: "bool \<Rightarrow> tok_encoding" where
  "internal_little2_encoding ns = little2_tok_encoding ns
     \<lparr>te_type := \<lambda>p. if p ! 1 = CHR 0x00
        then SB_BYTE_TYPE (internal_type_table ns latin1tab) (p ! 0)
        else unicode_byte_type (p ! 1) (p ! 0)\<rparr>"

definition internal_big2_encoding :: "bool \<Rightarrow> tok_encoding" where
  "internal_big2_encoding ns = big2_tok_encoding ns
     \<lparr>te_type := \<lambda>p. if p ! 0 = CHR 0x00
        then SB_BYTE_TYPE (internal_type_table ns latin1tab) (p ! 1)
        else unicode_byte_type (p ! 0) (p ! 1)\<rparr>"

section \<open>Characters by their numbers\<close>

definition checkCharRefNumber :: "int \<Rightarrow> int" where
  "checkCharRefNumber r =
     (let page = drop_bit 8 r
      in if 0xD8 \<le> page \<and> page \<le> 0xDF then -1
         else if page = 0 then
           (if SB_BYTE_TYPE (type_table False latin1tab) (to_byte r) = BT_NONXML then -1 else r)
         else if page = 0xFF \<and> (r = 0xFFFE \<or> r = 0xFFFF) then -1
         else r)"

text \<open>The bytes written; their number is the value returned.\<close>

definition XmlUtf8Encode :: "int \<Rightarrow> cstring" where
  "XmlUtf8Encode c =
     (if c < 0 then []
      else if c < 0x80 then [to_byte c]
      else if c < 0x800 then [to_byte (drop_bit 6 c OR 0xC0), to_byte ((c AND 0x3F) OR 0x80)]
      else if c < 0x10000 then
        [to_byte (drop_bit 12 c OR 0xE0), to_byte ((drop_bit 6 c AND 0x3F) OR 0x80), to_byte ((c AND 0x3F) OR 0x80)]
      else if c < 0x110000 then
        [to_byte (drop_bit 18 c OR 0xF0), to_byte ((drop_bit 12 c AND 0x3F) OR 0x80),
         to_byte ((drop_bit 6 c AND 0x3F) OR 0x80), to_byte ((c AND 0x3F) OR 0x80)]
      else [])"

definition XmlUtf16Encode :: "int \<Rightarrow> 16 word list" where
  "XmlUtf16Encode c =
     (if c < 0 then []
      else if c < 0x10000 then [word_of_int c]
      else if c < 0x110000 then
        [word_of_int (drop_bit 10 (c - 0x10000) + 0xD800), word_of_int (((c - 0x10000) AND 0x3FF) + 0xDC00)]
      else [])"

section \<open>Conversions\<close>

text \<open>
  A conversion gets the bytes up to \<open>fromLim\<close> and the room up to \<open>toLim\<close>, and gives what is left of
  the bytes and what was written.
\<close>

text \<open>The last bytes of a character that would not fit whole are left.\<close>

fun cut_partial :: "cstring \<Rightarrow> nat \<Rightarrow> nat" where
  "cut_partial from 0 = 0"
| "cut_partial from (Suc n) =
     (if byte_val (from ! n) AND 0xC0 \<noteq> 0x80 then Suc n else cut_partial from n)"

definition utf8_toUtf8 :: "cstring \<Rightarrow> nat \<Rightarrow> cstring \<times> cstring" where
  "utf8_toUtf8 from room =
     (let n = (if room < length from then cut_partial from room else length from)
      in (drop n from, take n from))"

definition wrote :: "'a list \<Rightarrow> (cstring \<times> 'a list) option \<Rightarrow> (cstring \<times> 'a list) option" where
  "wrote us = map_option (\<lambda>(rest, vs). (rest, us @ vs))"

text \<open>
  The loop of \<open>utf8_toUtf16\<close> need not end, which is the value None of the outer option; the inner
  one is None when a character is cut off and bytes behind the end are read.
\<close>

partial_function (option) utf8_toUtf16 :: "cstring \<Rightarrow> nat \<Rightarrow> (cstring \<times> 16 word list) option option" where
  "utf8_toUtf16 from room =
     (if from = [] \<or> room = 0 then Some (Some (from, []))
      else
        let t = SB_BYTE_TYPE (type_table True utf8tab) (from ! 0); b = (\<lambda>i. byte_val (from ! i))
        in if t = BT_LEAD2 then
             if length from < 2 then Some None
             else do {
               r \<leftarrow> utf8_toUtf16 (drop 2 from) (room - 1);
               Some (wrote [word_of_int (push_bit 6 (b 0 AND 0x1F) OR (b 1 AND 0x3F))] r) }
           else if t = BT_LEAD3 then
             if length from < 3 then Some None
             else do {
               r \<leftarrow> utf8_toUtf16 (drop 3 from) (room - 1);
               Some (wrote [word_of_int (push_bit 12 (b 0 AND 0xF) OR push_bit 6 (b 1 AND 0x3F) OR (b 2 AND 0x3F))] r) }
           else if t = BT_LEAD4 then
             if room = 1 then utf8_toUtf16 from room
             else if length from < 4 then Some None
             else
               let n = push_bit 18 (b 0 AND 0x7) OR push_bit 12 (b 1 AND 0x3F) OR push_bit 6 (b 2 AND 0x3F) OR (b 3 AND 0x3F);
                   n = (n - 0x10000) mod 2 ^ 64
               in do {
                 r \<leftarrow> utf8_toUtf16 (drop 4 from) (room - 2);
                 Some (wrote [word_of_int (drop_bit 10 n OR 0xD800), word_of_int ((n AND 0x3FF) OR 0xDC00)] r) }
           else do {
             r \<leftarrow> utf8_toUtf16 (drop 1 from) (room - 1);
             Some (wrote [word_of_int (signed_take_bit 7 (b 0))] r) })"

fun latin1_toUtf8 :: "cstring \<Rightarrow> nat \<Rightarrow> cstring \<times> cstring" where
  "latin1_toUtf8 [] room = ([], [])"
| "latin1_toUtf8 (c # from) room =
     (let n = byte_val c
      in if n AND 0x80 \<noteq> 0 then
           (if room < 2 then (c # from, [])
            else case latin1_toUtf8 from (room - 2) of (rest, out) \<Rightarrow>
              (rest, to_byte (drop_bit 6 n OR 0xC0) # to_byte ((n AND 0x3F) OR 0x80) # out))
         else if room = 0 then (c # from, [])
         else case latin1_toUtf8 from (room - 1) of (rest, out) \<Rightarrow> (rest, c # out))"

definition latin1_toUtf16 :: "cstring \<Rightarrow> nat \<Rightarrow> cstring \<times> 16 word list" where
  "latin1_toUtf16 from room = (drop room from, map (\<lambda>c. word_of_int (byte_val c)) (take room from))"

definition ascii_toUtf8 :: "cstring \<Rightarrow> nat \<Rightarrow> cstring \<times> cstring" where
  "ascii_toUtf8 from room = (drop room from, take room from)"

text \<open>\<open>DEFINE_UTF16_TO_UTF8\<close>, with the number of the high byte; None when it reads behind the end.\<close>

fun utf16_toUtf8 :: "nat \<Rightarrow> cstring \<Rightarrow> nat \<Rightarrow> (cstring \<times> cstring) option" where
  "utf16_toUtf8 high [] room = Some ([], [])"
| "utf16_toUtf8 high [x] room = None"
| "utf16_toUtf8 high (x # y # from) room =
     (let hi = byte_val (if high = 0 then x else y); lo = byte_val (if high = 0 then y else x)
      in if hi = 0 \<and> lo < 0x80 then
           (if room = 0 then Some (x # y # from, []) else wrote [to_byte lo] (utf16_toUtf8 high from (room - 1)))
         else if hi \<le> 7 then
           (if room < 2 then Some (x # y # from, [])
            else wrote [to_byte (drop_bit 6 lo OR push_bit 2 hi OR 0xC0), to_byte ((lo AND 0x3F) OR 0x80)]
              (utf16_toUtf8 high from (room - 2)))
         else if 0xD8 \<le> hi \<and> hi \<le> 0xDB then
           (if room < 4 then Some (x # y # from, [])
            else
              let plane = (push_bit 2 (hi AND 0x3) OR (drop_bit 6 lo AND 0x3)) + 1
              in (case from of
                    x2 # y2 # from2 \<Rightarrow>
                      let hi2 = byte_val (if high = 0 then x2 else y2); lo2 = byte_val (if high = 0 then y2 else x2)
                      in wrote [to_byte (drop_bit 2 plane OR 0xF0),
                           to_byte ((drop_bit 2 lo AND 0xF) OR push_bit 4 (plane AND 0x3) OR 0x80),
                           to_byte (push_bit 4 (lo AND 0x3) OR push_bit 2 (hi2 AND 0x3) OR drop_bit 6 lo2 OR 0x80),
                           to_byte ((lo2 AND 0x3F) OR 0x80)] (utf16_toUtf8 high from2 (room - 4))
                  | _ \<Rightarrow> None))
         else
           (if room < 3 then Some (x # y # from, [])
            else wrote [to_byte (drop_bit 4 hi OR 0xE0), to_byte (push_bit 2 (hi AND 0xF) OR drop_bit 6 lo OR 0x80),
                to_byte ((lo AND 0x3F) OR 0x80)] (utf16_toUtf8 high from (room - 3))))"

text \<open>
  \<open>DEFINE_UTF16_TO_UTF16\<close>: when not everything fits, a surrogate at the end of the text is left, not
  one at the end of the room.
\<close>

fun utf16_units :: "nat \<Rightarrow> cstring \<Rightarrow> nat \<Rightarrow> (cstring \<times> 16 word list) option" where
  "utf16_units high [] room = Some ([], [])"
| "utf16_units high (x # p) 0 = Some (x # p, [])"
| "utf16_units high [x] (Suc room) = None"
| "utf16_units high (x # y # p) (Suc room) =
     (let hi = byte_val (if high = 0 then x else y); lo = byte_val (if high = 0 then y else x)
      in wrote [word_of_int (push_bit 8 hi OR lo)] (utf16_units high p room))"

definition utf16_toUtf16 :: "nat \<Rightarrow> cstring \<Rightarrow> nat \<Rightarrow> (cstring \<times> 16 word list) option" where
  "utf16_toUtf16 high from room =
     (let n = length from
      in if 2 * room < n \<and> n < 2 then None
         else if 2 * room < n \<and> byte_val (from ! (n - 2 + high)) AND 0xF8 = 0xD8 then
           map_option (\<lambda>(rest, out). (rest @ drop (n - 2) from, out)) (utf16_units high (take (n - 2) from) room)
         else utf16_units high from room)"

section \<open>The choice of an encoding\<close>

text \<open>The names as the source has them: there is no comma between the last two.\<close>

definition encodingNames :: "cstring list" where
  "encodingNames = [''ISO-8859-1'', ''US-ASCII'', ''UTF-8'', ''UTF-16'', ''UTF-16BE'' @ ''UTF-16LE'']"

definition upper_case :: "char \<Rightarrow> char" where
  "upper_case c = (if 97 \<le> byte_val c \<and> byte_val c \<le> 122 then to_byte (byte_val c - 32) else c)"

definition streqci :: "cstring \<Rightarrow> cstring \<Rightarrow> bool" where
  "streqci s1 s2 \<longleftrightarrow> map upper_case s1 = map upper_case s2"

datatype encoding_index = UNKNOWN_ENC | ISO_8859_1_ENC | US_ASCII_ENC | UTF_8_ENC | UTF_16_ENC | UTF_16BE_ENC
  | UTF_16LE_ENC | NO_ENC

definition getEncodingIndex :: "cstring option \<Rightarrow> encoding_index" where
  "getEncodingIndex name =
     (case name of
        None \<Rightarrow> NO_ENC
      | Some n \<Rightarrow>
          (case find (\<lambda>(known, i). streqci n known)
             (zip encodingNames [ISO_8859_1_ENC, US_ASCII_ENC, UTF_8_ENC, UTF_16_ENC, UTF_16BE_ENC]) of
             Some (known, i) \<Rightarrow> i
           | None \<Rightarrow> UNKNOWN_ENC))"

fun encodings_table :: "bool \<Rightarrow> encoding_index \<Rightarrow> tok_encoding" where
  "encodings_table ns ISO_8859_1_ENC = latin1_encoding ns"
| "encodings_table ns US_ASCII_ENC = us_ascii_encoding ns"
| "encodings_table ns UTF_8_ENC = utf8_encoding ns"
| "encodings_table ns UTF_16_ENC = big2_tok_encoding ns"
| "encodings_table ns UTF_16BE_ENC = big2_tok_encoding ns"
| "encodings_table ns UTF_16LE_ENC = little2_tok_encoding ns"
| "encodings_table ns _ = utf8_encoding ns"

text \<open>
  What \<open>initScan\<close> does: it asks for more, or it chooses an encoding and either returns a byte order
  mark, with \<open>*nextTokPtr\<close> set behind it or not set, or goes on with the scanner of the encoding.
\<close>

datatype detection = More | Bom encoding_index "cstring option" | Scan encoding_index

text \<open>\<open>content\<close>: the state is that of an external text entity.  This is the build with \<open>XML_DTD\<close>.\<close>

definition detect :: "encoding_index \<Rightarrow> bool \<Rightarrow> cstring \<Rightarrow> detection" where
  "detect index content p =
     (case p of
        [] \<Rightarrow> More
      | [a] \<Rightarrow>
          if index \<in> {UTF_16_ENC, UTF_16LE_ENC, UTF_16BE_ENC} then More
          else if a \<in> {CHR 0xFE, CHR 0xFF, CHR 0xEF} then
            (if index = ISO_8859_1_ENC \<and> content then Scan index else More)
          else if a \<in> {CHR 0x00, CHR 0x3C} then More
          else Scan index
      | a # b # rest \<Rightarrow>
          if a = CHR 0xFE \<and> b = CHR 0xFF then
            (if index = ISO_8859_1_ENC \<and> content then Scan index else Bom UTF_16BE_ENC (Some rest))
          else if a = CHR 0x3C \<and> b = CHR 0x00 then
            (if (index = UTF_16BE_ENC \<or> index = UTF_16_ENC) \<and> content then Scan index else Scan UTF_16LE_ENC)
          else if a = CHR 0xFF \<and> b = CHR 0xFE then
            (if index = ISO_8859_1_ENC \<and> content then Scan index else Bom UTF_16LE_ENC (Some rest))
          else if a = CHR 0xEF \<and> b = CHR 0xBB then
            (if content \<and> index \<in> {ISO_8859_1_ENC, UTF_16BE_ENC, UTF_16LE_ENC, UTF_16_ENC} then Scan index
             else case rest of [] \<Rightarrow> More | c # _ \<Rightarrow> if c = CHR 0xBF then Bom UTF_8_ENC None else Scan index)
          else if a = CHR 0x00 then
            (if content \<and> index = UTF_16LE_ENC then Scan index else Scan UTF_16BE_ENC)
          else if b = CHR 0x00 then (if content then Scan index else Scan UTF_16LE_ENC)
          else Scan index)"

text \<open>
  \<open>initScan\<close> with the encodings of the build: the new encoding, the token and \<open>*nextTokPtr\<close> as far
  as they are set.  A byte order mark of UTF-8 leaves \<open>*nextTokPtr\<close> as it was, here \<open>stale\<close>.
\<close>

definition initScan ::
  "bool \<Rightarrow> encoding_index \<Rightarrow> bool \<Rightarrow> cstring \<Rightarrow> cstring \<Rightarrow> encoding_index option \<times> scan_result option" where
  "initScan ns index content p stale =
     (if p = [] then (None, Some (Unset XML_TOK_NONE))
      else case detect index content p of
        More \<Rightarrow> (None, partial)
      | Bom i (Some q) \<Rightarrow> (Some i, Some (Scanned XML_TOK_BOM q))
      | Bom i None \<Rightarrow> (Some i, Some (Scanned XML_TOK_BOM stale))
      | Scan i \<Rightarrow> (Some i, (if content then contentTok else prologTok) (encodings_table ns i) p))"

end
