(* ===== verification/Xml_Value.thy ===== *)
theory Xml_Value
  imports Xml_Encoding
begin

text \<open>
  The rest of \<open>lib/expat/xmltok/xmltok_impl.c\<close>: the scanners of literals and of ignored sections,
  and the functions that read tokens again.  They take for granted that the text was scanned
  before, and move over a character of several bytes without a look at the end of the text.
\<close>

section \<open>Literals\<close>

text \<open>\<open>start\<close>: the pointer is still at the start.\<close>

function attribute_value :: "bool \<Rightarrow> scanner" where
  "attribute_value start enc p =
     (if p = [] then Some (Scanned XML_TOK_DATA_CHARS p)
      else do {
        t \<leftarrow> BYTE_TYPE enc p;
        (case lead t of
           Some n \<Rightarrow> do { q \<leftarrow> move n p; attribute_value False enc q }
         | None \<Rightarrow>
             if t = BT_LT then invalid p
             else if t \<in> {BT_AMP, BT_LF, BT_CR, BT_S} then
               if \<not> start then Some (Scanned XML_TOK_DATA_CHARS p)
               else if t = BT_AMP then do { q \<leftarrow> advance enc p; scanRef enc q }
               else if t = BT_LF then one_character XML_TOK_DATA_NEWLINE enc p
               else if t = BT_CR then newline_tok XML_TOK_TRAILING_CR enc p
               else one_character XML_TOK_ATTRIBUTE_VALUE_S enc p
             else do { q \<leftarrow> advance enc p; attribute_value False enc q }) })"
  by pat_completeness auto
termination
  by (relation "measure (\<lambda>(start, enc, p). length p)") (auto dest!: advance_less dest: move_less lead_pos)

declare attribute_value.simps [simp del]

definition attributeValueTok :: scanner where
  "attributeValueTok enc p = (if p = [] then Some (Unset XML_TOK_NONE) else attribute_value True enc p)"

function entity_value :: "bool \<Rightarrow> scanner" where
  "entity_value start enc p =
     (if p = [] then Some (Scanned XML_TOK_DATA_CHARS p)
      else do {
        t \<leftarrow> BYTE_TYPE enc p;
        (case lead t of
           Some n \<Rightarrow> do { q \<leftarrow> move n p; entity_value False enc q }
         | None \<Rightarrow>
             if t \<in> {BT_AMP, BT_PERCNT, BT_LF, BT_CR} then
               if \<not> start then Some (Scanned XML_TOK_DATA_CHARS p)
               else if t = BT_AMP then do { q \<leftarrow> advance enc p; scanRef enc q }
               else if t = BT_PERCNT then do { q \<leftarrow> advance enc p; scanPercent enc q }
               else if t = BT_LF then one_character XML_TOK_DATA_NEWLINE enc p
               else newline_tok XML_TOK_TRAILING_CR enc p
             else do { q \<leftarrow> advance enc p; entity_value False enc q }) })"
  by pat_completeness auto
termination
  by (relation "measure (\<lambda>(start, enc, p). length p)") (auto dest!: advance_less dest: move_less lead_pos)

declare entity_value.simps [simp del]

definition entityValueTok :: scanner where
  "entityValueTok enc p = (if p = [] then Some (Unset XML_TOK_NONE) else entity_value True enc p)"

text \<open>\<open>level\<close> counts the sections that are open inside.\<close>

function ignore_loop :: "int \<Rightarrow> scanner" where
  "ignore_loop depth enc p =
     (if p = [] then partial
      else do {
        c \<leftarrow> INVALID_CASES enc p;
        switch c p (ignore_loop depth enc) (\<lambda>t.
          if t = BT_LT then do {
            p \<leftarrow> advance enc p;
            if p = [] then partial
            else do {
              excl \<leftarrow> CHAR_MATCHES enc p (CHR ''!'');
              if \<not> excl then ignore_loop depth enc p
              else do {
                p \<leftarrow> advance enc p;
                if p = [] then partial
                else do {
                  lsqb \<leftarrow> CHAR_MATCHES enc p (CHR ''['');
                  if \<not> lsqb then ignore_loop depth enc p
                  else do { p \<leftarrow> advance enc p; ignore_loop (depth + 1) enc p } } } } }
          else if t = BT_RSQB then do {
            p \<leftarrow> advance enc p;
            if p = [] then partial
            else do {
              rsqb \<leftarrow> CHAR_MATCHES enc p (CHR '']'');
              if \<not> rsqb then ignore_loop depth enc p
              else do {
                p \<leftarrow> advance enc p;
                if p = [] then partial
                else do {
                  gt \<leftarrow> CHAR_MATCHES enc p (CHR ''>'');
                  if \<not> gt then ignore_loop depth enc p
                  else do {
                    p \<leftarrow> advance enc p;
                    if depth = 0 then Some (Scanned XML_TOK_IGNORE_SECT p) else ignore_loop (depth - 1) enc p } } } } }
          else do { p \<leftarrow> advance enc p; ignore_loop depth enc p }) })"
  by pat_completeness auto
termination
  by (relation "measure (\<lambda>(depth, enc, p). length p)") (auto dest!: check_less advance_less)

declare ignore_loop.simps [simp del]

definition ignoreSectionTok :: scanner where
  "ignoreSectionTok = whole_characters (ignore_loop 0)"

section \<open>Tokens read again\<close>

text \<open>The bytes from \<open>ptr\<close> to \<open>end\<close> with the quotes around them; the result and \<open>*badPtr\<close>.\<close>

function public_id :: "tok_encoding \<Rightarrow> cstring \<Rightarrow> cstring option option" where
  "public_id enc p =
     (if p = [] then Some None
      else do {
        t \<leftarrow> BYTE_TYPE enc p;
        a \<leftarrow> read_at (MINBPC enc) (te_ascii enc) p;
        q \<leftarrow> advance enc p;
        if t \<in> {BT_DIGIT, BT_HEX, BT_MINUS, BT_APOS, BT_LPAR, BT_RPAR, BT_PLUS, BT_COMMA, BT_SOL, BT_EQUALS,
            BT_QUEST, BT_CR, BT_LF, BT_SEMI, BT_EXCL, BT_AST, BT_PERCNT, BT_NUM, BT_COLON}
          \<or> t = BT_S \<and> a \<noteq> Some (CHR 0x09)
          \<or> t \<in> {BT_NAME, BT_NMSTRT} \<and> (case a of Some c \<Rightarrow> (of_char c :: nat) < 0x80 | None \<Rightarrow> False)
          \<or> t \<noteq> BT_S \<and> a \<in> {Some (CHR 0x24), Some (CHR 0x40)}
        then public_id enc q else Some (Some p) })"
  by pat_completeness auto
termination
  by (relation "measure (\<lambda>(enc, p). length p)") (auto dest!: advance_less)

declare public_id.simps [simp del]

definition isPublicId :: "tok_encoding \<Rightarrow> cstring \<Rightarrow> cstring option option" where
  "isPublicId enc p = do {
     q \<leftarrow> advance enc p;
     if length q < MINBPC enc then None else public_id enc (take (length q - MINBPC enc) q) }"

text \<open>
  The attributes of a start tag, read again: \<open>ATTRIBUTE\<close> with the pointers that are set, and the state
  of \<open>getAtts\<close>.  The length of the list is \<open>attsMax\<close>.
\<close>

record attribute =
  att_name :: "cstring option"
  valuePtr :: "cstring option"
  valueEnd :: "cstring option"
  normalized :: bool

datatype att_state = S_other | S_inName | S_inValue

definition set_att :: "nat \<Rightarrow> (attribute \<Rightarrow> attribute) \<Rightarrow> attribute list \<Rightarrow> attribute list" where
  "set_att n f atts = (if n < length atts then atts[n := f (atts ! n)] else atts)"

text \<open>Whether the white space at \<open>p\<close>, with \<open>q\<close> behind it, is not a single space between two words.\<close>

definition spoils :: "byte_type \<Rightarrow> attribute \<Rightarrow> tok_encoding \<Rightarrow> cstring \<Rightarrow> cstring \<Rightarrow> bool option" where
  "spoils open_quote a enc p q =
     (if \<not> normalized a then Some False
      else if valuePtr a = Some p then Some True
      else do {
        space \<leftarrow> CHAR_MATCHES enc p (CHR '' '');
        if \<not> space then Some True
        else do {
          space \<leftarrow> CHAR_MATCHES enc q (CHR '' '');
          if space then Some True else do { u \<leftarrow> BYTE_TYPE enc q; Some (u = open_quote) } } })"

function get_atts ::
  "att_state \<Rightarrow> byte_type \<Rightarrow> nat \<Rightarrow> attribute list \<Rightarrow> tok_encoding \<Rightarrow> cstring \<Rightarrow> (nat \<times> attribute list) option" where
  "get_atts st open_quote n atts enc p = do {
     t \<leftarrow> BYTE_TYPE enc p;
     if lead t \<noteq> None \<or> t \<in> {BT_NONASCII, BT_NMSTRT, BT_HEX} then do {
       q \<leftarrow> (case lead t of Some k \<Rightarrow> move k p | None \<Rightarrow> advance enc p);
       if st = S_other then
         get_atts S_inName open_quote n (set_att n (\<lambda>a. a\<lparr>att_name := Some p, normalized := True\<rparr>) atts) enc q
       else get_atts st open_quote n atts enc q }
     else if t \<in> {BT_GT, BT_SOL} \<and> st \<noteq> S_inValue then Some (n, atts)
     else do {
       q \<leftarrow> advance enc p;
       if t \<in> {BT_QUOT, BT_APOS} then
         if st \<noteq> S_inValue then get_atts S_inValue t n (set_att n (\<lambda>a. a\<lparr>valuePtr := Some q\<rparr>) atts) enc q
         else if open_quote = t then
           get_atts S_other open_quote (n + 1) (set_att n (\<lambda>a. a\<lparr>valueEnd := Some p\<rparr>) atts) enc q
         else get_atts st open_quote n atts enc q
       else if t = BT_AMP then
         get_atts st open_quote n (set_att n (\<lambda>a. a\<lparr>normalized := False\<rparr>) atts) enc q
       else if t \<in> {BT_S, BT_CR, BT_LF} then
         if st = S_inName then get_atts S_other open_quote n atts enc q
         else do {
           spoilt \<leftarrow> (if st \<noteq> S_inValue \<or> length atts \<le> n then Some False
             else if t = BT_S then spoils open_quote (atts ! n) enc p q else Some True);
           get_atts st open_quote n
             (if spoilt then set_att n (\<lambda>a. a\<lparr>normalized := False\<rparr>) atts else atts) enc q }
       else get_atts st open_quote n atts enc q } }"
  by pat_completeness auto
termination
  by (relation "measure (\<lambda>(st, open_quote, n, atts, enc, p). length p)")
    (auto dest!: advance_less dest: move_less lead_pos split: option.splits)

declare get_atts.simps [simp del]

definition getAtts :: "tok_encoding \<Rightarrow> cstring \<Rightarrow> attribute list \<Rightarrow> (nat \<times> attribute list) option" where
  "getAtts enc p atts = do { q \<leftarrow> advance enc p; get_atts S_inName BT_NONXML 0 atts enc q }"

definition hex_digit :: "char \<Rightarrow> int option" where
  "hex_digit c =
     (let n = byte_val c
      in if 48 \<le> n \<and> n \<le> 57 then Some (n - 48)
         else if 65 \<le> n \<and> n \<le> 70 then Some (n - 55)
         else if 97 \<le> n \<and> n \<le> 102 then Some (n - 87)
         else None)"

text \<open>The digits up to the semicolon; a character that is no digit is skipped.\<close>

function hex_number :: "int \<Rightarrow> tok_encoding \<Rightarrow> cstring \<Rightarrow> int option" where
  "hex_number r enc p = do {
     semi \<leftarrow> CHAR_MATCHES enc p (CHR '';'');
     if semi then Some (checkCharRefNumber r)
     else do {
       a \<leftarrow> read_at (MINBPC enc) (te_ascii enc) p;
       q \<leftarrow> advance enc p;
       let r = (case Option.bind a hex_digit of Some d \<Rightarrow> push_bit 4 r + d | None \<Rightarrow> r);
       if 0x110000 \<le> r then Some (-1) else hex_number r enc q } }"
  by pat_completeness auto
termination
  by (relation "measure (\<lambda>(r, enc, p). length p)") (auto dest!: advance_less)

declare hex_number.simps [simp del]

text \<open>The value of a byte that is no character of ASCII is -1.\<close>

definition ascii_val :: "char option \<Rightarrow> int" where
  "ascii_val a = (case a of Some c \<Rightarrow> signed_take_bit 7 (byte_val c) | None \<Rightarrow> -1)"

function decimal_number :: "int \<Rightarrow> tok_encoding \<Rightarrow> cstring \<Rightarrow> int option" where
  "decimal_number r enc p = do {
     semi \<leftarrow> CHAR_MATCHES enc p (CHR '';'');
     if semi then Some (checkCharRefNumber r)
     else do {
       a \<leftarrow> read_at (MINBPC enc) (te_ascii enc) p;
       q \<leftarrow> advance enc p;
       let r = r * 10 + (ascii_val a - 48);
       if 0x110000 \<le> r then Some (-1) else decimal_number r enc q } }"
  by pat_completeness auto
termination
  by (relation "measure (\<lambda>(r, enc, p). length p)") (auto dest!: advance_less)

declare decimal_number.simps [simp del]

definition charRefNumber :: "tok_encoding \<Rightarrow> cstring \<Rightarrow> int option" where
  "charRefNumber enc p = do {
     p \<leftarrow> move (2 * MINBPC enc) p;
     x \<leftarrow> CHAR_MATCHES enc p (CHR ''x'');
     if x then do { q \<leftarrow> advance enc p; hex_number 0 enc q } else decimal_number 0 enc p }"

text \<open>The character that the name stands for, NUL for none.\<close>

definition ascii_text :: "tok_encoding \<Rightarrow> nat \<Rightarrow> cstring \<Rightarrow> char option" where
  "ascii_text enc i p = te_ascii enc (drop (i * MINBPC enc) p)"

definition predefinedEntityName :: "tok_encoding \<Rightarrow> cstring \<Rightarrow> char" where
  "predefinedEntityName enc p =
     (let n = length p div MINBPC enc; c = (\<lambda>i. ascii_text enc i p)
      in if n = 2 \<and> c 1 = Some (CHR ''t'') \<and> c 0 = Some (CHR ''l'') then CHR ''<''
         else if n = 2 \<and> c 1 = Some (CHR ''t'') \<and> c 0 = Some (CHR ''g'') then CHR ''>''
         else if n = 3 \<and> c 0 = Some (CHR ''a'') \<and> c 1 = Some (CHR ''m'') \<and> c 2 = Some (CHR ''p'') then CHR ''&''
         else if n = 4 \<and> c 0 = Some (CHR ''q'') \<and> c 1 = Some (CHR ''u'') \<and> c 2 = Some (CHR ''o'')
           \<and> c 3 = Some (CHR ''t'') then CHR 0x22
         else if n = 4 \<and> c 0 = Some (CHR ''a'') \<and> c 1 = Some (CHR ''p'') \<and> c 2 = Some (CHR ''o'')
           \<and> c 3 = Some (CHR ''s'') then CHR 0x27
         else CHR 0x00)"

definition name_bytes :: "byte_type \<Rightarrow> bool" where
  "name_bytes t \<longleftrightarrow> t \<in> {BT_NONASCII, BT_NMSTRT, BT_COLON, BT_HEX, BT_DIGIT, BT_NAME, BT_MINUS}"

fun same_bytes :: "nat \<Rightarrow> cstring \<Rightarrow> cstring \<Rightarrow> bool option" where
  "same_bytes 0 p1 p2 = Some True"
| "same_bytes (Suc n) (a # p1) (b # p2) = (if a = b then same_bytes n p1 p2 else Some False)"
| "same_bytes (Suc n) p1 p2 = None"

lemma same_bytes_length: "same_bytes n p1 p2 = Some True \<Longrightarrow> n \<le> length p1"
  by (induction n p1 p2 rule: same_bytes.induct) (auto split: if_splits)

text \<open>Whether two names that end in the text are the same.\<close>

function sameName :: "tok_encoding \<Rightarrow> cstring \<Rightarrow> cstring \<Rightarrow> bool option" where
  "sameName enc p1 p2 = do {
     t \<leftarrow> BYTE_TYPE enc p1;
     let n = (case lead t of Some n \<Rightarrow> n | None \<Rightarrow> MINBPC enc);
     if lead t \<noteq> None \<or> name_bytes t then do {
       same \<leftarrow> same_bytes n p1 p2;
       if same then sameName enc (drop n p1) (drop n p2) else Some False }
     else if MINBPC enc = 1 \<and> p2 \<noteq> [] \<and> hd p1 = hd p2 then Some True
     else do {
       u \<leftarrow> BYTE_TYPE enc p2;
       Some (\<not> (lead u \<noteq> None \<or> name_bytes u)) } }"
  by pat_completeness auto
termination
proof (relation "measure (\<lambda>(enc, p1, p2). length p1)", goal_cases)
  case (2 enc p1 p2 t n same)
  then have "0 < n" by (auto split: option.splits dest: lead_pos)
  moreover have "n \<le> length p1" using 2 same_bytes_length by auto
  ultimately show ?case by simp
qed simp

declare sameName.simps [simp del]

function name_end :: "tok_encoding \<Rightarrow> cstring \<Rightarrow> cstring option" where
  "name_end enc p = do {
     t \<leftarrow> BYTE_TYPE enc p;
     (case lead t of
        Some n \<Rightarrow> do { q \<leftarrow> move n p; name_end enc q }
      | None \<Rightarrow> if name_bytes t then do { q \<leftarrow> advance enc p; name_end enc q } else Some p) }"
  by pat_completeness auto
termination
  by (relation "measure (\<lambda>(enc, p). length p)") (auto dest!: advance_less dest: move_less lead_pos)

declare name_end.simps [simp del]

definition nameLength :: "tok_encoding \<Rightarrow> cstring \<Rightarrow> nat option" where
  "nameLength enc p = map_option (\<lambda>q. length p - length q) (name_end enc p)"

function skipS :: "tok_encoding \<Rightarrow> cstring \<Rightarrow> cstring option" where
  "skipS enc p = do {
     t \<leftarrow> BYTE_TYPE enc p;
     if t \<in> {BT_LF, BT_CR, BT_S} then do { q \<leftarrow> advance enc p; skipS enc q } else Some p }"
  by pat_completeness auto
termination
  by (relation "measure (\<lambda>(enc, p). length p)") (auto dest!: advance_less)

declare skipS.simps [simp del]

section \<open>Positions\<close>

text \<open>\<open>POSITION\<close> where \<open>unsigned long\<close> has 64 bits and \<open>unsigned\<close> 32.\<close>

record position =
  lineNumber :: "64 word"
  columnNumber :: "64 word"

definition minus_one :: "64 word" where
  "minus_one = ucast (- 1 :: 32 word)"

function updatePosition :: "tok_encoding \<Rightarrow> cstring \<Rightarrow> position \<Rightarrow> position option" where
  "updatePosition enc p pos =
     (if p = [] then Some pos
      else do {
        t \<leftarrow> BYTE_TYPE enc p;
        (q, pos) \<leftarrow>
          (case lead t of
             Some n \<Rightarrow> do { q \<leftarrow> move n p; Some (q, pos) }
           | None \<Rightarrow>
               if t = BT_LF then do {
                 q \<leftarrow> advance enc p;
                 Some (q, pos\<lparr>lineNumber := lineNumber pos + 1, columnNumber := minus_one\<rparr>) }
               else if t = BT_CR then do {
                 q \<leftarrow> advance enc p;
                 q \<leftarrow> (if q = [] then Some q
                   else do { u \<leftarrow> BYTE_TYPE enc q; if u = BT_LF then advance enc q else Some q });
                 Some (q, pos\<lparr>lineNumber := lineNumber pos + 1, columnNumber := minus_one\<rparr>) }
               else do { q \<leftarrow> advance enc p; Some (q, pos) });
        updatePosition enc q (pos\<lparr>columnNumber := columnNumber pos + 1\<rparr>) })"
  by pat_completeness auto
termination
  by (relation "measure (\<lambda>(enc, p, pos). length p)")
    (auto simp: bind_eq_Some_conv dest!: advance_less dest: move_less lead_pos split: option.splits if_splits)

declare updatePosition.simps [simp del]

end
