(* ===== verification/Xml_Decl.thy ===== *)
theory Xml_Decl
  imports Xml_Value
begin

unbundle bit_operations_syntax

text \<open>
  XML declarations and the names of encodings in them, and encodings that the application describes
  (the rest of \<open>lib/expat/xmltok/xmltok.c\<close> and \<open>xmltok_ns.c\<close>).
\<close>

section \<open>Pseudo attributes\<close>

text \<open>\<open>XmlUtf8Convert\<close> of the encodings of the build, which are named by their index.\<close>

fun utf8Convert :: "encoding_index \<Rightarrow> cstring \<Rightarrow> nat \<Rightarrow> (cstring \<times> cstring) option" where
  "utf8Convert ISO_8859_1_ENC p room = Some (latin1_toUtf8 p room)"
| "utf8Convert US_ASCII_ENC p room = Some (ascii_toUtf8 p room)"
| "utf8Convert UTF_16_ENC p room = utf16_toUtf8 0 p room"
| "utf8Convert UTF_16BE_ENC p room = utf16_toUtf8 0 p room"
| "utf8Convert UTF_16LE_ENC p room = utf16_toUtf8 1 p room"
| "utf8Convert _ p room = Some (utf8_toUtf8 p room)"

text \<open>The width and the \<open>XmlNameMatchesAscii\<close> of an encoding.\<close>

fun name_encoding :: "encoding_index \<Rightarrow> xml_encoding" where
  "name_encoding UTF_16_ENC = big2_encoding"
| "name_encoding UTF_16BE_ENC = big2_encoding"
| "name_encoding UTF_16LE_ENC = little2_encoding"
| "name_encoding _ = ascii_encoding"

abbreviation width :: "encoding_index \<Rightarrow> nat" where
  "width i \<equiv> minBytesPerChar (name_encoding i)"

lemma width_pos [simp]: "0 < width i"
  by (cases i) (simp_all add: big2_encoding_def little2_encoding_def ascii_encoding_def)

definition toAscii :: "encoding_index \<Rightarrow> cstring \<Rightarrow> int option" where
  "toAscii i p = do {
     (rest, buf) \<leftarrow> utf8Convert i p 1;
     Some (case buf of [] \<Rightarrow> - 1 | c # _ \<Rightarrow> signed_take_bit 7 (byte_val c)) }"

definition isSpace :: "int \<Rightarrow> bool" where
  "isSpace c \<longleftrightarrow> c \<in> {0x20, 0xD, 0xA, 0x9}"

text \<open>From a white character to the next one that is not white.\<close>

function skip_spaces :: "encoding_index \<Rightarrow> cstring \<Rightarrow> (cstring \<times> int) option" where
  "skip_spaces i p = do {
     q \<leftarrow> move (width i) p;
     c \<leftarrow> toAscii i q;
     if isSpace c then skip_spaces i q else Some (q, c) }"
  by pat_completeness auto
termination
  by (relation "measure (\<lambda>(i, p). length p)") (auto dest: move_less)

declare skip_spaces.simps [simp del]

text \<open>The name up to the equals sign: an error (\<open>Inl\<close>), or the end of the name and the sign.\<close>

function pseudo_name :: "encoding_index \<Rightarrow> cstring \<Rightarrow> (cstring + cstring \<times> cstring) option" where
  "pseudo_name i p = do {
     c \<leftarrow> toAscii i p;
     if c = - 1 then Some (Inl p)
     else if c = 0x3D then Some (Inr (p, p))
     else if isSpace c then do {
       (q, d) \<leftarrow> skip_spaces i p;
       Some (if d = 0x3D then Inr (p, q) else Inl q) }
     else do { q \<leftarrow> move (width i) p; pseudo_name i q } }"
  by pat_completeness auto
termination
  by (relation "measure (\<lambda>(i, p). length p)") (auto dest: move_less)

declare pseudo_name.simps [simp del]

definition value_char :: "int \<Rightarrow> bool" where
  "value_char c \<longleftrightarrow> 97 \<le> c \<and> c \<le> 122 \<or> 65 \<le> c \<and> c \<le> 90 \<or> 48 \<le> c \<and> c \<le> 57 \<or> c \<in> {0x2E, 0x2D, 0x5F}"

function pseudo_value :: "int \<Rightarrow> encoding_index \<Rightarrow> cstring \<Rightarrow> (cstring + cstring) option" where
  "pseudo_value open_quote i p = do {
     c \<leftarrow> toAscii i p;
     if c = open_quote then Some (Inr p)
     else if \<not> value_char c then Some (Inl p)
     else do { q \<leftarrow> move (width i) p; pseudo_value open_quote i q } }"
  by pat_completeness auto
termination
  by (relation "measure (\<lambda>(open_quote, i, p). length p)") (auto dest: move_less)

declare pseudo_value.simps [simp del]

text \<open>
  The value returned is 0 with \<open>*nextTokPtr\<close> (\<open>Bad\<close>), or 1 with \<open>*namePtr\<close> NULL and \<open>*nextTokPtr\<close> not
  set, or 1 with \<open>*namePtr\<close>, \<open>*nameEndPtr\<close>, \<open>*valPtr\<close> and \<open>*nextTokPtr\<close>.
\<close>

datatype pseudo = Bad cstring | No_name | Pseudo cstring cstring cstring cstring

definition parsePseudoAttribute :: "encoding_index \<Rightarrow> cstring \<Rightarrow> pseudo option" where
  "parsePseudoAttribute i p =
     (if p = [] then Some No_name
      else do {
        c \<leftarrow> toAscii i p;
        if \<not> isSpace c then Some (Bad p)
        else do {
          (name, _) \<leftarrow> skip_spaces i p;
          if name = [] then Some No_name
          else do {
            r \<leftarrow> pseudo_name i name;
            (case r of
               Inl b \<Rightarrow> Some (Bad b)
             | Inr (nameEnd, sign) \<Rightarrow>
                 if sign = name then Some (Bad sign)
                 else do {
                   q \<leftarrow> move (width i) sign;
                   c \<leftarrow> toAscii i q;
                   (q, c) \<leftarrow> (if isSpace c then skip_spaces i q else Some (q, c));
                   if c \<notin> {0x22, 0x27} then Some (Bad q)
                   else do {
                     val \<leftarrow> move (width i) q;
                     r \<leftarrow> pseudo_value c i val;
                     (case r of
                        Inl b \<Rightarrow> Some (Bad b)
                      | Inr w \<Rightarrow> do { rest \<leftarrow> move (width i) w; Some (Pseudo name nameEnd val rest) }) } }) } } })"

section \<open>The declaration\<close>

text \<open>The bytes from one pointer to another.\<close>

definition bytes_to :: "cstring \<Rightarrow> cstring \<Rightarrow> cstring" where
  "bytes_to p q = take (length p - length q) p"

definition val_bytes :: "encoding_index \<Rightarrow> cstring \<Rightarrow> cstring \<Rightarrow> cstring" where
  "val_bytes i val rest = take (length val - length rest - width i) val"

text \<open>None when the encoding is not known.\<close>

definition findEncoding :: "encoding_index \<Rightarrow> cstring \<Rightarrow> encoding_index option option" where
  "findEncoding i p = do {
     (rest, buf) \<leftarrow> utf8Convert i p 127;
     Some (if rest \<noteq> [] then None
       else if streqci buf ''UTF-16'' \<and> width i = 2 then Some i
       else if getEncodingIndex (Some buf) = UNKNOWN_ENC then None
       else Some (getEncodingIndex (Some buf))) }"

text \<open>What is stored; None for what is left as it was.\<close>

record xml_decl =
  versionPtr :: "cstring option"
  encodingName :: "cstring option"
  decl_encoding :: "encoding_index option option"
  standalone :: "bool option"

text \<open>The result is \<open>*badPtr\<close>, None when the function returns 1, and what was stored.\<close>

type_synonym decl_result = "(cstring option \<times> xml_decl) option"

function decl_end :: "encoding_index \<Rightarrow> cstring \<Rightarrow> cstring option" where
  "decl_end i p = do {
     c \<leftarrow> toAscii i p;
     if isSpace c then do { q \<leftarrow> move (width i) p; decl_end i q } else Some p }"
  by pat_completeness auto
termination
  by (relation "measure (\<lambda>(i, p). length p)") (auto dest: move_less)

declare decl_end.simps [simp del]

definition standalone_part :: "bool \<Rightarrow> encoding_index \<Rightarrow> xml_decl \<Rightarrow> cstring \<Rightarrow> cstring \<Rightarrow> cstring \<Rightarrow> cstring \<Rightarrow> decl_result" where
  "standalone_part general i d name nameEnd val p =
     (if \<not> nameMatchesAscii (name_encoding i) (bytes_to name nameEnd) ''standalone'' \<or> general then Some (Some name, d)
      else
        let v = val_bytes i val p;
            yes = nameMatchesAscii (name_encoding i) v ''yes''; no = nameMatchesAscii (name_encoding i) v ''no''
        in if \<not> yes \<and> \<not> no then Some (Some val, d)
           else do {
             q \<leftarrow> decl_end i p;
             Some (if q \<noteq> [] then Some q else None, d\<lparr>standalone := Some yes\<rparr>) })"

definition ascii_letter :: "int \<Rightarrow> bool" where
  "ascii_letter c \<longleftrightarrow> 97 \<le> c \<and> c \<le> 122 \<or> 65 \<le> c \<and> c \<le> 90"

definition encoding_part :: "bool \<Rightarrow> encoding_index \<Rightarrow> xml_decl \<Rightarrow> cstring \<Rightarrow> cstring \<Rightarrow> cstring \<Rightarrow> cstring \<Rightarrow> decl_result" where
  "encoding_part general i d name nameEnd val p =
     (if \<not> nameMatchesAscii (name_encoding i) (bytes_to name nameEnd) ''encoding'' then
        standalone_part general i d name nameEnd val p
      else do {
        c \<leftarrow> toAscii i val;
        if \<not> ascii_letter c then Some (Some val, d)
        else do {
          found \<leftarrow> findEncoding i (val_bytes i val p);
          let d = d\<lparr>encodingName := Some val, decl_encoding := Some found\<rparr>;
          r \<leftarrow> parsePseudoAttribute i p;
          (case r of
             Bad b \<Rightarrow> Some (Some b, d)
           | No_name \<Rightarrow> Some (None, d)
           | Pseudo name nameEnd val q \<Rightarrow> standalone_part general i d name nameEnd val q) } })"

text \<open>The text is the whole declaration, from its first bracket; \<open>general\<close> is \<open>isGeneralTextEntity\<close>.\<close>

definition doParseXmlDecl :: "bool \<Rightarrow> encoding_index \<Rightarrow> cstring \<Rightarrow> decl_result" where
  "doParseXmlDecl general i p =
     (let d = \<lparr>versionPtr = None, encodingName = None, decl_encoding = None, standalone = None\<rparr>
      in if length p < 7 * width i then None
         else
           let p = take (length p - 7 * width i) (drop (5 * width i) p)
           in do {
             r \<leftarrow> parsePseudoAttribute i p;
             (case r of
                Bad b \<Rightarrow> Some (Some b, d)
              | No_name \<Rightarrow> Some (Some p, d)
              | Pseudo name nameEnd val q \<Rightarrow>
                  if \<not> nameMatchesAscii (name_encoding i) (bytes_to name nameEnd) ''version'' then
                    if \<not> general then Some (Some name, d) else encoding_part general i d name nameEnd val q
                  else do {
                    let d = d\<lparr>versionPtr := Some val\<rparr>;
                    r \<leftarrow> parsePseudoAttribute i q;
                    (case r of
                       Bad b \<Rightarrow> Some (Some b, d)
                     | No_name \<Rightarrow> Some (if general then Some q else None, d)
                     | Pseudo name nameEnd val q \<Rightarrow> encoding_part general i d name nameEnd val q) }) })"

text \<open>\<open>XmlInitEncoding\<close> for the name of the protocol, if any: the index that \<open>initScan\<close> starts with.\<close>

definition XmlInitEncoding :: "cstring option \<Rightarrow> encoding_index option" where
  "XmlInitEncoding name =
     (if getEncodingIndex name = UNKNOWN_ENC then None else Some (getEncodingIndex name))"

section \<open>Encodings of the application\<close>

text \<open>
  \<open>struct unknown_encoding\<close> after \<open>XmlInitUnknownEncoding\<close>; \<open>convert\<close>, a function of the
  application, is a parameter of what uses it.  An empty entry of \<open>utf8\<close> has the length 0.
\<close>

record unknown_encoding =
  unknown_type :: "byte_type list"
  unknown_utf16 :: "16 word list"
  unknown_utf8 :: "cstring list"

definition latin1_type :: "int \<Rightarrow> byte_type" where
  "latin1_type c = SB_BYTE_TYPE (type_table False latin1tab) (to_byte c)"

definition fixed_type :: "int \<Rightarrow> bool" where
  "fixed_type c \<longleftrightarrow> latin1_type c \<notin> {BT_OTHER, BT_NONXML}"

definition ucs2_naming :: "nat list \<Rightarrow> int \<Rightarrow> bool" where
  "ucs2_naming pages c = UCS2_GET_NAMING pages (to_byte (drop_bit 8 c)) (to_byte (c AND 0xFF))"

definition unknown_entry :: "nat \<Rightarrow> int \<Rightarrow> (byte_type \<times> 16 word \<times> cstring) option" where
  "unknown_entry i c =
     (if c = - 1 then Some (BT_MALFORM, 0xFFFF, [CHR 0x00])
      else if c < 0 then
        if c < - 4 then None
        else Some (if c = - 2 then BT_LEAD2 else if c = - 3 then BT_LEAD3 else BT_LEAD4, 0, [])
      else if c < 0x80 then
        if fixed_type c \<and> c \<noteq> int i then None
        else Some (latin1_type c, if c = 0 then 0xFFFF else word_of_int c, [to_byte c])
      else if checkCharRefNumber c < 0 then Some (BT_NONXML, 0xFFFF, [CHR 0x00])
      else if 0xFFFF < c then None
      else Some (if ucs2_naming nmstrtPages c then BT_NMSTRT else if ucs2_naming namePages c then BT_NAME else BT_OTHER,
        word_of_int c, XmlUtf8Encode c))"

fun unknown_entries :: "nat \<Rightarrow> int list \<Rightarrow> (byte_type \<times> 16 word \<times> cstring) list option" where
  "unknown_entries i [] = Some []"
| "unknown_entries i (c # cs) = do {
     e \<leftarrow> unknown_entry i c;
     es \<leftarrow> unknown_entries (i + 1) cs;
     Some (e # es) }"

definition XmlInitUnknownEncoding :: "int list \<Rightarrow> unknown_encoding option" where
  "XmlInitUnknownEncoding table =
     (if \<exists>i\<in>set [0..<128]. fixed_type (int i) \<and> table ! i \<noteq> int i then None
      else do {
        es \<leftarrow> unknown_entries 0 (take 256 table);
        Some \<lparr>unknown_type = map fst es, unknown_utf16 = map (fst \<circ> snd) es, unknown_utf8 = map (snd \<circ> snd) es\<rparr> })"

definition XmlInitUnknownEncodingNS :: "int list \<Rightarrow> unknown_encoding option" where
  "XmlInitUnknownEncodingNS table =
     map_option (\<lambda>e. e\<lparr>unknown_type := (unknown_type e)[58 := BT_COLON]\<rparr>) (XmlInitUnknownEncoding table)"

definition unknown_naming :: "nat list \<Rightarrow> (cstring \<Rightarrow> int) \<Rightarrow> cstring \<Rightarrow> bool" where
  "unknown_naming pages convert p \<longleftrightarrow> 0 \<le> convert p \<and> convert p \<le> 0xFFFF \<and> ucs2_naming pages (convert p)"

definition unknown_isInvalid :: "(cstring \<Rightarrow> int) \<Rightarrow> cstring \<Rightarrow> bool" where
  "unknown_isInvalid convert p \<longleftrightarrow>
     \<not> (0 \<le> convert p \<and> convert p \<le> 0xFFFF) \<or> checkCharRefNumber (convert p) < 0"

definition unknown_tok_encoding :: "unknown_encoding \<Rightarrow> (cstring \<Rightarrow> int) \<Rightarrow> tok_encoding" where
  "unknown_tok_encoding e convert =
     \<lparr>te_wide = False, te_type = (\<lambda>p. SB_BYTE_TYPE (unknown_type e) (p ! 0)), te_ascii = (\<lambda>p. Some (p ! 0)),
      te_name = (\<lambda>n. unknown_naming namePages convert), te_nmstrt = (\<lambda>n. unknown_naming nmstrtPages convert),
      te_invalid = (\<lambda>n. unknown_isInvalid convert), te_name_min = (\<lambda>p. False), te_nmstrt_min = (\<lambda>p. False)\<rparr>"

text \<open>
  None when the text is read or left behind its end, or when \<open>convert\<close> gives no character: then the
  length is 0, and the loop that copies the bytes does not stop.
\<close>

function unknown_toUtf8 :: "unknown_encoding \<Rightarrow> (cstring \<Rightarrow> int) \<Rightarrow> cstring \<Rightarrow> nat \<Rightarrow> (cstring \<times> cstring) option" where
  "unknown_toUtf8 e convert p room =
     (if p = [] then Some ([], [])
      else
        let direct = unknown_utf8 e ! of_char (p ! 0); out = (if direct = [] then XmlUtf8Encode (convert p) else direct)
        in if room < length out then Some (p, [])
           else if out = [] then None
           else do {
             q \<leftarrow> (if direct = [] then
                case lead (SB_BYTE_TYPE (unknown_type e) (p ! 0)) of Some n \<Rightarrow> move n p | None \<Rightarrow> None
              else move 1 p);
             wrote out (unknown_toUtf8 e convert q (room - length out)) })"
  by pat_completeness auto
termination
  by (relation "measure (\<lambda>(e, convert, p, room). length p)")
    (auto dest: move_less lead_pos split: if_splits option.splits)

declare unknown_toUtf8.simps [simp del]

function unknown_toUtf16 :: "unknown_encoding \<Rightarrow> (cstring \<Rightarrow> int) \<Rightarrow> cstring \<Rightarrow> nat \<Rightarrow> (cstring \<times> 16 word list) option" where
  "unknown_toUtf16 e convert p room =
     (if p = [] \<or> room = 0 then Some (p, [])
      else
        let direct = unknown_utf16 e ! of_char (p ! 0); out = (if direct = 0 then word_of_int (convert p) else direct)
        in do {
          q \<leftarrow> (if direct = 0 then
             case lead (SB_BYTE_TYPE (unknown_type e) (p ! 0)) of Some n \<Rightarrow> move n p | None \<Rightarrow> None
           else move 1 p);
          wrote [out] (unknown_toUtf16 e convert q (room - 1)) })"
  by pat_completeness auto
termination
  by (relation "measure (\<lambda>(e, convert, p, room). length p)")
    (auto dest: move_less lead_pos split: if_splits option.splits)

declare unknown_toUtf16.simps [simp del]

section \<open>Declarations read back\<close>

text \<open>Texts of the characters that a name or a value may have, and the text of a declaration.\<close>

definition value_text :: "cstring \<Rightarrow> bool" where
  "value_text v \<longleftrightarrow> (\<forall>c\<in>set v. value_char (byte_val c))"

lemma toAscii_utf8:
  "toAscii UTF_8_ENC [] = Some (- 1)"
  "byte_val c < 128 \<Longrightarrow> toAscii UTF_8_ENC (c # p) = Some (byte_val c)"
proof -
  assume c: "byte_val c < 128"
  then have n: "0 \<le> byte_val c" "take_bit 8 (byte_val c) = byte_val c"
    by (simp_all add: byte_val_def take_bit_int_eq_self)
  then have "byte_val c AND 0xC0 \<noteq> 0x80"
  proof -
    have "\<not> bit (byte_val c) 7"
      using c n by (simp add: bit_iff_odd)
    moreover have "bit (0x80 :: int) 7" by (simp add: bit_iff_odd)
    ultimately show ?thesis by (metis bit_and_iff)
  qed
  moreover have "signed_take_bit 7 (byte_val c) = byte_val c"
    using c n by (simp add: signed_take_bit_int_eq_self)
  ultimately show "toAscii UTF_8_ENC (c # p) = Some (byte_val c)"
    by (simp add: toAscii_def utf8_toUtf8_def Let_def)
qed (simp add: toAscii_def utf8_toUtf8_def)

lemma value_char_facts:
  "value_char n \<Longrightarrow> 0 \<le> n \<and> n < 128" "value_char n \<Longrightarrow> \<not> isSpace n" "value_char n \<Longrightarrow> n \<notin> {- 1, 0x22, 0x3D}"
  by (auto simp: value_char_def isSpace_def)

lemma move_utf8 [simp]: "move (minBytesPerChar ascii_encoding) (c # p) = Some p"
  by (simp add: move_def ascii_encoding_def)

lemma pseudo_value_utf8:
  "value_text v \<Longrightarrow> pseudo_value 0x22 UTF_8_ENC (v @ CHR 0x22 # r) = Some (Inr (CHR 0x22 # r))"
proof (induction v)
  case Nil
  have "byte_val (CHR 0x22) = 0x22" by (simp add: byte_val_def)
  then show ?case by (subst pseudo_value.simps) (simp add: toAscii_utf8)
next
  case (Cons c v)
  then show ?case
    using value_char_facts [of "byte_val c"]
    by (subst append_Cons, subst pseudo_value.simps) (simp add: toAscii_utf8 value_text_def)
qed

lemma pseudo_name_utf8:
  "value_text n \<Longrightarrow>
   pseudo_name UTF_8_ENC (n @ CHR ''='' # r) = Some (Inr (CHR ''='' # r, CHR ''='' # r))"
proof (induction n)
  case Nil
  have "byte_val (CHR ''='') = 0x3D" by (simp add: byte_val_def)
  then show ?case by (subst append_Nil, subst pseudo_name.simps) (simp add: toAscii_utf8)
next
  case (Cons c n)
  then show ?case
    using value_char_facts [of "byte_val c"]
    by (subst append_Cons, subst pseudo_name.simps) (simp add: toAscii_utf8 value_text_def)
qed

definition pseudo_text :: "cstring \<Rightarrow> cstring \<Rightarrow> cstring" where
  "pseudo_text n v = '' '' @ n @ [CHR ''='', CHR 0x22] @ v @ [CHR 0x22]"

lemma pseudo_utf8:
  assumes "value_text n" "n \<noteq> []" "value_text v"
  shows "parsePseudoAttribute UTF_8_ENC (pseudo_text n v @ r)
    = Some (Pseudo (n @ CHR ''='' # CHR 0x22 # v @ CHR 0x22 # r) (CHR ''='' # CHR 0x22 # v @ CHR 0x22 # r)
        (v @ CHR 0x22 # r) r)"
proof -
  obtain c m where n: "n = c # m" using assms(2) by (cases n) auto
  then have c: "value_char (byte_val c)" using assms(1) by (simp add: value_text_def)
  have b: "byte_val (CHR '' '') = 0x20" "byte_val (CHR ''='') = 0x3D" "byte_val (CHR 0x22) = 0x22"
    by (simp_all add: byte_val_def)
  have "skip_spaces UTF_8_ENC (CHR '' '' # n @ x) = Some (n @ x, byte_val c)" for x
    using value_char_facts [OF c] by (subst skip_spaces.simps) (simp add: n toAscii_utf8)
  then show ?thesis
    using assms b pseudo_name_utf8 [OF assms(1)] pseudo_value_utf8 [OF assms(3)]
    by (simp add: parsePseudoAttribute_def pseudo_text_def toAscii_utf8 isSpace_def)
qed

lemma names_utf8: "nameMatchesAscii (name_encoding UTF_8_ENC) n m \<longleftrightarrow> n = m"
  by (induction m arbitrary: n) (auto simp: ascii_encoding_def split: list.splits)

lemma bytes_utf8: "bytes_to (n @ r) r = n"
  by (simp add: bytes_to_def)

lemma val_bytes_utf8 [simp]: "val_bytes UTF_8_ENC (v @ c # r) r = v"
  by (simp add: val_bytes_def ascii_encoding_def)

definition decl_text :: "cstring \<Rightarrow> cstring \<Rightarrow> cstring \<Rightarrow> cstring" where
  "decl_text v e s = pseudo_text ''version'' v @ pseudo_text ''encoding'' e @ pseudo_text ''standalone'' s"

lemma name_part_utf8: "nameMatchesAscii (name_encoding UTF_8_ENC) (bytes_to (n @ r) r) m \<longleftrightarrow> n = m"
  by (simp only: bytes_utf8 names_utf8)

lemma standalone_part_utf8:
  assumes "n = ''standalone''" "s \<in> {''yes'', ''no''}"
  shows "standalone_part False UTF_8_ENC d (n @ r) r (s @ [c]) [] = Some (None, d\<lparr>standalone := Some (s = ''yes'')\<rparr>)"
proof -
  have "nameMatchesAscii (name_encoding UTF_8_ENC) (bytes_to (n @ r) r) ''standalone''"
    by (simp only: name_part_utf8 assms(1))
  moreover have "decl_end UTF_8_ENC [] = Some []"
    by (subst decl_end.simps) (simp add: toAscii_utf8 isSpace_def)
  ultimately show ?thesis
    using assms(2) names_utf8 [of s "''yes''"] names_utf8 [of s "''no''"]
    unfolding standalone_part_def val_bytes_utf8 by (auto simp: Let_def)
qed

lemma encoding_part_utf8:
  assumes "n = ''encoding''" "value_text e" "e \<noteq> []" "ascii_letter (byte_val (hd e))" "s \<in> {''yes'', ''no''}"
    and rest: "rest = pseudo_text ''standalone'' s"
  shows "encoding_part False UTF_8_ENC d (n @ r) r (e @ CHR 0x22 # rest) rest
    = Some (None, d\<lparr>encodingName := Some (e @ CHR 0x22 # rest), decl_encoding := findEncoding UTF_8_ENC e,
        standalone := Some (s = ''yes'')\<rparr>)"
proof -
  have n: "nameMatchesAscii (name_encoding UTF_8_ENC) (bytes_to (n @ r) r) ''encoding''"
    by (simp only: name_part_utf8 assms(1))
  obtain c e' where e: "e = c # e'" using assms(3) by (cases e) auto
  have c: "toAscii UTF_8_ENC (e @ x) = Some (byte_val c)" "ascii_letter (byte_val c)" for x
    using assms(2,4) value_char_facts [of "byte_val c"] by (simp_all add: e value_text_def toAscii_utf8)
  obtain found where f: "findEncoding UTF_8_ENC e = Some found"
    by (cases "utf8_toUtf8 e 127") (simp add: findEncoding_def)
  have lit: "value_text ''standalone''" "value_text s"
    using assms(5) by (auto simp: value_text_def value_char_def byte_val_def)
  have p: "\<exists>x. parsePseudoAttribute UTF_8_ENC rest = Some (Pseudo (''standalone'' @ x) x (s @ [CHR 0x22]) [])"
    using pseudo_utf8 [OF lit(1) _ lit(2), of "[]"] unfolding rest append_Nil2 by blast
  show ?thesis
    using n c f p standalone_part_utf8 [OF refl assms(5)]
    unfolding encoding_part_def val_bytes_utf8 by auto
qed

text \<open>C29: A declaration written with a version, an encoding and \<open>standalone\<close> is accepted, and read back
  with these values; the encoding is the one that the name stands for.
\<close>

theorem xml_decl_read_back:
  assumes "value_text v" "value_text e" "e \<noteq> []" "ascii_letter (byte_val (hd e))" "s \<in> {''yes'', ''no''}"
  shows "doParseXmlDecl False UTF_8_ENC (''<?xml'' @ decl_text v e s @ ''?>'')
    = Some (None, \<lparr>versionPtr = Some (drop 10 (decl_text v e s)),
        encodingName = Some (drop (22 + length v) (decl_text v e s)),
        decl_encoding = findEncoding UTF_8_ENC e, standalone = Some (s = ''yes'')\<rparr>)"
proof -
  have lit: "value_text ''version''" "value_text ''encoding''"
    by (simp_all add: value_text_def value_char_def byte_val_def)
  define R where "R = pseudo_text ''standalone'' s"
  define Q where "Q = pseudo_text ''encoding'' e @ R"
  define D where "D = pseudo_text ''version'' v @ Q"
  obtain x where D: "parsePseudoAttribute UTF_8_ENC D = Some (Pseudo (''version'' @ x) x (v @ CHR 0x22 # Q) Q)"
    using pseudo_utf8 [OF lit(1) _ assms(1), of Q] unfolding D_def by blast
  obtain y where Q: "parsePseudoAttribute UTF_8_ENC Q = Some (Pseudo (''encoding'' @ y) y (e @ CHR 0x22 # R) R)"
    using pseudo_utf8 [OF lit(2) _ assms(2), of R] unfolding Q_def by blast
  have v: "nameMatchesAscii (name_encoding UTF_8_ENC) (bytes_to (''version'' @ x) x) ''version''"
    by (simp only: name_part_utf8)
  have "take (length (''<?xml'' @ D @ ''?>'') - 7) (drop 5 (''<?xml'' @ D @ ''?>'')) = D" by simp
  then have "doParseXmlDecl False UTF_8_ENC (''<?xml'' @ D @ ''?>'')
    = encoding_part False UTF_8_ENC \<lparr>versionPtr = Some (v @ CHR 0x22 # Q), encodingName = None, decl_encoding = None,
        standalone = None\<rparr> (''encoding'' @ y) y (e @ CHR 0x22 # R) R"
    using D Q v by (simp add: doParseXmlDecl_def Let_def ascii_encoding_def)
  moreover have "decl_text v e s = D" by (simp add: decl_text_def D_def Q_def R_def)
  moreover have "drop 10 D = v @ CHR 0x22 # Q" by (simp add: D_def pseudo_text_def)
  moreover have "drop (22 + length v) D = e @ CHR 0x22 # R"
  proof -
    define start where "start = pseudo_text ''version'' v @ '' encoding='' @ [CHR 0x22]"
    have "D = start @ e @ CHR 0x22 # R" "length start = 22 + length v"
      by (simp_all add: D_def Q_def start_def pseudo_text_def)
    then show ?thesis by (metis append_eq_conv_conj)
  qed
  ultimately show ?thesis using encoding_part_utf8 [OF refl assms(2-5) R_def] by simp
qed

lemma xml_decl_read_back_witness:
  "doParseXmlDecl False UTF_8_ENC (''<?xml'' @ decl_text ''1.0'' ''ISO-8859-1'' ''yes'' @ ''?>'')
    = Some (None, \<lparr>versionPtr = Some (drop 10 (decl_text ''1.0'' ''ISO-8859-1'' ''yes'')),
        encodingName = Some (drop 25 (decl_text ''1.0'' ''ISO-8859-1'' ''yes'')),
        decl_encoding = findEncoding UTF_8_ENC ''ISO-8859-1'', standalone = Some True\<rparr>)"
  using xml_decl_read_back [of "''1.0''" "''ISO-8859-1''" "''yes''"]
  by (simp add: value_text_def value_char_def ascii_letter_def byte_val_def)

end
