(* ===== verification/Xml_Bounds.thy ===== *)
theory Xml_Bounds
  imports Xml_Decl
begin

text \<open>
  The scanners of \<open>Xml_Tok\<close> stay inside the text, for any encoding in which the characters of
  several bytes have a whole number of units.
\<close>

section \<open>Texts of whole characters\<close>

locale whole_units =
  fixes enc :: tok_encoding
  assumes units: "te_wide enc \<Longrightarrow> te_type enc p \<noteq> BT_LEAD2 \<and> te_type enc p \<noteq> BT_LEAD3"

context whole_units
begin

definition fits :: "cstring \<Rightarrow> bool" where
  "fits p \<longleftrightarrow> MINBPC enc dvd length p"

text \<open>
  A result without overrun, whose next token is in the text from \<open>b\<close>; only an error and the start of
  the document element may be at \<open>b\<close> itself.
\<close>

definition safe :: "cstring \<Rightarrow> scan_result option \<Rightarrow> bool" where
  "safe b r \<longleftrightarrow> r \<noteq> None \<and> (\<forall>t q. r = Some (Scanned t q) \<longrightarrow> suffix q b \<and> fits q \<and>
     (t \<notin> {XML_TOK_INVALID, XML_TOK_INSTANCE_START} \<longrightarrow> strict_suffix q b))"

lemma fits_length: "fits p \<Longrightarrow> p \<noteq> [] \<Longrightarrow> MINBPC enc \<le> length p"
  by (simp add: fits_def dvd_imp_le)

lemma fits_move: "fits p \<Longrightarrow> MINBPC enc dvd n \<Longrightarrow> fits (drop n p)"
  by (simp add: fits_def)

lemma fits_drop: "fits p \<Longrightarrow> fits (drop (MINBPC enc) p)"
  by (simp add: fits_move)

lemma MINBPC_not_0 [simp]: "MINBPC enc \<noteq> 0"
  using MINBPC_pos [of enc] by simp

lemma strict_suffix_drop: "suffix p b \<Longrightarrow> 0 < n \<Longrightarrow> n \<le> length p \<Longrightarrow> strict_suffix (drop n p) b"
  by (metis suffix_drop suffix_order.trans strict_suffix_def length_drop diff_less length_greater_0_conv
      list.size(3) not_less suffix_length_le le_zero_eq less_le_trans)

lemma safe_basic:
  "suffix q b \<Longrightarrow> fits q \<Longrightarrow> (t \<notin> {XML_TOK_INVALID, XML_TOK_INSTANCE_START} \<Longrightarrow> strict_suffix q b) \<Longrightarrow>
     safe b (Some (Scanned t q))"
  "safe b (Some (Unset u))"
  "safe b (Some (Negated u))"
  "(x \<Longrightarrow> safe b r) \<Longrightarrow> (\<not> x \<Longrightarrow> safe b r') \<Longrightarrow> safe b (if x then r else r')"
  by (auto simp: safe_def)

lemma safe_read:
  "fits p \<Longrightarrow> p \<noteq> [] \<Longrightarrow> (\<And>x. safe b (f x)) \<Longrightarrow> safe b (Option.bind (read_at (MINBPC enc) h p) f)"
  using fits_length [of p] by (simp add: read_at_def)

lemma safe_type:
  "fits p \<Longrightarrow> p \<noteq> [] \<Longrightarrow> (\<And>t. t = te_type enc p \<Longrightarrow> safe b (f t)) \<Longrightarrow> safe b (Option.bind (BYTE_TYPE enc p) f)"
  using fits_length [of p] by (simp add: BYTE_TYPE_def read_at_def)

lemma safe_matches:
  "fits p \<Longrightarrow> p \<noteq> [] \<Longrightarrow> (\<And>m. safe b (f m)) \<Longrightarrow> safe b (Option.bind (CHAR_MATCHES enc p c) f)"
  using fits_length [of p] by (simp add: CHAR_MATCHES_def read_at_def)

lemma advance_fits: "fits p \<Longrightarrow> p \<noteq> [] \<Longrightarrow> advance enc p = Some (drop (MINBPC enc) p)"
  using fits_length [of p] by (simp add: advance_def move_def)

lemma safe_advance:
  assumes "fits p" "p \<noteq> []" "suffix p b"
    and "\<And>q. strict_suffix q b \<Longrightarrow> fits q \<Longrightarrow> length q < length p \<Longrightarrow> safe b (f q)"
  shows "safe b (Option.bind (advance enc p) f)"
proof -
  have a: "advance enc p = Some (drop (MINBPC enc) p)" using assms(1,2) by (rule advance_fits)
  have "strict_suffix (drop (MINBPC enc) p) b"
    by (rule strict_suffix_drop [OF assms(3) MINBPC_pos fits_length [OF assms(1,2)]])
  with assms(4) [of "drop (MINBPC enc) p"] a fits_drop [OF assms(1)] advance_less [OF a] show ?thesis by simp
qed

text \<open>The cases that the macros share.\<close>

definition good_case :: "cstring \<Rightarrow> cstring \<Rightarrow> char_case option \<Rightarrow> bool" where
  "good_case b p c \<longleftrightarrow> c \<noteq> None \<and>
     (\<forall>q. c = Some (Next q) \<longrightarrow> strict_suffix q b \<and> fits q \<and> length q < length p)"

lemma lead_units: "lead t = Some n \<Longrightarrow> t = te_type enc p \<Longrightarrow> MINBPC enc dvd n"
  using units [of p] by (auto simp: lead_def MINBPC_def split: if_splits)

lemma good_lead:
  assumes "fits p" "suffix p b" "MINBPC enc dvd n" "0 < n"
  shows "good_case b p (lead_case n ok p)"
proof (cases "length p < n")
  case False
  then have "strict_suffix (drop n p) b" using assms(2,4) by (simp add: strict_suffix_drop)
  with False show ?thesis
    using assms fits_move [OF assms(1,3)] by (auto simp: good_case_def lead_case_def read_at_def move_def)
qed (simp add: good_case_def lead_case_def)

lemma good_next:
  assumes "fits p" "p \<noteq> []" "suffix p b"
  shows "good_case b p (advance enc p \<bind> (\<lambda>q. Some (Next q)))"
proof -
  have "strict_suffix (drop (MINBPC enc) p) b"
    by (rule strict_suffix_drop [OF assms(3) MINBPC_pos fits_length [OF assms(1,2)]])
  then show ?thesis
    using assms fits_length [OF assms(1,2)] fits_drop [OF assms(1)]
    by (simp add: good_case_def advance_def move_def)
qed

lemma good_check:
  assumes "fits p" "p \<noteq> []" "suffix p b"
  shows "good_case b p (INVALID_CASES enc p)"
    "good_case b p (CHECK_NAME_CASES enc p)"
    "good_case b p (CHECK_NMSTRT_CASES enc p)"
proof -
  have t: "BYTE_TYPE enc p = Some (te_type enc p)" and r: "read_at (MINBPC enc) f p = Some (f p)" for f :: "cstring \<Rightarrow> bool"
    using fits_length [OF assms(1,2)] by (simp_all add: BYTE_TYPE_def read_at_def)
  have trivial: "good_case b p (Some Wrong)" "good_case b p (Some (Other u))" for u
    by (simp_all add: good_case_def)
  have lead: "lead (te_type enc p) = Some n \<Longrightarrow> good_case b p (lead_case n ok p)" for n ok
    using good_lead [OF assms(1,3) lead_units lead_pos] by blast
  note good_next [OF assms]
  then show "good_case b p (INVALID_CASES enc p)" "good_case b p (CHECK_NAME_CASES enc p)"
      "good_case b p (CHECK_NMSTRT_CASES enc p)"
    unfolding INVALID_CASES_def CHECK_NAME_CASES_def CHECK_NMSTRT_CASES_def t r Option.bind.simps
    using lead trivial by (auto split: option.split)
qed

lemma safe_switch:
  assumes "good_case b p c" "suffix p b" "fits p"
    and "\<And>q. strict_suffix q b \<Longrightarrow> fits q \<Longrightarrow> length q < length p \<Longrightarrow> safe b (f q)" "\<And>t. safe b (g t)"
  shows "safe b (Option.bind c (\<lambda>c. switch c p f g))"
  using assms by (cases c) (auto simp: good_case_def switch_def intro!: safe_basic split: char_case.split)

lemma safe_cases:
  assumes "good_case b p c"
    and "\<And>q. strict_suffix q b \<Longrightarrow> fits q \<Longrightarrow> length q < length p \<Longrightarrow> safe b (f q)" "safe b r" "safe b r'" "\<And>t. safe b (g t)"
  shows "safe b (Option.bind c (\<lambda>c. case c of Next q \<Rightarrow> f q | Wrong \<Rightarrow> r | Cut \<Rightarrow> r' | Other t \<Rightarrow> g t))"
  using assms by (cases c) (auto simp: good_case_def split: char_case.split)

lemma checkPiTarget_returns: "checkPiTarget enc t \<noteq> None"
  by (cases "length t = MINBPC enc * 3") (auto simp: checkPiTarget_def advance_def move_def read_at_def Let_def)

lemma safe_target:
  "(\<And>ok tok. safe b (f (ok, tok))) \<Longrightarrow> safe b (Option.bind (checkPiTarget enc t) f)"
  using checkPiTarget_returns [of t] by (cases "checkPiTarget enc t") auto

lemmas strict_suffix_le = suffix_order.less_imp_le

lemmas safe_rules = safe_basic safe_read safe_type safe_matches safe_advance safe_switch safe_cases safe_target good_check
  
section \<open>The loops\<close>

lemma safe_comment_loop: "fits p \<Longrightarrow> strict_suffix p b \<Longrightarrow> safe b (comment_loop enc p)"
proof (induction "length p" arbitrary: p rule: less_induct)
  case less
  then show ?case
    by (subst comment_loop.simps) (auto intro!: safe_rules intro: less strict_suffix_le)
qed

lemma safe_scanComment: "fits p \<Longrightarrow> strict_suffix p b \<Longrightarrow> safe b (scanComment enc p)"
  by (auto simp: scanComment_def intro!: safe_rules safe_comment_loop intro: strict_suffix_le)

lemma safe_decl_loop: "fits p \<Longrightarrow> strict_suffix p b \<Longrightarrow> safe b (decl_loop enc p)"
proof (induction "length p" arbitrary: p rule: less_induct)
  case less
  then show ?case
    by (subst decl_loop.simps) (auto intro!: safe_rules intro: less strict_suffix_le)
qed

lemma safe_scanDecl: "fits p \<Longrightarrow> strict_suffix p b \<Longrightarrow> safe b (scanDecl enc p)"
  by (auto simp: scanDecl_def intro!: safe_rules safe_decl_loop safe_scanComment intro: strict_suffix_le)

lemma safe_pi_body: "fits p \<Longrightarrow> strict_suffix p b \<Longrightarrow> safe b (pi_body tok enc p)"
proof (induction "length p" arbitrary: p rule: less_induct)
  case less
  then show ?case
    by (subst pi_body.simps) (auto intro!: safe_rules intro: less strict_suffix_le)
qed

lemma safe_pi_target: "fits p \<Longrightarrow> strict_suffix p b \<Longrightarrow> safe b (pi_target target enc p)"
proof (induction "length p" arbitrary: p rule: less_induct)
  case less
  then show ?case
    by (subst pi_target.simps) (auto intro!: safe_rules safe_pi_body intro: less strict_suffix_le)
qed

lemma safe_scanPi: "fits p \<Longrightarrow> strict_suffix p b \<Longrightarrow> safe b (scanPi enc p)"
  by (auto simp: scanPi_def intro!: safe_rules safe_pi_target intro: strict_suffix_le)

lemma safe_cdata_open:
  "fits p \<Longrightarrow> strict_suffix p b \<Longrightarrow> length cs * MINBPC enc \<le> length p \<Longrightarrow> safe b (cdata_open cs enc p)"
proof (induction cs arbitrary: p)
  case (Cons c cs)
  then have p: "p \<noteq> []" "MINBPC enc \<le> length p" using MINBPC_pos [of enc] by auto
  have "safe b (cdata_open cs enc (drop (MINBPC enc) p))"
    using Cons.prems p
    by (intro Cons.IH) (auto simp: fits_drop intro!: strict_suffix_drop intro: strict_suffix_le)
  with Cons.prems p show ?case
    by (auto simp: advance_fits intro!: safe_basic safe_matches intro: strict_suffix_le)
qed (auto intro!: safe_basic intro: strict_suffix_le)

lemma safe_scanCdataSection: "fits p \<Longrightarrow> strict_suffix p b \<Longrightarrow> safe b (scanCdataSection enc p)"
  unfolding scanCdataSection_def by (intro safe_basic safe_cdata_open) (auto simp: safe_basic)

lemma safe_newline_tok: "fits p \<Longrightarrow> p \<noteq> [] \<Longrightarrow> suffix p b \<Longrightarrow> safe b (newline_tok tok enc p)"
  by (auto simp: newline_tok_def intro!: safe_rules intro: strict_suffix_le)

lemma safe_cdata_loop: "fits p \<Longrightarrow> strict_suffix p b \<Longrightarrow> safe b (cdata_loop enc p)"
proof (induction "length p" arbitrary: p rule: less_induct)
  case less
  then show ?case
    by (subst cdata_loop.simps) (auto intro!: safe_rules intro: less strict_suffix_le)
qed

lemma safe_cdata_first: "fits p \<Longrightarrow> p \<noteq> [] \<Longrightarrow> safe p (cdata_first enc p)"
  by (auto simp: cdata_first_def intro!: safe_rules safe_cdata_loop safe_newline_tok intro: strict_suffix_le)

lemma safe_end_tag_space: "fits p \<Longrightarrow> strict_suffix p b \<Longrightarrow> safe b (end_tag_space enc p)"
proof (induction "length p" arbitrary: p rule: less_induct)
  case less
  then show ?case
    by (subst end_tag_space.simps) (auto intro!: safe_rules intro: less strict_suffix_le)
qed

lemma safe_end_tag_name: "fits p \<Longrightarrow> strict_suffix p b \<Longrightarrow> safe b (end_tag_name enc p)"
proof (induction "length p" arbitrary: p rule: less_induct)
  case less
  then show ?case
    by (subst end_tag_name.simps) (auto intro!: safe_rules safe_end_tag_space intro: less strict_suffix_le)
qed

lemma safe_scanEndTag: "fits p \<Longrightarrow> strict_suffix p b \<Longrightarrow> safe b (scanEndTag enc p)"
  by (auto simp: scanEndTag_def intro!: safe_rules safe_end_tag_name intro: strict_suffix_le)

lemma safe_char_ref_loop: "fits p \<Longrightarrow> strict_suffix p b \<Longrightarrow> safe b (char_ref_loop digits enc p)"
proof (induction "length p" arbitrary: p rule: less_induct)
  case less
  then show ?case
    by (subst char_ref_loop.simps) (auto intro!: safe_rules intro: less strict_suffix_le)
qed

lemma safe_scanHexCharRef: "fits p \<Longrightarrow> strict_suffix p b \<Longrightarrow> safe b (scanHexCharRef enc p)"
  by (auto simp: scanHexCharRef_def intro!: safe_rules safe_char_ref_loop intro: strict_suffix_le)

lemma safe_scanCharRef: "fits p \<Longrightarrow> strict_suffix p b \<Longrightarrow> safe b (scanCharRef enc p)"
  by (auto simp: scanCharRef_def intro!: safe_rules safe_char_ref_loop safe_scanHexCharRef intro: strict_suffix_le)

lemma safe_ref_name: "fits p \<Longrightarrow> strict_suffix p b \<Longrightarrow> safe b (ref_name tok enc p)"
proof (induction "length p" arbitrary: p rule: less_induct)
  case less
  then show ?case
    by (subst ref_name.simps) (auto intro!: safe_rules intro: less strict_suffix_le)
qed

lemma safe_scanRef: "fits p \<Longrightarrow> strict_suffix p b \<Longrightarrow> safe b (scanRef enc p)"
  by (auto simp: scanRef_def intro!: safe_rules safe_ref_name safe_scanCharRef intro: strict_suffix_le)

lemma safe_ref:
  assumes "fits p" "strict_suffix p b"
    and "\<And>q. strict_suffix q b \<Longrightarrow> fits q \<Longrightarrow> length q \<le> length p \<Longrightarrow> safe b (h q)"
  shows "safe b (Option.bind (scanRef enc p) (\<lambda>r. case r of
      Scanned tok q \<Rightarrow> if tok = XML_TOK_INVALID then invalid q else h q | _ \<Rightarrow> Some r))"
proof -
  have r: "scanRef enc p \<noteq> None" "scanRef enc p = Some (Scanned t q) \<Longrightarrow> suffix q b \<and> fits q" for t q
    using safe_scanRef [OF assms(1,2)] by (auto simp: safe_def)
  have "strict_suffix q b \<and> fits q \<and> length q \<le> length p" if q: "scanRef enc p = Some (Scanned t q)" for t q
    using scanRef_le [OF q] r(2) [OF q] suffix_length_less [OF assms(2)] by (auto simp: strict_suffix_def)
  then have "safe b (if t = XML_TOK_INVALID then invalid q else h q)" if "scanRef enc p = Some (Scanned t q)" for t q
    using that assms(3) [of q] by (auto intro!: safe_basic intro: strict_suffix_le)
  with r(1) show ?thesis by (cases "scanRef enc p") (auto intro!: safe_basic split: scan_result.split)
qed

lemma safe_slash_close: "fits p \<Longrightarrow> p \<noteq> [] \<Longrightarrow> suffix p b \<Longrightarrow> safe b (slash_close tok enc p)"
  by (auto simp: slash_close_def intro!: safe_rules  intro: strict_suffix_le)

lemma safe_scan_atts: "fits p \<Longrightarrow> strict_suffix p b \<Longrightarrow> safe b (scan_atts place enc p)"
proof (induction "length p" arbitrary: p place rule: less_induct)
  case less
  show ?case
  proof (cases place)
    case In_name
    with less.prems show ?thesis
      by (subst scan_atts.simps) (auto intro!: safe_rules safe_ref safe_slash_close intro: less.hyps strict_suffix_le)
  next
    case Before_equals
    with less.prems show ?thesis
      by (subst scan_atts.simps) (auto intro!: safe_rules safe_ref safe_slash_close intro: less.hyps strict_suffix_le)
  next
    case Before_quote
    with less.prems show ?thesis
      by (subst scan_atts.simps) (auto intro!: safe_rules safe_ref safe_slash_close intro: less.hyps strict_suffix_le)
  next
    case In_value
    with less.prems show ?thesis
      by (subst scan_atts.simps) (auto intro!: safe_rules safe_ref safe_slash_close intro: less.hyps strict_suffix_le)
  next
    case After_value
    with less.prems show ?thesis
      by (subst scan_atts.simps) (auto intro!: safe_rules safe_ref safe_slash_close intro: less.hyps strict_suffix_le)
  next
    case Between
    with less.prems show ?thesis
      by (subst scan_atts.simps) (auto intro!: safe_rules safe_ref safe_slash_close intro: less.hyps strict_suffix_le)
  qed
qed

lemma safe_scanAtts: "fits p \<Longrightarrow> strict_suffix p b \<Longrightarrow> safe b (scanAtts enc p)"
  by (auto simp: scanAtts_def intro!: safe_rules safe_scan_atts intro: strict_suffix_le)

lemma safe_start_tag_space: "fits p \<Longrightarrow> strict_suffix p b \<Longrightarrow> safe b (start_tag_space enc p)"
proof (induction "length p" arbitrary: p rule: less_induct)
  case less
  then show ?case
    by (subst start_tag_space.simps) (auto intro!: safe_rules safe_scanAtts safe_slash_close intro: less strict_suffix_le)
qed

lemma safe_start_tag_name: "fits p \<Longrightarrow> strict_suffix p b \<Longrightarrow> safe b (start_tag_name hadColon enc p)"
proof (induction "length p" arbitrary: hadColon p rule: less_induct)
  case less
  then show ?case
    by (subst start_tag_name.simps) (auto intro!: safe_rules safe_start_tag_space safe_slash_close intro: less strict_suffix_le)
qed

lemma safe_scanLt: "fits p \<Longrightarrow> strict_suffix p b \<Longrightarrow> safe b (scanLt enc p)"
  by (auto simp: scanLt_def intro!: safe_rules safe_start_tag_name safe_scanComment safe_scanCdataSection safe_scanPi safe_scanEndTag intro: strict_suffix_le)

lemma safe_content_loop: "fits p \<Longrightarrow> strict_suffix p b \<Longrightarrow> safe b (content_loop enc p)"
proof (induction "length p" arbitrary: p rule: less_induct)
  case less
  then show ?case
    by (subst content_loop.simps) (auto intro!: safe_rules intro: less strict_suffix_le)
qed

lemma safe_content_first: "fits p \<Longrightarrow> p \<noteq> [] \<Longrightarrow> safe p (content_first enc p)"
  by (auto simp: content_first_def intro!: safe_rules safe_content_loop safe_newline_tok safe_scanLt safe_scanRef intro: strict_suffix_le)

lemma safe_pound_name: "fits p \<Longrightarrow> strict_suffix p b \<Longrightarrow> safe b (pound_name enc p)"
proof (induction "length p" arbitrary: p rule: less_induct)
  case less
  then show ?case
    by (subst pound_name.simps) (auto intro!: safe_rules intro: less strict_suffix_le)
qed

lemma safe_scanPoundName: "fits p \<Longrightarrow> strict_suffix p b \<Longrightarrow> safe b (scanPoundName enc p)"
  by (auto simp: scanPoundName_def intro!: safe_rules safe_pound_name intro: strict_suffix_le)

lemma safe_scanPercent: "fits p \<Longrightarrow> strict_suffix p b \<Longrightarrow> safe b (scanPercent enc p)"
  by (auto simp: scanPercent_def intro!: safe_rules safe_ref_name intro: strict_suffix_le)

lemma safe_scanLit: "fits p \<Longrightarrow> strict_suffix p b \<Longrightarrow> safe b (scanLit open_quote enc p)"
proof (induction "length p" arbitrary: p rule: less_induct)
  case less
  then show ?case
    by (subst scanLit.simps) (auto intro!: safe_rules intro: less strict_suffix_le)
qed

lemma safe_prolog_space: "fits p \<Longrightarrow> p \<noteq> [] \<Longrightarrow> suffix p b \<Longrightarrow> safe b (prolog_space enc p)"
proof (induction "length p" arbitrary: p rule: less_induct)
  case less
  then show ?case
    by (subst prolog_space.simps) (auto intro!: safe_rules intro: less strict_suffix_le)
qed

lemma safe_name_suffix: "fits p \<Longrightarrow> p \<noteq> [] \<Longrightarrow> suffix p b \<Longrightarrow> safe b (name_suffix tok with_suffix enc p)"
  by (auto simp: name_suffix_def intro!: safe_rules  intro: strict_suffix_le)

lemma safe_prolog_name: "fits p \<Longrightarrow> strict_suffix p b \<Longrightarrow> safe b (prolog_name tok enc p)"
proof (induction "length p" arbitrary: tok p rule: less_induct)
  case less
  then show ?case
    by (subst prolog_name.simps) (auto intro!: safe_rules safe_name_suffix intro: less strict_suffix_le)
qed

lemma safe_prolog_name_start:
  assumes "fits p" "suffix p b" "MINBPC enc dvd n" "0 < n"
  shows "safe b (prolog_name_start n enc p)"
proof (cases "length p < n")
  case False
  then have "safe b (prolog_name t enc (drop n p))" for t
    using assms by (intro safe_prolog_name) (auto simp: fits_move strict_suffix_drop)
  with False assms show ?thesis
    by (auto simp: prolog_name_start_def read_at_def move_def intro!: safe_basic)
qed (simp add: prolog_name_start_def safe_basic)

lemma safe_lead:
  assumes "fits p" "suffix p b"
  shows "te_type enc p = BT_LEAD2 \<Longrightarrow> safe b (prolog_name_start 2 enc p)"
    "te_type enc p = BT_LEAD3 \<Longrightarrow> safe b (prolog_name_start 3 enc p)"
    "te_type enc p = BT_LEAD4 \<Longrightarrow> safe b (prolog_name_start 4 enc p)"
  using assms units [of p] by (auto intro!: safe_prolog_name_start simp: MINBPC_def)

lemma safe_close_paren: "fits p \<Longrightarrow> p \<noteq> [] \<Longrightarrow> suffix p b \<Longrightarrow> safe b (close_paren enc p)"
  by (auto simp: close_paren_def intro!: safe_rules  intro: strict_suffix_le)

lemma safe_close_bracket: "fits p \<Longrightarrow> p \<noteq> [] \<Longrightarrow> suffix p b \<Longrightarrow> safe b (close_bracket enc p)"
  by (auto simp: close_bracket_def intro!: safe_rules  intro: strict_suffix_le)

lemma safe_prolog_lt: "fits p \<Longrightarrow> p \<noteq> [] \<Longrightarrow> suffix p b \<Longrightarrow> safe b (prolog_lt enc p)"
  by (auto simp: prolog_lt_def intro!: safe_rules safe_scanDecl safe_scanPi intro: strict_suffix_le)

lemma safe_one_character: "fits p \<Longrightarrow> p \<noteq> [] \<Longrightarrow> suffix p b \<Longrightarrow> safe b (one_character tok enc p)"
  by (auto simp: one_character_def intro!: safe_rules  intro: strict_suffix_le)

lemma safe_prolog_first: "fits p \<Longrightarrow> p \<noteq> [] \<Longrightarrow> safe p (prolog_first enc p)"
  by (auto simp: prolog_first_def intro!: safe_rules safe_scanLit safe_prolog_lt safe_prolog_space safe_scanPercent safe_one_character safe_close_bracket safe_close_paren safe_scanPoundName safe_prolog_name safe_lead intro: strict_suffix_le)

lemma safe_ignore_loop: "fits p \<Longrightarrow> suffix p b \<Longrightarrow> safe b (ignore_loop depth enc p)"
proof (induction "length p" arbitrary: depth p rule: less_induct)
  case less
  then show ?case
    by (subst ignore_loop.simps) (auto intro!: safe_rules intro: less strict_suffix_le)
qed

section \<open>The scanners that are called from outside\<close>

lemma whole_characters_inside:
  assumes "\<And>p. fits p \<Longrightarrow> p \<noteq> [] \<Longrightarrow> safe p (scan enc p)"
  shows "whole_characters scan enc p \<noteq> None"
    and "whole_characters scan enc p = Some (Scanned t q) \<Longrightarrow>
      suffix q p \<and> (t \<notin> {XML_TOK_INVALID, XML_TOK_INSTANCE_START} \<longrightarrow> length q < length p)"
proof -
  define n where "n = length p - length p mod MINBPC enc"
  define w where "w = take n p"
  have n: "n \<le> length p" "MINBPC enc dvd n" by (simp_all add: n_def dvd_minus_mod)
  have p: "p = w @ drop n p" and "length w = n" using n by (simp_all add: w_def)
  then have s: "safe w (scan enc w)" if "n \<noteq> 0"
    using assms [of w] that n by (auto simp: fits_def)
  have eq: "whole_characters scan enc p = (if n = 0 then partial else map_option (append_rest (drop n p)) (scan enc w))"
    by (simp add: whole_characters_def Let_def n_def w_def)
  show "whole_characters scan enc p \<noteq> None" using s by (auto simp: eq safe_def)
  assume "whole_characters scan enc p = Some (Scanned t q)"
  then obtain r where r: "n \<noteq> 0" "scan enc w = Some (Scanned t r)" "q = r @ drop n p"
    by (cases "n = 0"; cases "scan enc w" rule: option.exhaust)
      (auto simp: eq append_rest_def split: scan_result.splits)
  with s have "suffix r w" "t \<notin> {XML_TOK_INVALID, XML_TOK_INSTANCE_START} \<Longrightarrow> strict_suffix r w"
    by (auto simp: safe_def)
  then show "suffix q p \<and> (t \<notin> {XML_TOK_INVALID, XML_TOK_INSTANCE_START} \<longrightarrow> length q < length p)"
    using p r(3) by (metis same_suffix_suffix suffix_length_less length_append add_less_cancel_right)
qed

definition stays :: "cstring \<Rightarrow> scan_result option \<Rightarrow> bool" where
  "stays p r \<longleftrightarrow> r \<noteq> None \<and> (\<forall>t q. r = Some (Scanned t q) \<longrightarrow>
     suffix q p \<and> (t \<notin> {XML_TOK_INVALID, XML_TOK_INSTANCE_START} \<longrightarrow> length q < length p))"

lemma whole_characters_stays:
  "(\<And>p. fits p \<Longrightarrow> p \<noteq> [] \<Longrightarrow> safe p (scan enc p)) \<Longrightarrow> stays p (whole_characters scan enc p)"
  using whole_characters_inside [of scan p] by (auto simp: stays_def)

lemma scanners_stay:
  "stays p (prologTok enc p)" "stays p (contentTok enc p)" "stays p (cdataSectionTok enc p)"
  "stays p (ignoreSectionTok enc p)"
proof -
  have "stays p (Some (Unset t))" for t by (simp add: stays_def)
  then show "stays p (prologTok enc p)" "stays p (contentTok enc p)" "stays p (cdataSectionTok enc p)"
    unfolding prologTok_def contentTok_def cdataSectionTok_def
    by (auto intro!: whole_characters_stays safe_prolog_first safe_content_first safe_cdata_first)
  show "stays p (ignoreSectionTok enc p)"
    unfolding ignoreSectionTok_def by (auto intro!: whole_characters_stays safe_ignore_loop)
qed

end

section \<open>The encodings of the program\<close>

lemma table_entry: "length types = 256 \<Longrightarrow> SB_BYTE_TYPE types c \<in> set types"
  using mod_less_divisor [of 256 "of_char c :: nat"] by (simp add: SB_BYTE_TYPE_def)

lemma latin1_units:
  "SB_BYTE_TYPE (type_table ns latin1tab) c \<notin> {BT_LEAD2, BT_LEAD3}"
  "SB_BYTE_TYPE (internal_type_table ns latin1tab) c \<notin> {BT_LEAD2, BT_LEAD3}"
proof -
  have "length (type_table ns latin1tab) = 256" "length (internal_type_table ns latin1tab) = 256"
    by (simp_all add: type_table_def internal_type_table_def iasciitab_def asciitab_def latin1tab_def)
  moreover have "set (type_table ns latin1tab) \<inter> {BT_LEAD2, BT_LEAD3} = {}"
    "set (internal_type_table ns latin1tab) \<inter> {BT_LEAD2, BT_LEAD3} = {}"
    by (simp_all add: type_table_def internal_type_table_def iasciitab_def asciitab_def latin1tab_def)
  ultimately show "SB_BYTE_TYPE (type_table ns latin1tab) c \<notin> {BT_LEAD2, BT_LEAD3}"
    "SB_BYTE_TYPE (internal_type_table ns latin1tab) c \<notin> {BT_LEAD2, BT_LEAD3}"
    using table_entry by (blast, blast)
qed

lemma utf16_units: "te_type (utf16_encoding high ns) p \<noteq> BT_LEAD2 \<and> te_type (utf16_encoding high ns) p \<noteq> BT_LEAD3"
  using latin1_units(1) by (auto simp: utf16_encoding_def unicode_byte_type_def)

interpretation tok: whole_units "encodings_table ns i" for ns i
proof
  fix p
  assume "te_wide (encodings_table ns i)"
  then show "te_type (encodings_table ns i) p \<noteq> BT_LEAD2 \<and> te_type (encodings_table ns i) p \<noteq> BT_LEAD3"
    using utf16_units
    by (cases i) (simp_all add: latin1_encoding_def us_ascii_encoding_def one_byte_encoding_def utf8_encoding_def
        big2_tok_encoding_def little2_tok_encoding_def)
qed

interpretation unknown: whole_units "unknown_tok_encoding e convert" for e convert
  by unfold_locales (simp add: unknown_tok_encoding_def)

interpretation internal8: whole_units "internal_utf8_encoding ns" for ns
  by unfold_locales (simp add: internal_utf8_encoding_def utf8_encoding_def)

interpretation internal_little: whole_units "internal_little2_encoding ns" for ns
  by unfold_locales (use latin1_units(2) in \<open>auto simp: internal_little2_encoding_def unicode_byte_type_def\<close>)

interpretation internal_big: whole_units "internal_big2_encoding ns" for ns
  by unfold_locales (use latin1_units(2) in \<open>auto simp: internal_big2_encoding_def unicode_byte_type_def\<close>)

text \<open>The encodings of documents, those of text converted before, and those that the application describes.\<close>

definition expat_encodings :: "tok_encoding set" where
  "expat_encodings =
     {encodings_table ns i | ns i. True} \<union> {unknown_tok_encoding e convert | e convert. True}
     \<union> {internal_utf8_encoding ns | ns. True} \<union> {internal_little2_encoding ns | ns. True}
     \<union> {internal_big2_encoding ns | ns. True}"

text \<open>C26: On every text, in every encoding that expat uses, those of the application included, the scanners of the
  prolog, of content, of CDATA sections and of ignored sections return; they read nothing behind the
  end, the next token starts in the text, and only an error and the start of the document element
  may leave the pointer where it was.
\<close>

theorem scanners_stay_inside:
  assumes "scan \<in> {prologTok, contentTok, cdataSectionTok, ignoreSectionTok}"
    and "enc \<in> expat_encodings"
  shows "\<exists>r. scan enc p = Some r \<and>
    (case r of
       Scanned t q \<Rightarrow> suffix q p \<and> (t \<notin> {XML_TOK_INVALID, XML_TOK_INSTANCE_START} \<longrightarrow> length q < length p)
     | _ \<Rightarrow> True)"
proof -
  have "tok.stays p (scan enc p)"
    using assms tok.scanners_stay unknown.scanners_stay internal8.scanners_stay internal_little.scanners_stay
      internal_big.scanners_stay
    by (auto simp: expat_encodings_def)
  then show ?thesis by (cases "scan enc p") (auto simp: tok.stays_def split: scan_result.split)
qed

lemma scanners_stay_inside_witness:
  "\<exists>r. prologTok (encodings_table True UTF_16BE_ENC) (CHR 0x00 # CHR ''<'' # CHR 0x00 # CHR ''!'' # CHR 0x00 # ''['') = Some r \<and>
    (case r of
       Scanned t q \<Rightarrow> suffix q (CHR 0x00 # CHR ''<'' # CHR 0x00 # CHR ''!'' # CHR 0x00 # ''['') \<and>
         (t \<notin> {XML_TOK_INVALID, XML_TOK_INSTANCE_START} \<longrightarrow> length q < length (CHR 0x00 # CHR ''<'' # CHR 0x00 # CHR ''!'' # CHR 0x00 # ''[''))
     | _ \<Rightarrow> True)"
  using scanners_stay_inside [of prologTok "encodings_table True UTF_16BE_ENC"
    "CHR 0x00 # CHR ''<'' # CHR 0x00 # CHR ''!'' # CHR 0x00 # ''[''"]
  unfolding expat_encodings_def by blast

end
