(* ===== verification/Xml_Text.thy ===== *)
theory Xml_Text
  imports Xml_Value
begin

text \<open>
  What the conversions and the positions of the bundled expat do: text in UTF-8 becomes the same text
  in UTF-16, a character that needs two units and finds room for one stops the conversion for ever,
  and columns after a line end are counted from \<open>2 ^ 32\<close>.
\<close>

section \<open>Bits\<close>

lemma or_shift: "0 \<le> y \<Longrightarrow> y < 2 ^ n \<Longrightarrow> push_bit n x OR y = x * 2 ^ n + (y :: int)"
proof -
  assume y: "0 \<le> y" "y < 2 ^ n"
  have "concat_bit n y x = take_bit n y + push_bit n x" by (rule concat_bit_eq)
  with y show ?thesis by (simp add: concat_bit_def take_bit_int_eq_self push_bit_eq_mult or.commute)
qed

lemma or_digits3:
  fixes x :: int
  assumes "0 \<le> y" "y < 64" "0 \<le> z" "z < 64"
  shows "push_bit 12 x OR push_bit 6 y OR z = (x * 64 + y) * 64 + z"
proof -
  have "push_bit 12 x OR push_bit 6 y OR z = push_bit 6 (push_bit 6 x OR y) OR z"
    by (simp add: push_bit_or or.assoc)
  also have "\<dots> = (x * 64 + y) * 64 + z"
    using or_shift [of y 6 x] or_shift [of z 6 "x * 64 + y"] assms by simp
  finally show ?thesis .
qed

lemma or_digits4:
  fixes x :: int
  assumes "0 \<le> x" "x < 64" "0 \<le> y" "y < 64" "0 \<le> z" "z < 64"
  shows "push_bit 18 w OR push_bit 12 x OR push_bit 6 y OR z = ((w * 64 + x) * 64 + y) * 64 + z"
proof -
  have "push_bit 18 w OR push_bit 12 x OR push_bit 6 y OR z = push_bit 6 (push_bit 12 w OR push_bit 6 x OR y) OR z"
    by (simp add: push_bit_or or.assoc)
  also have "\<dots> = ((w * 64 + x) * 64 + y) * 64 + z"
    using or_digits3 [of x y w] or_shift [of z 6 "(w * 64 + x) * 64 + y"] assms by simp
  finally show ?thesis .
qed

lemma and_masks:
  "x AND 0x3F = x mod (64 :: int)" "x AND 0x1F = x mod (32 :: int)" "x AND 0xF = x mod (16 :: int)"
  "x AND 0x7 = x mod (8 :: int)" "x AND 0x3FF = x mod (1024 :: int)"
  using take_bit_eq_mask [of 6 x] take_bit_eq_mask [of 5 x] take_bit_eq_mask [of 4 x] take_bit_eq_mask [of 3 x]
    take_bit_eq_mask [of 10 x]
  by (simp_all add: take_bit_eq_mod mask_eq_exp_minus_1)

lemma or_consts:
  fixes x :: int
  shows "0 \<le> x \<Longrightarrow> x < 64 \<Longrightarrow> x OR 0x80 = x + 0x80" "0 \<le> x \<Longrightarrow> x < 32 \<Longrightarrow> x OR 0xC0 = x + 0xC0"
    "0 \<le> x \<Longrightarrow> x < 16 \<Longrightarrow> x OR 0xE0 = x + 0xE0" "0 \<le> x \<Longrightarrow> x < 8 \<Longrightarrow> x OR 0xF0 = x + 0xF0"
    "0 \<le> x \<Longrightarrow> x < 1024 \<Longrightarrow> x OR 0xD800 = x + 0xD800" "0 \<le> x \<Longrightarrow> x < 1024 \<Longrightarrow> x OR 0xDC00 = x + 0xDC00"
  using or_shift [of x 6 2] or_shift [of x 5 6] or_shift [of x 4 14] or_shift [of x 3 30] or_shift [of x 10 54]
    or_shift [of x 10 55]
  by (simp_all add: push_bit_eq_mult or.commute)

lemma mod_shift: "0 \<le> x \<Longrightarrow> x < m \<Longrightarrow> (x + m * k) mod m = (x :: int)"
  by simp

lemma payload:
  fixes x :: int
  shows "0 \<le> x \<Longrightarrow> x < 64 \<Longrightarrow> (x + 0x80) AND 0x3F = x" "0 \<le> x \<Longrightarrow> x < 32 \<Longrightarrow> (x + 0xC0) AND 0x1F = x"
    "0 \<le> x \<Longrightarrow> x < 16 \<Longrightarrow> (x + 0xE0) AND 0xF = x" "0 \<le> x \<Longrightarrow> x < 8 \<Longrightarrow> (x + 0xF0) AND 0x7 = x"
  using mod_shift [of x 64 2] mod_shift [of x 32 6] mod_shift [of x 16 14] mod_shift [of x 8 30]
  by (simp_all add: and_masks)

lemma digits:
  fixes c :: int
  shows "c = c div 64 * 64 + c mod 64" "c div 64 = c div 4096 * 64 + c div 64 mod 64"
    "c div 4096 = c div 262144 * 64 + c div 4096 mod 64"
  using zdiv_zmult2_eq [of 64 c 64] zdiv_zmult2_eq [of 64 c 4096]
    div_mult_mod_eq [of "c div 64" 64] div_mult_mod_eq [of "c div 4096" 64]
  by simp_all

lemma byte_val_to_byte: "0 \<le> n \<Longrightarrow> n < 256 \<Longrightarrow> byte_val (to_byte n) = n"
  by (simp add: byte_val_def to_byte_def nat_mod_distrib)


section \<open>The types of first bytes\<close>

lemma utf8tab_runs:
  "utf8tab = replicate 64 BT_TRAIL @ replicate 32 BT_LEAD2 @ replicate 16 BT_LEAD3 @ replicate 5 BT_LEAD4
     @ replicate 9 BT_NONXML @ replicate 2 BT_MALFORM"
  by (simp add: utf8tab_def numeral_eq_Suc)

abbreviation utf8_type :: "int \<Rightarrow> byte_type" where
  "utf8_type n \<equiv> SB_BYTE_TYPE (type_table True utf8tab) (to_byte n)"

lemma type_nth: "0 \<le> n \<Longrightarrow> n < 256 \<Longrightarrow> SB_BYTE_TYPE types (to_byte n) = types ! nat n"
  by (simp add: SB_BYTE_TYPE_def to_byte_def nat_mod_distrib)

lemma asciitab_length: "length asciitab = 128"
  by (simp add: asciitab_def)

lemma utf8_type_ascii: "0 \<le> n \<Longrightarrow> n < 128 \<Longrightarrow> utf8_type n \<notin> {BT_LEAD2, BT_LEAD3, BT_LEAD4}"
proof -
  assume n: "0 \<le> n" "n < 128"
  then have "utf8_type n = asciitab ! nat n"
    by (auto simp: type_nth type_table_def nth_append asciitab_length)
  moreover have "asciitab ! nat n \<in> set asciitab" using n by (simp add: asciitab_length)
  moreover have "set asciitab \<inter> {BT_LEAD2, BT_LEAD3, BT_LEAD4} = {}" by (simp add: asciitab_def)
  ultimately show ?thesis by auto
qed

lemma utf8_type_lead:
  "192 \<le> n \<Longrightarrow> n < 224 \<Longrightarrow> utf8_type n = BT_LEAD2"
  "224 \<le> n \<Longrightarrow> n < 240 \<Longrightarrow> utf8_type n = BT_LEAD3"
  "240 \<le> n \<Longrightarrow> n < 245 \<Longrightarrow> utf8_type n = BT_LEAD4"
  by (auto simp: type_nth type_table_def nth_append asciitab_length utf8tab_runs nat_less_iff)


section \<open>UTF-8 to UTF-16\<close>

lemma encode_lengths: "length (XmlUtf16Encode c) \<le> 2" "0 \<le> c \<Longrightarrow> c < 0x110000 \<Longrightarrow> XmlUtf16Encode c \<noteq> []"
  by (auto simp: XmlUtf16Encode_def)

lemma wrote_simps [simp]:
  "wrote us None = None" "wrote us (Some (rest, vs)) = Some (rest, us @ vs)"
  "wrote us (wrote vs r) = wrote (us @ vs) r" "wrote [] r = r"
  by (cases r; auto simp: wrote_def)+

lemma utf8_toUtf16_one:
  assumes "0 \<le> c" "c < 0x80" "0 < room"
  shows "utf8_toUtf16 (XmlUtf8Encode c @ rest) room
    = utf8_toUtf16 rest (room - 1) \<bind> (\<lambda>r. Some (wrote (XmlUtf16Encode c) r))"
proof -
  have v: "byte_val (to_byte c) = c" using assms by (simp add: byte_val_to_byte)
  have t: "utf8_type c \<notin> {BT_LEAD2, BT_LEAD3, BT_LEAD4}" using assms by (intro utf8_type_ascii) auto
  have "signed_take_bit 7 c = c" using assms by (simp add: signed_take_bit_int_eq_self)
  then show ?thesis
    using assms v t by (subst utf8_toUtf16.simps) (simp add: XmlUtf8Encode_def XmlUtf16Encode_def)
qed

lemma utf8_toUtf16_two:
  assumes "0x80 \<le> c" "c < 0x800" "0 < room"
  shows "utf8_toUtf16 (XmlUtf8Encode c @ rest) room
    = utf8_toUtf16 rest (room - 1) \<bind> (\<lambda>r. Some (wrote (XmlUtf16Encode c) r))"
proof -
  define x y where "x = c div 64" and "y = c mod 64"
  have xy: "0 \<le> x" "x < 32" "0 \<le> y" "y < 64" "c = x * 64 + y"
    using assms by (auto simp: x_def y_def)
  have e: "XmlUtf8Encode c = [to_byte (x + 0xC0), to_byte (y + 0x80)]"
    using assms xy by (simp add: XmlUtf8Encode_def and_masks drop_bit_eq_div or_consts flip: x_def y_def)
  have v: "byte_val (to_byte (x + 0xC0)) = x + 0xC0" "byte_val (to_byte (y + 0x80)) = y + 0x80"
    using xy by (simp_all add: byte_val_to_byte)
  have t: "utf8_type (x + 0xC0) = BT_LEAD2" using xy by (simp add: utf8_type_lead)
  have "push_bit 6 ((x + 0xC0) AND 0x1F) OR ((y + 0x80) AND 0x3F) = c"
    using xy by (simp add: payload or_shift)
  then show ?thesis
    using assms t v by (subst utf8_toUtf16.simps) (simp add: e XmlUtf16Encode_def)
qed

lemma utf8_toUtf16_three:
  assumes "0x800 \<le> c" "c < 0x10000" "0 < room"
  shows "utf8_toUtf16 (XmlUtf8Encode c @ rest) room
    = utf8_toUtf16 rest (room - 1) \<bind> (\<lambda>r. Some (wrote (XmlUtf16Encode c) r))"
proof -
  define x y z where "x = c div 4096" and "y = c div 64 mod 64" and "z = c mod 64"
  have xy: "0 \<le> x" "x < 16" "0 \<le> y" "y < 64" "0 \<le> z" "z < 64" "c = (x * 64 + y) * 64 + z"
    using assms digits [of c] by (auto simp: x_def y_def z_def)
  have e: "XmlUtf8Encode c = [to_byte (x + 0xE0), to_byte (y + 0x80), to_byte (z + 0x80)]"
    using assms xy(1-6) by (simp add: XmlUtf8Encode_def and_masks drop_bit_eq_div or_consts flip: x_def y_def z_def)
  have v: "byte_val (to_byte (x + 0xE0)) = x + 0xE0" "byte_val (to_byte (y + 0x80)) = y + 0x80"
    "byte_val (to_byte (z + 0x80)) = z + 0x80"
    using xy by (simp_all add: byte_val_to_byte)
  have t: "utf8_type (x + 0xE0) = BT_LEAD3" using xy by (simp add: utf8_type_lead)
  have "push_bit 12 ((x + 0xE0) AND 0xF) OR push_bit 6 ((y + 0x80) AND 0x3F) OR ((z + 0x80) AND 0x3F) = c"
    using xy by (simp add: payload or_digits3)
  then show ?thesis
    using assms t v by (subst utf8_toUtf16.simps) (simp add: e XmlUtf16Encode_def)
qed

lemma utf8_toUtf16_four:
  assumes "0x10000 \<le> c" "c < 0x110000" "2 \<le> room"
  shows "utf8_toUtf16 (XmlUtf8Encode c @ rest) room
    = utf8_toUtf16 rest (room - 2) \<bind> (\<lambda>r. Some (wrote (XmlUtf16Encode c) r))"
proof -
  define w x y z where "w = c div 262144" and "x = c div 4096 mod 64" and "y = c div 64 mod 64" and "z = c mod 64"
  have xy: "0 \<le> w" "w < 5" "0 \<le> x" "x < 64" "0 \<le> y" "y < 64" "0 \<le> z" "z < 64" "c = ((w * 64 + x) * 64 + y) * 64 + z"
    using assms digits [of c] by (auto simp: w_def x_def y_def z_def)
  have e: "XmlUtf8Encode c = [to_byte (w + 0xF0), to_byte (x + 0x80), to_byte (y + 0x80), to_byte (z + 0x80)]"
    using assms xy(1-8) by (simp add: XmlUtf8Encode_def and_masks drop_bit_eq_div or_consts flip: w_def x_def y_def z_def)
  have v: "byte_val (to_byte (w + 0xF0)) = w + 0xF0" "byte_val (to_byte (x + 0x80)) = x + 0x80"
    "byte_val (to_byte (y + 0x80)) = y + 0x80" "byte_val (to_byte (z + 0x80)) = z + 0x80"
    using xy by (simp_all add: byte_val_to_byte)
  have t: "utf8_type (w + 0xF0) = BT_LEAD4" using xy by (simp add: utf8_type_lead)
  have c: "push_bit 18 ((w + 0xF0) AND 0x7) OR push_bit 12 ((x + 0x80) AND 0x3F) OR push_bit 6 ((y + 0x80) AND 0x3F)
      OR ((z + 0x80) AND 0x3F) = c"
    using xy by (simp add: payload or_digits4)
  define n where "n = c - 0x10000"
  have n: "0 \<le> n" "n < 1024 * 1024" using assms by (simp_all add: n_def)
  then have "0 \<le> n div 1024" "n div 1024 < 1024" by auto
  then have u: "word_of_int (drop_bit 10 (n mod 2 ^ 64) OR 0xD800) = (word_of_int (drop_bit 10 n + 0xD800) :: 16 word)"
    "word_of_int ((n mod 2 ^ 64 AND 0x3FF) OR 0xDC00) = (word_of_int ((n AND 0x3FF) + 0xDC00) :: 16 word)"
    using n by (simp_all add: drop_bit_eq_div and_masks or_consts)
  show ?thesis
    using assms t v c u by (subst utf8_toUtf16.simps) (simp add: e XmlUtf16Encode_def Let_def flip: n_def)
qed

lemma utf8_toUtf16_step:
  assumes "0 \<le> c" "c < 0x110000" "length (XmlUtf16Encode c) \<le> room"
  shows "utf8_toUtf16 (XmlUtf8Encode c @ rest) room
    = utf8_toUtf16 rest (room - length (XmlUtf16Encode c)) \<bind> (\<lambda>r. Some (wrote (XmlUtf16Encode c) r))"
proof -
  have l: "length (XmlUtf16Encode c) = (if c < 0x10000 then 1 else 2)" using assms by (simp add: XmlUtf16Encode_def)
  consider "c < 0x80" | "0x80 \<le> c" "c < 0x800" | "0x800 \<le> c" "c < 0x10000" | "0x10000 \<le> c" by linarith
  then show ?thesis
    using assms utf8_toUtf16_one [of c room rest] utf8_toUtf16_two [of c room rest]
      utf8_toUtf16_three [of c room rest] utf8_toUtf16_four [of c room rest]
    by cases (simp_all add: l)
qed

definition utf8_text :: "int list \<Rightarrow> cstring" where
  "utf8_text cs = concat (map XmlUtf8Encode cs)"

definition utf16_text :: "int list \<Rightarrow> 16 word list" where
  "utf16_text cs = concat (map XmlUtf16Encode cs)"

lemma utf8_toUtf16_texts:
  assumes "\<forall>c\<in>set cs. 0 \<le> c \<and> c < 0x110000" "length (utf16_text cs) \<le> room"
  shows "utf8_toUtf16 (utf8_text cs @ rest) room
    = utf8_toUtf16 rest (room - length (utf16_text cs)) \<bind> (\<lambda>r. Some (wrote (utf16_text cs) r))"
  using assms
proof (induction cs arbitrary: room)
  case (Cons c cs)
  then have "length (XmlUtf16Encode c) \<le> room" "length (utf16_text cs) \<le> room - length (XmlUtf16Encode c)"
    by (auto simp: utf16_text_def)
  with Cons utf8_toUtf16_step [of c room "utf8_text cs @ rest"] show ?case
    by (cases "utf8_toUtf16 rest (room - length (utf16_text (c # cs)))") (simp_all add: utf8_text_def utf16_text_def)
qed (simp add: utf8_text_def utf16_text_def)

text \<open>C28: A text of any characters, as UTF-8, is converted to the same text in UTF-16 whenever there is room for it.\<close>

theorem utf8_becomes_utf16:
  assumes "\<forall>c\<in>set cs. 0 \<le> c \<and> c < 0x110000" "length (utf16_text cs) \<le> room"
  shows "utf8_toUtf16 (utf8_text cs) room = Some (Some ([], utf16_text cs))"
  using utf8_toUtf16_texts [OF assms, of "[]"] by (simp add: utf8_toUtf16.simps [of "[]"])

lemma utf8_becomes_utf16_witness:
  "utf8_toUtf16 (utf8_text [0x41, 0x20AC, 0x1F600]) 4 = Some (Some ([], [0x41, 0x20AC, 0xD83D, 0xDE00]))"
  using utf8_becomes_utf16 [of "[0x41, 0x20AC, 0x1F600]" 4]
  by (simp add: utf16_text_def XmlUtf16Encode_def drop_bit_eq_div and_masks)

lemma lead4_stuck: "utf8_toUtf16 src room = Some r \<Longrightarrow> src \<noteq> [] \<Longrightarrow>
  SB_BYTE_TYPE (type_table True utf8tab) (src ! 0) = BT_LEAD4 \<Longrightarrow> room \<noteq> 1"
proof (induction src room r rule: utf8_toUtf16.raw_induct [rotated, consumes 1, case_names step])
  case (step f src room r)
  then show ?case by (auto simp: Let_def split: if_splits)
qed

text \<open>
  With room for only one of the two units of a character above \<open>U+FFFF\<close>, the conversion never
  returns: the \<open>break\<close> in its switch does not leave the loop.
\<close>

theorem utf8_conversion_hangs:
  assumes "\<forall>c\<in>set cs. 0 \<le> c \<and> c < 0x110000" "0x10000 \<le> c" "c < 0x110000"
  shows "utf8_toUtf16 (utf8_text (cs @ [c]) @ rest) (length (utf16_text cs) + 1) = None"
proof -
  have "XmlUtf8Encode c \<noteq> []" "SB_BYTE_TYPE (type_table True utf8tab) (XmlUtf8Encode c ! 0) = BT_LEAD4"
    using assms utf8_type_lead(3) [of "c div 262144 + 240"]
    by (auto simp: XmlUtf8Encode_def drop_bit_eq_div or_consts)
  then have "utf8_toUtf16 (XmlUtf8Encode c @ rest) 1 = None"
    using lead4_stuck [of "XmlUtf8Encode c @ rest" 1] by (cases "XmlUtf8Encode c") fastforce+
  with utf8_toUtf16_texts [OF assms(1), of "length (utf16_text cs) + 1" "XmlUtf8Encode c @ rest"] show ?thesis
    by (simp add: utf8_text_def)
qed

lemma utf8_conversion_hangs_witness: "utf8_toUtf16 (utf8_text [0x41, 0x1F600]) 2 = None"
  using utf8_conversion_hangs [of "[0x41]" "0x1F600" "[]"] by (simp add: utf16_text_def XmlUtf16Encode_def numeral_2_eq_2)

section \<open>Positions and names\<close>

lemma latin1_types: "te_type (latin1_encoding ns) p \<notin> {BT_LEAD2, BT_LEAD3, BT_LEAD4}"
proof -
  have "of_char (p ! 0) < length (type_table ns latin1tab)"
  proof -
    have "length (type_table ns latin1tab) = 256" by (simp add: type_table_def asciitab_def latin1tab_def)
    with mod_less_divisor [of 256 "of_char (p ! 0) :: nat"] show ?thesis by simp
  qed
  moreover have "set (type_table ns latin1tab) \<inter> {BT_LEAD2, BT_LEAD3, BT_LEAD4} = {}"
    by (simp add: type_table_def asciitab_def latin1tab_def)
  ultimately show ?thesis
    by (simp add: latin1_encoding_def one_byte_encoding_def SB_BYTE_TYPE_def) (metis disjoint_iff insertCI nth_mem)
qed

lemma latin1_basics:
  "BYTE_TYPE (latin1_encoding ns) (c # cs) = Some (te_type (latin1_encoding ns) [c])"
  "advance (latin1_encoding ns) (c # cs) = Some cs" "lead (te_type (latin1_encoding ns) p) = None"
  using latin1_types [of ns p]
  by (auto simp: BYTE_TYPE_def read_at_def advance_def move_def MINBPC_def latin1_encoding_def one_byte_encoding_def lead_def)

lemma plain_columns:
  "\<forall>c\<in>set cs. te_type (latin1_encoding ns) [c] \<notin> {BT_LF, BT_CR} \<Longrightarrow>
   updatePosition (latin1_encoding ns) cs pos
     = Some (pos\<lparr>columnNumber := columnNumber pos + of_nat (length cs)\<rparr>)"
proof (induction cs arbitrary: pos)
  case (Cons c cs)
  then show ?case by (subst updatePosition.simps) (simp add: latin1_basics)
qed (simp add: updatePosition.simps)

text \<open>
  The column after a line feed is \<open>2 ^ 32\<close> and not 0: the number -1 that it is set to has the width
  of \<open>unsigned\<close>, the field that of \<open>unsigned long\<close>.
\<close>

lemma columns_after_line_feed:
  assumes "\<forall>c\<in>set cs. te_type (latin1_encoding ns) [c] \<notin> {BT_LF, BT_CR}"
  shows "updatePosition (latin1_encoding ns) (CHR 0x0A # cs) pos
    = Some \<lparr>lineNumber = lineNumber pos + 1, columnNumber = 2 ^ 32 + of_nat (length cs)\<rparr>"
proof -
  have "te_type (latin1_encoding ns) [CHR 0x0A] = BT_LF"
    by (simp add: latin1_encoding_def one_byte_encoding_def SB_BYTE_TYPE_def type_table_def asciitab_def)
  moreover have "minus_one + 1 = 2 ^ 32" by (simp add: minus_one_def unsigned_minus_1_eq_mask mask_eq_exp_minus_1)
  ultimately show ?thesis
    using plain_columns [OF assms] by (cases pos, subst updatePosition.simps) (simp add: latin1_basics lead_def)
qed

text \<open>The names of the two byte orders are not known, whatever the case of their letters.\<close>

lemma byte_orders_unknown:
  "map upper_case n \<in> {''UTF-16BE'', ''UTF-16LE''} \<Longrightarrow> getEncodingIndex (Some n) = UNKNOWN_ENC"
  by (auto simp: getEncodingIndex_def encodingNames_def streqci_def upper_case_def byte_val_def)

text \<open>A character that does not fit is copied in part: its first byte is not left.\<close>

lemma partial_character_copied:
  "utf8_toUtf8 [CHR 0xE2, CHR 0x82, CHR 0xAC] 1 = ([CHR 0x82, CHR 0xAC], [CHR 0xE2])"
  by (simp add: utf8_toUtf8_def byte_val_def)

text \<open>The first half of a pair is copied without the second when the room ends between them.\<close>

lemma half_pair_copied:
  "utf16_toUtf16 0 [CHR 0x00, CHR 0x41, CHR 0xD8, CHR 0x3D, CHR 0xDE, CHR 0x00, CHR 0x00, CHR 0x42] 2
     = Some ([CHR 0xDE, CHR 0x00, CHR 0x00, CHR 0x42], [0x41, 0xD83D])"
  by (simp add: utf16_toUtf16_def byte_val_def wrote_def numeral_2_eq_2)

text \<open>Half a pair of surrogates at the end is read past the end.\<close>

lemma lone_surrogate_overrun: "4 \<le> room \<Longrightarrow> utf16_toUtf8 0 [CHR 0xD8, CHR 0x3D] room = None"
  by (simp add: byte_val_def)

text \<open>The byte order mark of UTF-8 does not set \<open>*nextTokPtr\<close>.\<close>

lemma utf8_mark_stale:
  "initScan ns NO_ENC False (CHR 0xEF # CHR 0xBB # CHR 0xBF # p) stale
     = (Some UTF_8_ENC, Some (Scanned XML_TOK_BOM stale))"
  by (simp add: initScan_def detect_def)

end
