(* ===== verification/Xml_Hashtable.thy ===== *)
theory Xml_Hashtable
  imports Cprelude "HOL-Library.Word" "HOL-Library.Monad_Syntax"
begin

unbundle bit_operations_syntax

text \<open>
  The hash tables of the bundled expat (\<open>lib/expat/xmlparse/hashtable.c\<close>): open addressing, from the
  place of the hash downwards and around, and twice the room when half of it is used.  They implement
  finite maps from names to the objects that were made for them.
\<close>

section \<open>The code\<close>

text \<open>A slot is NULL or holds an object: its name, and its address.\<close>

type_synonym slots = "(cstring \<times> nat) option list"

record hash_table =
  ht_v :: slots
  ht_size :: nat
  ht_used :: nat
  ht_usedLim :: nat

definition hashTableInit :: hash_table where
  "hashTableInit = \<lparr>ht_v = [], ht_size = 0, ht_used = 0, ht_usedLim = 0\<rparr>"

definition INIT_SIZE :: nat where
  "INIT_SIZE = 64"

text \<open>\<open>unsigned long\<close> has 64 bits.\<close>

definition hash :: "cstring \<Rightarrow> 64 word" where
  "hash s = foldl (\<lambda>h c. push_bit 5 h + h + word_of_nat (of_char c)) 0 s"

definition start_slot :: "nat \<Rightarrow> cstring \<Rightarrow> nat" where
  "start_slot n name = unat (hash name AND word_of_nat (n - 1))"

definition prev_slot :: "nat \<Rightarrow> nat \<Rightarrow> nat" where
  "prev_slot n i = (if i = 0 then n - 1 else i - 1)"

text \<open>
  The loop down from a slot to the first one that is NULL or has an object to stop at; None when it
  does not end.
\<close>

partial_function (option) find_slot :: "(cstring \<times> nat \<Rightarrow> bool) \<Rightarrow> slots \<Rightarrow> nat \<Rightarrow> nat option" where
  "find_slot stop v i =
     (case v ! i of
        None \<Rightarrow> Some i
      | Some e \<Rightarrow> if stop e then Some i else find_slot stop v (prev_slot (length v) i))"

text \<open>The objects of the old table, put into the new one.\<close>

fun rehash :: "slots \<Rightarrow> slots \<Rightarrow> slots option" where
  "rehash [] w = Some w"
| "rehash (None # v) w = rehash v w"
| "rehash (Some e # v) w = do {
     j \<leftarrow> find_slot (\<lambda>e. False) w (start_slot (length w) (fst e));
     rehash v (w[j := Some e]) }"

definition place_object :: "hash_table \<Rightarrow> nat \<Rightarrow> cstring \<Rightarrow> nat option \<Rightarrow> hash_table \<times> nat option" where
  "place_object t i name obj =
     (case obj of
        None \<Rightarrow> (t, None)
      | Some a \<Rightarrow> (t\<lparr>ht_v := (ht_v t)[i := Some (name, a)], ht_used := ht_used t + 1\<rparr>, Some a))"

text \<open>
  \<open>room\<close> says whether the memory for a vector is found, \<open>obj\<close> is the address that \<open>calloc\<close> gives for
  an object.  The result is the address that is returned, None for NULL.
\<close>

definition lookup ::
  "hash_table \<Rightarrow> cstring \<Rightarrow> nat \<Rightarrow> bool \<Rightarrow> nat option \<Rightarrow> (hash_table \<times> nat option) option" where
  "lookup t name createSize room obj =
     (if ht_size t = 0 then
        if createSize = 0 \<or> \<not> room then Some (t, None)
        else
          let t = t\<lparr>ht_v := replicate INIT_SIZE None, ht_size := INIT_SIZE, ht_usedLim := INIT_SIZE div 2\<rparr>
          in Some (place_object t (start_slot INIT_SIZE name) name obj)
      else do {
        i \<leftarrow> find_slot (\<lambda>e. name = fst e) (ht_v t) (start_slot (ht_size t) name);
        (case ht_v t ! i of
           Some e \<Rightarrow> Some (t, Some (snd e))
         | None \<Rightarrow>
             if createSize = 0 then Some (t, None)
             else if ht_used t = ht_usedLim t then
               if \<not> room then Some (t, None)
               else do {
                 let n = ht_size t * 2;
                 w \<leftarrow> rehash (ht_v t) (replicate n None);
                 i \<leftarrow> find_slot (\<lambda>e. False) w (start_slot n name);
                 Some (place_object (t\<lparr>ht_v := w, ht_size := n, ht_usedLim := n div 2\<rparr>) i name obj) }
             else Some (place_object t i name obj)) })"

text \<open>An iterator is what is left of the vector.\<close>

definition hashTableIterInit :: "hash_table \<Rightarrow> slots" where
  "hashTableIterInit t = ht_v t"

fun hashTableIterNext :: "slots \<Rightarrow> nat option \<times> slots" where
  "hashTableIterNext [] = (None, [])"
| "hashTableIterNext (None # v) = hashTableIterNext v"
| "hashTableIterNext (Some e # v) = (Some (snd e), v)"

section \<open>The map that a table stands for\<close>

fun live :: "slots \<Rightarrow> (cstring \<times> nat) list" where
  "live [] = []"
| "live (None # v) = live v"
| "live (Some e # v) = e # live v"

definition table_map :: "hash_table \<Rightarrow> cstring \<Rightarrow> nat option" where
  "table_map t = map_of (live (ht_v t))"

text \<open>The slot \<open>k\<close> steps down from \<open>s\<close>.\<close>

definition steps :: "nat \<Rightarrow> nat \<Rightarrow> nat \<Rightarrow> nat" where
  "steps n s k = (s + n - k) mod n"

text \<open>From the place of its hash to an object there is no gap, and no name is there twice.\<close>

definition placed :: "slots \<Rightarrow> bool" where
  "placed v \<longleftrightarrow> distinct (map fst (live v)) \<and>
     (\<forall>i<length v. \<forall>e. v ! i = Some e \<longrightarrow>
        (\<exists>k<length v. i = steps (length v) (start_slot (length v) (fst e)) k \<and>
           (\<forall>j<k. v ! steps (length v) (start_slot (length v) (fst e)) j \<noteq> None)))"

definition table_ok :: "hash_table \<Rightarrow> bool" where
  "table_ok t \<longleftrightarrow> length (ht_v t) = ht_size t \<and> placed (ht_v t) \<and> ht_used t = length (live (ht_v t))
     \<and> ht_usedLim t = ht_size t div 2 \<and> ht_used t \<le> ht_usedLim t"

lemma live_append [simp]: "live (v @ w) = live v @ live w"
  by (induction v rule: live.induct) auto

lemma live_replicate [simp]: "live (replicate n None) = []"
  by (induction n) auto

lemma set_live: "e \<in> set (live v) \<longleftrightarrow> Some e \<in> set v"
  by (induction v rule: live.induct) auto

lemma live_gap: "length (live v) < length v \<Longrightarrow> None \<in> set v"
  by (induction v rule: live.induct) auto

lemma prev_steps:
  assumes "s < n" "k < n"
  shows "prev_slot n (steps n s k) = steps n s (Suc k)"
proof -
  obtain y where y: "s + n - k = Suc y" using assms by (cases "s + n - k") auto
  then have "s + n - Suc k = y" by simp
  with y assms show ?thesis by (auto simp: steps_def prev_slot_def mod_Suc)
qed

lemma steps_0: "s < n \<Longrightarrow> steps n s 0 = s"
  by (simp add: steps_def)

lemma steps_less: "0 < n \<Longrightarrow> steps n s k < n"
  by (simp add: steps_def)

lemma steps_onto: "s < n \<Longrightarrow> i < n \<Longrightarrow> \<exists>k<n. steps n s k = i"
proof (cases "i \<le> s")
  case True
  assume "s < n" "i < n"
  with True show ?thesis by (intro exI [of _ "s - i"]) (simp add: steps_def)
next
  case False
  assume "s < n" "i < n"
  with False show ?thesis by (intro exI [of _ "s + n - i"]) (simp add: steps_def)
qed

lemma start_slot_less: "0 < n \<Longrightarrow> start_slot n name < n"
proof -
  assume "0 < n"
  have "start_slot n name \<le> unat (word_of_nat (n - 1) :: 64 word)"
    unfolding start_slot_def by (simp add: word_le_nat_alt [symmetric] word_and_le1)
  also have "\<dots> \<le> n - 1" by (simp add: unat_of_nat)
  finally show ?thesis using \<open>0 < n\<close> by simp
qed

section \<open>Searching\<close>

lemma find_slot_steps:
  assumes "s < length v" "k < length v"
    and "\<forall>j<k. \<exists>e. v ! steps (length v) s j = Some e \<and> \<not> stop e"
    and "\<forall>e. v ! steps (length v) s k = Some e \<longrightarrow> stop e"
  shows "find_slot stop v s = Some (steps (length v) s k)"
proof -
  have "find_slot stop v (steps (length v) s (k - d)) = Some (steps (length v) s k)" if "d \<le> k" for d
    using that
  proof (induction d)
    case 0
    show ?case using assms(4) by (subst find_slot.simps) (auto split: option.split)
  next
    case (Suc d)
    then have j: "k - Suc d < k" "Suc (k - Suc d) = k - d" by auto
    with assms(3) obtain e where e: "v ! steps (length v) s (k - Suc d) = Some e" "\<not> stop e" by blast
    have "prev_slot (length v) (steps (length v) s (k - Suc d)) = steps (length v) s (k - d)"
      using prev_steps [of s "length v" "k - Suc d"] assms(1,2) j by simp
    with Suc e show ?case by (subst find_slot.simps) simp
  qed
  from this [of k] assms(1) show ?thesis by (simp add: steps_0)
qed

text \<open>An empty slot is reached when nothing on the way stops the search.\<close>

lemma find_gap:
  assumes "s < length v" "length (live v) < length v" "\<forall>e\<in>set (live v). \<not> stop e"
  obtains k where "k < length v" "\<forall>j<k. v ! steps (length v) s j \<noteq> None"
    "v ! steps (length v) s k = None" "find_slot stop v s = Some (steps (length v) s k)"
proof -
  let ?gap = "\<lambda>k. k < length v \<and> v ! steps (length v) s k = None"
  obtain i where "i < length v" "v ! i = None"
    using live_gap [OF assms(2)] by (auto simp: in_set_conv_nth)
  with steps_onto [OF assms(1), of i] have ex: "\<exists>k. ?gap k" by auto
  define k where "k = (LEAST k. ?gap k)"
  have k: "?gap k" unfolding k_def by (rule LeastI_ex [OF ex])
  have least: "v ! steps (length v) s j \<noteq> None" if "j < k" for j
    using that k not_less_Least [of j ?gap] by (auto simp: k_def)
  have filled: "\<exists>e. v ! steps (length v) s j = Some e \<and> \<not> stop e" if j: "j < k" for j
  proof -
    obtain e where e: "v ! steps (length v) s j = Some e" using least [OF j] by auto
    moreover have "steps (length v) s j < length v" using assms(1) by (intro steps_less) auto
    ultimately have "Some e \<in> set v" by (metis nth_mem)
    with e assms(3) show ?thesis by (auto simp: set_live)
  qed
  have "find_slot stop v s = Some (steps (length v) s k)"
    using assms(1) k filled by (intro find_slot_steps) auto
  with that k least show ?thesis by blast
qed

text \<open>An object is found under its name.\<close>

lemma find_object:
  assumes "placed v" "(name, a) \<in> set (live v)"
  shows "\<exists>i. find_slot (\<lambda>e. name = fst e) v (start_slot (length v) name) = Some i \<and> v ! i = Some (name, a)"
proof -
  let ?s = "start_slot (length v) name"
  let ?hit = "\<lambda>k. k < length v \<and> (\<forall>e. v ! steps (length v) ?s k = Some e \<longrightarrow> name = fst e)"
  have "Some (name, a) \<in> set v" using assms(2) by (simp add: set_live)
  then obtain i where i: "i < length v" "v ! i = Some (name, a)" by (auto simp: in_set_conv_nth)
  with assms(1) have "\<exists>k<length v. i = steps (length v) (start_slot (length v) (fst (name, a))) k
      \<and> (\<forall>j<k. v ! steps (length v) (start_slot (length v) (fst (name, a))) j \<noteq> None)"
    unfolding placed_def by blast
  then obtain k where k: "k < length v" "i = steps (length v) ?s k" "\<forall>j<k. v ! steps (length v) ?s j \<noteq> None"
    by auto
  define m where "m = (LEAST m. ?hit m)"
  have hit: "?hit k" using i k by simp
  then have m: "?hit m" "m \<le> k" unfolding m_def by (rule LeastI [of ?hit k], rule Least_le [of ?hit k])
  have "\<exists>e. v ! steps (length v) ?s j = Some e \<and> name \<noteq> fst e" if "j < m" for j
  proof -
    have "\<not> ?hit j" using that unfolding m_def by (rule not_less_Least)
    then show ?thesis using that m(1) by simp
  qed
  moreover have "?s < length v" using i(1) by (intro start_slot_less) linarith
  ultimately have f: "find_slot (\<lambda>e. name = fst e) v ?s = Some (steps (length v) ?s m)"
    using m(1) by (intro find_slot_steps) blast+
  have "v ! steps (length v) ?s m \<noteq> None"
  proof (cases "m = k")
    case True
    with k(2) i(2) show ?thesis by simp
  next
    case False
    with m(2) k(3) show ?thesis by simp
  qed
  then obtain b where b: "v ! steps (length v) ?s m = Some (name, b)" using m(1) by fastforce
  moreover have "steps (length v) ?s m < length v" using i(1) by (intro steps_less) auto
  ultimately have "(name, b) \<in> set (live v)" by (metis nth_mem set_live)
  then have "b = a" using assms by (auto simp: placed_def dest: eq_key_imp_eq_value)
  with f b show ?thesis by blast
qed


section \<open>Inserting\<close>

lemma live_update:
  assumes "i < length v" "v ! i = None"
  obtains xs ys where "live v = xs @ ys" "live (v[i := Some e]) = xs @ e # ys"
proof -
  have "live v = live (take i v) @ live (drop (Suc i) v)"
    using assms id_take_nth_drop [of i v] by (metis live_append live.simps(2))
  moreover have "live (v[i := Some e]) = live (take i v) @ e # live (drop (Suc i) v)"
    using assms by (simp add: upd_conv_take_nth_drop)
  ultimately show ?thesis by (rule that)
qed

lemma map_of_insert: "name \<notin> fst ` set xs \<Longrightarrow> map_of (xs @ (name, a) # ys) = (map_of (xs @ ys))(name \<mapsto> a)"
  by (induction xs) (auto simp: fun_upd_twist)

lemma insert_placed:
  assumes "placed v" "length (live v) < length v" "\<forall>b. (name, b) \<notin> set (live v)"
    and "\<forall>e\<in>set (live v). \<not> stop e"
  obtains i where "find_slot stop v (start_slot (length v) name) = Some i" "i < length v" "v ! i = None"
    "placed (v[i := Some (name, a)])" "set (live (v[i := Some (name, a)])) = insert (name, a) (set (live v))"
    "length (live (v[i := Some (name, a)])) = Suc (length (live v))"
    "map_of (live (v[i := Some (name, a)])) = (map_of (live v))(name \<mapsto> a)"
proof -
  let ?s = "start_slot (length v) name"
  have n: "0 < length v" using assms(2) by (cases v) auto
  obtain k where k: "k < length v" "\<forall>j<k. v ! steps (length v) ?s j \<noteq> None" "v ! steps (length v) ?s k = None"
    "find_slot stop v ?s = Some (steps (length v) ?s k)"
    using find_gap [OF start_slot_less [OF n] assms(2,4)] by blast
  define i where "i = steps (length v) ?s k"
  define w where "w = v[i := Some (name, a)]"
  have i: "i < length v" "v ! i = None" using n k(3) by (simp_all add: i_def steps_less)
  obtain xs ys where l: "live v = xs @ ys" "live w = xs @ (name, a) # ys"
    using live_update [OF i] unfolding w_def by blast
  have new: "name \<notin> fst ` set xs" "name \<notin> fst ` set ys" using assms(3) by (auto simp: l)
  have filled: "w ! j \<noteq> None" if "v ! j \<noteq> None" for j
    using that i by (cases "j = i") (simp_all add: w_def)
  have "placed w"
    unfolding placed_def
  proof (intro conjI allI impI)
    show "distinct (map fst (live w))" using assms(1) new by (auto simp: placed_def l)
    fix j e
    assume j: "j < length w" "w ! j = Some e"
    show "\<exists>k<length w. j = steps (length w) (start_slot (length w) (fst e)) k \<and>
        (\<forall>m<k. w ! steps (length w) (start_slot (length w) (fst e)) m \<noteq> None)"
    proof (cases "j = i")
      case True
      with j i have "e = (name, a)" by (simp add: w_def)
      with True k filled show ?thesis by (auto simp: i_def w_def)
    next
      case False
      with j have "j < length v" "v ! j = Some e" by (simp_all add: w_def)
      with assms(1) obtain m where "m < length v" "j = steps (length v) (start_slot (length v) (fst e)) m"
        "\<forall>l<m. v ! steps (length v) (start_slot (length v) (fst e)) l \<noteq> None"
        unfolding placed_def by blast
      moreover have "length w = length v" by (simp add: w_def)
      ultimately show ?thesis using filled by metis
    qed
  qed
  moreover have "map_of (live w) = (map_of (live v))(name \<mapsto> a)"
    unfolding l using new(1) by (rule map_of_insert)
  ultimately show ?thesis
    using that k(4) i l unfolding w_def i_def [symmetric] by auto
qed

lemma rehash_placed:
  assumes "placed w" "distinct (map fst (live v @ live w))" "length (live v) + length (live w) < length w"
  shows "\<exists>w'. rehash v w = Some w' \<and> placed w' \<and> set (live w') = set (live v) \<union> set (live w)
    \<and> length (live w') = length (live v) + length (live w) \<and> length w' = length w"
  using assms
proof (induction v w rule: rehash.induct)
  case (3 e v w)
  have new: "\<forall>b. (fst e, b) \<notin> set (live w)" using "3.prems"(2) by (auto simp: image_iff)
  have "length (live w) < length w" using "3.prems"(3) by simp
  then obtain i where i: "find_slot (\<lambda>e. False) w (start_slot (length w) (fst e)) = Some i"
    "placed (w[i := Some (fst e, snd e)])" "set (live (w[i := Some (fst e, snd e)])) = insert (fst e, snd e) (set (live w))"
    "length (live (w[i := Some (fst e, snd e)])) = Suc (length (live w))"
    using insert_placed [OF "3.prems"(1) _ new, of "\<lambda>e. False" "snd e"] by blast
  define u where "u = w[i := Some e]"
  have u: "placed u" "set (live u) = insert e (set (live w))" "length (live u) = Suc (length (live w))"
    "length u = length w"
    using i by (simp_all add: u_def)
  have "distinct (map fst (live v @ live u))"
    using "3.prems"(2) u(1,2) by (auto simp: placed_def)
  then have "\<exists>w'. rehash v u = Some w' \<and> placed w' \<and> set (live w') = set (live v) \<union> set (live u)
      \<and> length (live w') = length (live v) + length (live u) \<and> length w' = length u"
    using "3.prems"(3) u unfolding u_def by (intro "3.IH" [OF i(1)]) simp_all
  then show ?case using i(1) u by (simp add: u_def [symmetric])
qed simp_all

lemma table_init: "table_ok hashTableInit" "table_map hashTableInit = Map.empty"
  by (simp_all add: table_ok_def hashTableInit_def placed_def table_map_def)

text \<open>An object put where the search ends, in a vector with the same objects and enough room.\<close>

lemma table_step:
  assumes "table_ok t" "placed w" "length w = n" "length (live w) = ht_used t" "set (live w) = set (live (ht_v t))"
    "ht_used t < n div 2" "table_map t name = None" "stop = (\<lambda>e. False) \<or> stop = (\<lambda>e. name = fst e)"
  obtains i where "find_slot stop w (start_slot n name) = Some i"
    "table_ok (fst (place_object (t\<lparr>ht_v := w, ht_size := n, ht_usedLim := n div 2\<rparr>) i name obj))"
    "table_map (fst (place_object (t\<lparr>ht_v := w, ht_size := n, ht_usedLim := n div 2\<rparr>) i name obj))
      = (if obj = None then table_map t else (table_map t)(name := obj))"
proof -
  have new: "\<forall>b. (name, b) \<notin> set (live w)"
    using assms(7) by (auto simp: table_map_def assms(5) map_of_eq_None_iff image_iff)
  have stop: "\<forall>e\<in>set (live w). \<not> stop e" using new assms(8) by auto
  have "length (live w) < length w" using assms(3,4,6) by simp
  then obtain i where i: "find_slot stop w (start_slot n name) = Some i" "placed (w[i := Some (name, the obj)])"
    "length (live (w[i := Some (name, the obj)])) = Suc (length (live w))"
    "map_of (live (w[i := Some (name, the obj)])) = (map_of (live w))(name \<mapsto> the obj)"
    using insert_placed [OF assms(2) _ new stop, of "the obj"] unfolding assms(3) by blast
  have m: "map_of (live w) = table_map t"
    using assms(1,2,5) unfolding table_map_def by (intro map_of_inject_set [THEN iffD2]) (auto simp: placed_def table_ok_def)
  show ?thesis
  proof (rule that [OF i(1)])
    show "table_ok (fst (place_object (t\<lparr>ht_v := w, ht_size := n, ht_usedLim := n div 2\<rparr>) i name obj))"
      using i assms(2,3,4,6) by (cases obj) (simp_all add: table_ok_def place_object_def)
    show "table_map (fst (place_object (t\<lparr>ht_v := w, ht_size := n, ht_usedLim := n div 2\<rparr>) i name obj))
        = (if obj = None then table_map t else (table_map t)(name := obj))"
      using i m by (cases obj) (simp_all add: table_map_def place_object_def)
  qed
qed

lemma place_result: "\<exists>u. place_object t i name obj = (u, obj)"
  by (simp add: place_object_def split: option.split)

lemma placed_empty: "placed (replicate n None)"
  by (simp add: placed_def)

text \<open>C27: A table implements a finite map.  Every lookup ends; the object of the name is returned, or one
  is made when that is asked for and there is memory; growing loses nothing; the other names keep
  their objects, and the next lookup finds a proper table again, whatever allocation failed.
\<close>

theorem lookup_is_map:
  assumes "table_ok t"
  shows "\<exists>t' r. lookup t name createSize room obj = Some (t', r) \<and> table_ok t' \<and>
    table_map t' = (if r = None then table_map t else (table_map t)(name := r)) \<and>
    (createSize = 0 \<or> table_map t name \<noteq> None \<longrightarrow> t' = t \<and> r = table_map t name) \<and>
    (createSize \<noteq> 0 \<and> table_map t name = None \<and> room \<longrightarrow> r = obj)"
proof (cases "ht_size t = 0")
  case True
  then have t: "ht_v t = []" "ht_used t = 0" "table_map t name = None" "live (ht_v t) = []"
    using assms by (simp_all add: table_ok_def table_map_def)
  let ?w = "replicate INIT_SIZE None"
  obtain i where i: "find_slot (\<lambda>e. False) ?w (start_slot INIT_SIZE name) = Some i"
    "table_ok (fst (place_object (t\<lparr>ht_v := ?w, ht_size := INIT_SIZE, ht_usedLim := INIT_SIZE div 2\<rparr>) i name obj))"
    "table_map (fst (place_object (t\<lparr>ht_v := ?w, ht_size := INIT_SIZE, ht_usedLim := INIT_SIZE div 2\<rparr>) i name obj))
      = (if obj = None then table_map t else (table_map t)(name := obj))"
    using table_step [OF assms placed_empty length_replicate, of INIT_SIZE name "\<lambda>e. False" obj] t
    by (auto simp: INIT_SIZE_def)
  have "start_slot INIT_SIZE name < INIT_SIZE" by (rule start_slot_less) (simp add: INIT_SIZE_def)
  then have "i = start_slot INIT_SIZE name" using i(1) by (subst (asm) find_slot.simps) simp
  moreover obtain u where "place_object (t\<lparr>ht_v := ?w, ht_size := INIT_SIZE, ht_usedLim := INIT_SIZE div 2\<rparr>) i name obj = (u, obj)"
    using place_result by blast
  ultimately show ?thesis using i(2,3) t True assms by (auto simp: lookup_def Let_def)
next
  case False
  have v: "length (ht_v t) = ht_size t" "placed (ht_v t)" "ht_used t = length (live (ht_v t))"
    "ht_used t \<le> ht_size t div 2" "ht_usedLim t = ht_size t div 2"
    using assms by (simp_all add: table_ok_def)
  then have less: "length (live (ht_v t)) < length (ht_v t)" using False by simp
  show ?thesis
  proof (cases "table_map t name")
    case (Some b)
    then have "(name, b) \<in> set (live (ht_v t))" by (auto simp: table_map_def dest: map_of_SomeD)
    with find_object [OF v(2), of name b] v(1) obtain i
      where "find_slot (\<lambda>e. name = fst e) (ht_v t) (start_slot (ht_size t) name) = Some i" "ht_v t ! i = Some (name, b)"
      by auto
    with Some False assms show ?thesis by (auto simp: lookup_def fun_upd_idem)
  next
    case None
    then have "\<forall>e\<in>set (live (ht_v t)). name \<noteq> fst e" by (auto simp: table_map_def map_of_eq_None_iff)
    moreover have "start_slot (ht_size t) name < length (ht_v t)" using start_slot_less [of "ht_size t" name] False v(1) by simp
    ultimately obtain i where i: "find_slot (\<lambda>e. name = fst e) (ht_v t) (start_slot (ht_size t) name) = Some i" "ht_v t ! i = None"
      using find_gap [OF _ less, of "start_slot (ht_size t) name" "\<lambda>e. name = fst e"] unfolding v(1) by blast
    show ?thesis
    proof (cases "createSize = 0 \<or> ht_used t = ht_usedLim t \<and> \<not> room")
      case True
      with i None False assms show ?thesis by (auto simp: lookup_def)
    next
      case create: False
      show ?thesis
      proof (cases "ht_used t = ht_usedLim t")
        case True
        let ?n = "ht_size t * 2"
        obtain w where w: "rehash (ht_v t) (replicate ?n None) = Some w" "placed w"
          "set (live w) = set (live (ht_v t))" "length (live w) = ht_used t" "length w = ?n"
          using rehash_placed [OF placed_empty, of "ht_v t" ?n] v less by (auto simp: placed_def)
        have "ht_used t < ?n div 2" using v(4) \<open>ht_size t \<noteq> 0\<close> by simp
        then obtain j where j: "find_slot (\<lambda>e. False) w (start_slot ?n name) = Some j"
          "table_ok (fst (place_object (t\<lparr>ht_v := w, ht_size := ?n, ht_usedLim := ?n div 2\<rparr>) j name obj))"
          "table_map (fst (place_object (t\<lparr>ht_v := w, ht_size := ?n, ht_usedLim := ?n div 2\<rparr>) j name obj))
            = (if obj = None then table_map t else (table_map t)(name := obj))"
          using table_step [OF assms w(2,5,4,3) _ None, of "\<lambda>e. False" obj] by blast
        obtain u where u: "place_object (t\<lparr>ht_v := w, ht_size := ?n, ht_usedLim := ?n div 2\<rparr>) j name obj = (u, obj)"
          using place_result by blast
        have "lookup t name createSize room obj = Some (u, obj)"
          using create True i False w(1) j(1) u by (simp add: lookup_def Let_def \<open>ht_size t \<noteq> 0\<close>)
        then show ?thesis using j(2,3) u None create by auto
      next
        case False
        with v have "ht_used t < ht_size t div 2" by simp
        moreover have "t\<lparr>ht_v := ht_v t, ht_size := ht_size t, ht_usedLim := ht_size t div 2\<rparr> = t" using v(5) by simp
        ultimately obtain j where j: "find_slot (\<lambda>e. name = fst e) (ht_v t) (start_slot (ht_size t) name) = Some j"
          "table_ok (fst (place_object t j name obj))"
          "table_map (fst (place_object t j name obj)) = (if obj = None then table_map t else (table_map t)(name := obj))"
          using table_step [OF assms v(2,1) _ refl _ None, of "\<lambda>e. name = fst e" obj] v(3) by (metis)
        obtain u where u: "place_object t j name obj = (u, obj)" using place_result by blast
        have "lookup t name createSize room obj = Some (u, obj)"
          using create False i j(1) u \<open>ht_size t \<noteq> 0\<close> by (simp add: lookup_def)
        then show ?thesis using j(2,3) u None create by auto
      qed
    qed
  qed
qed

lemma lookup_is_map_witness:
  "\<exists>t' r. lookup hashTableInit ''xml'' 8 True (Some 4096) = Some (t', r) \<and> table_ok t' \<and>
    table_map t' = (if r = None then table_map hashTableInit else (table_map hashTableInit)(''xml'' := r)) \<and>
    r = Some 4096"
  using lookup_is_map [OF table_init(1), of "''xml''" 8 True "Some 4096"] table_init(2) by auto

text \<open>An iterator gives every object once.\<close>

lemma iterator_live:
  "hashTableIterNext v = (r, w) \<Longrightarrow>
   map snd (live v) = (case r of None \<Rightarrow> [] | Some a \<Rightarrow> a # map snd (live w))"
  by (induction v rule: hashTableIterNext.induct) auto

end
